(* ===== verification/Prelude.thy ===== *)
theory Prelude
  imports Complex_Main "HOL-Library.AList"
begin

text \<open>
  Generic material shared by every component of the model.

  \<^item> \<^bold>\<open>Go maps\<close>.  A Go map is an association list with distinct keys
    (\<open>gomap\<close>).  The order of the list stands for the iteration order that the Go runtime
    picks for a \<open>range\<close> loop, which the language leaves open: a theorem that holds for every
    such list holds for every iteration order.  Lookup is \<open>map_of\<close>; assignment and
    \<open>delete\<close> are \<open>AList.update\<close> and \<open>AList.delete\<close>.
  \<^item> \<^bold>\<open>Errors\<close>.  A function that returns only an \<open>error\<close> returns an option, \<open>None\<close>
    for Go's \<open>nil\<close>; one that returns a value and an error returns \<open>error + value\<close>.
  \<^item> \<^bold>\<open>Integers\<close>.  A w-bit signed integer is an \<open>int\<close> in its range, and each operation that
    can leave the range is wrapped explicitly by \<open>wrap32\<close> or \<open>wrap64\<close>.
\<close>

named_theorems go_simps \<open>unfolding rules of the small helper functions\<close>
named_theorems map_simps \<open>lookup after update, delete and filter on Go maps\<close>

section \<open>Go maps\<close>

type_synonym ('k, 'v) gomap = "('k \<times> 'v) list"

abbreviation keys :: "('k, 'v) gomap \<Rightarrow> 'k list" where
  "keys m \<equiv> List.map fst m"

definition has_key :: "('k, 'v) gomap \<Rightarrow> 'k \<Rightarrow> bool" where
  "has_key m k \<longleftrightarrow> k \<in> set (keys m)"

text \<open>Deleting, inside a \<open>range\<close> loop, every key that fails a test.\<close>

definition retain_keys :: "('k \<Rightarrow> bool) \<Rightarrow> ('k, 'v) gomap \<Rightarrow> ('k, 'v) gomap" where
  "retain_keys P m = filter (\<lambda>kv. P (fst kv)) m"

lemma has_key_iff: "has_key m k \<longleftrightarrow> map_of m k \<noteq> None"
  by (simp add: has_key_def map_of_eq_None_iff)

lemma map_of_update [map_simps]:
  "map_of (AList.update k v m) k' = (if k' = k then Some v else map_of m k')"
  by (simp add: update_conv')

lemma map_of_delete [map_simps]:
  "map_of (AList.delete k m) k' = (if k' = k then None else map_of m k')"
  by (simp add: delete_conv')

lemma map_of_retain [map_simps]:
  "map_of (retain_keys P m) k = (if P k then map_of m k else None)"
  by (induction m) (auto simp: retain_keys_def)

lemma keys_retain: "keys (retain_keys P m) = filter P (keys m)"
  by (induction m) (auto simp: retain_keys_def)

lemma set_keys_update [simp]: "fst ` set (AList.update k v m) = insert k (fst ` set m)"
  by (induction m) auto

lemma set_keys_delete [simp]: "fst ` set (AList.delete k m) = fst ` set m - {k}"
  using delete_keys [of k m] by (simp flip: set_map)

lemma set_keys_retain [simp]: "fst ` set (retain_keys P m) = {k \<in> fst ` set m. P k}"
  by (auto simp: retain_keys_def)

lemma distinct_keys_update [simp, intro]:
  "distinct (keys m) \<Longrightarrow> distinct (keys (AList.update k v m))"
  by (rule distinct_update)

lemma distinct_keys_delete [simp, intro]:
  "distinct (keys m) \<Longrightarrow> distinct (keys (AList.delete k m))"
  by (rule distinct_delete)

lemma distinct_keys_retain [simp, intro]:
  "distinct (keys m) \<Longrightarrow> distinct (keys (retain_keys P m))"
  by (simp add: keys_retain)

lemma map_of_Some_iff:
  "distinct (keys m) \<Longrightarrow> map_of m k = Some v \<longleftrightarrow> (k, v) \<in> set m"
  by (rule map_of_eq_Some_iff)

lemma map_of_set_eq:
  assumes "distinct (keys m)" and "distinct (keys m')" and "set m = set m'"
  shows "map_of m = map_of m'"
  by (rule ext) (metis assms map_of_eq_Some_iff not_None_eq)

section \<open>Loops that stop at the first error\<close>

primrec first_error :: "('a \<Rightarrow> 'e option) \<Rightarrow> 'a list \<Rightarrow> 'e option" where
  "first_error f [] = None"
| "first_error f (x # xs) = (case f x of Some e \<Rightarrow> Some e | None \<Rightarrow> first_error f xs)"

lemma first_error_None_iff:
  "first_error f xs = None \<longleftrightarrow> (\<forall>x \<in> set xs. f x = None)"
  by (induction xs) (auto split: option.splits)

lemma first_error_SomeD: "first_error f xs = Some e \<Longrightarrow> \<exists>x \<in> set xs. f x = Some e"
  by (induction xs) (auto split: option.splits)

text \<open>A sequence of checks, of which the first that fails is reported.\<close>

fun first_some :: "'e option list \<Rightarrow> 'e option" where
  "first_some [] = None"
| "first_some (c # cs) = (case c of Some e \<Rightarrow> Some e | None \<Rightarrow> first_some cs)"

lemma first_some_None_iff: "first_some cs = None \<longleftrightarrow> (\<forall>c \<in> set cs. c = None)"
  by (induction cs) (auto split: option.splits)

section \<open>Machine integers\<close>

definition min_int32 :: int where "min_int32 = - (2 ^ 31)"
definition max_int32 :: int where "max_int32 = 2 ^ 31 - 1"
definition min_int64 :: int where "min_int64 = - (2 ^ 63)"
definition max_int64 :: int where "max_int64 = 2 ^ 63 - 1"

definition wrap32 :: "int \<Rightarrow> int" where
  "wrap32 x = (x + 2 ^ 31) mod 2 ^ 32 - 2 ^ 31"

definition wrap64 :: "int \<Rightarrow> int" where
  "wrap64 x = (x + 2 ^ 63) mod 2 ^ 64 - 2 ^ 63"

definition is_int32 :: "int \<Rightarrow> bool" where
  "is_int32 x \<longleftrightarrow> min_int32 \<le> x \<and> x \<le> max_int32"

definition is_int64 :: "int \<Rightarrow> bool" where
  "is_int64 x \<longleftrightarrow> min_int64 \<le> x \<and> x \<le> max_int64"

lemmas int_width_defs =
  min_int32_def max_int32_def min_int64_def max_int64_def is_int32_def is_int64_def

lemma wrap32_id: "is_int32 x \<Longrightarrow> wrap32 x = x"
  by (simp add: wrap32_def int_width_defs)

lemma wrap64_id: "is_int64 x \<Longrightarrow> wrap64 x = x"
  by (simp add: wrap64_def int_width_defs)

lemma wrap32_range: "is_int32 (wrap32 x)"
proof -
  have "0 \<le> (x + 2 ^ 31) mod 2 ^ 32" "(x + 2 ^ 31) mod 2 ^ 32 < 2 ^ 32"
    by simp_all
  then show ?thesis by (simp add: wrap32_def int_width_defs)
qed

lemma wrap64_range: "is_int64 (wrap64 x)"
proof -
  have "0 \<le> (x + 2 ^ 63) mod 2 ^ 64" "(x + 2 ^ 63) mod 2 ^ 64 < 2 ^ 64"
    by simp_all
  then show ?thesis by (simp add: wrap64_def int_width_defs)
qed

lemma is_int32_int64: "is_int32 x \<Longrightarrow> is_int64 x"
  by (simp add: int_width_defs)

text \<open>The difference of two non-negative 64-bit integers does not overflow.\<close>

lemma wrap64_diff_nonneg:
  "is_int64 x \<Longrightarrow> is_int64 y \<Longrightarrow> 0 \<le> x \<Longrightarrow> 0 \<le> y \<Longrightarrow> wrap64 (x - y) = x - y"
  by (rule wrap64_id) (simp add: int_width_defs)

section \<open>Strings\<close>

definition lower :: "char \<Rightarrow> char" where
  "lower c = (if 65 \<le> (of_char c :: nat) \<and> (of_char c :: nat) \<le> 90
     then char_of (of_char c + 32 :: nat) else c)"

definition is_digit :: "char \<Rightarrow> bool" where
  "is_digit c \<longleftrightarrow> 48 \<le> (of_char c :: nat) \<and> (of_char c :: nat) \<le> 57"

definition digit_val :: "char \<Rightarrow> int" where
  "digit_val c = int (of_char c) - 48"

text \<open>\<open>strings.HasPrefix\<close>.\<close>

definition HasPrefix :: "string \<Rightarrow> string \<Rightarrow> bool" where
  "HasPrefix s p \<longleftrightarrow> take (length p) s = p"

end
