(* ===== verification/GoFloat.thy ===== *)
theory GoFloat
  imports Prelude "HOL-Library.Log_Nat"
begin

text \<open>
  Go's \<open>float64\<close> and \<open>float32\<close>: IEEE 754 binary floating point with rounding to nearest, ties
  to even.  A value is a NaN, an infinity or a rational number, and every arithmetic operation
  computes exactly on the rationals and rounds the result (\<open>rnd\<close>), which is what IEEE 754
  prescribes.  The two zeros are one value here: they differ only under a division by zero and
  when printed, and the code divides only by worker counts, capacities and utilization targets
  that it has checked to be positive.

  The lemmas show that rounding is monotone (\<open>rnd_mono\<close>) and exact on representable
  values (\<open>rnd_exact\<close>), from which the sign and bound facts used by the scaling algorithms
  follow.
\<close>

section \<open>Powers of two and the binary exponent\<close>

definition pow2 :: "int \<Rightarrow> rat" where
  "pow2 e = 2 powi e"

definition ilog2 :: "rat \<Rightarrow> int" where
  "ilog2 q = (case quotient_of q of (n, d) \<Rightarrow>
     let e = bitlen n - bitlen d
     in if pow2 e * of_int d \<le> of_int n then e else e - 1)"

text \<open>For evaluation: powers of two by squaring.\<close>

function two_pow :: "int \<Rightarrow> int" where
  "two_pow n = (if n \<le> 0 then 1 else
     let r = two_pow (n div 2) in if even n then r * r else 2 * (r * r))"
  by pat_completeness auto
termination
  by (relation "measure nat") auto

declare two_pow.simps [simp del]

lemma two_pow_eq: "two_pow n = 2 ^ nat n"
proof (induction n rule: two_pow.induct)
  case (1 n)
  show ?case
  proof (cases "n \<le> 0")
    case True
    then show ?thesis by (simp add: two_pow.simps [of n])
  next
    case False
    then have "nat n = nat (n div 2) + nat (n div 2) + (if even n then 0 else 1)"
      by (auto simp: nat_add_distrib [symmetric] elim!: evenE oddE)
    then have "(2::int) ^ nat n = 2 ^ nat (n div 2) * 2 ^ nat (n div 2) * (if even n then 1 else 2)"
      by (simp add: power_add)
    with False "1" show ?thesis by (simp add: two_pow.simps [of n] Let_def)
  qed
qed

lemma pow2_code [code]:
  "pow2 e = (if 0 \<le> e then of_int (two_pow e) else 1 / of_int (two_pow (- e)))"
  by (simp add: pow2_def power_int_def two_pow_eq field_simps)

lemma pow2_pos [simp]: "0 < pow2 e"
  by (simp add: pow2_def)

lemma pow2_nonneg [simp]: "0 \<le> pow2 e"
  by (simp add: less_imp_le)

lemma pow2_not_neg [simp]: "\<not> pow2 e < 0"
  by (simp add: not_less)

lemma pow2_nonzero [simp]: "pow2 e \<noteq> 0"
  by (metis pow2_pos less_irrefl)

lemma pow2_0 [simp]: "pow2 0 = 1"
  by (simp add: pow2_def)

lemma pow2_add: "pow2 (a + b) = pow2 a * pow2 b"
  by (simp add: pow2_def power_int_add)

lemma pow2_mono: "a \<le> b \<Longrightarrow> pow2 a \<le> pow2 b"
  by (simp add: pow2_def power_int_increasing)

lemma pow2_strict_mono: "a < b \<Longrightarrow> pow2 a < pow2 b"
  by (simp add: pow2_def power_int_strict_increasing)

lemma pow2_le_iff [simp]: "pow2 a \<le> pow2 b \<longleftrightarrow> a \<le> b"
  by (meson linorder_not_le pow2_mono pow2_strict_mono)

lemma pow2_less_iff [simp]: "pow2 a < pow2 b \<longleftrightarrow> a < b"
  by (simp add: not_le [symmetric])

lemma pow2_nat: "0 \<le> e \<Longrightarrow> pow2 e = of_int (2 ^ nat e)"
  by (simp add: pow2_def power_int_def)

lemma bitlen_pow2_bounds:
  assumes "0 < n"
  shows "pow2 (bitlen n - 1) \<le> of_int n" and "of_int n < pow2 (bitlen n)"
proof -
  have pos: "0 < bitlen n"
    using assms bitlen_nonneg [of n] bitlen_eq_zero_iff [of n] by linarith
  have b: "2 ^ nat (bitlen n - 1) \<le> n" "n < 2 ^ nat (bitlen n)"
    using bitlen_bounds [OF assms] by simp_all
  show "pow2 (bitlen n - 1) \<le> of_int n"
    using b(1) pos by (simp add: pow2_nat del: of_int_power)
  show "of_int n < pow2 (bitlen n)"
    using b(2) pos by (simp add: pow2_nat del: of_int_power)
qed

lemma ilog2_bounds:
  assumes "0 < q"
  shows "pow2 (ilog2 q) \<le> q \<and> q < pow2 (ilog2 q + 1)"
proof -
  obtain n d where qd: "quotient_of q = (n, d)" by fastforce
  have d: "0 < d" using quotient_of_denom_pos [OF qd] .
  have q: "q = of_int n / of_int d" using quotient_of_div [OF qd] .
  have n: "0 < n" using assms q d by (simp add: zero_less_divide_iff)
  define e where "e = bitlen n - bitlen d"
  note bn = bitlen_pow2_bounds [OF n] and bd = bitlen_pow2_bounds [OF d]
  have dr: "(0::rat) < of_int d" using d by simp
  have up: "of_int n < pow2 (e + 1) * of_int d"
  proof -
    have "of_int n < pow2 (bitlen n)" by (rule bn(2))
    also have "\<dots> = pow2 (e + 1) * pow2 (bitlen d - 1)"
      by (simp add: pow2_add [symmetric] e_def)
    also have "\<dots> \<le> pow2 (e + 1) * of_int d"
      using bd(1) by (simp add: mult_left_mono)
    finally show ?thesis .
  qed
  have lo: "pow2 (e - 1) * of_int d \<le> of_int n"
  proof -
    have "pow2 (e - 1) * of_int d \<le> pow2 (e - 1) * pow2 (bitlen d)"
      using bd(2) by (simp add: mult_left_mono)
    also have "\<dots> = pow2 (bitlen n - 1)"
      by (simp add: pow2_add [symmetric] e_def)
    also have "\<dots> \<le> of_int n" by (rule bn(1))
    finally show ?thesis .
  qed
  have il: "ilog2 q = (if pow2 e * of_int d \<le> of_int n then e else e - 1)"
    by (simp add: ilog2_def qd e_def Let_def)
  show ?thesis
    unfolding il using up lo dr
    by (auto simp: q pos_le_divide_eq pos_divide_less_eq)
qed

lemma ilog2_unique:
  assumes "pow2 e \<le> q" and "q < pow2 (e + 1)"
  shows "ilog2 q = e"
proof -
  have q: "0 < q" using assms(1) pow2_pos [of e] by linarith
  have "pow2 (ilog2 q) < pow2 (e + 1)" and "pow2 e < pow2 (ilog2 q + 1)"
    using ilog2_bounds [OF q] assms by linarith+
  then show ?thesis by simp
qed

lemma ilog2_mono: "0 < a \<Longrightarrow> a \<le> b \<Longrightarrow> ilog2 a \<le> ilog2 b"
proof -
  assume a: "0 < a" and ab: "a \<le> b"
  have "pow2 (ilog2 a) < pow2 (ilog2 b + 1)"
    using ilog2_bounds [OF a] ilog2_bounds [of b] a ab by linarith
  then show ?thesis by simp
qed

section \<open>Rounding to nearest, ties to even\<close>

definition round_even :: "rat \<Rightarrow> int" where
  "round_even x = (let f = \<lfloor>x\<rfloor>; r = x - of_int f
     in if r < 1 / 2 then f else if 1 / 2 < r then f + 1 else if even f then f else f + 1)"

lemma round_even_bounds: "\<lfloor>x\<rfloor> \<le> round_even x \<and> round_even x \<le> \<lfloor>x\<rfloor> + 1"
  by (simp add: round_even_def Let_def)

lemma round_even_of_int [simp]: "round_even (of_int n) = n"
  by (simp add: round_even_def)

lemma round_even_0 [simp]: "round_even 0 = 0"
  using round_even_of_int [of 0] by simp

lemma round_even_mono:
  assumes "x \<le> y"
  shows "round_even x \<le> round_even y"
proof (cases "\<lfloor>x\<rfloor> = \<lfloor>y\<rfloor>")
  case True
  with assms show ?thesis by (simp add: round_even_def Let_def)
next
  case False
  then have "\<lfloor>x\<rfloor> + 1 \<le> \<lfloor>y\<rfloor>" using floor_mono [OF assms] by linarith
  with round_even_bounds [of x] round_even_bounds [of y] show ?thesis by linarith
qed

lemma round_even_error: "\<bar>of_int (round_even x) - x\<bar> \<le> 1 / 2"
proof -
  have "of_int \<lfloor>x\<rfloor> \<le> x" "x < of_int \<lfloor>x\<rfloor> + 1" by linarith+
  then show ?thesis by (auto simp: round_even_def Let_def abs_le_iff)
qed

text \<open>
  The exponent of the last place of \<open>x\<close> in a format with precision \<open>p\<close> and smallest
  exponent \<open>qmin\<close>, and the rounded value before the overflow test.
\<close>

definition ulp_exp :: "nat \<Rightarrow> int \<Rightarrow> rat \<Rightarrow> int" where
  "ulp_exp p qmin x = max (ilog2 \<bar>x\<bar> - int p + 1) qmin"

definition round_mag :: "nat \<Rightarrow> int \<Rightarrow> rat \<Rightarrow> rat" where
  "round_mag p qmin x =
     (let u = ulp_exp p qmin x in of_int (round_even (x / pow2 u)) * pow2 u)"

definition round_rat :: "nat \<Rightarrow> int \<Rightarrow> rat \<Rightarrow> rat" where
  "round_rat p qmin x = (if x < 0 then - round_mag p qmin (- x) else round_mag p qmin x)"

lemma round_mag_0 [simp]: "round_mag p qmin 0 = 0"
  by (simp add: round_mag_def Let_def)

lemma round_mag_nonneg: "0 \<le> x \<Longrightarrow> 0 \<le> round_mag p qmin x"
  using round_even_mono [of 0] by (simp add: round_mag_def Let_def)

lemma pow2_div_int:
  assumes "u \<le> k"
  shows "\<exists>n. pow2 k / pow2 u = of_int n"
proof -
  have "pow2 k = pow2 (k - u) * pow2 u" by (simp add: pow2_add [symmetric])
  then have "pow2 k / pow2 u = of_int (2 ^ nat (k - u))"
    using assms by (simp add: pow2_nat)
  then show ?thesis by blast
qed

lemma round_mag_le_pow2:
  assumes "0 \<le> x" and "x \<le> pow2 k" and "ulp_exp p qmin x \<le> k"
  shows "round_mag p qmin x \<le> pow2 k"
proof -
  let ?u = "ulp_exp p qmin x"
  obtain n where n: "pow2 k / pow2 ?u = of_int n" using pow2_div_int [OF assms(3)] by blast
  have "x / pow2 ?u \<le> of_int n"
    using assms(2) by (simp add: n [symmetric] divide_right_mono)
  then have "round_even (x / pow2 ?u) \<le> n" using round_even_mono by fastforce
  then have "of_int (round_even (x / pow2 ?u)) * pow2 ?u \<le> of_int n * pow2 ?u"
    by (simp add: mult_right_mono)
  then show ?thesis by (simp add: round_mag_def Let_def n [symmetric])
qed

lemma pow2_le_round_mag:
  assumes "pow2 k \<le> x" and "ulp_exp p qmin x \<le> k"
  shows "pow2 k \<le> round_mag p qmin x"
proof -
  let ?u = "ulp_exp p qmin x"
  obtain n where n: "pow2 k / pow2 ?u = of_int n" using pow2_div_int [OF assms(2)] by blast
  have "of_int n \<le> x / pow2 ?u"
    using assms(1) by (simp add: n [symmetric] divide_right_mono)
  then have "n \<le> round_even (x / pow2 ?u)" using round_even_mono by fastforce
  then have "of_int n * pow2 ?u \<le> of_int (round_even (x / pow2 ?u)) * pow2 ?u"
    by (simp add: mult_right_mono)
  then show ?thesis by (simp add: round_mag_def Let_def n [symmetric])
qed

lemma round_mag_mono:
  assumes "0 < p" and "0 \<le> x" and "x \<le> y"
  shows "round_mag p qmin x \<le> round_mag p qmin y"
proof (cases "x = 0")
  case True
  with assms show ?thesis by (simp add: round_mag_nonneg)
next
  case False
  then have x: "0 < x" and y: "0 < y" using assms by simp_all
  let ?ux = "ulp_exp p qmin x" and ?uy = "ulp_exp p qmin y" and ?k = "ilog2 y"
  have le: "ilog2 x \<le> ?k" using ilog2_mono [OF x assms(3)] .
  show ?thesis
  proof (cases "?ux = ?uy")
    case True
    have "round_even (x / pow2 ?uy) \<le> round_even (y / pow2 ?uy)"
      using assms(3) by (intro round_even_mono divide_right_mono) simp_all
    then show ?thesis using True by (simp add: round_mag_def Let_def mult_right_mono)
  next
    case False
    with le x y have u: "?ux < ?uy" "?uy = ?k - int p + 1"
      by (auto simp: ulp_exp_def)
    with x y have "ilog2 x < ?k" by (auto simp: ulp_exp_def)
    then have "pow2 (ilog2 x + 1) \<le> pow2 ?k" by simp
    with ilog2_bounds [OF x] have xk: "x \<le> pow2 ?k" by linarith
    have "round_mag p qmin x \<le> pow2 ?k"
      using x xk u assms(1) by (intro round_mag_le_pow2) simp_all
    also have "\<dots> \<le> round_mag p qmin y"
      using ilog2_bounds [OF y] u assms(1) by (intro pow2_le_round_mag) simp_all
    finally show ?thesis .
  qed
qed

lemma round_rat_mono:
  assumes "0 < p" and "x \<le> y"
  shows "round_rat p qmin x \<le> round_rat p qmin y"
proof (cases "x < 0")
  case True
  show ?thesis
  proof (cases "y < 0")
    case True
    with \<open>x < 0\<close> assms show ?thesis by (simp add: round_rat_def round_mag_mono)
  next
    case False
    with \<open>x < 0\<close> show ?thesis
      using round_mag_nonneg [of "- x"] round_mag_nonneg [of y] 
      by (simp add: round_rat_def) (meson le_less_linear neg_le_0_iff_le order_trans)
  qed
next
  case False
  with assms show ?thesis by (simp add: round_rat_def round_mag_mono)
qed

lemma round_mag_exact:
  assumes "0 < p" and "0 \<le> m" and "m \<le> 2 ^ p" and "qmin \<le> e"
  shows "round_mag p qmin (of_int m * pow2 e) = of_int m * pow2 e"
proof (cases "m = 0")
  case True
  then show ?thesis by simp
next
  case False
  let ?x = "of_int m * pow2 e :: rat"
  let ?u = "ulp_exp p qmin ?x"
  have x: "0 < ?x" using False assms(2) by simp
  have "\<exists>n. ?x / pow2 ?u = of_int n"
  proof (cases "?u \<le> e")
    case True
    obtain n where "pow2 e / pow2 ?u = of_int n" using pow2_div_int [OF True] by blast
    then have "?x / pow2 ?u = of_int (m * n)" by (simp add: times_divide_eq_right [symmetric] del: times_divide_eq_right)
    then show ?thesis by blast
  next
    case False
    then have u: "?u = ilog2 ?x - int p + 1" "e + int p \<le> ilog2 ?x"
      using assms(4) x by (auto simp: ulp_exp_def abs_of_pos)
    have "pow2 (e + int p) \<le> pow2 (ilog2 ?x)" using u(2) by simp
    also have "\<dots> \<le> ?x" using ilog2_bounds [OF x] by simp
    finally have "pow2 (int p) \<le> of_int m" by (simp add: pow2_add mult.commute)
    with assms(3) have m: "m = 2 ^ p" by (simp add: pow2_nat flip: of_int_le_iff)
    have xe: "?x = pow2 (e + int p)" by (simp add: m pow2_add pow2_nat mult.commute)
    have "ilog2 ?x = e + int p" by (rule ilog2_unique) (simp_all add: xe)
    with u(1) assms(1) have "?u \<le> e + int p" by simp
    then show ?thesis unfolding xe using pow2_div_int by metis
  qed
  then obtain n where n: "?x / pow2 ?u = of_int n" by blast
  then have "?x = of_int n * pow2 ?u" by (simp add: nonzero_divide_eq_eq)
  then show ?thesis using n by (simp add: round_mag_def Let_def)
qed

lemma round_rat_exact:
  assumes "0 < p" and "\<bar>m\<bar> \<le> 2 ^ p" and "qmin \<le> e"
  shows "round_rat p qmin (of_int m * pow2 e) = of_int m * pow2 e"
proof (cases "m < 0")
  case True
  with round_mag_exact [of p "- m" qmin e] assms show ?thesis
    by (simp add: round_rat_def mult_less_0_iff)
next
  case False
  with round_mag_exact [of p m qmin e] assms show ?thesis
    by (simp add: round_rat_def mult_less_0_iff)
qed

section \<open>Floating-point values and operations\<close>

datatype flt = NaN | NInf | PInf | Fin rat

text \<open>\<open>rnd p qmin emax\<close> rounds a rational to the format with \<open>p\<close> bits of precision,
  least exponent \<open>qmin\<close> and overflow threshold \<open>2 ^ emax\<close>.\<close>

definition rnd :: "nat \<Rightarrow> int \<Rightarrow> int \<Rightarrow> rat \<Rightarrow> flt" where
  "rnd p qmin emax x = (let y = round_rat p qmin x
     in if pow2 emax \<le> y then PInf else if y \<le> - pow2 emax then NInf else Fin y)"

definition rnd64 :: "rat \<Rightarrow> flt" where "rnd64 = rnd 53 (- 1074) 1024"
definition rnd32 :: "rat \<Rightarrow> flt" where "rnd32 = rnd 24 (- 149) 128"

text \<open>IEEE comparisons: every comparison with a NaN is false.\<close>

fun flt_le :: "flt \<Rightarrow> flt \<Rightarrow> bool" where
  "flt_le NaN y = False"
| "flt_le NInf y = (y \<noteq> NaN)"
| "flt_le PInf y = (y = PInf)"
| "flt_le (Fin a) y = (case y of NaN \<Rightarrow> False | NInf \<Rightarrow> False | PInf \<Rightarrow> True | Fin b \<Rightarrow> a \<le> b)"

definition flt_less :: "flt \<Rightarrow> flt \<Rightarrow> bool" where
  "flt_less x y \<longleftrightarrow> flt_le x y \<and> \<not> flt_le y x \<and> y \<noteq> NaN"

definition flt_eq :: "flt \<Rightarrow> flt \<Rightarrow> bool" where
  "flt_eq x y \<longleftrightarrow> x = y \<and> x \<noteq> NaN"

definition is_nan :: "flt \<Rightarrow> bool" where "is_nan x \<longleftrightarrow> x = NaN"
definition is_inf :: "flt \<Rightarrow> bool" where "is_inf x \<longleftrightarrow> x = PInf \<or> x = NInf"

fun fneg :: "flt \<Rightarrow> flt" where
  "fneg NaN = NaN" | "fneg NInf = PInf" | "fneg PInf = NInf" | "fneg (Fin a) = Fin (- a)"

fun fabs :: "flt \<Rightarrow> flt" where
  "fabs NaN = NaN" | "fabs NInf = PInf" | "fabs PInf = PInf" | "fabs (Fin a) = Fin \<bar>a\<bar>"

text \<open>The operations take the rounding function of their format.\<close>

definition fadd :: "(rat \<Rightarrow> flt) \<Rightarrow> flt \<Rightarrow> flt \<Rightarrow> flt" where
  "fadd r x y = (case x of
     NaN \<Rightarrow> NaN
   | NInf \<Rightarrow> (if y = NaN \<or> y = PInf then NaN else NInf)
   | PInf \<Rightarrow> (if y = NaN \<or> y = NInf then NaN else PInf)
   | Fin a \<Rightarrow> (case y of Fin b \<Rightarrow> r (a + b) | _ \<Rightarrow> y))"

definition fsub :: "(rat \<Rightarrow> flt) \<Rightarrow> flt \<Rightarrow> flt \<Rightarrow> flt" where
  "fsub r x y = fadd r x (fneg y)"

definition inf_of_sign :: "rat \<Rightarrow> flt" where
  "inf_of_sign s = (if s = 0 then NaN else if s < 0 then NInf else PInf)"

fun fsgn :: "flt \<Rightarrow> rat" where
  "fsgn NaN = 0" | "fsgn NInf = - 1" | "fsgn PInf = 1" | "fsgn (Fin a) = sgn a"

definition fmul :: "(rat \<Rightarrow> flt) \<Rightarrow> flt \<Rightarrow> flt \<Rightarrow> flt" where
  "fmul r x y = (if x = NaN \<or> y = NaN then NaN else
     case (x, y) of (Fin a, Fin b) \<Rightarrow> r (a * b) | _ \<Rightarrow> inf_of_sign (fsgn x * fsgn y))"

definition fdiv :: "(rat \<Rightarrow> flt) \<Rightarrow> flt \<Rightarrow> flt \<Rightarrow> flt" where
  "fdiv r x y = (if x = NaN \<or> y = NaN then NaN else
     case y of
       Fin b \<Rightarrow> (case x of
           Fin a \<Rightarrow> (if b = 0 then inf_of_sign (sgn a) else r (a / b))
         | _ \<Rightarrow> inf_of_sign (fsgn x * (if b = 0 then 1 else sgn b)))
     | _ \<Rightarrow> (if is_inf x then NaN else Fin 0))"

text \<open>\<open>math.Sqrt\<close>: the square root is computed to more bits than the format has, with the
  last bit set when the result is inexact, and then rounded; that bit keeps the value on the
  right side of every rounding boundary.\<close>

function isqrt :: "int \<Rightarrow> int" where
  "isqrt n = (if n \<le> 0 then 0 else
     let r = 2 * isqrt (n div 4) in if (r + 1) * (r + 1) \<le> n then r + 1 else r)"
  by pat_completeness auto
termination
  by (relation "measure nat") auto

declare isqrt.simps [simp del]

definition sqrt_sticky :: "rat \<Rightarrow> rat" where
  "sqrt_sticky q =
     (let k = 64 - ilog2 q div 2;
          s = q * pow2 (2 * k);
          n = isqrt \<lfloor>s\<rfloor>
      in if of_int (n * n) = s then of_int n / pow2 k else of_int (2 * n + 1) / pow2 (k + 1))"

fun fsqrt :: "(rat \<Rightarrow> flt) \<Rightarrow> flt \<Rightarrow> flt" where
  "fsqrt r NaN = NaN"
| "fsqrt r NInf = NaN"
| "fsqrt r PInf = PInf"
| "fsqrt r (Fin q) = (if q < 0 then NaN else if q = 0 then Fin 0 else r (sqrt_sticky q))"

fun fceil :: "flt \<Rightarrow> flt" where
  "fceil (Fin a) = Fin (of_int \<lceil>a\<rceil>)"
| "fceil x = x"

definition rat_trunc :: "rat \<Rightarrow> int" where
  "rat_trunc a = (if a < 0 then \<lceil>a\<rceil> else \<lfloor>a\<rfloor>)"

fun ftrunc :: "flt \<Rightarrow> flt" where
  "ftrunc (Fin a) = Fin (of_int (rat_trunc a))"
| "ftrunc x = x"

text \<open>Go's builtin \<open>min\<close> and \<open>max\<close> return a NaN when an argument is one.\<close>

definition fmin :: "flt \<Rightarrow> flt \<Rightarrow> flt" where
  "fmin x y = (if x = NaN \<or> y = NaN then NaN else if flt_le x y then x else y)"

definition fmax :: "flt \<Rightarrow> flt \<Rightarrow> flt" where
  "fmax x y = (if x = NaN \<or> y = NaN then NaN else if flt_le x y then y else x)"

text \<open>
  Conversions.  A conversion of a float to an integer type truncates.  Where the value does not
  fit, Go leaves the result to the implementation; amd64 yields the least integer of the type.
\<close>

definition f64_of_int :: "int \<Rightarrow> flt" where
  "f64_of_int n = rnd64 (of_int n)"

definition flt_to_int :: "int \<Rightarrow> int \<Rightarrow> flt \<Rightarrow> int" where
  "flt_to_int lo hi x = (case x of
     Fin a \<Rightarrow> (let n = rat_trunc a in if lo \<le> n \<and> n \<le> hi then n else lo)
   | _ \<Rightarrow> lo)"

definition flt_to_int64 :: "flt \<Rightarrow> int" where
  "flt_to_int64 = flt_to_int min_int64 max_int64"

definition flt_to_int32 :: "flt \<Rightarrow> int" where
  "flt_to_int32 = flt_to_int min_int32 max_int32"

abbreviation add64 :: "flt \<Rightarrow> flt \<Rightarrow> flt" where "add64 \<equiv> fadd rnd64"
abbreviation sub64 :: "flt \<Rightarrow> flt \<Rightarrow> flt" where "sub64 \<equiv> fsub rnd64"
abbreviation mul64 :: "flt \<Rightarrow> flt \<Rightarrow> flt" where "mul64 \<equiv> fmul rnd64"
abbreviation div64 :: "flt \<Rightarrow> flt \<Rightarrow> flt" where "div64 \<equiv> fdiv rnd64"
abbreviation sqrt64 :: "flt \<Rightarrow> flt" where "sqrt64 \<equiv> fsqrt rnd64"
abbreviation add32 :: "flt \<Rightarrow> flt \<Rightarrow> flt" where "add32 \<equiv> fadd rnd32"

section \<open>Facts about the operations\<close>

lemma flt_le_refl [simp]: "flt_le x x \<longleftrightarrow> x \<noteq> NaN"
  by (cases x) auto

lemma flt_le_trans: "flt_le x y \<Longrightarrow> flt_le y z \<Longrightarrow> flt_le x z"
  by (cases x; cases y; cases z) auto

lemma flt_le_NaN [simp]: "\<not> flt_le x NaN"
  by (cases x) auto

lemma flt_le_not_less: "x \<noteq> NaN \<Longrightarrow> y \<noteq> NaN \<Longrightarrow> flt_less x y \<longleftrightarrow> \<not> flt_le y x"
  by (cases x; cases y) (auto simp: flt_less_def)

lemma flt_less_simps [simp]:
  "\<not> flt_less NaN y" "\<not> flt_less x NaN"
  "flt_less (Fin a) (Fin b) \<longleftrightarrow> a < b"
  "flt_less (Fin a) PInf" "flt_less NInf (Fin a)" "flt_less NInf PInf"
  "\<not> flt_less PInf x" "\<not> flt_less x NInf"
  by (cases x; cases y; auto simp: flt_less_def)+

lemma flt_eq_Fin [simp]: "flt_eq (Fin a) (Fin b) \<longleftrightarrow> a = b"
  by (simp add: flt_eq_def)

lemma rnd_not_NaN [simp]: "rnd p qmin emax x \<noteq> NaN"
  by (simp add: rnd_def Let_def)

lemma rnd64_not_NaN [simp]: "rnd64 x \<noteq> NaN" "NaN \<noteq> rnd64 x"
  by (simp_all add: rnd64_def rnd_def Let_def)

lemma rnd_mono:
  assumes "0 < p" and "x \<le> y"
  shows "flt_le (rnd p qmin emax x) (rnd p qmin emax y)"
  using round_rat_mono [OF assms, of qmin] pow2_pos [of emax]
  by (auto simp: rnd_def Let_def)

lemma rnd64_mono: "x \<le> y \<Longrightarrow> flt_le (rnd64 x) (rnd64 y)"
  by (simp add: rnd64_def rnd_mono)

lemma rnd_exact:
  assumes "0 < p" and "\<bar>m\<bar> \<le> 2 ^ p" and "qmin \<le> e" and "\<bar>of_int m * pow2 e\<bar> < pow2 emax"
  shows "rnd p qmin emax (of_int m * pow2 e) = Fin (of_int m * pow2 e)"
  using assms(4) by (auto simp: rnd_def Let_def round_rat_exact [OF assms(1-3)])

lemma rnd64_of_int: "\<bar>n\<bar> \<le> 2 ^ 53 \<Longrightarrow> rnd64 (of_int n) = Fin (of_int n)"
proof -
  assume n: "\<bar>n\<bar> \<le> 2 ^ 53"
  then have "\<bar>of_int n :: rat\<bar> \<le> of_int (2 ^ 53)" by (simp flip: of_int_abs of_int_le_iff)
  also have "\<dots> = pow2 53" by (simp add: pow2_nat)
  also have "\<dots> < pow2 1024" by simp
  finally show ?thesis using rnd_exact [of 53 n "- 1074" 0 1024] n by (simp add: rnd64_def)
qed

lemma rnd64_0 [simp]: "rnd64 0 = Fin 0"
  using rnd64_of_int [of 0] by simp

lemma rnd64_1 [simp]: "rnd64 1 = Fin 1"
  using rnd64_of_int [of 1] by simp

lemma f64_of_int_exact: "\<bar>n\<bar> \<le> 2 ^ 53 \<Longrightarrow> f64_of_int n = Fin (of_int n)"
  by (simp add: f64_of_int_def rnd64_of_int)

lemma f64_of_int32: "is_int32 n \<Longrightarrow> f64_of_int n = Fin (of_int n)"
  by (rule f64_of_int_exact) (auto simp: int_width_defs abs_le_iff)

text \<open>Non-negative values, infinity included.\<close>

definition flt_nonneg :: "flt \<Rightarrow> bool" where
  "flt_nonneg x \<longleftrightarrow> flt_le (Fin 0) x"

lemma flt_nonneg_simps [simp]:
  "\<not> flt_nonneg NaN" "\<not> flt_nonneg NInf" "flt_nonneg PInf" "flt_nonneg (Fin a) \<longleftrightarrow> 0 \<le> a"
  by (simp_all add: flt_nonneg_def)

lemma flt_nonnegE:
  assumes "flt_nonneg x"
  obtains "x = PInf" | a where "x = Fin a" and "0 \<le> a"
  using assms by (cases x) auto

lemma rnd64_nonneg: "0 \<le> x \<Longrightarrow> flt_nonneg (rnd64 x)"
  using rnd64_mono [of 0 x] by (simp add: flt_nonneg_def)

lemma fadd_nonneg: "flt_nonneg x \<Longrightarrow> flt_nonneg y \<Longrightarrow> flt_nonneg (add64 x y)"
  by (auto simp: fadd_def rnd64_nonneg elim!: flt_nonnegE)

lemma fmul_nonneg: "0 \<le> a \<Longrightarrow> 0 \<le> b \<Longrightarrow> flt_nonneg (mul64 (Fin a) (Fin b))"
  by (simp add: fmul_def rnd64_nonneg)

lemma fdiv_nonneg: "0 \<le> a \<Longrightarrow> 0 < b \<Longrightarrow> flt_nonneg (div64 (Fin a) (Fin b))"
  by (simp add: fdiv_def rnd64_nonneg)

lemma flt_to_int_range: "lo \<le> hi \<Longrightarrow> lo \<le> flt_to_int lo hi x \<and> flt_to_int lo hi x \<le> hi"
  by (simp add: flt_to_int_def Let_def split: flt.splits)

lemma flt_to_int64_range: "is_int64 (flt_to_int64 x)"
  using flt_to_int_range [of min_int64 max_int64 x]
  by (simp add: flt_to_int64_def int_width_defs)

lemma flt_to_int32_range: "is_int32 (flt_to_int32 x)"
  using flt_to_int_range [of min_int32 max_int32 x]
  by (simp add: flt_to_int32_def int_width_defs)

lemma isqrt_correct:
  "0 \<le> n \<Longrightarrow> 0 \<le> isqrt n \<and> isqrt n * isqrt n \<le> n \<and> n < (isqrt n + 1) * (isqrt n + 1)"
proof (induction n rule: isqrt.induct)
  case (1 n)
  show ?case
  proof (cases "n \<le> 0")
    case True
    with "1.prems" show ?thesis by (simp add: isqrt.simps [of 0])
  next
    case False
    define s where "s = isqrt (n div 4)"
    have "0 \<le> n div 4" using False by simp
    then have ih: "0 \<le> s" "s * s \<le> n div 4" "n div 4 < (s + 1) * (s + 1)"
      using "1.IH" [OF False] by (simp_all add: s_def)
    have lo: "(2 * s) * (2 * s) \<le> n" using ih(2) by simp
    have "n div 4 + 1 \<le> (s + 1) * (s + 1)" using ih(3) by linarith
    then have hi: "n < (2 * s + 2) * (2 * s + 2)" by (simp add: algebra_simps)
    from False ih(1) lo hi show ?thesis
      by (auto simp: isqrt.simps [of n] Let_def s_def [symmetric] not_le algebra_simps)
  qed
qed

end
