(* ===== verification/Strconv.thy ===== *)
theory Strconv
  imports GoFloat
begin

text \<open>
  The two functions of Go's standard package \<open>strconv\<close> that the configuration readers call:
  \<open>ParseInt(s, 10, 64)\<close> and \<open>ParseFloat(s, 64)\<close>.  Both return an option, \<open>None\<close> for a syntax
  or a range error; the callers never look at which of the two it was.
\<close>

section \<open>ParseInt in base 10\<close>

fun digits_value :: "int \<Rightarrow> string \<Rightarrow> int option" where
  "digits_value acc [] = Some acc"
| "digits_value acc (c # cs) =
     (if is_digit c then digits_value (10 * acc + digit_val c) cs else None)"

definition strip_sign :: "string \<Rightarrow> bool \<times> string" where
  "strip_sign s = (case s of
     [] \<Rightarrow> (False, [])
   | c # cs \<Rightarrow> if c = CHR ''-'' then (True, cs) else if c = CHR ''+'' then (False, cs)
       else (False, s))"

definition ParseInt :: "string \<Rightarrow> int option" where
  "ParseInt s = (let (neg, ds) = strip_sign s in
     if ds = [] then None
     else (case digits_value 0 ds of
         None \<Rightarrow> None
       | Some n \<Rightarrow> (let v = (if neg then - n else n) in if is_int64 v then Some v else None)))"

lemma ParseInt_range: "ParseInt s = Some v \<Longrightarrow> is_int64 v"
  by (auto simp: ParseInt_def Let_def split: prod.splits option.splits if_splits)

text \<open>Decimal printing, as \<open>strconv.Itoa\<close> writes an integer, and its round trip.\<close>

definition digit_char :: "nat \<Rightarrow> char" where
  "digit_char d = char_of (48 + d)"

fun show_nat :: "nat \<Rightarrow> string" where
  "show_nat n = (if n < 10 then [digit_char n] else show_nat (n div 10) @ [digit_char (n mod 10)])"

declare show_nat.simps [simp del]

definition show_int :: "int \<Rightarrow> string" where
  "show_int n = (if n < 0 then CHR ''-'' # show_nat (nat (- n)) else show_nat (nat n))"

lemma digit_char_props:
  assumes "d < 10"
  shows "is_digit (digit_char d)" and "digit_val (digit_char d) = int d"
  using assms by (simp_all add: digit_char_def is_digit_def digit_val_def)

lemma digits_value_append:
  "digits_value a xs = Some m \<Longrightarrow> digits_value a (xs @ ys) = digits_value m ys"
  by (induction xs arbitrary: a) (auto split: if_splits)

lemma digits_value_show_nat: "digits_value 0 (show_nat n) = Some (int n)"
proof (induction n rule: show_nat.induct)
  case (1 n)
  show ?case
  proof (cases "n < 10")
    case True
    then show ?thesis by (simp add: show_nat.simps [of n] digit_char_props)
  next
    case False
    then have "digits_value 0 (show_nat (n div 10)) = Some (int (n div 10))"
      by (rule "1.IH")
    moreover have "10 * int (n div 10) + int (n mod 10) = int n" by presburger
    ultimately show ?thesis
      using digits_value_append [of 0 "show_nat (n div 10)" _ "[digit_char (n mod 10)]"] False
      by (simp add: show_nat.simps [of n] digit_char_props)
  qed
qed

lemma show_nat_hd: "\<exists>d cs. show_nat n = digit_char d # cs \<and> d < 10"
proof (induction n rule: show_nat.induct)
  case (1 n)
  show ?case
  proof (cases "n < 10")
    case True
    then show ?thesis by (auto simp: show_nat.simps [of n])
  next
    case False
    then show ?thesis using "1.IH" by (auto simp: show_nat.simps [of n])
  qed
qed

lemma strip_sign_show_nat: "strip_sign (show_nat n) = (False, show_nat n)"
proof -
  obtain d cs where s: "show_nat n = digit_char d # cs" "d < 10"
    using show_nat_hd by blast
  then have "is_digit (digit_char d)" by (simp add: digit_char_props)
  then have "digit_char d \<noteq> CHR ''-''" "digit_char d \<noteq> CHR ''+''"
    by (auto simp: is_digit_def)
  then show ?thesis by (simp add: strip_sign_def s(1))
qed

lemma show_nat_nonempty: "show_nat n \<noteq> []"
  using show_nat_hd [of n] by auto

lemma ParseInt_show_int: "is_int64 n \<Longrightarrow> ParseInt (show_int n) = Some n"
  by (auto simp: ParseInt_def show_int_def strip_sign_show_nat strip_sign_def [of "_ # _"]
      digits_value_show_nat show_nat_nonempty Let_def)

section \<open>ParseFloat\<close>

text \<open>The spellings of NaN and of the infinities; case is ignored, and only an infinity
  takes a sign.\<close>

definition parse_special :: "string \<Rightarrow> flt option" where
  "parse_special s =
     (if map lower s = ''nan'' then Some NaN
      else case strip_sign s of (neg, cs) \<Rightarrow>
        if map lower cs = ''inf'' \<or> map lower cs = ''infinity''
        then Some (if neg then NInf else PInf) else None)"

record mant_scan =
  saw_dot :: bool
  saw_digits :: bool
  underscores :: bool
  mant :: int
  frac_digits :: int

definition is_hex_letter :: "char \<Rightarrow> bool" where
  "is_hex_letter c \<longleftrightarrow> 97 \<le> (of_char (lower c) :: nat) \<and> (of_char (lower c) :: nat) \<le> 102"

definition mant_digit :: "int \<Rightarrow> int \<Rightarrow> mant_scan \<Rightarrow> mant_scan" where
  "mant_digit base d st = st\<lparr>saw_digits := True, mant := base * mant st + d,
     frac_digits := frac_digits st + (if saw_dot st then 1 else 0)\<rparr>"

fun scan_mant :: "bool \<Rightarrow> string \<Rightarrow> mant_scan \<Rightarrow> mant_scan \<times> string" where
  "scan_mant hex [] st = (st, [])"
| "scan_mant hex (c # cs) st =
     (if c = CHR ''_'' then scan_mant hex cs (st\<lparr>underscores := True\<rparr>)
      else if c = CHR ''.'' then
        (if saw_dot st then (st, c # cs) else scan_mant hex cs (st\<lparr>saw_dot := True\<rparr>))
      else if is_digit c then
        scan_mant hex cs (mant_digit (if hex then 16 else 10) (digit_val c) st)
      else if hex \<and> is_hex_letter c then
        scan_mant hex cs (mant_digit 16 (int (of_char (lower c)) - 87) st)
      else (st, c # cs))"

text \<open>The exponent's digits.  The value stops growing at 10000, far beyond every exponent of
  the format.\<close>

fun scan_exp :: "string \<Rightarrow> int \<Rightarrow> bool \<Rightarrow> int \<times> bool \<times> string" where
  "scan_exp [] e us = (e, us, [])"
| "scan_exp (c # cs) e us =
     (if c = CHR ''_'' then scan_exp cs e True
      else if is_digit c then scan_exp cs (if e < 10000 then 10 * e + digit_val c else e) us
      else (e, us, c # cs))"

fun underscore_scan :: "bool \<Rightarrow> char \<Rightarrow> string \<Rightarrow> bool" where
  "underscore_scan hex prev [] = (prev \<noteq> CHR ''_'')"
| "underscore_scan hex prev (c # cs) =
     (if is_digit c \<or> hex \<and> is_hex_letter c then underscore_scan hex CHR ''0'' cs
      else if c = CHR ''_'' then prev = CHR ''0'' \<and> underscore_scan hex CHR ''_'' cs
      else prev \<noteq> CHR ''_'' \<and> underscore_scan hex CHR ''!'' cs)"

definition underscore_ok :: "string \<Rightarrow> bool" where
  "underscore_ok s = (case snd (strip_sign s) of
     z # b # cs \<Rightarrow>
       if z = CHR ''0'' \<and> (lower b = CHR ''b'' \<or> lower b = CHR ''o'' \<or> lower b = CHR ''x'')
       then underscore_scan (lower b = CHR ''x'') CHR ''0'' cs
       else underscore_scan False CHR ''^'' (z # b # cs)
   | cs \<Rightarrow> underscore_scan False CHR ''^'' cs)"

definition exp_value :: "string \<Rightarrow> (int \<times> bool \<times> string) option" where
  "exp_value s = (let (neg, ds) = strip_sign s in
     if ds \<noteq> [] \<and> is_digit (hd ds)
     then (let (e, us, rest) = scan_exp ds 0 False in Some (if neg then - e else e, us, rest))
     else None)"

definition scale_rat :: "int \<Rightarrow> int \<Rightarrow> int \<Rightarrow> rat" where
  "scale_rat base m e =
     (if 0 \<le> e then of_int (m * base ^ nat e) else of_int m / of_int (base ^ nat (- e)))"

definition read_float :: "string \<Rightarrow> rat option" where
  "read_float s =
    (let (neg, body) = strip_sign s;
         hex = (case body of z # x # _ # _ \<Rightarrow> z = CHR ''0'' \<and> lower x = CHR ''x'' | _ \<Rightarrow> False);
         digits = (if hex then drop 2 body else body);
         (st, rest) = scan_mant hex digits
           \<lparr>saw_dot = False, saw_digits = False, underscores = False, mant = 0, frac_digits = 0\<rparr>
     in if \<not> saw_digits st then None
        else
          (case (case rest of
                  c # cs \<Rightarrow> if lower c = (if hex then CHR ''p'' else CHR ''e'') then exp_value cs
                    else if hex then None else Some (0, False, rest)
                | [] \<Rightarrow> if hex then None else Some (0, False, [])) of
            None \<Rightarrow> None
          | Some (e, us, left) \<Rightarrow>
              if left \<noteq> [] \<or> (underscores st \<or> us) \<and> \<not> underscore_ok s then None
              else let v = (if hex then scale_rat 2 (mant st) (e - 4 * frac_digits st)
                            else scale_rat 10 (mant st) (e - frac_digits st))
                   in Some (if neg then - v else v)))"

definition ParseFloat :: "string \<Rightarrow> flt option" where
  "ParseFloat s = (case parse_special s of
     Some x \<Rightarrow> Some x
   | None \<Rightarrow> (case read_float s of
       None \<Rightarrow> None
     | Some v \<Rightarrow> (let x = rnd64 v in if is_inf x then None else Some x)))"

end
