(* ===== verification/MapAccess.thy ===== *)
theory MapAccess
  imports Strconv
begin

text \<open>
  \<open>src/wci/workflow/iface/map_access.go\<close> and \<open>status.go\<close>: the readers and validators of
  loosely typed maps (\<open>map[string]any\<close>), through which both scaling algorithms see their
  configuration and their persisted state.

  A dynamic value is an \<open>anyval\<close>, one constructor per type that some \<open>switch v := v.(type)\<close>
  of the program names; every other dynamic type is \<open>VOther\<close>.  A nil map is \<open>None\<close>.  An error
  is a \<open>field_error\<close>, one constructor per message.

  The lemmas bound what a reader can return, and say what a validator that accepts a field
  guarantees about the value the reader then returns.
\<close>

datatype anyval =
    VInt int
  | VInt64 int
  | VFloat32 flt
  | VFloat64 flt
  | VString string
  | VNil
  | VOther

type_synonym anymap = "(string, anyval) gomap"

datatype field_error =
    AtLeastInt string int
  | IntegerAtLeast string int
  | AtLeastFloat string flt
  | RealFloat string
  | NumberAtLeast string flt

text \<open>The comma-ok lookup, which also answers on a nil map.\<close>

definition any_at :: "anymap option \<Rightarrow> string \<Rightarrow> anyval option" where
  "any_at m key = (case m of None \<Rightarrow> None | Some l \<Rightarrow> map_of l key)"

section \<open>Readers\<close>

definition getInt64FromMap :: "anymap option \<Rightarrow> string \<Rightarrow> int \<Rightarrow> int" where
  "getInt64FromMap m key defaultVal = (case any_at m key of
     None \<Rightarrow> defaultVal
   | Some v \<Rightarrow> (case v of
       VNil \<Rightarrow> defaultVal
     | VInt n \<Rightarrow> n
     | VInt64 n \<Rightarrow> n
     | VFloat64 x \<Rightarrow> flt_to_int64 x
     | VString s \<Rightarrow> (case ParseInt s of Some i \<Rightarrow> i | None \<Rightarrow> defaultVal)
     | _ \<Rightarrow> defaultVal))"

definition getFloat64FromMap :: "anymap option \<Rightarrow> string \<Rightarrow> flt \<Rightarrow> flt" where
  "getFloat64FromMap m key defaultVal = (case any_at m key of
     None \<Rightarrow> defaultVal
   | Some v \<Rightarrow> (case v of
       VNil \<Rightarrow> defaultVal
     | VInt n \<Rightarrow> f64_of_int n
     | VInt64 n \<Rightarrow> f64_of_int n
     | VFloat32 x \<Rightarrow> x
     | VFloat64 x \<Rightarrow> x
     | VString s \<Rightarrow> (case ParseFloat s of Some x \<Rightarrow> x | None \<Rightarrow> defaultVal)
     | _ \<Rightarrow> defaultVal))"

section \<open>Validators\<close>

definition validateInt64InMap :: "anymap option \<Rightarrow> string \<Rightarrow> int \<Rightarrow> field_error option" where
  "validateInt64InMap m key minValidValue = (case any_at m key of
     None \<Rightarrow> None
   | Some v \<Rightarrow> (case v of
       VNil \<Rightarrow> None
     | VInt n \<Rightarrow> (if n < minValidValue then Some (AtLeastInt key minValidValue) else None)
     | VInt64 n \<Rightarrow> (if n < minValidValue then Some (AtLeastInt key minValidValue) else None)
     | VFloat64 x \<Rightarrow> (if flt_less x (f64_of_int minValidValue)
         then Some (AtLeastInt key minValidValue) else None)
     | VString s \<Rightarrow> (case ParseInt s of
         None \<Rightarrow> Some (IntegerAtLeast key minValidValue)
       | Some i \<Rightarrow> (if i < minValidValue then Some (IntegerAtLeast key minValidValue) else None))
     | _ \<Rightarrow> Some (IntegerAtLeast key minValidValue)))"

definition validateFloat64InMap :: "anymap option \<Rightarrow> string \<Rightarrow> flt \<Rightarrow> field_error option" where
  "validateFloat64InMap m key minValidValue = (case any_at m key of
     None \<Rightarrow> None
   | Some v \<Rightarrow> (case v of
       VNil \<Rightarrow> None
     | VInt n \<Rightarrow> (if flt_less (f64_of_int n) minValidValue
         then Some (AtLeastFloat key minValidValue) else None)
     | VInt64 n \<Rightarrow> (if flt_less (f64_of_int n) minValidValue
         then Some (AtLeastFloat key minValidValue) else None)
     | VFloat32 x \<Rightarrow> (if flt_less x minValidValue
         then Some (AtLeastFloat key minValidValue) else None)
     | VFloat64 x \<Rightarrow> (if flt_less x minValidValue then Some (AtLeastFloat key minValidValue)
         else if is_inf x \<or> is_nan x then Some (RealFloat key) else None)
     | VString s \<Rightarrow> (case ParseFloat s of
         None \<Rightarrow> Some (NumberAtLeast key minValidValue)
       | Some x \<Rightarrow> (if flt_less x minValidValue
           then Some (NumberAtLeast key minValidValue) else None))
     | _ \<Rightarrow> Some (NumberAtLeast key minValidValue)))"

text \<open>\<open>ScalingAlgorithmConfig\<close> and \<open>ScalingAlgorithmStatus\<close> are both \<open>map[string]any\<close>, and
  their methods are the functions above.\<close>

type_synonym ScalingAlgorithmConfig = "anymap option"
type_synonym ScalingAlgorithmStatus = "anymap option"

definition GetInt64Field :: "anymap option \<Rightarrow> string \<Rightarrow> int \<Rightarrow> int" where
  "GetInt64Field state key defaultValue = getInt64FromMap state key defaultValue"

definition GetFloat64Field :: "anymap option \<Rightarrow> string \<Rightarrow> flt \<Rightarrow> flt" where
  "GetFloat64Field state key defaultValue = getFloat64FromMap state key defaultValue"

definition ValidateInt64Field :: "anymap option \<Rightarrow> string \<Rightarrow> int \<Rightarrow> field_error option" where
  "ValidateInt64Field config key minValidValue = validateInt64InMap config key minValidValue"

definition ValidateFloat64Field :: "anymap option \<Rightarrow> string \<Rightarrow> flt \<Rightarrow> field_error option" where
  "ValidateFloat64Field config key minValidValue = validateFloat64InMap config key minValidValue"

lemmas field_access_defs =
  GetInt64Field_def GetFloat64Field_def ValidateInt64Field_def ValidateFloat64Field_def

section \<open>Well-typed maps\<close>

text \<open>A value of a Go integer type lies in the range of the type (\<open>int\<close> has 64 bits).\<close>

fun wf_any :: "anyval \<Rightarrow> bool" where
  "wf_any (VInt n) = is_int64 n"
| "wf_any (VInt64 n) = is_int64 n"
| "wf_any v = True"

definition wf_anymap :: "anymap option \<Rightarrow> bool" where
  "wf_anymap m = (case m of None \<Rightarrow> True | Some l \<Rightarrow> \<forall>kv \<in> set l. wf_any (snd kv))"

lemma wf_anymap_at: "wf_anymap m \<Longrightarrow> any_at m key = Some v \<Longrightarrow> wf_any v"
  by (auto simp: wf_anymap_def any_at_def split: option.splits dest!: map_of_SomeD)

lemma wf_anymap_update [intro]:
  "wf_anymap (Some m) \<Longrightarrow> wf_any v \<Longrightarrow> wf_anymap (Some (AList.update k v m))"
  by (induction m) (auto simp: wf_anymap_def)

lemma any_at_Some [simp]: "any_at (Some l) k = map_of l k"
  by (simp add: any_at_def)

lemma any_at_None [simp]: "any_at None k = None"
  by (simp add: any_at_def)

text \<open>A reader depends on the value at its key only.\<close>

lemma GetInt64Field_cong:
  "any_at m k = any_at m' k \<Longrightarrow> GetInt64Field m k d = GetInt64Field m' k d"
  by (simp add: GetInt64Field_def getInt64FromMap_def)

lemma GetFloat64Field_cong:
  "any_at m k = any_at m' k \<Longrightarrow> GetFloat64Field m k d = GetFloat64Field m' k d"
  by (simp add: GetFloat64Field_def getFloat64FromMap_def)

lemma GetInt64Field_update_int64 [simp]:
  "GetInt64Field (Some (AList.update k (VInt64 n) m)) k d = n"
  by (simp add: GetInt64Field_def getInt64FromMap_def map_simps)

lemma GetInt64Field_update_other [simp]:
  "k' \<noteq> k \<Longrightarrow> GetInt64Field (Some (AList.update k v m)) k' d = GetInt64Field (Some m) k' d"
  by (rule GetInt64Field_cong) (simp add: map_simps)

lemma GetFloat64Field_update_float64 [simp]:
  "GetFloat64Field (Some (AList.update k (VFloat64 x) m)) k d = x"
  by (simp add: GetFloat64Field_def getFloat64FromMap_def map_simps)

lemma GetFloat64Field_update_other [simp]:
  "k' \<noteq> k \<Longrightarrow> GetFloat64Field (Some (AList.update k v m)) k' d = GetFloat64Field (Some m) k' d"
  by (rule GetFloat64Field_cong) (simp add: map_simps)

lemma GetInt64Field_absent [simp]: "GetInt64Field None k d = d"
  by (simp add: GetInt64Field_def getInt64FromMap_def)

lemma GetInt64Field_range:
  assumes "wf_anymap m" and "is_int64 d"
  shows "is_int64 (GetInt64Field m key d)"
  using assms wf_anymap_at [OF assms(1), of key]
  by (auto simp: GetInt64Field_def getInt64FromMap_def flt_to_int64_range ParseInt_range
      split: option.splits anyval.splits)

section \<open>What validation guarantees\<close>

text \<open>
  The one shape of value that an integer field accepts although its conversion does not keep
  it: a \<open>float64\<close> outside the 64-bit range (or a NaN).
\<close>

definition float_fits_int64 :: "anyval \<Rightarrow> bool" where
  "float_fits_int64 v = (case v of
     VFloat64 x \<Rightarrow> (case x of Fin a \<Rightarrow> is_int64 (rat_trunc a) | _ \<Rightarrow> False)
   | _ \<Rightarrow> True)"

lemma rat_trunc_ge_int: "of_int n \<le> a \<Longrightarrow> n \<le> rat_trunc a"
  by (simp add: rat_trunc_def) linarith

lemma ValidateInt64Field_sound:
  assumes valid: "ValidateInt64Field m key lo = None"
    and d: "lo \<le> d" and lo: "\<bar>lo\<bar> \<le> 2 ^ 53"
    and fits: "\<And>v. any_at m key = Some v \<Longrightarrow> float_fits_int64 v"
  shows "lo \<le> GetInt64Field m key d"
proof (cases "any_at m key")
  case None
  then show ?thesis using d by (simp add: GetInt64Field_def getInt64FromMap_def)
next
  case (Some v)
  note fits = fits [OF Some]
  have l: "f64_of_int lo = Fin (of_int lo)" by (rule f64_of_int_exact [OF lo])
  show ?thesis
    using valid d Some fits rat_trunc_ge_int
    by (cases v)
      (auto simp: GetInt64Field_def getInt64FromMap_def ValidateInt64Field_def validateInt64InMap_def
        l float_fits_int64_def flt_to_int64_def flt_to_int_def is_int64_def Let_def not_less
        split: option.splits if_splits flt.splits)
qed

lemma ValidateFloat64Field_sound:
  assumes "ValidateFloat64Field m key lo = None" and "\<not> flt_less d lo"
  shows "\<not> flt_less (GetFloat64Field m key d) lo"
  using assms
  by (auto simp: GetFloat64Field_def getFloat64FromMap_def ValidateFloat64Field_def
      validateFloat64InMap_def split: option.splits anyval.splits if_splits)

end
