(* ===== verification/Spec.thy ===== *)
theory Spec
  imports MapAccess "HOL-Library.Char_ord" "HOL-Library.List_Lexorder"
begin

text \<open>
  \<open>src/wci/workflow/iface/spec.go\<close>: the specification of a worker controller instance, a map
  from scaling group ids to scaling groups; which group serves a task queue type in a region;
  and the validation that makes this choice unambiguous.

  The model keeps Go's structs as records, \<open>ScalingGroupSpecs\<close> as a Go map (the list order is
  the iteration order), and a payload as an opaque value.  A nil slice and an empty slice are
  one value, since the code only asks for their length.  \<open>Validate\<close> follows the two loops and
  the region comparison of the source, with the maps \<open>seen\<close> and \<open>seenTaskTypeCatchAll\<close> as the
  loop's state; \<open>wf_spec\<close> states what it promises without any loop.  The lemmas show that the
  two agree, that for a valid specification the group lookup is the four-step precedence of the
  README and does not depend on the iteration order, and that effective task types partition.
\<close>

section \<open>Data\<close>

datatype TaskQueueType =
    TASK_QUEUE_TYPE_UNSPECIFIED
  | TASK_QUEUE_TYPE_WORKFLOW
  | TASK_QUEUE_TYPE_ACTIVITY
  | TASK_QUEUE_TYPE_NEXUS
  | TASK_QUEUE_TYPE_OTHER int

datatype Payload = Payload string

record ComputeProviderSpec =
  ProviderType :: string
  ProviderConfig :: "Payload option"
  NexusEndpoint :: string

record ScalingAlgorithmSpec =
  ScalingAlgorithm :: string
  AlgorithmConfig :: "Payload option"

record ScalingGroupSpec =
  TaskTypes :: "TaskQueueType list"
  RegionIds :: "string list"
  Compute :: ComputeProviderSpec
  Scaling :: "ScalingAlgorithmSpec option"

record WorkerControllerInstanceSpec =
  ScalingGroupSpecs :: "(string, ScalingGroupSpec) gomap"

definition validComputeProviderTypes :: "string list" where
  "validComputeProviderTypes =
     [''aws-lambda'', ''aws-agentcore'', ''aws-ecs'', ''subprocess'', ''k8s'', ''gcp-cloud-run'',
      ''test-invoke'', ''test-worker-set'']"

definition validScalingAlgorithmTypes :: "string list" where
  "validScalingAlgorithmTypes = [''no-sync'', ''rate-based'']"

definition ValidComputeProviderType :: "string \<Rightarrow> bool" where
  "ValidComputeProviderType s \<longleftrightarrow> s \<in> set validComputeProviderTypes"

definition ValidScalingAlgorithmType :: "string \<Rightarrow> bool" where
  "ValidScalingAlgorithmType s \<longleftrightarrow> s \<in> set validScalingAlgorithmTypes"

definition scalableTaskQueueTypes :: "TaskQueueType list" where
  "scalableTaskQueueTypes =
     [TASK_QUEUE_TYPE_ACTIVITY, TASK_QUEUE_TYPE_NEXUS, TASK_QUEUE_TYPE_WORKFLOW]"

section \<open>The group that serves a task queue type\<close>

definition claimRank :: "ScalingGroupSpec \<Rightarrow> TaskQueueType \<Rightarrow> string \<Rightarrow> int" where
  "claimRank g t regionId =
    (let hasRegionIds = RegionIds g \<noteq> [];
         hasTaskTypes = TaskTypes g \<noteq> []
     in if hasRegionIds \<and> regionId \<notin> set (RegionIds g) then - 1
        else if hasTaskTypes \<and> t \<notin> set (TaskTypes g) then - 1
        else if \<not> hasTaskTypes \<and> t \<notin> set scalableTaskQueueTypes then - 1
        else if hasRegionIds \<and> hasTaskTypes then 3
        else if hasRegionIds then 2
        else if hasTaskTypes then 1
        else 0)"

text \<open>The body of the \<open>range\<close> loop, on the pair (claimedGroupKey, claimedGroupRank).\<close>

definition claim_step ::
    "TaskQueueType \<Rightarrow> string \<Rightarrow> string \<times> ScalingGroupSpec \<Rightarrow> string \<times> int \<Rightarrow> string \<times> int" where
  "claim_step t regionId kg claimed =
    (let rank = claimRank (snd kg) t regionId
     in if rank > snd claimed then (fst kg, rank) else claimed)"

definition ScalingGroupKeyForTaskQueueType ::
    "WorkerControllerInstanceSpec option \<Rightarrow> TaskQueueType \<Rightarrow> string \<Rightarrow> string" where
  "ScalingGroupKeyForTaskQueueType c t regionId = (case c of
     None \<Rightarrow> ''''
   | Some s \<Rightarrow> fst (fold (claim_step t regionId) (ScalingGroupSpecs s) ('''', - 1)))"

definition EffectiveTaskTypesForGroup ::
    "WorkerControllerInstanceSpec option \<Rightarrow> string \<Rightarrow> string \<Rightarrow> TaskQueueType list" where
  "EffectiveTaskTypesForGroup c scalingGroupId regionId = (case c of
     None \<Rightarrow> []
   | Some s \<Rightarrow> (case map_of (ScalingGroupSpecs s) scalingGroupId of
       None \<Rightarrow> []
     | Some scalingGroup \<Rightarrow>
         (let candidates = (if TaskTypes scalingGroup = [] then scalableTaskQueueTypes
                            else TaskTypes scalingGroup)
          in filter (\<lambda>t. ScalingGroupKeyForTaskQueueType c t regionId = scalingGroupId)
               candidates)))"

section \<open>Validation\<close>

datatype spec_error =
    SpecMissing
  | SpecEmpty
  | GroupWithoutId
  | RegionListedTwice string string
  | CatchAllConflict string string string
  | TaskTypeConflict string TaskQueueType string
  | TaskTypeUndefined string
  | InvalidProviderType string string
  | InvalidScalingAlgorithm string string
  | CatchAllServesNothing string
  | RegionsServeDifferentTypes string "TaskQueueType list" string "TaskQueueType list"

record seen_claims =
  seen :: "(string \<times> TaskQueueType) list"
  seenTaskTypeCatchAll :: "(string, string) gomap"

text \<open>Groups without a region count as one region, the empty one.\<close>

definition regions_of :: "ScalingGroupSpec \<Rightarrow> string list" where
  "regions_of v = (if RegionIds v = [] then [''''] else RegionIds v)"

fun check_region_ids :: "string \<Rightarrow> string list \<Rightarrow> string list \<Rightarrow> spec_error option" where
  "check_region_ids k before [] = None"
| "check_region_ids k before (regionID # rest) =
     (if regionID \<in> set before then Some (RegionListedTwice k regionID)
      else check_region_ids k (before @ [regionID]) rest)"

fun claim_catch_alls ::
    "string \<Rightarrow> string list \<Rightarrow> (string, string) gomap \<Rightarrow> spec_error + (string, string) gomap" where
  "claim_catch_alls k [] m = Inr m"
| "claim_catch_alls k (regionID # rest) m = (case map_of m regionID of
     Some other \<Rightarrow> Inl (CatchAllConflict k other regionID)
   | None \<Rightarrow> claim_catch_alls k rest (AList.update regionID k m))"

fun check_unseen ::
    "string \<Rightarrow> TaskQueueType \<Rightarrow> string list \<Rightarrow> (string \<times> TaskQueueType) list \<Rightarrow> spec_error option"
where
  "check_unseen k t [] s = None"
| "check_unseen k t (regionID # rest) s =
     (if (regionID, t) \<in> set s then Some (TaskTypeConflict k t regionID)
      else check_unseen k t rest s)"

fun claim_task_types ::
    "string \<Rightarrow> string list \<Rightarrow> TaskQueueType list \<Rightarrow> (string \<times> TaskQueueType) list
      \<Rightarrow> spec_error + (string \<times> TaskQueueType) list" where
  "claim_task_types k regions [] s = Inr s"
| "claim_task_types k regions (t # ts) s = (case check_unseen k t regions s of
     Some e \<Rightarrow> Inl e
   | None \<Rightarrow>
       (if t = TASK_QUEUE_TYPE_UNSPECIFIED then Inl (TaskTypeUndefined k)
        else claim_task_types k regions ts (List.map (\<lambda>r. (r, t)) regions @ s)))"

definition check_provider_and_algorithm :: "string \<Rightarrow> ScalingGroupSpec \<Rightarrow> spec_error option" where
  "check_provider_and_algorithm k v =
     (if \<not> ValidComputeProviderType (ProviderType (Compute v))
      then Some (InvalidProviderType k (ProviderType (Compute v)))
      else (case Scaling v of
          None \<Rightarrow> None
        | Some a \<Rightarrow> (if \<not> ValidScalingAlgorithmType (ScalingAlgorithm a)
            then Some (InvalidScalingAlgorithm k (ScalingAlgorithm a)) else None)))"

text \<open>The body of the first loop.\<close>

definition check_group ::
    "string \<Rightarrow> ScalingGroupSpec \<Rightarrow> seen_claims \<Rightarrow> spec_error + seen_claims" where
  "check_group k v st =
    (if k = '''' then Inl GroupWithoutId
     else (case check_region_ids k [] (RegionIds v) of
        Some e \<Rightarrow> Inl e
      | None \<Rightarrow>
         (case (if TaskTypes v = []
                then claim_catch_alls k (regions_of v) (seenTaskTypeCatchAll st)
                else Inr (seenTaskTypeCatchAll st)) of
            Inl e \<Rightarrow> Inl e
          | Inr m \<Rightarrow>
             (case claim_task_types k (regions_of v) (TaskTypes v) (seen st) of
                Inl e \<Rightarrow> Inl e
              | Inr s \<Rightarrow>
                 (case check_provider_and_algorithm k v of
                    Some e \<Rightarrow> Inl e
                  | None \<Rightarrow> Inr \<lparr>seen = s, seenTaskTypeCatchAll = m\<rparr>)))))"

fun check_groups ::
    "(string \<times> ScalingGroupSpec) list \<Rightarrow> seen_claims \<Rightarrow> spec_error option" where
  "check_groups [] st = None"
| "check_groups ((k, v) # gs) st = (case check_group k v st of
     Inl e \<Rightarrow> Some e
   | Inr st' \<Rightarrow> check_groups gs st')"

text \<open>The body of the second loop.\<close>

definition check_catch_all ::
    "WorkerControllerInstanceSpec \<Rightarrow> string \<times> ScalingGroupSpec \<Rightarrow> spec_error option" where
  "check_catch_all c kv =
    (if TaskTypes (snd kv) \<noteq> [] then None
     else if \<exists>region \<in> set (regions_of (snd kv)).
          EffectiveTaskTypesForGroup (Some c) (fst kv) region \<noteq> [] then None
     else Some (CatchAllServesNothing (fst kv)))"

definition add_new :: "string \<Rightarrow> string list \<Rightarrow> string list" where
  "add_new r rs = (if r \<in> set rs then rs else rs @ [r])"

definition listedRegionIds :: "WorkerControllerInstanceSpec \<Rightarrow> string list" where
  "listedRegionIds c =
     sort (fold (\<lambda>kv rs. fold add_new (RegionIds (snd kv)) rs) (ScalingGroupSpecs c) [])"

definition taskTypesServedInRegion :: "WorkerControllerInstanceSpec \<Rightarrow> string \<Rightarrow> TaskQueueType list" where
  "taskTypesServedInRegion c regionId =
     filter (\<lambda>t. ScalingGroupKeyForTaskQueueType (Some c) t regionId \<noteq> '''') scalableTaskQueueTypes"

definition check_regions :: "WorkerControllerInstanceSpec \<Rightarrow> spec_error option" where
  "check_regions c = (case listedRegionIds c of
     [] \<Rightarrow> None
   | firstRegionId # rest \<Rightarrow>
       (let firstTaskTypes = taskTypesServedInRegion c firstRegionId
        in first_error (\<lambda>regionId.
             let taskTypes = taskTypesServedInRegion c regionId
             in if taskTypes \<noteq> firstTaskTypes
                then Some (RegionsServeDifferentTypes firstRegionId firstTaskTypes regionId taskTypes)
                else None) rest))"

definition Validate :: "WorkerControllerInstanceSpec option \<Rightarrow> spec_error option" where
  "Validate c = (case c of
     None \<Rightarrow> Some SpecMissing
   | Some s \<Rightarrow>
      (if ScalingGroupSpecs s = [] then Some SpecEmpty
       else (case check_groups (ScalingGroupSpecs s) \<lparr>seen = [], seenTaskTypeCatchAll = []\<rparr> of
          Some e \<Rightarrow> Some e
        | None \<Rightarrow>
           (case first_error (check_catch_all s) (ScalingGroupSpecs s) of
              Some e \<Rightarrow> Some e
            | None \<Rightarrow> check_regions s))))"

section \<open>Cloning\<close>

text \<open>\<open>proto.Clone\<close> copies a payload; on values it is the identity.\<close>

definition Clone :: "ScalingGroupSpec \<Rightarrow> ScalingGroupSpec" where
  "Clone c = \<lparr>
     TaskTypes = TaskTypes c,
     RegionIds = RegionIds c,
     Compute = \<lparr>
       ProviderType = ProviderType (Compute c),
       ProviderConfig = (case ProviderConfig (Compute c) of None \<Rightarrow> None | Some p \<Rightarrow> Some p),
       NexusEndpoint = NexusEndpoint (Compute c)\<rparr>,
     Scaling = (case Scaling c of
         None \<Rightarrow> None
       | Some a \<Rightarrow> Some (case AlgorithmConfig a of
             None \<Rightarrow> a | Some p \<Rightarrow> a\<lparr>AlgorithmConfig := Some p\<rparr>))\<rparr>"

lemma Clone_id [simp]: "Clone c = c"
  by (cases c) (simp add: Clone_def split: option.split)

section \<open>What a valid specification is\<close>

definition type_claims :: "ScalingGroupSpec \<Rightarrow> (string \<times> TaskQueueType) set" where
  "type_claims v = set (regions_of v) \<times> set (TaskTypes v)"

definition catch_all_claims :: "ScalingGroupSpec \<Rightarrow> string set" where
  "catch_all_claims v = (if TaskTypes v = [] then set (regions_of v) else {})"

text \<open>Conditions on one group, and on two.\<close>

definition wf_group :: "string \<Rightarrow> ScalingGroupSpec \<Rightarrow> bool" where
  "wf_group k v \<longleftrightarrow> k \<noteq> '''' \<and> distinct (RegionIds v) \<and> distinct (TaskTypes v)
     \<and> TASK_QUEUE_TYPE_UNSPECIFIED \<notin> set (TaskTypes v)
     \<and> ValidComputeProviderType (ProviderType (Compute v))
     \<and> (\<forall>a. Scaling v = Some a \<longrightarrow> ValidScalingAlgorithmType (ScalingAlgorithm a))"

definition compatible :: "ScalingGroupSpec \<Rightarrow> ScalingGroupSpec \<Rightarrow> bool" where
  "compatible v w \<longleftrightarrow> type_claims v \<inter> type_claims w = {}
     \<and> catch_all_claims v \<inter> catch_all_claims w = {}"

definition wf_claims :: "(string, ScalingGroupSpec) gomap \<Rightarrow> bool" where
  "wf_claims gs \<longleftrightarrow> (\<forall>(k, v) \<in> set gs. wf_group k v)
     \<and> (\<forall>(k, v) \<in> set gs. \<forall>(k', w) \<in> set gs. k \<noteq> k' \<longrightarrow> compatible v w)"

text \<open>
  The contract of \<open>Validate\<close>: groups are well formed and pairwise compatible, a catch-all
  serves something in one of its regions, and all listed regions serve the same types.
\<close>

definition wf_spec :: "WorkerControllerInstanceSpec \<Rightarrow> bool" where
  "wf_spec c \<longleftrightarrow> ScalingGroupSpecs c \<noteq> [] \<and> wf_claims (ScalingGroupSpecs c)
     \<and> (\<forall>(k, v) \<in> set (ScalingGroupSpecs c). TaskTypes v = [] \<longrightarrow>
          (\<exists>r \<in> set (regions_of v). EffectiveTaskTypesForGroup (Some c) k r \<noteq> []))
     \<and> (\<forall>r \<in> set (listedRegionIds c). \<forall>r' \<in> set (listedRegionIds c).
          taskTypesServedInRegion c r = taskTypesServedInRegion c r')"

section \<open>The validation loops decide the contract\<close>

lemma regions_of_nonempty [simp]: "regions_of v \<noteq> []"
  by (simp add: regions_of_def)

lemma distinct_regions_of: "distinct (regions_of v) \<longleftrightarrow> distinct (RegionIds v)"
  by (simp add: regions_of_def)

lemma check_region_ids_None_iff:
  "check_region_ids k before rs = None \<longleftrightarrow> distinct rs \<and> set rs \<inter> set before = {}"
  by (induction rs arbitrary: before) auto

lemma claim_catch_alls_spec:
  "distinct rs \<Longrightarrow> (case claim_catch_alls k rs m of
     Inl e \<Rightarrow> set rs \<inter> set (keys m) \<noteq> {}
   | Inr m' \<Rightarrow> set rs \<inter> set (keys m) = {} \<and> set (keys m') = set rs \<union> set (keys m))"
proof (induction rs arbitrary: m)
  case Nil
  then show ?case by simp
next
  case (Cons r rs)
  show ?case
  proof (cases "map_of m r")
    case None
    then have "r \<notin> set (keys m)" by (simp add: map_of_eq_None_iff)
    with None Cons.prems Cons.IH [of "AList.update r k m"] show ?thesis
      by (auto split: sum.splits)
  next
    case (Some other)
    then have "r \<in> set (keys m)" by (metis map_of_eq_None_iff option.distinct(1) set_map)
    with Some show ?thesis by simp
  qed
qed

lemma check_unseen_None_iff:
  "check_unseen k t rs s = None \<longleftrightarrow> (\<forall>r \<in> set rs. (r, t) \<notin> set s)"
  by (induction rs) auto

lemma claim_task_types_spec:
  assumes "rs \<noteq> []"
  shows "(case claim_task_types k rs ts s of
     Inl e \<Rightarrow> \<not> (distinct ts \<and> TASK_QUEUE_TYPE_UNSPECIFIED \<notin> set ts
       \<and> (set rs \<times> set ts) \<inter> set s = {})
   | Inr s' \<Rightarrow> distinct ts \<and> TASK_QUEUE_TYPE_UNSPECIFIED \<notin> set ts
       \<and> (set rs \<times> set ts) \<inter> set s = {} \<and> set s' = set rs \<times> set ts \<union> set s)"
proof (induction ts arbitrary: s)
  case Nil
  then show ?case by simp
next
  case (Cons t ts)
  obtain r where r: "r \<in> set rs" using assms by (cases rs) auto
  show ?case
  proof (cases "check_unseen k t rs s")
    case (Some e)
    then have "\<not> (\<forall>r \<in> set rs. (r, t) \<notin> set s)"
      by (simp flip: check_unseen_None_iff [of k])
    with Some show ?thesis by auto
  next
    case None
    note unseen = None [unfolded check_unseen_None_iff]
    show ?thesis
    proof (cases "t = TASK_QUEUE_TYPE_UNSPECIFIED")
      case True
      with None show ?thesis by simp
    next
      case False
      with None unseen r Cons.IH [of "List.map (\<lambda>r. (r, t)) rs @ s"] show ?thesis
        by (auto split: sum.splits)
    qed
  qed
qed

lemma check_provider_and_algorithm_None_iff:
  "check_provider_and_algorithm k v = None \<longleftrightarrow>
     ValidComputeProviderType (ProviderType (Compute v))
     \<and> (\<forall>a. Scaling v = Some a \<longrightarrow> ValidScalingAlgorithmType (ScalingAlgorithm a))"
  by (auto simp: check_provider_and_algorithm_def split: option.splits)

text \<open>One iteration accepts a well-formed group whose claims are new, and records them.\<close>

definition fresh_in :: "ScalingGroupSpec \<Rightarrow> seen_claims \<Rightarrow> bool" where
  "fresh_in v st \<longleftrightarrow> type_claims v \<inter> set (seen st) = {}
     \<and> catch_all_claims v \<inter> set (keys (seenTaskTypeCatchAll st)) = {}"

lemma check_group_spec:
  "(case check_group k v st of
      Inl e \<Rightarrow> \<not> (wf_group k v \<and> fresh_in v st)
    | Inr st' \<Rightarrow> wf_group k v \<and> fresh_in v st
        \<and> set (seen st') = type_claims v \<union> set (seen st)
        \<and> set (keys (seenTaskTypeCatchAll st')) =
            catch_all_claims v \<union> set (keys (seenTaskTypeCatchAll st)))"
proof (cases "k = '''' \<or> \<not> distinct (RegionIds v)")
  case True
  then show ?thesis
    by (auto simp: check_group_def wf_group_def check_region_ids_None_iff split: option.splits)
next
  case False
  then have d: "distinct (regions_of v)" and
    cr: "check_region_ids k [] (RegionIds v) = None"
    by (simp_all add: distinct_regions_of check_region_ids_None_iff)
  note ca = claim_catch_alls_spec [OF d, where k = k and m = "seenTaskTypeCatchAll st"]
  note ct = claim_task_types_spec
    [OF regions_of_nonempty [of v], where k = k and ts = "TaskTypes v" and s = "seen st"]
  note cp = check_provider_and_algorithm_None_iff [of k v]
  from False cr ca ct cp show ?thesis
    by (cases "TaskTypes v = []")
      (auto simp: check_group_def wf_group_def fresh_in_def type_claims_def catch_all_claims_def
        split: sum.splits option.splits)
qed

lemma check_groups_None_iff:
  "check_groups gs st = None \<longleftrightarrow>
     (\<forall>(k, v) \<in> set gs. wf_group k v \<and> fresh_in v st)
     \<and> sorted_wrt (\<lambda>kv kw. compatible (snd kv) (snd kw)) gs"
proof (induction gs arbitrary: st)
  case Nil
  then show ?case by simp
next
  case (Cons kv gs)
  obtain k v where kv: "kv = (k, v)" by fastforce
  show ?case
  proof (cases "check_group k v st")
    case (Inl e)
    with check_group_spec [of k v st] kv show ?thesis by auto
  next
    case (Inr st')
    with check_group_spec [of k v st] have st':
      "wf_group k v" "fresh_in v st" "set (seen st') = type_claims v \<union> set (seen st)"
      "set (keys (seenTaskTypeCatchAll st')) =
         catch_all_claims v \<union> set (keys (seenTaskTypeCatchAll st))"
      by auto
    then have "fresh_in w st' \<longleftrightarrow> fresh_in w st \<and> compatible v w" for w
      by (auto simp: fresh_in_def compatible_def)
    with Inr st'(1,2) kv show ?thesis by (auto simp: Cons.IH)
  qed
qed

lemma compatible_sym: "compatible v w \<longleftrightarrow> compatible w v"
  by (auto simp: compatible_def)

lemma sorted_wrt_symmetric:
  assumes "\<And>x y. R x y \<longleftrightarrow> R y x" and "distinct xs"
  shows "sorted_wrt R xs \<longleftrightarrow> (\<forall>x \<in> set xs. \<forall>y \<in> set xs. x \<noteq> y \<longrightarrow> R x y)"
  using assms(2) by (induction xs) (auto simp: assms(1))

lemma check_groups_start:
  assumes "distinct (keys gs)"
  shows "check_groups gs \<lparr>seen = [], seenTaskTypeCatchAll = []\<rparr> = None \<longleftrightarrow> wf_claims gs"
proof -
  have d: "distinct gs" using assms by (simp add: distinct_map)
  have inj: "\<And>kv kw. kv \<in> set gs \<Longrightarrow> kw \<in> set gs \<Longrightarrow> kv \<noteq> kw \<longleftrightarrow> fst kv \<noteq> fst kw"
    using assms by (auto simp: distinct_map inj_on_def)
  have "sorted_wrt (\<lambda>kv kw. compatible (snd kv) (snd kw)) gs \<longleftrightarrow>
    (\<forall>kv \<in> set gs. \<forall>kw \<in> set gs. kv \<noteq> kw \<longrightarrow> compatible (snd kv) (snd kw))"
    by (rule sorted_wrt_symmetric [OF _ d]) (rule compatible_sym)
  also have "\<dots> \<longleftrightarrow> (\<forall>(k, v) \<in> set gs. \<forall>(k', w) \<in> set gs. k \<noteq> k' \<longrightarrow> compatible v w)"
    using inj by fastforce
  finally show ?thesis
    by (simp add: check_groups_None_iff wf_claims_def fresh_in_def)
qed

lemma check_catch_alls_None_iff:
  "first_error (check_catch_all c) gs = None \<longleftrightarrow> (\<forall>(k, v) \<in> set gs. TaskTypes v = [] \<longrightarrow>
     (\<exists>r \<in> set (regions_of v). EffectiveTaskTypesForGroup (Some c) k r \<noteq> []))"
  by (auto simp: first_error_None_iff check_catch_all_def)

lemma check_regions_None_iff:
  "check_regions c = None \<longleftrightarrow> (\<forall>r \<in> set (listedRegionIds c). \<forall>r' \<in> set (listedRegionIds c).
     taskTypesServedInRegion c r = taskTypesServedInRegion c r')"
  by (cases "listedRegionIds c")
    (auto simp: check_regions_def first_error_None_iff Let_def split: if_splits)

lemma Validate_decides:
  assumes "distinct (keys (ScalingGroupSpecs c))"
  shows "Validate (Some c) = None \<longleftrightarrow> wf_spec c"
proof -
  have "Validate (Some c) = None \<longleftrightarrow> ScalingGroupSpecs c \<noteq> []
      \<and> check_groups (ScalingGroupSpecs c) \<lparr>seen = [], seenTaskTypeCatchAll = []\<rparr> = None
      \<and> first_error (check_catch_all c) (ScalingGroupSpecs c) = None \<and> check_regions c = None"
    by (simp add: Validate_def split: option.split)
  then show ?thesis
    by (simp only: wf_spec_def check_groups_start [OF assms] check_catch_alls_None_iff
        check_regions_None_iff)
qed

section \<open>The lookup of the serving group\<close>

lemma claimRank_cases:
  "claimRank g t r = 3 \<longleftrightarrow> r \<in> set (RegionIds g) \<and> t \<in> set (TaskTypes g)"
  "claimRank g t r = 2 \<longleftrightarrow> r \<in> set (RegionIds g) \<and> TaskTypes g = [] \<and> t \<in> set scalableTaskQueueTypes"
  "claimRank g t r = 1 \<longleftrightarrow> RegionIds g = [] \<and> t \<in> set (TaskTypes g)"
  "claimRank g t r = 0 \<longleftrightarrow> RegionIds g = [] \<and> TaskTypes g = [] \<and> t \<in> set scalableTaskQueueTypes"
  by (auto simp: claimRank_def Let_def)

lemma claimRank_range: "claimRank g t r \<in> {- 1, 0, 1, 2, 3}"
  by (simp add: claimRank_def Let_def)

lemma claimRank_ge [simp]: "- 1 \<le> claimRank g t r"
  by (simp add: claimRank_def Let_def)

lemma claim_step_eq:
  "claim_step t r kv (k, n) =
    (if claimRank (snd kv) t r > n then (fst kv, claimRank (snd kv) t r) else (k, n))"
  by (simp add: claim_step_def Let_def)

lemma fold_claim_step:
  assumes "fold (claim_step t r) gs (k0, n0) = (k, n)"
  shows "n0 \<le> n \<and> (\<forall>kv \<in> set gs. claimRank (snd kv) t r \<le> n)
    \<and> (if n = n0 then k = k0 else \<exists>v. (k, v) \<in> set gs \<and> claimRank v t r = n)"
  using assms
proof (induction gs arbitrary: k0 n0)
  case Nil
  then show ?case by simp
next
  case (Cons kv gs)
  show ?case
  proof (cases "claimRank (snd kv) t r > n0")
    case True
    then have "fold (claim_step t r) gs (fst kv, claimRank (snd kv) t r) = (k, n)"
      using Cons.prems by (simp add: claim_step_eq)
    from Cons.IH [OF this] True show ?thesis
      by (cases kv) (auto split: if_splits)
  next
    case False
    then have "fold (claim_step t r) gs (k0, n0) = (k, n)"
      using Cons.prems by (simp add: claim_step_eq)
    from Cons.IH [OF this] False show ?thesis by (auto split: if_splits)
  qed
qed

text \<open>The comment in the code: at most one group claims per rank.\<close>

lemma wf_claimsD:
  "wf_claims gs \<Longrightarrow> (k, v) \<in> set gs \<Longrightarrow> wf_group k v"
  "wf_claims gs \<Longrightarrow> (k, v) \<in> set gs \<Longrightarrow> (k', w) \<in> set gs \<Longrightarrow> k \<noteq> k' \<Longrightarrow> compatible v w"
  by (auto simp: wf_claims_def)

lemma rank_unique:
  assumes wf: "wf_claims gs" and in_gs: "(k, v) \<in> set gs" "(k', w) \<in> set gs"
    and eq: "claimRank v t r = claimRank w t r" and pos: "claimRank v t r \<noteq> - 1"
  shows "k = k'"
proof (rule ccontr)
  assume "k \<noteq> k'"
  then have "compatible v w" using wf_claimsD(2) [OF wf in_gs] by simp
  moreover have "claimRank w t r \<noteq> - 1" using eq pos by simp
  ultimately show False
    using claimRank_range [of v t r] eq pos claimRank_cases [of v t r] claimRank_cases [of w t r]
    by (auto simp: compatible_def type_claims_def catch_all_claims_def regions_of_def
        split: if_splits)
qed

text \<open>What the loop computes: the group with the highest rank, or nothing.\<close>

lemma lookup_None [simp]: "ScalingGroupKeyForTaskQueueType None t r = ''''"
  by (simp add: ScalingGroupKeyForTaskQueueType_def)

lemma lookup_max:
  assumes wf: "wf_claims (ScalingGroupSpecs c)"
  shows "(\<exists>k v. (k, v) \<in> set (ScalingGroupSpecs c) \<and> k \<noteq> ''''
        \<and> ScalingGroupKeyForTaskQueueType (Some c) t r = k \<and> claimRank v t r \<noteq> - 1
        \<and> (\<forall>(k', w) \<in> set (ScalingGroupSpecs c). claimRank w t r \<le> claimRank v t r))
    \<or> ScalingGroupKeyForTaskQueueType (Some c) t r = ''''
        \<and> (\<forall>(k', w) \<in> set (ScalingGroupSpecs c). claimRank w t r = - 1)"
proof -
  obtain k n where kn: "fold (claim_step t r) (ScalingGroupSpecs c) ('''', - 1) = (k, n)"
    by fastforce
  note f = fold_claim_step [OF kn]
  have key: "ScalingGroupKeyForTaskQueueType (Some c) t r = k"
    by (simp add: ScalingGroupKeyForTaskQueueType_def kn)
  show ?thesis
  proof (cases "n = - 1")
    case True
    with f have "claimRank (snd kv) t r = - 1" if "kv \<in> set (ScalingGroupSpecs c)" for kv
      using that by (simp add: order_antisym)
    with True f key show ?thesis by auto
  next
    case False
    with f obtain v where "(k, v) \<in> set (ScalingGroupSpecs c)" "claimRank v t r = n" by auto
    moreover from this wf have "k \<noteq> ''''" by (auto dest: wf_claimsD(1) simp: wf_group_def)
    ultimately show ?thesis using f key False by fastforce
  qed
qed

lemma lookup_iff:
  assumes wf: "wf_claims (ScalingGroupSpecs c)" and k: "k \<noteq> ''''"
    and d: "distinct (keys (ScalingGroupSpecs c))"
  shows "ScalingGroupKeyForTaskQueueType (Some c) t r = k \<longleftrightarrow>
    (\<exists>v. (k, v) \<in> set (ScalingGroupSpecs c) \<and> claimRank v t r \<noteq> - 1
       \<and> (\<forall>(k', w) \<in> set (ScalingGroupSpecs c). claimRank w t r \<le> claimRank v t r))"
    (is "?L \<longleftrightarrow> ?R")
proof
  assume ?L
  with lookup_max [OF wf, of t r] k show ?R by auto
next
  assume ?R
  then obtain v where v: "(k, v) \<in> set (ScalingGroupSpecs c)" "claimRank v t r \<noteq> - 1"
    "\<forall>(k', w) \<in> set (ScalingGroupSpecs c). claimRank w t r \<le> claimRank v t r" by blast
  from lookup_max [OF wf, of t r] show ?L
  proof (elim disjE exE conjE)
    fix k2 v2
    assume k2: "(k2, v2) \<in> set (ScalingGroupSpecs c)"
      "ScalingGroupKeyForTaskQueueType (Some c) t r = k2"
      "\<forall>(k', w) \<in> set (ScalingGroupSpecs c). claimRank w t r \<le> claimRank v2 t r"
    with v have "claimRank v t r = claimRank v2 t r" by fastforce
    then show ?L using rank_unique [OF wf v(1) k2(1) _ v(2)] k2(2) by simp
  next
    assume "\<forall>(k', w) \<in> set (ScalingGroupSpecs c). claimRank w t r = - 1"
    with v show ?L by auto
  qed
qed

text \<open>The precedence list of the README, read literally: the first group, in any order, that
  matches the first of the four conditions some group matches.\<close>

definition precedence :: "(TaskQueueType \<Rightarrow> string \<Rightarrow> ScalingGroupSpec \<Rightarrow> bool) list" where
  "precedence =
    [\<lambda>t r g. r \<in> set (RegionIds g) \<and> t \<in> set (TaskTypes g),
     \<lambda>t r g. r \<in> set (RegionIds g) \<and> TaskTypes g = [] \<and> t \<in> set scalableTaskQueueTypes,
     \<lambda>t r g. RegionIds g = [] \<and> t \<in> set (TaskTypes g),
     \<lambda>t r g. RegionIds g = [] \<and> TaskTypes g = [] \<and> t \<in> set scalableTaskQueueTypes]"

fun first_match ::
    "(ScalingGroupSpec \<Rightarrow> bool) list \<Rightarrow> (string \<times> ScalingGroupSpec) list \<Rightarrow> string" where
  "first_match [] gs = ''''"
| "first_match (p # ps) gs = (case List.find (\<lambda>kv. p (snd kv)) gs of
     Some kv \<Rightarrow> fst kv
   | None \<Rightarrow> first_match ps gs)"

definition serving_group ::
    "(string, ScalingGroupSpec) gomap \<Rightarrow> TaskQueueType \<Rightarrow> string \<Rightarrow> string" where
  "serving_group gs t r = first_match (List.map (\<lambda>p. p t r) precedence) gs"

lemma findD: "List.find P xs = Some x \<Longrightarrow> x \<in> set xs \<and> P x"
  by (auto simp: find_Some_iff)

lemma find_rank:
  assumes wf: "wf_claims gs" and kv: "(k, v) \<in> set gs" and n: "claimRank v t r = n" "n \<noteq> - 1"
  shows "\<exists>w. List.find (\<lambda>kv. claimRank (snd kv) t r = n) gs = Some (k, w)"
proof (cases "List.find (\<lambda>kv. claimRank (snd kv) t r = n) gs")
  case None
  with kv n show ?thesis by (auto simp: find_None_iff)
next
  case (Some kw)
  then have "kw \<in> set gs" "claimRank (snd kw) t r = n"
    using findD by fast+
  then have "k = fst kw"
    using rank_unique [OF wf kv, of "fst kw" "snd kw" t r] n by simp
  with Some show ?thesis by (cases kw) simp
qed

lemma precedence_by_rank:
  "serving_group gs t r = first_match (List.map (\<lambda>n g. claimRank g t r = n) [3, 2, 1, 0]) gs"
  by (simp add: serving_group_def precedence_def claimRank_cases)

lemma lookup_serving_group:
  assumes wf: "wf_claims (ScalingGroupSpecs c)"
  shows "ScalingGroupKeyForTaskQueueType (Some c) t r = serving_group (ScalingGroupSpecs c) t r"
  using lookup_max [OF wf, of t r]
proof (elim disjE exE conjE)
  fix k v
  assume k: "(k, v) \<in> set (ScalingGroupSpecs c)" "ScalingGroupKeyForTaskQueueType (Some c) t r = k"
    "claimRank v t r \<noteq> - 1"
    and mx: "\<forall>(k', w) \<in> set (ScalingGroupSpecs c). claimRank w t r \<le> claimRank v t r"
  note fr = find_rank [OF wf k(1) refl k(3)]
  have none: "List.find (\<lambda>kv. claimRank (snd kv) t r = n) (ScalingGroupSpecs c) = None"
    if "claimRank v t r < n" for n
    using mx that by (fastforce simp: find_None_iff)
  show ?thesis
    using claimRank_range [of v t r] k(2,3) fr
    by (auto simp: precedence_by_rank none)
next
  assume "ScalingGroupKeyForTaskQueueType (Some c) t r = ''''"
    and "\<forall>(k', w) \<in> set (ScalingGroupSpecs c). claimRank w t r = - 1"
  then show ?thesis
    by (auto simp: precedence_by_rank find_None_iff split: option.split dest!: findD)
qed

text \<open>The choice does not depend on the iteration order.\<close>

lemma wf_claims_set_cong: "set gs = set gs' \<Longrightarrow> wf_claims gs \<longleftrightarrow> wf_claims gs'"
  by (simp add: wf_claims_def)

lemma lookup_order:
  assumes wf: "wf_claims (ScalingGroupSpecs c)"
    and d: "distinct (keys (ScalingGroupSpecs c))" "distinct (keys (ScalingGroupSpecs c'))"
    and eq: "set (ScalingGroupSpecs c) = set (ScalingGroupSpecs c')"
  shows "ScalingGroupKeyForTaskQueueType (Some c) t r = ScalingGroupKeyForTaskQueueType (Some c') t r"
proof -
  have wf': "wf_claims (ScalingGroupSpecs c')" using wf eq wf_claims_set_cong by metis
  have "ScalingGroupKeyForTaskQueueType (Some c) t r = k \<longleftrightarrow>
      ScalingGroupKeyForTaskQueueType (Some c') t r = k" if "k \<noteq> ''''" for k
    using lookup_iff [OF wf that d(1)] lookup_iff [OF wf' that d(2)] eq by simp
  then show ?thesis by metis
qed

section \<open>Effective task types and listed regions\<close>

lemma lookup_claims:
  assumes wf: "wf_claims (ScalingGroupSpecs c)" and d: "distinct (keys (ScalingGroupSpecs c))"
    and "ScalingGroupKeyForTaskQueueType (Some c) t r = k" and "k \<noteq> ''''"
  shows "\<exists>v. map_of (ScalingGroupSpecs c) k = Some v \<and> claimRank v t r \<noteq> - 1"
  using assms lookup_iff [OF wf, of k t r] by (auto simp: map_of_Some_iff)

lemma claimRank_candidate:
  "claimRank v t r \<noteq> - 1 \<Longrightarrow>
     t \<in> set (if TaskTypes v = [] then scalableTaskQueueTypes else TaskTypes v)"
  by (auto simp: claimRank_def Let_def split: if_splits)

lemma effective_iff:
  assumes wf: "wf_claims (ScalingGroupSpecs c)" and d: "distinct (keys (ScalingGroupSpecs c))"
  shows "t \<in> set (EffectiveTaskTypesForGroup (Some c) k r) \<longleftrightarrow>
    k \<noteq> '''' \<and> ScalingGroupKeyForTaskQueueType (Some c) t r = k"
proof (cases "k = ''''")
  case True
  have "map_of (ScalingGroupSpecs c) '''' = None"
    using wf wf_claimsD(1) [OF wf, of "''''"] d
    by (cases "map_of (ScalingGroupSpecs c) ''''") (auto simp: map_of_Some_iff wf_group_def)
  with True show ?thesis by (simp add: EffectiveTaskTypesForGroup_def)
next
  case False
  show ?thesis
  proof
    assume "t \<in> set (EffectiveTaskTypesForGroup (Some c) k r)"
    with False show "k \<noteq> '''' \<and> ScalingGroupKeyForTaskQueueType (Some c) t r = k"
      by (auto simp: EffectiveTaskTypesForGroup_def Let_def split: option.splits)
  next
    assume k: "k \<noteq> '''' \<and> ScalingGroupKeyForTaskQueueType (Some c) t r = k"
    then obtain v where "map_of (ScalingGroupSpecs c) k = Some v" "claimRank v t r \<noteq> - 1"
      using lookup_claims [OF wf d] by blast
    with k claimRank_candidate [of v t r]
    show "t \<in> set (EffectiveTaskTypesForGroup (Some c) k r)"
      by (auto simp: EffectiveTaskTypesForGroup_def Let_def)
  qed
qed

lemma distinct_scalable: "distinct scalableTaskQueueTypes"
  by (simp add: scalableTaskQueueTypes_def)

lemma effective_distinct:
  assumes wf: "wf_claims (ScalingGroupSpecs c)"
  shows "distinct (EffectiveTaskTypesForGroup (Some c) k r)"
  using wf_claimsD(1) [OF wf] distinct_scalable
  by (auto simp: EffectiveTaskTypesForGroup_def Let_def wf_group_def
      dest!: map_of_SomeD split: option.splits)

lemma set_add_new: "set (fold add_new rs acc) = set rs \<union> set acc"
  by (induction rs arbitrary: acc) (auto simp: add_new_def)

lemma set_listed: "set (fold (\<lambda>kv rs. fold add_new (RegionIds (snd kv)) rs) gs acc) =
  (\<Union>kv \<in> set gs. set (RegionIds (snd kv))) \<union> set acc"
  by (induction gs arbitrary: acc) (auto simp: set_add_new)

lemma set_listedRegionIds:
  "set (listedRegionIds c) = (\<Union>kv \<in> set (ScalingGroupSpecs c). set (RegionIds (snd kv)))"
  by (simp add: listedRegionIds_def set_listed)

lemma taskTypesServed_iff:
  "t \<in> set (taskTypesServedInRegion c r) \<longleftrightarrow>
     t \<in> set scalableTaskQueueTypes \<and> ScalingGroupKeyForTaskQueueType (Some c) t r \<noteq> ''''"
  by (auto simp: taskTypesServedInRegion_def)

section \<open>Independence of the iteration order\<close>

lemma wf_spec_order:
  assumes d: "distinct (keys (ScalingGroupSpecs c))" "distinct (keys (ScalingGroupSpecs c'))"
    and eq: "set (ScalingGroupSpecs c) = set (ScalingGroupSpecs c')"
    and wf: "wf_spec c"
  shows "wf_spec c'"
proof -
  have wfc: "wf_claims (ScalingGroupSpecs c)" using wf by (simp add: wf_spec_def)
  have look: "ScalingGroupKeyForTaskQueueType (Some c') = ScalingGroupKeyForTaskQueueType (Some c)"
    using lookup_order [OF wfc d eq] by (intro ext) simp
  have m: "map_of (ScalingGroupSpecs c') = map_of (ScalingGroupSpecs c)"
    using map_of_set_eq [OF d eq] by simp
  have eff: "EffectiveTaskTypesForGroup (Some c') = EffectiveTaskTypesForGroup (Some c)"
    by (intro ext) (simp add: EffectiveTaskTypesForGroup_def look m Let_def split: option.split)
  have served: "taskTypesServedInRegion c' = taskTypesServedInRegion c"
    by (intro ext) (simp add: taskTypesServedInRegion_def look)
  have listed: "set (listedRegionIds c') = set (listedRegionIds c)"
    by (simp add: set_listedRegionIds eq)
  have "ScalingGroupSpecs c' \<noteq> []" using wf eq by (auto simp: wf_spec_def)
  then show ?thesis
    using wf wf_claims_set_cong [OF eq]
    by (simp only: wf_spec_def eff served listed eq simp_thms) blast
qed

text \<open>A valid specification to evaluate: the one of the README, with a catch-all added.\<close>

definition group_of :: "TaskQueueType list \<Rightarrow> string list \<Rightarrow> string \<Rightarrow> ScalingGroupSpec" where
  "group_of ts rs p = \<lparr>TaskTypes = ts, RegionIds = rs,
     Compute = \<lparr>ProviderType = p, ProviderConfig = None, NexusEndpoint = ''''\<rparr>, Scaling = None\<rparr>"

definition readme_spec :: WorkerControllerInstanceSpec where
  "readme_spec = \<lparr>ScalingGroupSpecs =
     [(''workflows'', group_of [TASK_QUEUE_TYPE_WORKFLOW] [] ''aws-lambda''),
      (''workflows-west'', group_of [TASK_QUEUE_TYPE_WORKFLOW] [''aws-us-west-2''] ''aws-lambda''),
      (''activities'', group_of [TASK_QUEUE_TYPE_ACTIVITY] [] ''aws-ecs''),
      (''rest'', group_of [] [] ''k8s'')]\<rparr>"

definition readme_spec_reordered :: WorkerControllerInstanceSpec where
  "readme_spec_reordered = \<lparr>ScalingGroupSpecs = rev (ScalingGroupSpecs readme_spec)\<rparr>"

lemma readme_spec_ok:
  "distinct (keys (ScalingGroupSpecs readme_spec))" "Validate (Some readme_spec) = None"
  by code_simp+

section \<open>Properties\<close>

text \<open>C2: \<open>Validate\<close> accepts a specification exactly when it meets the contract \<open>wf_spec\<close>:
  at least one group, every group with an id, a known provider and a known algorithm, no
  region, task type or catch-all claimed twice, every catch-all serving something, and every
  listed region serving the same task types.\<close>

theorem Validate_iff_wf_spec:
  assumes "distinct (keys (ScalingGroupSpecs c))"
  shows "Validate (Some c) = None \<longleftrightarrow> wf_spec c"
  using assms by (rule Validate_decides)

theorem Validate_iff_wf_spec_witness:
  "distinct (keys (ScalingGroupSpecs readme_spec)) \<and> wf_spec readme_spec"
  using Validate_iff_wf_spec [of readme_spec] readme_spec_ok by simp

text \<open>C3: For a specification that \<open>Validate\<close> accepts, the loop of
  \<open>ScalingGroupKeyForTaskQueueType\<close> returns the group that the README's four-step precedence
  names (listed for the region, catch-all of the region, listed without region, catch-all),
  and \<open>""\<close> when no step matches.\<close>

theorem lookup_is_readme_precedence:
  assumes "distinct (keys (ScalingGroupSpecs c))" and "Validate (Some c) = None"
  shows "ScalingGroupKeyForTaskQueueType (Some c) t regionId =
    serving_group (ScalingGroupSpecs c) t regionId"
  using assms Validate_decides by (intro lookup_serving_group) (simp add: wf_spec_def)

theorem lookup_is_readme_precedence_witness:
  "serving_group (ScalingGroupSpecs readme_spec) TASK_QUEUE_TYPE_WORKFLOW ''aws-us-west-2''
     = ''workflows-west''
   \<and> ScalingGroupKeyForTaskQueueType (Some readme_spec) TASK_QUEUE_TYPE_NEXUS ''eu'' = ''rest''"
proof -
  note look = lookup_is_readme_precedence [OF readme_spec_ok]
  have "ScalingGroupKeyForTaskQueueType (Some readme_spec) TASK_QUEUE_TYPE_WORKFLOW
      ''aws-us-west-2'' = ''workflows-west''"
    "serving_group (ScalingGroupSpecs readme_spec) TASK_QUEUE_TYPE_NEXUS ''eu'' = ''rest''"
    by code_simp+
  then show ?thesis by (simp add: look)
qed

text \<open>The verdict of \<open>Validate\<close>, and for accepted specifications the group that serves a
  task queue type, do not depend on the order in which Go iterates over the map of groups.\<close>

theorem Validate_order_independent:
  assumes "distinct (keys (ScalingGroupSpecs c))" and "distinct (keys (ScalingGroupSpecs c'))"
    and "set (ScalingGroupSpecs c) = set (ScalingGroupSpecs c')"
  shows "(Validate (Some c) = None \<longleftrightarrow> Validate (Some c') = None)
    \<and> (Validate (Some c) = None \<longrightarrow>
        ScalingGroupKeyForTaskQueueType (Some c) = ScalingGroupKeyForTaskQueueType (Some c'))"
proof -
  have "wf_spec c \<longleftrightarrow> wf_spec c'"
    using wf_spec_order [OF assms] wf_spec_order [OF assms(2,1) assms(3) [symmetric]] by blast
  moreover have "ScalingGroupKeyForTaskQueueType (Some c) = ScalingGroupKeyForTaskQueueType (Some c')"
    if "wf_spec c"
    using lookup_order [OF _ assms] that by (intro ext) (simp add: wf_spec_def)
  ultimately show ?thesis using assms(1,2) by (simp add: Validate_decides)
qed

theorem Validate_order_independent_witness:
  "distinct (keys (ScalingGroupSpecs readme_spec))
   \<and> Validate (Some readme_spec_reordered) = None"
  using Validate_order_independent [of readme_spec readme_spec_reordered] readme_spec_ok
  by (simp add: readme_spec_reordered_def rev_map [symmetric])

text \<open>For an accepted specification the effective task types of the groups partition what is
  served in a region: a type is effective for at most one group, without repetition, and it is
  effective for some group exactly when the lookup finds a group for it.\<close>

theorem effective_types_partition:
  assumes "distinct (keys (ScalingGroupSpecs c))" and "Validate (Some c) = None"
  shows "distinct (EffectiveTaskTypesForGroup (Some c) k r)
    \<and> (t \<in> set (EffectiveTaskTypesForGroup (Some c) k r) \<longleftrightarrow>
         k \<noteq> '''' \<and> ScalingGroupKeyForTaskQueueType (Some c) t r = k)
    \<and> ((\<exists>!k'. t \<in> set (EffectiveTaskTypesForGroup (Some c) k' r)) \<longleftrightarrow>
         ScalingGroupKeyForTaskQueueType (Some c) t r \<noteq> '''')"
proof -
  have wf: "wf_claims (ScalingGroupSpecs c)"
    using assms Validate_decides by (simp add: wf_spec_def)
  note iff = effective_iff [OF wf assms(1)]
  have "(\<exists>!k'. t \<in> set (EffectiveTaskTypesForGroup (Some c) k' r)) \<longleftrightarrow>
      ScalingGroupKeyForTaskQueueType (Some c) t r \<noteq> ''''"
    unfolding iff by auto
  then show ?thesis by (intro conjI effective_distinct [OF wf] iff)
qed

theorem effective_types_partition_witness:
  "\<exists>!k'. TASK_QUEUE_TYPE_NEXUS \<in> set (EffectiveTaskTypesForGroup (Some readme_spec) k' ''eu'')"
proof -
  have "ScalingGroupKeyForTaskQueueType (Some readme_spec) TASK_QUEUE_TYPE_NEXUS ''eu'' = ''rest''"
    by code_simp
  then show ?thesis
    using effective_types_partition [OF readme_spec_ok, of "''rest''" "''eu''" TASK_QUEUE_TYPE_NEXUS]
    by simp
qed

text \<open>Failing over between listed regions loses no compute: for an accepted specification a
  scalable task queue type has a serving group in one listed region exactly when it has one in
  every other listed region.\<close>

theorem failover_keeps_served_types:
  assumes "distinct (keys (ScalingGroupSpecs c))" and "Validate (Some c) = None"
    and "(k, v) \<in> set (ScalingGroupSpecs c)" and "r \<in> set (RegionIds v)"
    and "(k', v') \<in> set (ScalingGroupSpecs c)" and "r' \<in> set (RegionIds v')"
    and "t \<in> set scalableTaskQueueTypes"
  shows "ScalingGroupKeyForTaskQueueType (Some c) t r \<noteq> '''' \<longleftrightarrow>
    ScalingGroupKeyForTaskQueueType (Some c) t r' \<noteq> ''''"
proof -
  have "r \<in> set (listedRegionIds c)" "r' \<in> set (listedRegionIds c)"
    using assms(3-6) by (force simp: set_listedRegionIds)+
  moreover have "wf_spec c" using assms(1,2) by (simp add: Validate_decides)
  ultimately have "taskTypesServedInRegion c r = taskTypesServedInRegion c r'"
    unfolding wf_spec_def by blast
  with assms(7) show ?thesis by (metis taskTypesServed_iff)
qed

definition two_region_spec :: WorkerControllerInstanceSpec where
  "two_region_spec = \<lparr>ScalingGroupSpecs =
     [(''west'', group_of [TASK_QUEUE_TYPE_ACTIVITY] [''us-west''] ''aws-ecs''),
      (''east'', group_of [TASK_QUEUE_TYPE_ACTIVITY] [''us-east''] ''aws-ecs'')]\<rparr>"

theorem failover_keeps_served_types_witness:
  "ScalingGroupKeyForTaskQueueType (Some two_region_spec) TASK_QUEUE_TYPE_ACTIVITY ''us-west'' \<noteq> ''''"
proof -
  have ok: "distinct (keys (ScalingGroupSpecs two_region_spec))"
    "Validate (Some two_region_spec) = None"
    by code_simp+
  have east: "ScalingGroupKeyForTaskQueueType (Some two_region_spec) TASK_QUEUE_TYPE_ACTIVITY
      ''us-east'' \<noteq> ''''"
    by code_simp
  have members:
    "(''west'', group_of [TASK_QUEUE_TYPE_ACTIVITY] [''us-west''] ''aws-ecs'')
      \<in> set (ScalingGroupSpecs two_region_spec)"
    "(''east'', group_of [TASK_QUEUE_TYPE_ACTIVITY] [''us-east''] ''aws-ecs'')
      \<in> set (ScalingGroupSpecs two_region_spec)"
    by (simp_all add: two_region_spec_def)
  have "''us-west'' \<in> set (RegionIds (group_of [TASK_QUEUE_TYPE_ACTIVITY] [''us-west''] ''aws-ecs''))"
    "''us-east'' \<in> set (RegionIds (group_of [TASK_QUEUE_TYPE_ACTIVITY] [''us-east''] ''aws-ecs''))"
    "TASK_QUEUE_TYPE_ACTIVITY \<in> set scalableTaskQueueTypes"
    by (simp_all add: group_of_def scalableTaskQueueTypes_def)
  then show ?thesis
    using failover_keeps_served_types [OF ok members(1) _ members(2)] east by blast
qed

end
