(* ===== verification/Algorithm.thy ===== *)
theory Algorithm
  imports Spec
begin

text \<open>
  \<open>src/wci/workflow/scaling_algorithm/registry.go\<close>: the data that the scaling algorithms
  exchange with the rest of the controller, the registry of algorithms, and the interface
  \<open>ScalingAlgorithm\<close> with the contract its comments state, as a locale.  The signal and metrics
  types are those of \<open>iface/workflow.go\<close>, \<open>LaunchStrategy\<close> is that of
  \<open>compute_provider/registry.go\<close>.

  An operation that reads the clock takes the current time in milliseconds (\<open>nowMs\<close>) as an
  argument.  An interface value is the record \<open>algorithm_ops\<close> of its methods; of the methods
  that return an error only \<open>ProcessDeferredScalingDecision\<close> ever returns one, the others
  return their response alone.
\<close>

section \<open>Data\<close>

datatype LaunchStrategy = LaunchStrategyInvoke | LaunchStrategyWorkerSet

datatype ActionType =
    ActionTypeInvokeWorker
  | ActionTypeUpdateWorkerSetSize
  | ActionTypeDeferredScalingDecision

record ScalingAction =
  ScalingGroupKey :: string
  Action :: ActionType
  Count :: "int option"
  EffectiveTaskTypes :: "TaskQueueType list"

record QueueTypeScalingMetrics =
  LastBacklogCount :: int
  LastArrivalRate :: flt
  LastProcessingRate :: flt
  LastBacklogAge :: int

record ScalingMetricsSnapshot =
  Workflow :: "QueueTypeScalingMetrics option"
  Activity :: "QueueTypeScalingMetrics option"
  Nexus :: "QueueTypeScalingMetrics option"

record SignalTaskAddRequest =
  TaskQueueName :: string
  SignalTaskQueueType :: TaskQueueType
  IsSyncMatch :: bool
  SyncMatchSignalsSinceLast :: int
  NoSyncMatchSignalsSinceLast :: int

record TaskAddResponse =
  TaskAddActions :: "ScalingAction list"
  TaskAddStatus :: ScalingAlgorithmStatus
  ThrottledCount :: int

text \<open>\<open>NextPoll\<close> is a \<open>time.Duration\<close>, in nanoseconds.\<close>

record MetricsPollResponse =
  PollActions :: "ScalingAction list"
  PollStatus :: ScalingAlgorithmStatus
  NextPoll :: "int option"

record TaskQueueRegistrationResponse =
  RegistrationActions :: "ScalingAction list"
  RegistrationStatus :: ScalingAlgorithmStatus

datatype algorithm_error = MetricsGetterNil | MetricsFetchFailed string

text \<open>A \<open>ScalingMetricsSnapshotGetter\<close> is memoised: it stands for one result, an error or a
  (possibly nil) snapshot; \<open>None\<close> is the nil getter.\<close>

type_synonym metrics_getter = "(string + ScalingMetricsSnapshot option) option"

definition action_of :: "ActionType \<Rightarrow> int option \<Rightarrow> ScalingAction" where
  "action_of t n = \<lparr>ScalingGroupKey = '''', Action = t, Count = n, EffectiveTaskTypes = []\<rparr>"

text \<open>\<open>time.Duration(ms) * time.Millisecond\<close>.\<close>

definition millis :: "int \<Rightarrow> int" where
  "millis ms = wrap64 (ms * 1000000)"

text \<open>The state to update: a copy of the prior one, empty when that is nil, without the keys
  the algorithm does not know.\<close>

definition some_map :: "anymap option \<Rightarrow> anymap" where
  "some_map m = (case m of None \<Rightarrow> [] | Some l \<Rightarrow> l)"

definition known_state :: "string list \<Rightarrow> anymap option \<Rightarrow> anymap" where
  "known_state valid priorState = retain_keys (\<lambda>k. k \<in> set valid) (some_map priorState)"

section \<open>The interface\<close>

record algorithm_ops =
  CompatibleLaunchStrategies :: "LaunchStrategy list"
  opProcessTaskAdd :: "int \<Rightarrow> ScalingAlgorithmConfig \<Rightarrow> ScalingAlgorithmStatus
     \<Rightarrow> SignalTaskAddRequest \<Rightarrow> TaskAddResponse"
  opProcessDeferredScalingDecision :: "ScalingAlgorithmConfig \<Rightarrow> ScalingAlgorithmStatus
     \<Rightarrow> SignalTaskAddRequest \<Rightarrow> metrics_getter \<Rightarrow> algorithm_error + TaskAddResponse"
  opProcessMetricsPoll :: "int \<Rightarrow> ScalingAlgorithmConfig \<Rightarrow> ScalingAlgorithmStatus
     \<Rightarrow> ScalingMetricsSnapshot \<Rightarrow> MetricsPollResponse"
  opTaskQueueRegistrationActions :: "ScalingAlgorithmConfig \<Rightarrow> ScalingAlgorithmStatus
     \<Rightarrow> TaskQueueRegistrationResponse"
  opInactiveGroupActions :: "ScalingAlgorithmConfig \<Rightarrow> ScalingAlgorithmStatus
     \<Rightarrow> MetricsPollResponse"

text \<open>An action that a provider with one of the launch strategies can carry out at once: an
  invocation, or a resize that names its size.\<close>

definition executable_action :: "LaunchStrategy list \<Rightarrow> ScalingAction \<Rightarrow> bool" where
  "executable_action strategies a = (case Action a of
     ActionTypeInvokeWorker \<Rightarrow> LaunchStrategyInvoke \<in> set strategies
   | ActionTypeUpdateWorkerSetSize \<Rightarrow>
       LaunchStrategyWorkerSet \<in> set strategies \<and> Count a \<noteq> None
   | ActionTypeDeferredScalingDecision \<Rightarrow> False)"

definition status_keys_in :: "string list \<Rightarrow> ScalingAlgorithmStatus \<Rightarrow> bool" where
  "status_keys_in valid s \<longleftrightarrow> set (keys (some_map s)) \<subseteq> set valid"

text \<open>One call of the algorithm by the controller, on the persisted status: the actions it asks
  for and the status to persist.  A failed deferred decision persists nothing.\<close>

datatype algorithm_event =
    TaskAddEvent int SignalTaskAddRequest
  | DeferredEvent SignalTaskAddRequest metrics_getter
  | MetricsPollEvent int ScalingMetricsSnapshot
  | RegistrationEvent
  | InactiveEvent

fun algorithm_step ::
    "algorithm_ops \<Rightarrow> ScalingAlgorithmConfig \<Rightarrow> algorithm_event \<Rightarrow> ScalingAlgorithmStatus
      \<Rightarrow> ScalingAction list \<times> ScalingAlgorithmStatus" where
  "algorithm_step ops config (TaskAddEvent nowMs req) s =
     (let r = opProcessTaskAdd ops nowMs config s req in (TaskAddActions r, TaskAddStatus r))"
| "algorithm_step ops config (DeferredEvent req getter) s =
     (case opProcessDeferredScalingDecision ops config s req getter of
        Inl e \<Rightarrow> ([], s) | Inr r \<Rightarrow> (TaskAddActions r, TaskAddStatus r))"
| "algorithm_step ops config (MetricsPollEvent nowMs snapshot) s =
     (let r = opProcessMetricsPoll ops nowMs config s snapshot in (PollActions r, PollStatus r))"
| "algorithm_step ops config RegistrationEvent s =
     (let r = opTaskQueueRegistrationActions ops config s
      in (RegistrationActions r, RegistrationStatus r))"
| "algorithm_step ops config InactiveEvent s =
     (let r = opInactiveGroupActions ops config s in (PollActions r, PollStatus r))"

fun algorithm_run ::
    "algorithm_ops \<Rightarrow> ScalingAlgorithmConfig \<Rightarrow> algorithm_event list \<Rightarrow> ScalingAlgorithmStatus
      \<Rightarrow> (algorithm_event \<times> ScalingAction) list \<times> ScalingAlgorithmStatus" where
  "algorithm_run ops config [] s = ([], s)"
| "algorithm_run ops config (ev # evs) s =
     (let (actions, s') = algorithm_step ops config ev s;
          (rest, s'') = algorithm_run ops config evs s'
      in (List.map (\<lambda>a. (ev, a)) actions @ rest, s''))"

fun is_task_add :: "algorithm_event \<Rightarrow> bool" where
  "is_task_add (TaskAddEvent nowMs req) = True"
| "is_task_add _ = False"

text \<open>
  The contract of the interface.  Only \<open>ProcessTaskAdd\<close> may ask for a deferred decision; every
  other action fits one of the algorithm's launch strategies; and the status an algorithm
  returns uses only its own keys, given that the status it was handed does.
\<close>

locale scaling_algorithm =
  fixes ops :: algorithm_ops
    and valid_keys :: "string list"
  assumes task_add_actions: "a \<in> set (TaskAddActions (opProcessTaskAdd ops now cfg s req)) \<Longrightarrow>
      executable_action (CompatibleLaunchStrategies ops) a
      \<or> Action a = ActionTypeDeferredScalingDecision"
    and deferred_actions: "opProcessDeferredScalingDecision ops cfg s req g = Inr r \<Longrightarrow>
      a \<in> set (TaskAddActions r) \<Longrightarrow> executable_action (CompatibleLaunchStrategies ops) a"
    and poll_actions: "a \<in> set (PollActions (opProcessMetricsPoll ops now cfg s snap)) \<Longrightarrow>
      executable_action (CompatibleLaunchStrategies ops) a"
    and registration_actions:
      "a \<in> set (RegistrationActions (opTaskQueueRegistrationActions ops cfg s)) \<Longrightarrow>
      executable_action (CompatibleLaunchStrategies ops) a"
    and inactive_actions: "a \<in> set (PollActions (opInactiveGroupActions ops cfg s)) \<Longrightarrow>
      executable_action (CompatibleLaunchStrategies ops) a"
    and task_add_keys: "status_keys_in valid_keys (TaskAddStatus (opProcessTaskAdd ops now cfg s req))"
    and deferred_keys: "opProcessDeferredScalingDecision ops cfg s req g = Inr r \<Longrightarrow>
      status_keys_in valid_keys s \<Longrightarrow> status_keys_in valid_keys (TaskAddStatus r)"
    and poll_keys: "status_keys_in valid_keys (PollStatus (opProcessMetricsPoll ops now cfg s snap))"
    and registration_keys: "status_keys_in valid_keys s \<Longrightarrow>
      status_keys_in valid_keys (RegistrationStatus (opTaskQueueRegistrationActions ops cfg s))"
    and inactive_keys: "status_keys_in valid_keys (PollStatus (opInactiveGroupActions ops cfg s))"
begin

lemma step_actions:
  "a \<in> set (fst (algorithm_step ops cfg ev s)) \<Longrightarrow>
    executable_action (CompatibleLaunchStrategies ops) a
    \<or> is_task_add ev \<and> Action a = ActionTypeDeferredScalingDecision"
  by (cases ev)
    (auto simp: Let_def split: sum.splits
      dest: task_add_actions deferred_actions poll_actions registration_actions inactive_actions)

lemma step_keys:
  "status_keys_in valid_keys s \<Longrightarrow> status_keys_in valid_keys (snd (algorithm_step ops cfg ev s))"
  by (cases ev)
    (auto simp: Let_def task_add_keys poll_keys registration_keys inactive_keys
      split: sum.split dest: deferred_keys)

lemma run_actions:
  "(ev, a) \<in> set (fst (algorithm_run ops cfg evs s)) \<Longrightarrow>
    executable_action (CompatibleLaunchStrategies ops) a
    \<or> is_task_add ev \<and> Action a = ActionTypeDeferredScalingDecision"
proof (induction evs arbitrary: s)
  case (Cons ev' evs)
  obtain actions s' where step: "algorithm_step ops cfg ev' s = (actions, s')" by fastforce
  with Cons.prems have "ev = ev' \<and> a \<in> set actions \<or> (ev, a) \<in> set (fst (algorithm_run ops cfg evs s'))"
    by (auto split: prod.splits)
  then show ?case
    using Cons.IH step_actions [where ev = ev' and s = s and cfg = cfg] step by auto
qed simp

lemma run_keys:
  "status_keys_in valid_keys s \<Longrightarrow> status_keys_in valid_keys (snd (algorithm_run ops cfg evs s))"
proof (induction evs arbitrary: s)
  case (Cons ev evs)
  have "status_keys_in valid_keys (snd (algorithm_step ops cfg ev s))"
    using step_keys Cons.prems .
  from Cons.IH [OF this] show ?case by (auto split: prod.splits)
qed simp

end

section \<open>The registry\<close>

text \<open>The two package-level maps; a constructor is represented by the value it constructs.\<close>

record 'c algorithm_registry =
  algorithmConstructors :: "(string, 'c) gomap"
  defaultAlgorithmByComputeProvider :: "(string, string) gomap"

definition RegisterScalingAlgorithm ::
    "string \<Rightarrow> 'c \<Rightarrow> string list \<Rightarrow> 'c algorithm_registry \<Rightarrow> 'c algorithm_registry" where
  "RegisterScalingAlgorithm algorithmType ctor defaults reg =
    \<lparr>algorithmConstructors = (if has_key (algorithmConstructors reg) algorithmType
       then algorithmConstructors reg
       else AList.update algorithmType ctor (algorithmConstructors reg)),
     defaultAlgorithmByComputeProvider =
       fold (\<lambda>providerType m. if has_key m providerType then m
          else AList.update providerType algorithmType m)
         defaults (defaultAlgorithmByComputeProvider reg)\<rparr>"

definition GetScalingAlgorithmWithoutValidation ::
    "'c algorithm_registry \<Rightarrow> string \<Rightarrow> 'c option" where
  "GetScalingAlgorithmWithoutValidation reg algorithmType =
     map_of (algorithmConstructors reg) algorithmType"

definition GetDefaultScalingAlgorithmForComputeProvider ::
    "'c algorithm_registry \<Rightarrow> string \<Rightarrow> 'c option" where
  "GetDefaultScalingAlgorithmForComputeProvider reg providerType =
    (case map_of (defaultAlgorithmByComputeProvider reg) providerType of
       Some algorithmType \<Rightarrow> GetScalingAlgorithmWithoutValidation reg algorithmType
     | None \<Rightarrow> None)"

text \<open>The list of enabled algorithms comes from the dynamic configuration; \<open>None\<close> is nil.\<close>

definition GetScalingAlgorithm ::
    "string list option \<Rightarrow> 'c algorithm_registry \<Rightarrow> string \<Rightarrow> 'c option" where
  "GetScalingAlgorithm enabledScalingAlgorithms reg algorithmType =
    (case enabledScalingAlgorithms of
       Some enabled \<Rightarrow> (if algorithmType \<notin> set enabled then None
         else map_of (algorithmConstructors reg) algorithmType)
     | None \<Rightarrow> map_of (algorithmConstructors reg) algorithmType)"

text \<open>Registration is first come, first served, in both maps.\<close>

lemma register_keeps:
  "map_of (algorithmConstructors reg) t = Some c \<Longrightarrow>
    map_of (algorithmConstructors (RegisterScalingAlgorithm t' c' ds reg)) t = Some c"
  by (auto simp: RegisterScalingAlgorithm_def has_key_iff map_simps)

lemma fold_defaults:
  "map_of (fold (\<lambda>p m. if has_key m p then m else AList.update p t m) ds m) q =
    (case map_of m q of Some x \<Rightarrow> Some x | None \<Rightarrow> if q \<in> set ds then Some t else None)"
  by (induction ds arbitrary: m) (auto simp: has_key_iff map_simps split: option.split)

lemma register_default:
  "map_of (defaultAlgorithmByComputeProvider (RegisterScalingAlgorithm t c ds reg)) p =
    (case map_of (defaultAlgorithmByComputeProvider reg) p of
       Some x \<Rightarrow> Some x | None \<Rightarrow> if p \<in> set ds then Some t else None)"
  by (simp add: RegisterScalingAlgorithm_def fold_defaults)

section \<open>Lemmas for the algorithms\<close>

lemma known_state_at:
  "map_of (known_state valid s) k = (if k \<in> set valid then any_at s k else None)"
  by (cases s) (auto simp: known_state_def some_map_def map_simps)

lemma known_state_keys: "fst ` set (known_state valid s) \<subseteq> set valid"
  by (auto simp: known_state_def)

lemma status_keys_Some: "status_keys_in valid (Some m) \<longleftrightarrow> fst ` set m \<subseteq> set valid"
  by (simp add: status_keys_in_def some_map_def)

lemma status_keys_None [simp]: "status_keys_in valid None"
  by (simp add: status_keys_in_def some_map_def)

lemma known_state_status: "status_keys_in valid (Some (known_state valid s))"
  by (simp add: status_keys_Some known_state_keys)

lemma status_keys_update [intro]:
  "status_keys_in valid (Some m) \<Longrightarrow> k \<in> set valid \<Longrightarrow>
    status_keys_in valid (Some (AList.update k v m))"
  by (simp add: status_keys_Some)

lemma status_keys_delete [intro]:
  "status_keys_in valid (Some m) \<Longrightarrow> status_keys_in valid (Some (AList.delete k m))"
  by (auto simp: status_keys_Some)

lemma executable_action_of:
  "executable_action strategies (action_of t n) \<longleftrightarrow>
    (t = ActionTypeInvokeWorker \<and> LaunchStrategyInvoke \<in> set strategies
     \<or> t = ActionTypeUpdateWorkerSetSize \<and> LaunchStrategyWorkerSet \<in> set strategies \<and> n \<noteq> None)"
  by (cases t) (simp_all add: executable_action_def action_of_def)

lemma Action_action_of [simp]: "Action (action_of t n) = t" "Count (action_of t n) = n"
  by (simp_all add: action_of_def)

section \<open>Cooldown timers\<close>

text \<open>
  Both algorithms space their actions with a timestamp in the status: an action that fires
  checks that enough time has passed since the timestamp and then sets it, and everything else
  leaves it alone.  The locale states that discipline; its lemma is what it buys over a run.
\<close>

text \<open>The events of a run that fire, with the times of the firings.\<close>

fun firings :: "('e \<Rightarrow> 's \<Rightarrow> 's) \<Rightarrow> ('e \<Rightarrow> 's \<Rightarrow> int option) \<Rightarrow> 'e list \<Rightarrow> 's \<Rightarrow> ('e \<times> int) list" where
  "firings step fires [] s = []"
| "firings step fires (ev # evs) s =
     (case fires ev s of None \<Rightarrow> [] | Some t \<Rightarrow> [(ev, t)]) @ firings step fires evs (step ev s)"

fun fire_times :: "('e \<Rightarrow> 's \<Rightarrow> 's) \<Rightarrow> ('e \<Rightarrow> 's \<Rightarrow> int option) \<Rightarrow> 'e list \<Rightarrow> 's \<Rightarrow> int list" where
  "fire_times step fires [] s = []"
| "fire_times step fires (ev # evs) s =
     (case fires ev s of None \<Rightarrow> [] | Some t \<Rightarrow> [t]) @ fire_times step fires evs (step ev s)"

lemma fire_times_firings: "fire_times step fires evs s = List.map snd (firings step fires evs s)"
  by (induction evs arbitrary: s) (simp_all split: option.split)

lemma firings_event: "(ev, t) \<in> set (firings step fires evs s) \<Longrightarrow> ev \<in> set evs"
  by (induction evs arbitrary: s) (auto split: option.splits)

text \<open>The gap that is kept before an event may depend on the event.\<close>

locale event_timer =
  fixes admissible :: "'e \<Rightarrow> bool"
    and step :: "'e \<Rightarrow> 's \<Rightarrow> 's"
    and fires :: "'e \<Rightarrow> 's \<Rightarrow> int option"
    and last_time :: "'s \<Rightarrow> int"
    and gap :: "'e \<Rightarrow> int"
    and known_time :: "int \<Rightarrow> bool"
  assumes fires_after_gap: "admissible ev \<Longrightarrow> fires ev s = Some t \<Longrightarrow>
      last_time (step ev s) = t \<and> known_time t
      \<and> (known_time (last_time s) \<longrightarrow> gap ev \<le> t - last_time s)"
    and quiet_kept: "admissible ev \<Longrightarrow> fires ev s = None \<Longrightarrow> last_time (step ev s) = last_time s"
begin

lemma firings_spaced:
  assumes "\<forall>ev \<in> set evs. admissible ev \<and> 0 \<le> gap ev"
  shows "sorted_wrt (\<lambda>(ev, t) (ev', t'). gap ev' \<le> t' - t) (firings step fires evs s)
    \<and> (known_time (last_time s) \<longrightarrow>
        (\<forall>(ev, t) \<in> set (firings step fires evs s). gap ev \<le> t - last_time s))"
  using assms
proof (induction evs arbitrary: s)
  case Nil
  then show ?case by simp
next
  case (Cons ev evs)
  let ?ts = "firings step fires evs (step ev s)"
  have ev: "admissible ev" "0 \<le> gap ev" using Cons.prems by simp_all
  have ih: "sorted_wrt (\<lambda>(ev, t) (ev', t'). gap ev' \<le> t' - t) ?ts"
    "known_time (last_time (step ev s)) \<Longrightarrow>
       \<forall>(ev', t) \<in> set ?ts. gap ev' \<le> t - last_time (step ev s)"
    using Cons.IH [of "step ev s"] Cons.prems by simp_all
  show ?case
  proof (cases "fires ev s")
    case None
    with ih quiet_kept [OF ev(1) None] show ?thesis by simp
  next
    case (Some now)
    note now = fires_after_gap [OF ev(1) Some]
    have rest: "\<forall>(ev, t) \<in> set ?ts. gap ev \<le> t - now" using ih(2) now by simp
    have "gap ev' \<le> t - last_time s" if "known_time (last_time s)" "(ev', t) \<in> set ?ts" for ev' t
      using now rest that ev(2) by fastforce
    with now rest ih(1) Some show ?thesis by auto
  qed
qed

lemma spaced_by_event:
  "\<forall>ev \<in> set evs. admissible ev \<and> 0 \<le> gap ev \<Longrightarrow>
    sorted_wrt (\<lambda>(ev, t) (ev', t'). gap ev' \<le> t' - t) (firings step fires evs s)"
  using firings_spaced by blast

lemma spaced:
  assumes "\<forall>ev \<in> set evs. admissible ev" and "\<And>ev. gap ev = g" and "0 \<le> g"
  shows "sorted_wrt (\<lambda>t t'. g \<le> t' - t) (fire_times step fires evs s)"
  using spaced_by_event [of evs s] assms
  by (simp add: fire_times_firings sorted_wrt_map case_prod_unfold)

end

text \<open>
  The timers of the algorithms compare 64-bit times, and their subtraction may wrap when the
  status holds a time that no clock returned; from the first action on it does not.
\<close>

locale cooldown_timer =
  fixes admissible :: "'e \<Rightarrow> bool"
    and step :: "'e \<Rightarrow> 's \<Rightarrow> 's"
    and fires :: "'e \<Rightarrow> 's \<Rightarrow> int option"
    and last_time :: "'s \<Rightarrow> int"
    and gap :: "'e \<Rightarrow> int"
  assumes fires_checked: "admissible ev \<Longrightarrow> fires ev s = Some t \<Longrightarrow>
      last_time (step ev s) = t \<and> 0 \<le> t \<and> t \<le> max_int64 \<and> gap ev \<le> wrap64 (t - last_time s)"
    and quiet_unchanged: "admissible ev \<Longrightarrow> fires ev s = None \<Longrightarrow> last_time (step ev s) = last_time s"

sublocale cooldown_timer \<subseteq> event_timer admissible step fires last_time gap
    "\<lambda>t. 0 \<le> t \<and> t \<le> max_int64"
proof unfold_locales
  fix ev s t
  assume *: "admissible ev" "fires ev s = Some t"
  note now = fires_checked [OF *]
  have "wrap64 (t - last_time s) = t - last_time s"
    if "0 \<le> last_time s" "last_time s \<le> max_int64"
    using now that by (intro wrap64_diff_nonneg) (simp_all add: int_width_defs)
  with now show "last_time (step ev s) = t \<and> (0 \<le> t \<and> t \<le> max_int64)
      \<and> ((0 \<le> last_time s \<and> last_time s \<le> max_int64) \<longrightarrow> gap ev \<le> t - last_time s)"
    by auto
qed (rule quiet_unchanged)

end
