(* ===== verification/Hook.thy ===== *)
theory Hook
  imports Algorithm
begin

text \<open>
  The task hook of the matching service (\<open>client/hook.go\<close>) and the workflow ids of worker
  controller instances (\<open>client/id.go\<close>).  The hook sees every task that is added to a queue; it
  counts the tasks per instance and signals the instance once per interval.

  \<^item> The clock is read by the caller of \<open>batchMatchSignals\<close>'s model: \<open>now\<close> is the time in
    nanoseconds since the epoch.  \<open>time.Now\<close> is read before the mutex is taken, so the calls
    need not come in the order of their times; no theorem here assumes it.
  \<^item> The mutex makes \<open>batchMatchSignals\<close> atomic, so the calls of concurrent tasks are a
    sequence of steps, in the order in which they take the lock.
  \<^item> Dynamic configuration and the two calls of the client are read anew for each task; their
    results are part of the event (\<open>hook_event\<close>).
  \<^item> The returns of \<open>ProcessTaskAdd\<close> are told apart by \<open>hook_outcome\<close>, which also stands for
    the metric that each of them records.
\<close>

section \<open>Workflow ids\<close>

text \<open>\<open>strings.Split\<close> with a one-character separator.\<close>

fun split_on :: "char \<Rightarrow> string \<Rightarrow> string list" where
  "split_on d [] = [[]]"
| "split_on d (c # cs) =
    (if c = d then [] # split_on d cs
     else (case split_on d cs of [] \<Rightarrow> [[c]] | p # ps \<Rightarrow> (c # p) # ps))"

record WorkerDeploymentVersion =
  DeploymentName :: string
  BuildId :: string

definition WorkerControllerInstanceDelimiter :: char where
  "WorkerControllerInstanceDelimiter = CHR '':''"

definition WorkerControllerInstanceWorkflowIDPrefix :: string where
  "WorkerControllerInstanceWorkflowIDPrefix = ''temporal-sys-worker-controller-instance''"

definition GenerateWorkerControllerInstanceWorkflowID :: "WorkerDeploymentVersion \<Rightarrow> string" where
  "GenerateWorkerControllerInstanceWorkflowID v =
    WorkerControllerInstanceWorkflowIDPrefix @ [WorkerControllerInstanceDelimiter]
      @ DeploymentName v @ [WorkerControllerInstanceDelimiter] @ BuildId v"

text \<open>The parts exist where they are read: \<open>strings.Split\<close> never returns an empty list, and the
  pattern with three parts is the case \<open>len(parts) >= 3\<close>.\<close>

definition GetDeploymentNameBuildIdFromWorkflowID :: "string \<Rightarrow> WorkerDeploymentVersion" where
  "GetDeploymentNameBuildIdFromWorkflowID workflowId =
    (case split_on WorkerControllerInstanceDelimiter workflowId of
       p0 # p1 # p2 # rest \<Rightarrow> \<lparr>DeploymentName = p1, BuildId = p2\<rparr>
     | p0 # rest \<Rightarrow> \<lparr>DeploymentName = p0, BuildId = ''''\<rparr>
     | [] \<Rightarrow> \<lparr>DeploymentName = '''', BuildId = ''''\<rparr>)"

section \<open>The hook\<close>

record signalBatchDetails =
  timestamp :: int
  syncMatchCount :: int
  noSyncMatchCount :: int

type_synonym signal_batches = "(string, signalBatchDetails) gomap"

record taskHookImpl =
  hookNamespace :: string
  hookTaskQueueName :: string
  hookTaskQueueType :: TaskQueueType
  lastSignalDetails :: signal_batches

record TaskHookFactoryCreateDetails =
  DetailsNamespace :: "string option"
  DetailsSticky :: bool
  DetailsQueueName :: string
  DetailsQueueType :: TaskQueueType

definition Create ::
    "(string \<Rightarrow> bool) \<Rightarrow> TaskHookFactoryCreateDetails option \<Rightarrow> taskHookImpl option" where
  "Create enabled details = (case details of
     None \<Rightarrow> None
   | Some d \<Rightarrow> (case DetailsNamespace d of
       None \<Rightarrow> None
     | Some ns \<Rightarrow>
        (if DetailsSticky d then None
         else if \<not> enabled ns then None
         else Some \<lparr>hookNamespace = ns, hookTaskQueueName = DetailsQueueName d,
                hookTaskQueueType = DetailsQueueType d, lastSignalDetails = []\<rparr>)))"

text \<open>The two intervals of the dynamic configuration, in milliseconds.\<close>

record signal_intervals =
  MinSignalIntervalSyncMatch :: int
  MinSignalIntervalNoSyncMatch :: int

definition no_batch :: signalBatchDetails where
  "no_batch = \<lparr>timestamp = 0, syncMatchCount = 0, noSyncMatchCount = 0\<rparr>"

definition count_match :: "bool \<Rightarrow> signalBatchDetails \<Rightarrow> signalBatchDetails" where
  "count_match isSyncMatch d =
    (if isSyncMatch then d\<lparr>syncMatchCount := wrap64 (syncMatchCount d + 1)\<rparr>
     else d\<lparr>noSyncMatchCount := wrap64 (noSyncMatchCount d + 1)\<rparr>)"

definition send_interval :: "signal_intervals \<Rightarrow> signalBatchDetails \<Rightarrow> int" where
  "send_interval iv d =
    (let sync = (if MinSignalIntervalSyncMatch iv \<le> 0 then 60000 else MinSignalIntervalSyncMatch iv);
         noSync = (if MinSignalIntervalNoSyncMatch iv \<le> 0 then 500
                   else MinSignalIntervalNoSyncMatch iv)
     in millis (if noSyncMatchCount d > 0 then noSync else sync))"

text \<open>The entry of an instance, a fresh one when the map has none.\<close>

definition batch_of :: "signal_batches \<Rightarrow> string \<Rightarrow> signalBatchDetails" where
  "batch_of batches workflowID =
    (case map_of batches workflowID of None \<Rightarrow> no_batch | Some d \<Rightarrow> d)"

definition batchMatchSignals ::
    "signal_intervals \<Rightarrow> int \<Rightarrow> string \<Rightarrow> bool \<Rightarrow> signal_batches
      \<Rightarrow> (int \<times> int \<times> bool) \<times> signal_batches" where
  "batchMatchSignals iv now workflowID isSyncMatch batches =
    (let counted = count_match isSyncMatch (batch_of batches workflowID);
         sendBy = timestamp counted + send_interval iv counted
     in if sendBy < now then
          ((syncMatchCount counted, noSyncMatchCount counted, False),
           AList.update workflowID \<lparr>timestamp = now, syncMatchCount = 0, noSyncMatchCount = 0\<rparr> batches)
        else
          ((syncMatchCount counted, noSyncMatchCount counted, True),
           AList.update workflowID counted batches))"

text \<open>What \<open>errors.As\<close> and \<open>errors.Is\<close> tell of an error of the client.\<close>

record client_error =
  ResourceExhaustedBusyWorkflow :: bool
  IsContextCanceled :: bool

record TaskAddHookDetails =
  DeploymentVersion :: "WorkerDeploymentVersion option"
  EventIsSyncMatch :: bool

record hook_event =
  Now :: int
  Enabled :: bool
  Intervals :: signal_intervals
  HookEvent :: "TaskAddHookDetails option"
  InstanceExists :: "client_error + bool"
  SignalFails :: bool

datatype hook_outcome =
    Ignored
  | Batched string
  | BusyWorkflow string int int
  | CallerCanceled string int int
  | ExistsFailed string int int
  | NoInstance string int int
  | Signalled string SignalTaskAddRequest
  | SignalFailed string SignalTaskAddRequest

definition ProcessTaskAdd :: "hook_event \<Rightarrow> taskHookImpl \<Rightarrow> hook_outcome \<times> taskHookImpl" where
  "ProcessTaskAdd ev th =
    (case HookEvent ev of None \<Rightarrow> (Ignored, th) | Some event \<Rightarrow>
     (case DeploymentVersion event of None \<Rightarrow> (Ignored, th) | Some version \<Rightarrow>
      (if \<not> Enabled ev then (Ignored, th)
       else
        (let workflowID = GenerateWorkerControllerInstanceWorkflowID version;
             ((syncCount, noSyncCount, skip), batches) =
               batchMatchSignals (Intervals ev) (Now ev) workflowID (EventIsSyncMatch event)
                 (lastSignalDetails th);
             th' = th\<lparr>lastSignalDetails := batches\<rparr>
         in if skip then (Batched workflowID, th')
            else (case InstanceExists ev of
               Inl err \<Rightarrow>
                 (if ResourceExhaustedBusyWorkflow err then
                    (BusyWorkflow workflowID syncCount noSyncCount, th')
                  else if IsContextCanceled err then
                    (CallerCanceled workflowID syncCount noSyncCount, th')
                  else (ExistsFailed workflowID syncCount noSyncCount, th'))
             | Inr exists \<Rightarrow>
                (if \<not> exists then (NoInstance workflowID syncCount noSyncCount, th')
                 else
                  (let request = \<lparr>TaskQueueName = hookTaskQueueName th,
                         SignalTaskQueueType = hookTaskQueueType th,
                         IsSyncMatch = EventIsSyncMatch event,
                         SyncMatchSignalsSinceLast = syncCount,
                         NoSyncMatchSignalsSinceLast = noSyncCount\<rparr>
                   in if SignalFails ev then (SignalFailed workflowID request, th')
                      else (Signalled workflowID request, th'))))))))"

text \<open>The hook of one queue over a sequence of tasks.\<close>

fun hook_run :: "hook_event list \<Rightarrow> taskHookImpl \<Rightarrow> (hook_event \<times> hook_outcome) list \<times> taskHookImpl" where
  "hook_run [] th = ([], th)"
| "hook_run (ev # evs) th =
    (case ProcessTaskAdd ev th of (out, th') \<Rightarrow>
      (case hook_run evs th' of (outs, th'') \<Rightarrow> ((ev, out) # outs, th'')))"

section \<open>Lemmas on workflow ids\<close>

lemma split_on_nonempty [simp]: "split_on d s \<noteq> []"
  by (induction s) (auto split: list.split)

lemma split_on_append: "split_on d (a @ d # b) = split_on d a @ split_on d b"
  by (induction a) (auto split: list.split)

lemma split_on_free [simp]: "d \<notin> set s \<Longrightarrow> split_on d s = [s]"
  by (induction s) auto

lemma split_on_parts: "p \<in> set (split_on d s) \<Longrightarrow> d \<notin> set p"
  by (induction s arbitrary: p) (auto split: list.splits if_splits)

lemma prefix_free: "WorkerControllerInstanceDelimiter \<notin> set WorkerControllerInstanceWorkflowIDPrefix"
  by (simp add: WorkerControllerInstanceDelimiter_def WorkerControllerInstanceWorkflowIDPrefix_def)

lemma split_generated:
  "split_on WorkerControllerInstanceDelimiter (GenerateWorkerControllerInstanceWorkflowID v) =
    WorkerControllerInstanceWorkflowIDPrefix
      # split_on WorkerControllerInstanceDelimiter (DeploymentName v)
      @ split_on WorkerControllerInstanceDelimiter (BuildId v)"
  unfolding GenerateWorkerControllerInstanceWorkflowID_def
  by (simp add: split_on_append prefix_free del: split_on.simps)

section \<open>Lemmas on batches\<close>

definition pending :: "bool \<Rightarrow> signalBatchDetails \<Rightarrow> int" where
  "pending isSync d = (if isSync then syncMatchCount d else noSyncMatchCount d)"

lemma batch_of_update [simp]:
  "batch_of (AList.update w d batches) w' = (if w' = w then d else batch_of batches w')"
  by (simp add: batch_of_def map_simps)

lemma count_match_timestamp [simp]: "timestamp (count_match b d) = timestamp d"
  by (simp add: count_match_def)

lemma pending_count_match:
  "0 \<le> pending b d \<Longrightarrow> pending b d < max_int64 \<Longrightarrow>
    pending b (count_match b' d) = pending b d + (if b' = b then 1 else 0)"
  by (auto simp: pending_def count_match_def int_width_defs intro!: wrap64_id)

text \<open>The entry of a workflow after a task for it, and what the batch that is sent holds.\<close>

lemma batchMatchSignals_eq:
  assumes "d = count_match b (batch_of batches w)"
  shows "batchMatchSignals iv now w b batches =
    (if timestamp (batch_of batches w) + send_interval iv d < now
     then ((pending True d, pending False d, False),
           AList.update w \<lparr>timestamp = now, syncMatchCount = 0, noSyncMatchCount = 0\<rparr> batches)
     else ((pending True d, pending False d, True), AList.update w d batches))"
  using assms by (simp add: batchMatchSignals_def Let_def pending_def)

text \<open>A task that the hook counts, and what it does with the batch of an instance.\<close>

definition counted_for :: "string \<Rightarrow> hook_event \<Rightarrow> bool option" where
  "counted_for w ev = (case HookEvent ev of None \<Rightarrow> None | Some event \<Rightarrow>
     (case DeploymentVersion event of None \<Rightarrow> None | Some v \<Rightarrow>
       (if Enabled ev \<and> GenerateWorkerControllerInstanceWorkflowID v = w
        then Some (EventIsSyncMatch event) else None)))"

fun released :: "string \<Rightarrow> hook_outcome \<Rightarrow> (int \<times> int) option" where
  "released w Ignored = None"
| "released w (Batched w') = None"
| "released w (BusyWorkflow w' s n) = (if w' = w then Some (s, n) else None)"
| "released w (CallerCanceled w' s n) = (if w' = w then Some (s, n) else None)"
| "released w (ExistsFailed w' s n) = (if w' = w then Some (s, n) else None)"
| "released w (NoInstance w' s n) = (if w' = w then Some (s, n) else None)"
| "released w (Signalled w' r) =
     (if w' = w then Some (SyncMatchSignalsSinceLast r, NoSyncMatchSignalsSinceLast r) else None)"
| "released w (SignalFailed w' r) =
     (if w' = w then Some (SyncMatchSignalsSinceLast r, NoSyncMatchSignalsSinceLast r) else None)"

text \<open>The effect of a task on the batch of one instance.\<close>

lemma task_add_batch:
  "(case counted_for w ev of
     None \<Rightarrow> released w (fst (ProcessTaskAdd ev th)) = None
       \<and> batch_of (lastSignalDetails (snd (ProcessTaskAdd ev th))) w =
           batch_of (lastSignalDetails th) w
   | Some b \<Rightarrow>
      (let d = count_match b (batch_of (lastSignalDetails th) w)
       in if timestamp d + send_interval (Intervals ev) d < Now ev
          then released w (fst (ProcessTaskAdd ev th)) = Some (pending True d, pending False d)
            \<and> batch_of (lastSignalDetails (snd (ProcessTaskAdd ev th))) w = no_batch\<lparr>timestamp := Now ev\<rparr>
          else released w (fst (ProcessTaskAdd ev th)) = None
            \<and> batch_of (lastSignalDetails (snd (ProcessTaskAdd ev th))) w = d))"
  by (auto simp: counted_for_def ProcessTaskAdd_def Let_def batchMatchSignals_eq [OF refl] no_batch_def
      split: option.splits sum.splits)

definition released_count :: "bool \<Rightarrow> string \<Rightarrow> hook_outcome \<Rightarrow> int" where
  "released_count b w out =
    (case released w out of None \<Rightarrow> 0 | Some (s, n) \<Rightarrow> if b then s else n)"

abbreviation (input) batch_in :: "taskHookImpl \<Rightarrow> string \<Rightarrow> signalBatchDetails" where
  "batch_in th w \<equiv> batch_of (lastSignalDetails th) w"

lemma pending_no_batch [simp]: "pending b (no_batch\<lparr>timestamp := t\<rparr>) = 0"
  by (simp add: pending_def no_batch_def)

lemma task_add_conserves:
  assumes "0 \<le> pending b (batch_in th w)" and "pending b (batch_in th w) < max_int64"
  shows "released_count b w (fst (ProcessTaskAdd ev th))
      + pending b (batch_in (snd (ProcessTaskAdd ev th)) w) =
      pending b (batch_in th w) + (if counted_for w ev = Some b then 1 else 0)
    \<and> 0 \<le> pending b (batch_in (snd (ProcessTaskAdd ev th)) w)
    \<and> pending b (batch_in (snd (ProcessTaskAdd ev th)) w) \<le> pending b (batch_in th w) + 1"
proof (cases "counted_for w ev")
  case None
  with task_add_batch [of w ev th] assms show ?thesis by (simp add: released_count_def)
next
  case (Some b')
  have "pending True (count_match b' d) = (if b then pending b (count_match b' d) else pending True (count_match b' d))"
    "pending False (count_match b' d) = (if b then pending False (count_match b' d) else pending b (count_match b' d))"
    for d by simp_all
  with task_add_batch [of w ev th] assms Some pending_count_match [OF assms, of b']
  show ?thesis by (cases b) (auto simp: released_count_def Let_def split: if_splits)
qed

lemma hook_run_Cons [simp]:
  "fst (hook_run (ev # evs) th) =
     (ev, fst (ProcessTaskAdd ev th)) # fst (hook_run evs (snd (ProcessTaskAdd ev th)))"
  "snd (hook_run (ev # evs) th) = snd (hook_run evs (snd (ProcessTaskAdd ev th)))"
  by (simp_all split: prod.splits)

lemma hook_run_conserves:
  assumes "0 \<le> pending b (batch_in th w)"
    and "pending b (batch_in th w) + int (length evs) \<le> max_int64"
  shows "(\<Sum>(ev, out) \<leftarrow> fst (hook_run evs th). released_count b w out)
      + pending b (batch_in (snd (hook_run evs th)) w) =
    pending b (batch_in th w) + int (length (filter (\<lambda>ev. counted_for w ev = Some b) evs))"
  using assms
proof (induction evs arbitrary: th)
  case Nil
  then show ?case by simp
next
  case (Cons ev evs)
  have "pending b (batch_in th w) < max_int64" using Cons.prems by simp
  note step = task_add_conserves [OF Cons.prems(1) this, of ev]
  have "0 \<le> pending b (batch_in (snd (ProcessTaskAdd ev th)) w)"
    "pending b (batch_in (snd (ProcessTaskAdd ev th)) w) + int (length evs) \<le> max_int64"
    using step Cons.prems by simp_all
  from Cons.IH [OF this] step show ?case by (auto simp del: hook_run.simps)
qed

text \<open>The dispatch timer of one instance.\<close>

definition min_send_interval :: "signal_intervals \<Rightarrow> int" where
  "min_send_interval iv =
    min (send_interval iv no_batch) (send_interval iv (no_batch\<lparr>noSyncMatchCount := 1\<rparr>))"

definition dispatch_time :: "string \<Rightarrow> hook_event \<Rightarrow> taskHookImpl \<Rightarrow> int option" where
  "dispatch_time w ev th =
    (if released w (fst (ProcessTaskAdd ev th)) = None then None else Some (Now ev))"

lemma min_send_interval_le: "min_send_interval iv \<le> send_interval iv d"
  by (auto simp: min_send_interval_def send_interval_def Let_def no_batch_def)

interpretation hook_timer: event_timer "\<lambda>ev. Intervals ev = iv"
    "\<lambda>ev th. snd (ProcessTaskAdd ev th)" "dispatch_time w"
    "\<lambda>th. timestamp (batch_in th w)" "\<lambda>ev. min_send_interval iv + 1" "\<lambda>t. True"
  for iv w
proof unfold_locales
  fix ev th t
  assume iv: "Intervals ev = iv" and fires: "dispatch_time w ev th = Some t"
  then have out: "released w (fst (ProcessTaskAdd ev th)) \<noteq> None" and t: "t = Now ev"
    by (simp_all add: dispatch_time_def split: if_splits)
  from out task_add_batch [of w ev th] obtain b where b: "counted_for w ev = Some b"
    by (cases "counted_for w ev") auto
  define d where "d = count_match b (batch_in th w)"
  have sent: "timestamp d + send_interval iv d < t"
    "batch_in (snd (ProcessTaskAdd ev th)) w = no_batch\<lparr>timestamp := Now ev\<rparr>"
    using task_add_batch [of w ev th] b out iv t
    by (simp_all add: Let_def d_def split: if_splits)
  have "timestamp d = timestamp (batch_in th w)" by (simp add: d_def)
  with sent min_send_interval_le [of iv d] t
  show "timestamp (batch_in (snd (ProcessTaskAdd ev th)) w) = t \<and> True
      \<and> (True \<longrightarrow> min_send_interval iv + 1 \<le> t - timestamp (batch_in th w))"
    by simp
next
  fix ev th
  assume "Intervals ev = iv" and "dispatch_time w ev th = None"
  then show "timestamp (batch_in (snd (ProcessTaskAdd ev th)) w) = timestamp (batch_in th w)"
    using task_add_batch [of w ev th]
    by (auto simp: dispatch_time_def Let_def split: option.splits if_splits)
qed

section \<open>Properties\<close>

text \<open>C32: The hook loses no task and counts none twice: over any run of tasks, for an instance and
  a kind of match, what its batches have released plus what is still pending is what was pending
  before plus the number of tasks of that kind, as long as the counters cannot overflow.  Batches
  whose signal is not sent (the instance does not exist, or a call fails) count as released.\<close>

theorem hook_conserves_matches:
  assumes "0 \<le> pending b (batch_in th w)"
    and "pending b (batch_in th w) + int (length evs) \<le> max_int64"
  shows "(\<Sum>(ev, out) \<leftarrow> fst (hook_run evs th). released_count b w out)
      + pending b (batch_in (snd (hook_run evs th)) w) =
    pending b (batch_in th w) + int (length (filter (\<lambda>ev. counted_for w ev = Some b) evs))"
  using assms by (rule hook_run_conserves)

definition sample_intervals :: signal_intervals where
  "sample_intervals = \<lparr>MinSignalIntervalSyncMatch = 60000, MinSignalIntervalNoSyncMatch = 500\<rparr>"

definition sample_version :: WorkerDeploymentVersion where
  "sample_version = \<lparr>DeploymentName = ''app'', BuildId = ''v1''\<rparr>"

definition missed_at :: "int \<Rightarrow> hook_event" where
  "missed_at now = \<lparr>Now = now, Enabled = True, Intervals = sample_intervals,
     HookEvent = Some \<lparr>DeploymentVersion = Some sample_version, EventIsSyncMatch = False\<rparr>,
     InstanceExists = Inr True, SignalFails = False\<rparr>"

definition sample_hook :: taskHookImpl where
  "sample_hook = \<lparr>hookNamespace = ''ns'', hookTaskQueueName = ''q'',
     hookTaskQueueType = TASK_QUEUE_TYPE_WORKFLOW, lastSignalDetails = []\<rparr>"

theorem hook_conserves_matches_witness:
  "(\<Sum>(ev, out) \<leftarrow> fst (hook_run [missed_at 1000000000, missed_at 1000000001] sample_hook).
      released_count False (GenerateWorkerControllerInstanceWorkflowID sample_version) out)
    + pending False (batch_in (snd (hook_run [missed_at 1000000000, missed_at 1000000001] sample_hook))
        (GenerateWorkerControllerInstanceWorkflowID sample_version)) = 2"
proof -
  let ?w = "GenerateWorkerControllerInstanceWorkflowID sample_version"
  have "pending False (batch_in sample_hook ?w) = 0"
    "counted_for ?w (missed_at 1000000000) = Some False"
    "counted_for ?w (missed_at 1000000001) = Some False"
    by (simp_all add: pending_def batch_of_def no_batch_def sample_hook_def counted_for_def missed_at_def)
  with hook_conserves_matches [of False sample_hook ?w "[missed_at 1000000000, missed_at 1000000001]"]
  show ?thesis by (simp add: int_width_defs del: hook_run.simps hook_run_Cons)
qed

text \<open>The signals of one instance are further apart than the shorter of the two intervals, in
  whatever order the tasks take the lock.\<close>

theorem hook_signals_spaced:
  assumes "\<forall>ev \<in> set evs. Intervals ev = iv" and "0 \<le> min_send_interval iv"
  shows "sorted_wrt (\<lambda>t t'. min_send_interval iv < t' - t)
    (fire_times (\<lambda>ev th. snd (ProcessTaskAdd ev th)) (dispatch_time w) evs th)"
  using hook_timer.spaced [where iv = iv and w = w and evs = evs and s = th, OF assms(1) refl] assms(2)
  by (auto elim!: sorted_wrt_mono_rel [rotated])

theorem hook_signals_spaced_witness:
  "sorted_wrt (\<lambda>t t'. 500000000 < t' - t)
    (fire_times (\<lambda>ev th. snd (ProcessTaskAdd ev th))
      (dispatch_time (GenerateWorkerControllerInstanceWorkflowID sample_version))
      [missed_at 1000000000, missed_at 1200000000, missed_at 1600000000] sample_hook)"
proof -
  have "min_send_interval sample_intervals = 500000000" by code_simp
  then show ?thesis
    using hook_signals_spaced [of "[missed_at 1000000000, missed_at 1200000000, missed_at 1600000000]"
        sample_intervals]
    by (simp add: missed_at_def)
qed

text \<open>A task that missed its poller is not held back: when more than the no-sync interval has
  passed since the last signal of an instance that exists, the hook signals it at once, with all
  the misses of the batch.\<close>

theorem hook_signals_miss_at_once:
  assumes "counted_for w ev = Some False" and "InstanceExists ev = Inr True"
    and "0 \<le> pending False (batch_in th w)" and "pending False (batch_in th w) < max_int64"
    and "timestamp (batch_in th w)
      + send_interval (Intervals ev) (no_batch\<lparr>noSyncMatchCount := 1\<rparr>) < Now ev"
  shows "\<exists>req. fst (ProcessTaskAdd ev th) = (if SignalFails ev then SignalFailed w req else Signalled w req)
    \<and> NoSyncMatchSignalsSinceLast req = pending False (batch_in th w) + 1
    \<and> \<not> IsSyncMatch req \<and> TaskQueueName req = hookTaskQueueName th
    \<and> SignalTaskQueueType req = hookTaskQueueType th"
proof -
  define d where "d = count_match False (batch_in th w)"
  have d: "pending False d = pending False (batch_in th w) + 1"
    using pending_count_match [OF assms(3,4), of False] by (simp add: d_def)
  then have "send_interval (Intervals ev) d =
      send_interval (Intervals ev) (no_batch\<lparr>noSyncMatchCount := 1\<rparr>)"
    using assms(3) by (simp add: send_interval_def Let_def pending_def)
  with assms d show ?thesis
    by (auto simp: counted_for_def ProcessTaskAdd_def Let_def batchMatchSignals_eq [OF refl]
        d_def split: option.splits if_splits)
qed

theorem hook_signals_miss_at_once_witness:
  "\<exists>req. fst (ProcessTaskAdd (missed_at 1000000000) sample_hook) =
      Signalled (GenerateWorkerControllerInstanceWorkflowID sample_version) req
    \<and> NoSyncMatchSignalsSinceLast req = 1"
proof -
  let ?w = "GenerateWorkerControllerInstanceWorkflowID sample_version"
  have "counted_for ?w (missed_at 1000000000) = Some False" "InstanceExists (missed_at 1000000000) = Inr True"
    "pending False (batch_in sample_hook ?w) = 0" "timestamp (batch_in sample_hook ?w) = 0"
    "send_interval (Intervals (missed_at 1000000000)) (no_batch\<lparr>noSyncMatchCount := 1\<rparr>) < 1000000000"
    "\<not> SignalFails (missed_at 1000000000)" "Now (missed_at 1000000000) = 1000000000"
    by code_simp+
  with hook_signals_miss_at_once [of ?w "missed_at 1000000000" sample_hook]
  show ?thesis by (auto simp: int_width_defs)
qed

lemma parsed_id:
  "GetDeploymentNameBuildIdFromWorkflowID (GenerateWorkerControllerInstanceWorkflowID v) = v \<longleftrightarrow>
    WorkerControllerInstanceDelimiter \<notin> set (DeploymentName v)
    \<and> WorkerControllerInstanceDelimiter \<notin> set (BuildId v)"
proof -
  let ?d = WorkerControllerInstanceDelimiter
  obtain p ps where p: "split_on ?d (DeploymentName v) = p # ps"
    by (cases "split_on ?d (DeploymentName v)") auto
  obtain q qs where q: "split_on ?d (BuildId v) = q # qs"
    by (cases "split_on ?d (BuildId v)") auto
  obtain r rs where r: "ps @ q # qs = r # rs" by (cases ps) auto
  have parsed: "GetDeploymentNameBuildIdFromWorkflowID (GenerateWorkerControllerInstanceWorkflowID v) =
      \<lparr>DeploymentName = p, BuildId = r\<rparr>"
    by (simp add: GetDeploymentNameBuildIdFromWorkflowID_def split_generated p q r)
  have free: "?d \<notin> set p" "?d \<notin> set r"
    using split_on_parts [of p ?d "DeploymentName v"] split_on_parts [of r ?d "DeploymentName v"]
      split_on_parts [of r ?d "BuildId v"] p q r
    by (auto simp: Cons_eq_append_conv append_eq_Cons_conv)
  show ?thesis
  proof
    assume "GetDeploymentNameBuildIdFromWorkflowID (GenerateWorkerControllerInstanceWorkflowID v) = v"
    then have "p = DeploymentName v" "r = BuildId v" using parsed by auto
    with free show "?d \<notin> set (DeploymentName v) \<and> ?d \<notin> set (BuildId v)" by simp
  next
    assume "?d \<notin> set (DeploymentName v) \<and> ?d \<notin> set (BuildId v)"
    with p q r parsed show
      "GetDeploymentNameBuildIdFromWorkflowID (GenerateWorkerControllerInstanceWorkflowID v) = v"
      by simp
  qed
qed

text \<open>C36: A workflow id can be parsed back into the version it was generated from exactly when
  neither the deployment name nor the build id contains the delimiter.\<close>

theorem workflow_id_roundtrip:
  "GetDeploymentNameBuildIdFromWorkflowID (GenerateWorkerControllerInstanceWorkflowID v) = v \<longleftrightarrow>
    WorkerControllerInstanceDelimiter \<notin> set (DeploymentName v)
    \<and> WorkerControllerInstanceDelimiter \<notin> set (BuildId v)"
  by (rule parsed_id)

end
