(* ===== verification/NoSync.thy ===== *)
theory NoSync
  imports Algorithm
begin

text \<open>
  \<open>src/wci/workflow/scaling_algorithm/no_sync_match.go\<close>: the no-sync algorithm, which starts
  one worker when a task arrives that no poller takes, or when a metrics poll sees a backlog.
  It keeps one timestamp for all queue types, and three values per queue type for the detector
  that suppresses scale-ups while the dispatch rate stays within a band (\<open>epsilon\<close>) of a
  reference rate in spite of a backlog.

  Reads of the configuration and of the state go through the readers of \<open>MapAccess\<close>; 64-bit
  subtraction wraps.  The lemmas give the exact condition for every invocation, show what the
  detector's state means over a whole run, and bound its effect in time.
\<close>

section \<open>Constants\<close>

abbreviation (input) "configNoSyncScaleUpCooloffMsKey \<equiv> ''scale_up_cooloff_ms''"
abbreviation (input) "configNoSyncScaleUpCooloffMsDefault \<equiv> 100 :: int"
abbreviation (input) "configNoSyncScaleUpBacklogThresholdKey \<equiv> ''scale_up_backlog_threshold''"
abbreviation (input) "configNoSyncScaleUpBacklogThresholdDefault \<equiv> 0 :: int"
abbreviation (input) "configNoSyncMaxWorkerLifetimeMsKey \<equiv> ''max_worker_lifetime_ms''"
abbreviation (input) "configNoSyncMaxWorkerLifetimeMsDefault \<equiv> 10 * 60 * 1000 :: int"
abbreviation (input) "configNoSyncScaleUpDispatchRateEpsilonKey \<equiv> ''scale_up_dispatch_rate_epsilon''"
abbreviation (input) "configNoSyncScaleUpDispatchRateEpsilonDefault \<equiv> Fin 0"
abbreviation (input) "configNoSyncScaleUpDispatchRateEpsilonMax \<equiv> rnd64 (1 / 10)"
abbreviation (input) "configNoSyncScaleUpDispatchRateEpsilonConfirmMsKey \<equiv>
  ''scale_up_dispatch_rate_epsilon_confirm_ms''"
abbreviation (input) "configNoSyncScaleUpDispatchRateEpsilonConfirmMsDefault \<equiv> 90000 :: int"
abbreviation (input) "configNoSyncMetricsPollIntervalMsKey \<equiv> ''metrics_poll_interval_ms''"
abbreviation (input) "configNoSyncMetricsPollIntervalMsDefault \<equiv> 60000 :: int"
abbreviation (input) "stateLastScaleUpTimestampKey \<equiv> ''last_scale_up_time_ms''"
abbreviation (input) "configNoSyncSuppressScaleUpMsKey \<equiv> ''suppress_scale_up_ms''"
abbreviation (input) "configNoSyncSuppressScaleUpMsDefault \<equiv> 120000 :: int"
abbreviation (input) "configNoSyncSuppressPollIntervalMsKey \<equiv> ''suppress_poll_interval_ms''"
abbreviation (input) "configNoSyncSuppressPollIntervalMsDefault \<equiv> 90000 :: int"

text \<open>The state keys of a queue type, formatted with its name.\<close>

definition withinEpsilonSinceKey :: "string \<Rightarrow> string" where
  "withinEpsilonSinceKey qName = qName @ ''_dispatch_rate_within_epsilon_since_ms''"

definition suppressUntilKey :: "string \<Rightarrow> string" where
  "suppressUntilKey qName = qName @ ''_suppress_scale_up_until_ms''"

definition refRateKey :: "string \<Rightarrow> string" where
  "refRateKey qName = qName @ ''_dispatch_ref_rate''"

definition noSyncValidConfigKeys :: "string list" where
  "noSyncValidConfigKeys =
    [configNoSyncScaleUpCooloffMsKey,
     configNoSyncScaleUpBacklogThresholdKey,
     configNoSyncMaxWorkerLifetimeMsKey,
     configNoSyncScaleUpDispatchRateEpsilonKey,
     configNoSyncMetricsPollIntervalMsKey,
     configNoSyncScaleUpDispatchRateEpsilonConfirmMsKey,
     configNoSyncSuppressScaleUpMsKey,
     configNoSyncSuppressPollIntervalMsKey]"

text \<open>Reading the map \<open>queueTypeName\<close> at a type it does not hold gives the empty string.\<close>

definition queueTypeName :: "TaskQueueType \<Rightarrow> string" where
  "queueTypeName t = (case t of
     TASK_QUEUE_TYPE_WORKFLOW \<Rightarrow> ''workflow''
   | TASK_QUEUE_TYPE_ACTIVITY \<Rightarrow> ''activity''
   | TASK_QUEUE_TYPE_NEXUS \<Rightarrow> ''nexus''
   | _ \<Rightarrow> '''')"

definition noSyncValidStateKeys :: "string list" where
  "noSyncValidStateKeys = stateLastScaleUpTimestampKey # concat (List.map
     (\<lambda>qName. [withinEpsilonSinceKey qName, suppressUntilKey qName, refRateKey qName])
     [''workflow'', ''activity'', ''nexus''])"

section \<open>Configuration\<close>

text \<open>\<open>dispatchRateEpsilon\<close> returns 0 (disabled) for values outside (0, max].\<close>

definition dispatchRateEpsilon :: "ScalingAlgorithmConfig \<Rightarrow> flt" where
  "dispatchRateEpsilon config =
    (let epsilon = GetFloat64Field config configNoSyncScaleUpDispatchRateEpsilonKey
           configNoSyncScaleUpDispatchRateEpsilonDefault
     in if flt_less (Fin 0) epsilon \<and> flt_le epsilon configNoSyncScaleUpDispatchRateEpsilonMax
        then epsilon else Fin 0)"

datatype nosync_config_error =
    NoSyncUnknownKey string
  | NoSyncField field_error
  | PollBelowCooloff int int
  | EpsilonTooLarge flt
  | ConfirmNotAbovePoll int int
  | SuppressPollNotPositive int
  | SuppressNotAbovePoll int int
  | RequiresEpsilon string

definition noSyncFieldChecks :: "ScalingAlgorithmConfig \<Rightarrow> nosync_config_error option" where
  "noSyncFieldChecks config = first_some (List.map (map_option NoSyncField)
    [ValidateInt64Field config configNoSyncScaleUpCooloffMsKey 0,
     ValidateInt64Field config configNoSyncScaleUpBacklogThresholdKey 0,
     ValidateInt64Field config configNoSyncMaxWorkerLifetimeMsKey 0,
     ValidateFloat64Field config configNoSyncScaleUpDispatchRateEpsilonKey (Fin 0),
     ValidateInt64Field config configNoSyncMetricsPollIntervalMsKey 10000,
     ValidateInt64Field config configNoSyncScaleUpDispatchRateEpsilonConfirmMsKey 0,
     ValidateInt64Field config configNoSyncSuppressScaleUpMsKey 0,
     ValidateInt64Field config configNoSyncSuppressPollIntervalMsKey 0])"

definition noSyncCrossChecks :: "ScalingAlgorithmConfig \<Rightarrow> nosync_config_error option" where
  "noSyncCrossChecks config =
    (let pollInterval = GetInt64Field config configNoSyncMetricsPollIntervalMsKey
           configNoSyncMetricsPollIntervalMsDefault;
         cooloff = GetInt64Field config configNoSyncScaleUpCooloffMsKey
           configNoSyncScaleUpCooloffMsDefault;
         epsilon = GetFloat64Field config configNoSyncScaleUpDispatchRateEpsilonKey
           configNoSyncScaleUpDispatchRateEpsilonDefault
     in if cooloff > 0 \<and> pollInterval < cooloff then Some (PollBelowCooloff pollInterval cooloff)
        else if flt_less (Fin 0) epsilon then
          (let confirmMs = GetInt64Field config configNoSyncScaleUpDispatchRateEpsilonConfirmMsKey
                 configNoSyncScaleUpDispatchRateEpsilonConfirmMsDefault;
               suppressMs = GetInt64Field config configNoSyncSuppressScaleUpMsKey
                 configNoSyncSuppressScaleUpMsDefault;
               suppressPollMs = GetInt64Field config configNoSyncSuppressPollIntervalMsKey
                 configNoSyncSuppressPollIntervalMsDefault
           in if flt_less configNoSyncScaleUpDispatchRateEpsilonMax epsilon
                then Some (EpsilonTooLarge epsilon)
              else if confirmMs \<le> pollInterval then Some (ConfirmNotAbovePoll confirmMs pollInterval)
              else if suppressPollMs \<le> 0 then Some (SuppressPollNotPositive suppressPollMs)
              else if suppressMs \<le> suppressPollMs
                then Some (SuppressNotAbovePoll suppressMs suppressPollMs)
              else None)
        else first_error (\<lambda>k. case any_at config k of
               None \<Rightarrow> None
             | Some v \<Rightarrow> (if v \<noteq> VNil then Some (RequiresEpsilon k) else None))
           [configNoSyncScaleUpDispatchRateEpsilonConfirmMsKey, configNoSyncSuppressScaleUpMsKey,
            configNoSyncSuppressPollIntervalMsKey])"

definition noSyncValidateConfig :: "ScalingAlgorithmConfig \<Rightarrow> nosync_config_error option" where
  "noSyncValidateConfig config = (case config of
     None \<Rightarrow> None
   | Some m \<Rightarrow> first_some
      [first_error (\<lambda>k. if k \<in> set noSyncValidConfigKeys then None else Some (NoSyncUnknownKey k))
         (keys m),
       noSyncFieldChecks config,
       noSyncCrossChecks config])"

section \<open>Operations\<close>

definition noSyncTaskQueueRegistrationActions ::
    "ScalingAlgorithmConfig \<Rightarrow> ScalingAlgorithmStatus \<Rightarrow> TaskQueueRegistrationResponse" where
  "noSyncTaskQueueRegistrationActions config status =
    \<lparr>RegistrationActions = [action_of ActionTypeInvokeWorker None], RegistrationStatus = status\<rparr>"

definition noSyncInactiveGroupActions ::
    "ScalingAlgorithmConfig \<Rightarrow> ScalingAlgorithmStatus \<Rightarrow> MetricsPollResponse" where
  "noSyncInactiveGroupActions config status =
    \<lparr>PollActions = [], PollStatus = None, NextPoll = None\<rparr>"

definition noSyncProcessDeferredScalingDecision ::
    "ScalingAlgorithmConfig \<Rightarrow> ScalingAlgorithmStatus \<Rightarrow> SignalTaskAddRequest \<Rightarrow> metrics_getter
      \<Rightarrow> algorithm_error + TaskAddResponse" where
  "noSyncProcessDeferredScalingDecision config priorState event getter =
    Inr \<lparr>TaskAddActions = [], TaskAddStatus = priorState, ThrottledCount = 0\<rparr>"

text \<open>Whether the poll's decision for the queue type of a task-add still suppresses it.\<close>

definition task_add_suppressed ::
    "int \<Rightarrow> ScalingAlgorithmConfig \<Rightarrow> ScalingAlgorithmStatus \<Rightarrow> TaskQueueType \<Rightarrow> bool" where
  "task_add_suppressed nowMs config priorState t \<longleftrightarrow>
     flt_less (Fin 0) (dispatchRateEpsilon config)
     \<and> nowMs < GetInt64Field priorState (suppressUntilKey (queueTypeName t)) 0"

definition noSyncProcessTaskAdd ::
    "int \<Rightarrow> ScalingAlgorithmConfig \<Rightarrow> ScalingAlgorithmStatus \<Rightarrow> SignalTaskAddRequest
      \<Rightarrow> TaskAddResponse" where
  "noSyncProcessTaskAdd nowMs config priorState event =
    (let updatedState = known_state noSyncValidStateKeys priorState
     in if \<not> IsSyncMatch event \<or> NoSyncMatchSignalsSinceLast event > 0 then
          (let cooloffMs = GetInt64Field config configNoSyncScaleUpCooloffMsKey
                 configNoSyncScaleUpCooloffMsDefault;
               lastScaleUpMs = GetInt64Field priorState stateLastScaleUpTimestampKey 0;
               elapsedMs = wrap64 (nowMs - lastScaleUpMs);
               suppressed = task_add_suppressed nowMs config priorState (SignalTaskQueueType event)
           in if suppressed then
                \<lparr>TaskAddActions = [], TaskAddStatus = Some updatedState,
                 ThrottledCount = NoSyncMatchSignalsSinceLast event\<rparr>
              else if elapsedMs \<ge> cooloffMs then
                \<lparr>TaskAddActions = [action_of ActionTypeInvokeWorker None],
                 TaskAddStatus =
                   Some (AList.update stateLastScaleUpTimestampKey (VInt64 nowMs) updatedState),
                 ThrottledCount = 0\<rparr>
              else
                \<lparr>TaskAddActions = [], TaskAddStatus = Some updatedState,
                 ThrottledCount = NoSyncMatchSignalsSinceLast event\<rparr>)
        else \<lparr>TaskAddActions = [], TaskAddStatus = Some updatedState, ThrottledCount = 0\<rparr>)"

text \<open>The values of the detector for one queue type: since when the rate is in the band (0 for
  not), until when scale-ups are suppressed (0 for not), and the reference rate (-1 for none).\<close>

record detector =
  withinSince :: int
  suppressUntil :: int
  refRate :: flt

definition read_detector :: "ScalingAlgorithmStatus \<Rightarrow> string \<Rightarrow> detector" where
  "read_detector priorState qName =
    \<lparr>withinSince = GetInt64Field priorState (withinEpsilonSinceKey qName) 0,
     suppressUntil = GetInt64Field priorState (suppressUntilKey qName) 0,
     refRate = GetFloat64Field priorState (refRateKey qName) (Fin (- 1))\<rparr>"

definition write_detector :: "string \<Rightarrow> detector \<Rightarrow> anymap \<Rightarrow> anymap" where
  "write_detector qName d m =
     AList.update (suppressUntilKey qName) (VInt64 (suppressUntil d))
      (AList.update (refRateKey qName) (VFloat64 (refRate d))
        (AList.update (withinEpsilonSinceKey qName) (VInt64 (withinSince d)) m))"

definition clear_detector :: "string \<Rightarrow> anymap \<Rightarrow> anymap" where
  "clear_detector qName m =
     AList.delete (refRateKey qName)
      (AList.delete (withinEpsilonSinceKey qName)
        (AList.delete (suppressUntilKey qName) m))"

text \<open>The \<open>switch\<close>: restart outside the band, remember the first poll inside it, and suppress
  once the confirm window has passed.\<close>

definition dispatchRateOutsideEpsilonBand :: "flt \<Rightarrow> flt \<Rightarrow> flt \<Rightarrow> bool" where
  "dispatchRateOutsideEpsilonBand epsilon rate ref \<longleftrightarrow>
     flt_le (Fin 0) ref \<and> flt_less (mul64 epsilon ref) (fabs (sub64 rate ref))"

definition detector_step ::
    "flt \<Rightarrow> int \<Rightarrow> int \<Rightarrow> int \<Rightarrow> bool \<Rightarrow> flt \<Rightarrow> detector \<Rightarrow> detector" where
  "detector_step epsilon confirmMs suppressMs nowMs scaleUpForBacklog rate d =
    (if \<not> scaleUpForBacklog \<or> dispatchRateOutsideEpsilonBand epsilon rate (refRate d)
        \<or> flt_le rate (Fin 0)
     then \<lparr>withinSince = 0, suppressUntil = 0, refRate = Fin (- 1)\<rparr>
     else if withinSince d = 0 then d\<lparr>withinSince := nowMs, refRate := rate\<rparr>
     else if wrap64 (nowMs - withinSince d) \<ge> confirmMs
     then d\<lparr>suppressUntil := wrap64 (nowMs + suppressMs)\<rparr>
     else d)"

definition shouldSuppressScaleUpWhenDispatchWithinEpsilon ::
    "ScalingAlgorithmConfig \<Rightarrow> ScalingAlgorithmStatus \<Rightarrow> anymap \<Rightarrow> string
      \<Rightarrow> QueueTypeScalingMetrics option \<Rightarrow> int \<Rightarrow> int \<Rightarrow> bool \<times> anymap" where
  "shouldSuppressScaleUpWhenDispatchWithinEpsilon
      config priorState updatedState qName metrics nowMs backlogThreshold =
    (let epsilon = dispatchRateEpsilon config
     in if flt_eq epsilon (Fin 0) then (False, clear_detector qName updatedState)
        else (case metrics of
            None \<Rightarrow> (False, updatedState)
          | Some q \<Rightarrow>
             (let confirmMs = GetInt64Field config configNoSyncScaleUpDispatchRateEpsilonConfirmMsKey
                    configNoSyncScaleUpDispatchRateEpsilonConfirmMsDefault;
                  suppressMs = GetInt64Field config configNoSyncSuppressScaleUpMsKey
                    configNoSyncSuppressScaleUpMsDefault;
                  d = detector_step epsilon confirmMs suppressMs nowMs
                    (LastBacklogCount q > backlogThreshold) (LastProcessingRate q)
                    (read_detector priorState qName)
              in (suppressUntil d > nowMs, write_detector qName d updatedState))))"

record poll_config =
  cooloffMs :: int
  backlogThreshold :: int
  maxWorkerLifetimeMs :: int

definition per_type_scale_up :: "poll_config \<Rightarrow> int \<Rightarrow> bool \<Rightarrow> int \<Rightarrow> bool" where
  "per_type_scale_up pc elapsedSinceScaleUp suppressed backlog =
    (let perTypeScaleUp = backlog > backlogThreshold pc \<and> elapsedSinceScaleUp \<ge> cooloffMs pc;
         perTypeScaleUp = perTypeScaleUp \<and> \<not> suppressed
     in perTypeScaleUp
        \<or> maxWorkerLifetimeMs pc > 0 \<and> backlog > 0
          \<and> elapsedSinceScaleUp \<ge> maxWorkerLifetimeMs pc)"

record poll_loop =
  loopState :: anymap
  suppressedAny :: bool
  scaleUp :: bool

text \<open>The body of the loop over the three queue types.\<close>

definition poll_queue_type ::
    "ScalingAlgorithmConfig \<Rightarrow> ScalingAlgorithmStatus \<Rightarrow> int \<Rightarrow> poll_config \<Rightarrow> int
      \<Rightarrow> TaskQueueType \<times> QueueTypeScalingMetrics option \<Rightarrow> poll_loop \<Rightarrow> poll_loop" where
  "poll_queue_type config priorState nowMs pc elapsedSinceScaleUp q st =
    (let (suppressed, updatedState) = shouldSuppressScaleUpWhenDispatchWithinEpsilon
           config priorState (loopState st) (queueTypeName (fst q)) (snd q) nowMs
           (backlogThreshold pc);
         st' = st\<lparr>loopState := updatedState, suppressedAny := suppressedAny st \<or> suppressed\<rparr>
     in (case snd q of
           None \<Rightarrow> st'
         | Some m \<Rightarrow> st'\<lparr>scaleUp := scaleUp st
             \<or> per_type_scale_up pc elapsedSinceScaleUp suppressed (LastBacklogCount m)\<rparr>))"

definition snapshot_queues ::
    "ScalingMetricsSnapshot \<Rightarrow> (TaskQueueType \<times> QueueTypeScalingMetrics option) list" where
  "snapshot_queues s =
    [(TASK_QUEUE_TYPE_WORKFLOW, Workflow s), (TASK_QUEUE_TYPE_ACTIVITY, Activity s),
     (TASK_QUEUE_TYPE_NEXUS, Nexus s)]"

definition noSyncPollConfig :: "ScalingAlgorithmConfig \<Rightarrow> poll_config" where
  "noSyncPollConfig config =
    \<lparr>cooloffMs = GetInt64Field config configNoSyncScaleUpCooloffMsKey
       configNoSyncScaleUpCooloffMsDefault,
     backlogThreshold = GetInt64Field config configNoSyncScaleUpBacklogThresholdKey
       configNoSyncScaleUpBacklogThresholdDefault,
     maxWorkerLifetimeMs = GetInt64Field config configNoSyncMaxWorkerLifetimeMsKey
       configNoSyncMaxWorkerLifetimeMsDefault\<rparr>"

definition noSyncProcessMetricsPoll ::
    "int \<Rightarrow> ScalingAlgorithmConfig \<Rightarrow> ScalingAlgorithmStatus \<Rightarrow> ScalingMetricsSnapshot
      \<Rightarrow> MetricsPollResponse" where
  "noSyncProcessMetricsPoll nowMs config priorState metricsSnapshot =
    (let pollIntervalMs = GetInt64Field config configNoSyncMetricsPollIntervalMsKey
           configNoSyncMetricsPollIntervalMsDefault;
         lastScaleUpMs = GetInt64Field priorState stateLastScaleUpTimestampKey 0;
         elapsedSinceScaleUp = wrap64 (nowMs - lastScaleUpMs);
         st = fold (poll_queue_type config priorState nowMs (noSyncPollConfig config)
                 elapsedSinceScaleUp)
               (snapshot_queues metricsSnapshot)
               \<lparr>loopState = known_state noSyncValidStateKeys priorState,
                suppressedAny = False, scaleUp = False\<rparr>;
         nextPollMs = (if suppressedAny st
           then GetInt64Field config configNoSyncSuppressPollIntervalMsKey
                  configNoSyncSuppressPollIntervalMsDefault
           else pollIntervalMs)
     in \<lparr>PollActions = (if scaleUp st then [action_of ActionTypeInvokeWorker None] else []),
         PollStatus = Some (if scaleUp st
           then AList.update stateLastScaleUpTimestampKey (VInt64 nowMs) (loopState st)
           else loopState st),
         NextPoll = Some (millis nextPollMs)\<rparr>)"

definition noSync_ops :: algorithm_ops where
  "noSync_ops =
    \<lparr>CompatibleLaunchStrategies = [LaunchStrategyInvoke],
     opProcessTaskAdd = noSyncProcessTaskAdd,
     opProcessDeferredScalingDecision = noSyncProcessDeferredScalingDecision,
     opProcessMetricsPoll = noSyncProcessMetricsPoll,
     opTaskQueueRegistrationActions = noSyncTaskQueueRegistrationActions,
     opInactiveGroupActions = noSyncInactiveGroupActions\<rparr>"

section \<open>State keys\<close>

lemma append_suffix_neq: "rev s \<noteq> rev s' \<Longrightarrow> s \<noteq> s'"
  by auto

lemma detector_keys_neq [simp]:
  "withinEpsilonSinceKey q \<noteq> suppressUntilKey q'" "suppressUntilKey q' \<noteq> withinEpsilonSinceKey q"
  "withinEpsilonSinceKey q \<noteq> refRateKey q'" "refRateKey q' \<noteq> withinEpsilonSinceKey q"
  "suppressUntilKey q \<noteq> refRateKey q'" "refRateKey q' \<noteq> suppressUntilKey q"
  "stateLastScaleUpTimestampKey \<noteq> withinEpsilonSinceKey q"
  "stateLastScaleUpTimestampKey \<noteq> suppressUntilKey q"
  "stateLastScaleUpTimestampKey \<noteq> refRateKey q"
  "withinEpsilonSinceKey q \<noteq> stateLastScaleUpTimestampKey"
  "suppressUntilKey q \<noteq> stateLastScaleUpTimestampKey"
  "refRateKey q \<noteq> stateLastScaleUpTimestampKey"
  by (rule append_suffix_neq;
      simp add: withinEpsilonSinceKey_def suppressUntilKey_def refRateKey_def)+

lemma detector_keys_eq [simp]:
  "withinEpsilonSinceKey q = withinEpsilonSinceKey q' \<longleftrightarrow> q = q'"
  "suppressUntilKey q = suppressUntilKey q' \<longleftrightarrow> q = q'"
  "refRateKey q = refRateKey q' \<longleftrightarrow> q = q'"
  by (simp_all add: withinEpsilonSinceKey_def suppressUntilKey_def refRateKey_def)

definition queue_names :: "string list" where
  "queue_names = [''workflow'', ''activity'', ''nexus'']"

lemma queue_keys_valid:
  "q \<in> set queue_names \<Longrightarrow> withinEpsilonSinceKey q \<in> set noSyncValidStateKeys"
  "q \<in> set queue_names \<Longrightarrow> suppressUntilKey q \<in> set noSyncValidStateKeys"
  "q \<in> set queue_names \<Longrightarrow> refRateKey q \<in> set noSyncValidStateKeys"
  "stateLastScaleUpTimestampKey \<in> set noSyncValidStateKeys"
  by (auto simp: queue_names_def noSyncValidStateKeys_def)

lemma GetInt64_known [simp]:
  "k \<in> set valid \<Longrightarrow> GetInt64Field (Some (known_state valid s)) k d = GetInt64Field s k d"
  by (rule GetInt64Field_cong) (simp add: known_state_at)

lemma GetFloat64_known [simp]:
  "k \<in> set valid \<Longrightarrow> GetFloat64Field (Some (known_state valid s)) k d = GetFloat64Field s k d"
  by (rule GetFloat64Field_cong) (simp add: known_state_at)

lemma read_detector_known:
  "q \<in> set queue_names \<Longrightarrow>
    read_detector (Some (known_state noSyncValidStateKeys s)) q = read_detector s q"
  by (simp add: read_detector_def queue_keys_valid)

lemma read_write_detector [simp]:
  "read_detector (Some (write_detector q d m)) q = d"
  by (cases d) (simp add: read_detector_def write_detector_def)

lemma read_write_detector_other:
  "q \<noteq> q' \<Longrightarrow> read_detector (Some (write_detector q' d m)) q = read_detector (Some m) q"
  by (simp add: read_detector_def write_detector_def)

lemma read_detector_last [simp]:
  "read_detector (Some (AList.update stateLastScaleUpTimestampKey v m)) q = read_detector (Some m) q"
  by (simp add: read_detector_def)

lemma last_write_detector [simp]:
  "GetInt64Field (Some (write_detector q d m)) stateLastScaleUpTimestampKey e =
    GetInt64Field (Some m) stateLastScaleUpTimestampKey e"
  by (simp add: write_detector_def)

lemma GetInt64Field_delete_other:
  "k' \<noteq> k \<Longrightarrow> GetInt64Field (Some (AList.delete k m)) k' d = GetInt64Field (Some m) k' d"
  by (rule GetInt64Field_cong) (simp add: map_simps)

lemma last_clear_detector [simp]:
  "GetInt64Field (Some (clear_detector q m)) stateLastScaleUpTimestampKey e =
    GetInt64Field (Some m) stateLastScaleUpTimestampKey e"
  by (simp add: clear_detector_def GetInt64Field_delete_other)

lemma status_keys_write_detector:
  "q \<in> set queue_names \<Longrightarrow> status_keys_in noSyncValidStateKeys (Some m) \<Longrightarrow>
    status_keys_in noSyncValidStateKeys (Some (write_detector q d m))"
  by (simp add: write_detector_def queue_keys_valid status_keys_update)

lemma status_keys_clear_detector:
  "status_keys_in valid (Some m) \<Longrightarrow> status_keys_in valid (Some (clear_detector q m))"
  by (auto simp: clear_detector_def)

section \<open>The loop of the metrics poll\<close>

abbreviation (input) "noSync_last s \<equiv> GetInt64Field s stateLastScaleUpTimestampKey 0"

lemmas suppress_def = shouldSuppressScaleUpWhenDispatchWithinEpsilon_def

lemma suppress_last:
  "GetInt64Field (Some (snd (shouldSuppressScaleUpWhenDispatchWithinEpsilon cfg s m q qm now thr)))
     stateLastScaleUpTimestampKey e = GetInt64Field (Some m) stateLastScaleUpTimestampKey e"
  by (simp add: suppress_def Let_def split: option.split)

lemma suppress_keys:
  "q \<in> set queue_names \<Longrightarrow> status_keys_in noSyncValidStateKeys (Some m) \<Longrightarrow>
    status_keys_in noSyncValidStateKeys
      (Some (snd (shouldSuppressScaleUpWhenDispatchWithinEpsilon cfg s m q qm now thr)))"
  by (simp add: suppress_def Let_def status_keys_write_detector status_keys_clear_detector
      split: option.split)

lemma suppress_other:
  "q \<noteq> q' \<Longrightarrow> read_detector
     (Some (snd (shouldSuppressScaleUpWhenDispatchWithinEpsilon cfg s m q' qm now thr))) q =
   read_detector (Some m) q"
  by (simp add: suppress_def Let_def read_write_detector_other split: option.split)
    (simp add: read_detector_def clear_detector_def GetInt64Field_delete_other
      GetFloat64Field_cong map_simps)

lemma snapshot_names: "q \<in> set (snapshot_queues snap) \<Longrightarrow> queueTypeName (fst q) \<in> set queue_names"
  by (auto simp: snapshot_queues_def queueTypeName_def queue_names_def)

lemma poll_queue_type_state:
  "loopState (poll_queue_type cfg s now pc el q st) =
    snd (shouldSuppressScaleUpWhenDispatchWithinEpsilon cfg s (loopState st)
      (queueTypeName (fst q)) (snd q) now (backlogThreshold pc))"
  by (simp add: poll_queue_type_def Let_def split: prod.split option.split)

lemma fold_poll_invariant:
  assumes "P (loopState st)"
    and "\<And>q m. q \<in> set qs \<Longrightarrow> P m \<Longrightarrow>
      P (snd (shouldSuppressScaleUpWhenDispatchWithinEpsilon cfg s m
        (queueTypeName (fst q)) (snd q) now (backlogThreshold pc)))"
  shows "P (loopState (fold (poll_queue_type cfg s now pc el) qs st))"
  using assms
proof (induction qs arbitrary: st)
  case (Cons q qs)
  have "P (loopState (poll_queue_type cfg s now pc el q st))"
    unfolding poll_queue_type_state using Cons.prems by simp
  then show ?case using Cons.IH Cons.prems(2) by simp
qed simp

text \<open>The three results of the loop, each for the whole snapshot.\<close>

definition poll_loop_result ::
    "int \<Rightarrow> ScalingAlgorithmConfig \<Rightarrow> ScalingAlgorithmStatus \<Rightarrow> ScalingMetricsSnapshot \<Rightarrow> poll_loop"
where
  "poll_loop_result now cfg s snap =
    fold (poll_queue_type cfg s now (noSyncPollConfig cfg) (wrap64 (now - noSync_last s)))
      (snapshot_queues snap)
      \<lparr>loopState = known_state noSyncValidStateKeys s, suppressedAny = False, scaleUp = False\<rparr>"

lemma poll_response:
  "noSyncProcessMetricsPoll now cfg s snap =
    (let st = poll_loop_result now cfg s snap
     in \<lparr>PollActions = (if scaleUp st then [action_of ActionTypeInvokeWorker None] else []),
         PollStatus = Some (if scaleUp st
           then AList.update stateLastScaleUpTimestampKey (VInt64 now) (loopState st)
           else loopState st),
         NextPoll = Some (millis (if suppressedAny st
           then GetInt64Field cfg configNoSyncSuppressPollIntervalMsKey
                  configNoSyncSuppressPollIntervalMsDefault
           else GetInt64Field cfg configNoSyncMetricsPollIntervalMsKey
                  configNoSyncMetricsPollIntervalMsDefault))\<rparr>)"
  by (simp add: noSyncProcessMetricsPoll_def poll_loop_result_def Let_def)

lemma poll_loop_keys: "status_keys_in noSyncValidStateKeys (Some (loopState (poll_loop_result now cfg s snap)))"
  unfolding poll_loop_result_def
  by (rule fold_poll_invariant) (simp_all add: known_state_status suppress_keys snapshot_names)

lemma poll_loop_last: "noSync_last (Some (loopState (poll_loop_result now cfg s snap))) = noSync_last s"
  unfolding poll_loop_result_def
  by (rule fold_poll_invariant) (simp_all add: suppress_last queue_keys_valid)

interpretation nosync: scaling_algorithm noSync_ops noSyncValidStateKeys
proof unfold_locales
  fix now cfg s req snap g a r
  show "a \<in> set (TaskAddActions (opProcessTaskAdd noSync_ops now cfg s req)) \<Longrightarrow>
      executable_action (CompatibleLaunchStrategies noSync_ops) a
      \<or> Action a = ActionTypeDeferredScalingDecision"
    by (auto simp: noSync_ops_def noSyncProcessTaskAdd_def Let_def executable_action_of
        split: if_splits)
  show "opProcessDeferredScalingDecision noSync_ops cfg s req g = Inr r \<Longrightarrow>
      a \<in> set (TaskAddActions r) \<Longrightarrow> executable_action (CompatibleLaunchStrategies noSync_ops) a"
    by (auto simp: noSync_ops_def noSyncProcessDeferredScalingDecision_def)
  show "a \<in> set (PollActions (opProcessMetricsPoll noSync_ops now cfg s snap)) \<Longrightarrow>
      executable_action (CompatibleLaunchStrategies noSync_ops) a"
    by (auto simp: noSync_ops_def poll_response Let_def executable_action_of split: if_splits)
  show "a \<in> set (RegistrationActions (opTaskQueueRegistrationActions noSync_ops cfg s)) \<Longrightarrow>
      executable_action (CompatibleLaunchStrategies noSync_ops) a"
    by (auto simp: noSync_ops_def noSyncTaskQueueRegistrationActions_def executable_action_of)
  show "a \<in> set (PollActions (opInactiveGroupActions noSync_ops cfg s)) \<Longrightarrow>
      executable_action (CompatibleLaunchStrategies noSync_ops) a"
    by (auto simp: noSync_ops_def noSyncInactiveGroupActions_def)
  show "status_keys_in noSyncValidStateKeys
      (TaskAddStatus (opProcessTaskAdd noSync_ops now cfg s req))"
    by (auto simp: noSync_ops_def noSyncProcessTaskAdd_def Let_def known_state_status
        queue_keys_valid)
  show "opProcessDeferredScalingDecision noSync_ops cfg s req g = Inr r \<Longrightarrow>
      status_keys_in noSyncValidStateKeys s \<Longrightarrow>
      status_keys_in noSyncValidStateKeys (TaskAddStatus r)"
    by (auto simp: noSync_ops_def noSyncProcessDeferredScalingDecision_def)
  show "status_keys_in noSyncValidStateKeys
      (PollStatus (opProcessMetricsPoll noSync_ops now cfg s snap))"
    by (auto simp: noSync_ops_def poll_response Let_def poll_loop_keys queue_keys_valid)
  show "status_keys_in noSyncValidStateKeys s \<Longrightarrow> status_keys_in noSyncValidStateKeys
      (RegistrationStatus (opTaskQueueRegistrationActions noSync_ops cfg s))"
    by (simp add: noSync_ops_def noSyncTaskQueueRegistrationActions_def)
  show "status_keys_in noSyncValidStateKeys (PollStatus (opInactiveGroupActions noSync_ops cfg s))"
    by (simp add: noSync_ops_def noSyncInactiveGroupActions_def)
qed

section \<open>The detector after a poll\<close>

definition zero_detector :: detector where
  "zero_detector = \<lparr>withinSince = 0, suppressUntil = 0, refRate = Fin (- 1)\<rparr>"

abbreviation (input) "noSync_threshold cfg \<equiv> GetInt64Field cfg configNoSyncScaleUpBacklogThresholdKey
  configNoSyncScaleUpBacklogThresholdDefault"
abbreviation (input) "noSync_confirm cfg \<equiv> GetInt64Field cfg
  configNoSyncScaleUpDispatchRateEpsilonConfirmMsKey
  configNoSyncScaleUpDispatchRateEpsilonConfirmMsDefault"
abbreviation (input) "noSync_suppress cfg \<equiv> GetInt64Field cfg configNoSyncSuppressScaleUpMsKey
  configNoSyncSuppressScaleUpMsDefault"
abbreviation (input) "noSync_cooloff cfg \<equiv> GetInt64Field cfg configNoSyncScaleUpCooloffMsKey
  configNoSyncScaleUpCooloffMsDefault"
abbreviation (input) "noSync_lifetime cfg \<equiv> GetInt64Field cfg configNoSyncMaxWorkerLifetimeMsKey
  configNoSyncMaxWorkerLifetimeMsDefault"

definition poll_detector ::
    "ScalingAlgorithmConfig \<Rightarrow> int \<Rightarrow> QueueTypeScalingMetrics option \<Rightarrow> detector \<Rightarrow> detector"
where
  "poll_detector cfg now qm d =
    (if dispatchRateEpsilon cfg = Fin 0 then zero_detector
     else (case qm of
        None \<Rightarrow> d
      | Some m \<Rightarrow> detector_step (dispatchRateEpsilon cfg) (noSync_confirm cfg) (noSync_suppress cfg)
          now (LastBacklogCount m > noSync_threshold cfg) (LastProcessingRate m) d))"

lemma epsilon_cases: "dispatchRateEpsilon cfg = Fin 0 \<or> flt_less (Fin 0) (dispatchRateEpsilon cfg)"
  by (simp add: dispatchRateEpsilon_def Let_def)

lemma epsilon_positive_iff: "flt_less (Fin 0) (dispatchRateEpsilon cfg) \<longleftrightarrow> dispatchRateEpsilon cfg \<noteq> Fin 0"
  using epsilon_cases [of cfg] by auto

lemma epsilon_eq_0: "flt_eq (dispatchRateEpsilon cfg) (Fin 0) \<longleftrightarrow> dispatchRateEpsilon cfg = Fin 0"
  by (auto simp: flt_eq_def)

lemma GetInt64Field_delete_same: "GetInt64Field (Some (AList.delete k m)) k d = d"
  by (simp add: GetInt64Field_def getInt64FromMap_def map_simps)

lemma GetFloat64Field_delete_same: "GetFloat64Field (Some (AList.delete k m)) k d = d"
  by (simp add: GetFloat64Field_def getFloat64FromMap_def map_simps)

lemma read_clear_detector: "read_detector (Some (clear_detector q m)) q = zero_detector"
  by (simp add: read_detector_def clear_detector_def zero_detector_def
      GetInt64Field_delete_same GetInt64Field_delete_other GetFloat64Field_delete_same)

lemma suppress_same:
  assumes "read_detector (Some m) q = read_detector s q"
  shows "read_detector (Some (snd (shouldSuppressScaleUpWhenDispatchWithinEpsilon
      cfg s m q qm now (noSync_threshold cfg)))) q = poll_detector cfg now qm (read_detector s q)"
  using assms
  by (simp add: suppress_def poll_detector_def Let_def epsilon_eq_0 read_clear_detector
      split: option.split)

lemma suppress_flag:
  "fst (shouldSuppressScaleUpWhenDispatchWithinEpsilon cfg s m q qm now (noSync_threshold cfg)) \<longleftrightarrow>
    flt_less (Fin 0) (dispatchRateEpsilon cfg) \<and> qm \<noteq> None
    \<and> now < suppressUntil (poll_detector cfg now qm (read_detector s q))"
  by (cases qm) (auto simp: suppress_def poll_detector_def Let_def epsilon_eq_0 epsilon_positive_iff)

lemma threshold_config [simp]: "backlogThreshold (noSyncPollConfig cfg) = noSync_threshold cfg"
  by (simp add: noSyncPollConfig_def)

lemma poll_loop_detector:
  assumes "(t, qm) \<in> set (snapshot_queues snap)"
  shows "read_detector (Some (loopState (poll_loop_result now cfg s snap))) (queueTypeName t) =
    poll_detector cfg now qm (read_detector s (queueTypeName t))"
proof -
  have known: "q \<in> set queue_names \<Longrightarrow>
      read_detector (Some (known_state noSyncValidStateKeys s)) q = read_detector s q" for q
    by (rule read_detector_known)
  from assms show ?thesis
    by (auto simp: snapshot_queues_def poll_loop_result_def poll_queue_type_state
        queueTypeName_def suppress_other suppress_same known queue_names_def)
qed

text \<open>The poll's decision for a queue type is the one that later task-adds will read.\<close>

lemma poll_flag_is_task_add_suppressed:
  assumes "(t, Some m) \<in> set (snapshot_queues snap)"
  shows "fst (shouldSuppressScaleUpWhenDispatchWithinEpsilon cfg s m' (queueTypeName t) (Some m) now
      (noSync_threshold cfg)) \<longleftrightarrow>
    task_add_suppressed now cfg (PollStatus (noSyncProcessMetricsPoll now cfg s snap)) t"
proof -
  have "suppressUntil (read_detector (PollStatus (noSyncProcessMetricsPoll now cfg s snap))
      (queueTypeName t)) =
    suppressUntil (poll_detector cfg now (Some m) (read_detector s (queueTypeName t)))"
    using poll_loop_detector [OF assms, of now cfg s] by (simp add: poll_response Let_def)
  then show ?thesis
    by (simp add: suppress_flag task_add_suppressed_def read_detector_def)
qed

lemma poll_queue_type_scaleUp:
  "scaleUp (poll_queue_type cfg s now pc el q st) \<longleftrightarrow> scaleUp st
    \<or> (\<exists>m. snd q = Some m \<and> per_type_scale_up pc el
        (fst (shouldSuppressScaleUpWhenDispatchWithinEpsilon cfg s (loopState st)
          (queueTypeName (fst q)) (snd q) now (backlogThreshold pc))) (LastBacklogCount m))"
  by (auto simp: poll_queue_type_def Let_def split: prod.split option.split)

lemma fold_poll_scaleUp:
  assumes "\<And>q m m'. q \<in> set qs \<Longrightarrow> snd q = Some m \<Longrightarrow>
    fst (shouldSuppressScaleUpWhenDispatchWithinEpsilon cfg s m' (queueTypeName (fst q)) (Some m)
      now (backlogThreshold pc)) = f q"
  shows "scaleUp (fold (poll_queue_type cfg s now pc el) qs st) \<longleftrightarrow> scaleUp st
    \<or> (\<exists>q \<in> set qs. \<exists>m. snd q = Some m \<and> per_type_scale_up pc el (f q) (LastBacklogCount m))"
  using assms
proof (induction qs arbitrary: st)
  case (Cons q qs)
  have "scaleUp (poll_queue_type cfg s now pc el q st) \<longleftrightarrow> scaleUp st
    \<or> (\<exists>m. snd q = Some m \<and> per_type_scale_up pc el (f q) (LastBacklogCount m))"
    using Cons.prems [of q] by (auto simp: poll_queue_type_scaleUp)
  then show ?case using Cons.IH Cons.prems by auto
qed simp

definition queue_wants_worker ::
    "int \<Rightarrow> ScalingAlgorithmConfig \<Rightarrow> ScalingAlgorithmStatus \<Rightarrow> ScalingMetricsSnapshot
      \<Rightarrow> TaskQueueType \<Rightarrow> QueueTypeScalingMetrics \<Rightarrow> bool" where
  "queue_wants_worker now cfg s snap t m \<longleftrightarrow>
     LastBacklogCount m > noSync_threshold cfg \<and> wrap64 (now - noSync_last s) \<ge> noSync_cooloff cfg
       \<and> \<not> task_add_suppressed now cfg (PollStatus (noSyncProcessMetricsPoll now cfg s snap)) t
     \<or> noSync_lifetime cfg > 0 \<and> LastBacklogCount m > 0
       \<and> wrap64 (now - noSync_last s) \<ge> noSync_lifetime cfg"

lemma poll_loop_scaleUp:
  "scaleUp (poll_loop_result now cfg s snap) \<longleftrightarrow>
    (\<exists>t m. (t, Some m) \<in> set (snapshot_queues snap) \<and> queue_wants_worker now cfg s snap t m)"
proof -
  let ?f = "\<lambda>q. task_add_suppressed now cfg
    (PollStatus (noSyncProcessMetricsPoll now cfg s snap)) (fst q)"
  have per: "per_type_scale_up (noSyncPollConfig cfg) (wrap64 (now - noSync_last s)) (?f q)
      (LastBacklogCount m) \<longleftrightarrow> queue_wants_worker now cfg s snap (fst q) m"
    for q :: "TaskQueueType \<times> QueueTypeScalingMetrics option" and m
    by (auto simp: queue_wants_worker_def per_type_scale_up_def noSyncPollConfig_def Let_def)
  have "scaleUp (poll_loop_result now cfg s snap) \<longleftrightarrow>
    (\<exists>q \<in> set (snapshot_queues snap). \<exists>m. snd q = Some m \<and>
      per_type_scale_up (noSyncPollConfig cfg) (wrap64 (now - noSync_last s)) (?f q)
        (LastBacklogCount m))"
    unfolding poll_loop_result_def
    by (subst fold_poll_scaleUp [where f = ?f])
      (auto simp: poll_flag_is_task_add_suppressed)
  then show ?thesis unfolding per by force
qed

section \<open>Spacing of invocations\<close>

text \<open>The times at which a run asks for a worker because of a task-add or a metrics poll.\<close>

fun invocation_time :: "algorithm_event \<times> ScalingAction \<Rightarrow> int list" where
  "invocation_time (TaskAddEvent now req, a) =
     (if Action a = ActionTypeInvokeWorker then [now] else [])"
| "invocation_time (MetricsPollEvent now snap, a) =
     (if Action a = ActionTypeInvokeWorker then [now] else [])"
| "invocation_time _ = []"

text \<open>What the controller does with a group between two of its deactivations, at the times of a
  64-bit clock.  A registration keeps the timestamp of the last scale-up; the deactivation drops it
  with the rest of the status.\<close>

fun timed_event :: "algorithm_event \<Rightarrow> bool" where
  "timed_event (TaskAddEvent now req) = (0 \<le> now \<and> now \<le> max_int64)"
| "timed_event (MetricsPollEvent now snap) = (0 \<le> now \<and> now \<le> max_int64)"
| "timed_event (DeferredEvent req g) = True"
| "timed_event RegistrationEvent = True"
| "timed_event InactiveEvent = False"

text \<open>How long an invocation waits after the one before: for the cooloff, but a poll that sees a
  backlog also refreshes the workers after their lifetime, where there is one.\<close>

definition refreshes :: "ScalingAlgorithmConfig \<Rightarrow> algorithm_event \<Rightarrow> bool" where
  "refreshes cfg ev \<longleftrightarrow> noSync_lifetime cfg > 0 \<and> (case ev of
     MetricsPollEvent now snap \<Rightarrow> \<exists>(t, q) \<in> set (snapshot_queues snap).
       (case q of None \<Rightarrow> False | Some m \<Rightarrow> LastBacklogCount m > 0)
   | _ \<Rightarrow> False)"

lemma refreshes_poll:
  "refreshes cfg (MetricsPollEvent now snap) \<longleftrightarrow> noSync_lifetime cfg > 0
     \<and> (\<exists>t m. (t, Some m) \<in> set (snapshot_queues snap) \<and> LastBacklogCount m > 0)"
  by (force simp: refreshes_def split: option.splits)

definition invocation_gap :: "ScalingAlgorithmConfig \<Rightarrow> algorithm_event \<Rightarrow> int" where
  "invocation_gap cfg ev =
    (if refreshes cfg ev then min (noSync_cooloff cfg) (noSync_lifetime cfg) else noSync_cooloff cfg)"

lemma task_add_last:
  "noSync_last (TaskAddStatus (noSyncProcessTaskAdd now cfg s req)) =
    (if TaskAddActions (noSyncProcessTaskAdd now cfg s req) = [] then noSync_last s else now)"
  by (simp add: noSyncProcessTaskAdd_def Let_def queue_keys_valid)

lemma poll_last:
  "noSync_last (PollStatus (noSyncProcessMetricsPoll now cfg s snap)) =
    (if PollActions (noSyncProcessMetricsPoll now cfg s snap) = [] then noSync_last s else now)"
  by (simp add: poll_response Let_def poll_loop_last)

lemma task_add_invokes:
  assumes "a \<in> set (TaskAddActions (noSyncProcessTaskAdd now cfg s req))"
  shows "TaskAddActions (noSyncProcessTaskAdd now cfg s req) = [action_of ActionTypeInvokeWorker None]
    \<and> noSync_cooloff cfg \<le> wrap64 (now - noSync_last s)"
  using assms by (auto simp: noSyncProcessTaskAdd_def Let_def split: if_splits)

lemma poll_invokes:
  assumes "a \<in> set (PollActions (noSyncProcessMetricsPoll now cfg s snap))"
  shows "PollActions (noSyncProcessMetricsPoll now cfg s snap) = [action_of ActionTypeInvokeWorker None]
    \<and> invocation_gap cfg (MetricsPollEvent now snap) \<le> wrap64 (now - noSync_last s)"
proof -
  have up: "scaleUp (poll_loop_result now cfg s snap)"
    using assms by (simp add: poll_response Let_def split: if_splits)
  then obtain t m where "(t, Some m) \<in> set (snapshot_queues snap)" "queue_wants_worker now cfg s snap t m"
    unfolding poll_loop_scaleUp by blast
  then have "invocation_gap cfg (MetricsPollEvent now snap) \<le> wrap64 (now - noSync_last s)"
    unfolding queue_wants_worker_def invocation_gap_def refreshes_poll by (auto simp: min_le_iff_disj)
  with up show ?thesis by (simp add: poll_response Let_def)
qed

definition step_times :: "algorithm_event \<Rightarrow> ScalingAction list \<Rightarrow> int list" where
  "step_times ev actions = concat (List.map (\<lambda>a. invocation_time (ev, a)) actions)"

lemma noSync_step_times:
  assumes "timed_event ev" and "algorithm_step noSync_ops cfg ev s = (actions, s')"
  shows "step_times ev actions = [] \<and> noSync_last s' = noSync_last s
    \<or> (\<exists>now. step_times ev actions = [now] \<and> noSync_last s' = now \<and> 0 \<le> now \<and> now \<le> max_int64
        \<and> invocation_gap cfg ev \<le> wrap64 (now - noSync_last s))"
proof (cases ev)
  case (TaskAddEvent now req)
  let ?r = "noSyncProcessTaskAdd now cfg s req"
  have r: "actions = TaskAddActions ?r" "s' = TaskAddStatus ?r"
    using assms(2) TaskAddEvent by (auto simp: noSync_ops_def Let_def)
  show ?thesis
  proof (cases "TaskAddActions ?r")
    case Nil
    then show ?thesis by (simp add: r task_add_last step_times_def)
  next
    case (Cons a as)
    then have "TaskAddActions ?r = [action_of ActionTypeInvokeWorker None]"
      "noSync_cooloff cfg \<le> wrap64 (now - noSync_last s)"
      using task_add_invokes [of a now cfg s req] by simp_all
    then show ?thesis
      using assms(1) TaskAddEvent
      by (auto simp: r task_add_last step_times_def invocation_gap_def refreshes_def)
  qed
next
  case (MetricsPollEvent now snap)
  let ?r = "noSyncProcessMetricsPoll now cfg s snap"
  have r: "actions = PollActions ?r" "s' = PollStatus ?r"
    using assms(2) MetricsPollEvent by (auto simp: noSync_ops_def Let_def)
  show ?thesis
  proof (cases "PollActions ?r")
    case Nil
    then show ?thesis by (simp add: r poll_last step_times_def)
  next
    case (Cons a as)
    then have "PollActions ?r = [action_of ActionTypeInvokeWorker None]"
      "invocation_gap cfg ev \<le> wrap64 (now - noSync_last s)"
      using MetricsPollEvent poll_invokes [of a now cfg s snap] by simp_all
    then show ?thesis
      using assms(1) MetricsPollEvent by (auto simp: r poll_last step_times_def)
  qed
next
  case (DeferredEvent req g)
  with assms(2) show ?thesis
    by (auto simp: noSync_ops_def noSyncProcessDeferredScalingDecision_def step_times_def)
next
  case RegistrationEvent
  with assms(2) show ?thesis
    by (auto simp: noSync_ops_def noSyncTaskQueueRegistrationActions_def step_times_def Let_def)
qed (use assms(1) in simp)

definition noSync_fires ::
    "ScalingAlgorithmConfig \<Rightarrow> algorithm_event \<Rightarrow> ScalingAlgorithmStatus \<Rightarrow> int option" where
  "noSync_fires cfg ev s = (case step_times ev (fst (algorithm_step noSync_ops cfg ev s)) of
     [] \<Rightarrow> None | t # ts \<Rightarrow> Some t)"

interpretation noSync_timer: cooldown_timer timed_event
  "\<lambda>ev s. snd (algorithm_step noSync_ops cfg ev s)" "noSync_fires cfg" "\<lambda>s. noSync_last s"
  "invocation_gap cfg" for cfg
proof unfold_locales
  fix ev s t
  assume ev: "timed_event ev"
  obtain actions s' where step: "algorithm_step noSync_ops cfg ev s = (actions, s')" by fastforce
  note cases = noSync_step_times [OF ev step]
  show "noSync_fires cfg ev s = Some t \<Longrightarrow>
      noSync_last (snd (algorithm_step noSync_ops cfg ev s)) = t \<and> 0 \<le> t \<and> t \<le> max_int64
      \<and> invocation_gap cfg ev \<le> wrap64 (t - noSync_last s)"
    using cases by (auto simp: noSync_fires_def step)
  show "noSync_fires cfg ev s = None \<Longrightarrow>
      noSync_last (snd (algorithm_step noSync_ops cfg ev s)) = noSync_last s"
    using cases by (auto simp: noSync_fires_def step)
qed

text \<open>The invocations of a run, each with the event that asks for it.\<close>

definition invocations :: "(algorithm_event \<times> ScalingAction) list \<Rightarrow> (algorithm_event \<times> int) list" where
  "invocations entries = concat (List.map (\<lambda>(ev, a). List.map (Pair ev) (invocation_time (ev, a))) entries)"

lemma invocations_Cons:
  assumes "algorithm_step ops cfg ev s = (actions, s')"
  shows "invocations (fst (algorithm_run ops cfg (ev # evs) s)) =
    List.map (Pair ev) (step_times ev actions) @ invocations (fst (algorithm_run ops cfg evs s'))"
proof -
  have "concat (List.map (\<lambda>(ev, a). List.map (Pair ev) (invocation_time (ev, a))) (List.map (Pair ev) actions))
      = List.map (Pair ev) (step_times ev actions)"
    by (simp add: step_times_def map_concat comp_def)
  with assms show ?thesis by (simp add: invocations_def split: prod.split)
qed

lemma noSync_firings:
  "\<forall>ev \<in> set evs. timed_event ev \<Longrightarrow>
    invocations (fst (algorithm_run noSync_ops cfg evs s)) =
    firings (\<lambda>ev s. snd (algorithm_step noSync_ops cfg ev s)) (noSync_fires cfg) evs s"
proof (induction evs arbitrary: s)
  case Nil
  then show ?case by (simp add: invocations_def)
next
  case (Cons ev evs)
  obtain actions s' where step: "algorithm_step noSync_ops cfg ev s = (actions, s')" by fastforce
  have "timed_event ev" using Cons.prems by simp
  then have "List.map (Pair ev) (step_times ev actions)
      = (case noSync_fires cfg ev s of None \<Rightarrow> [] | Some t \<Rightarrow> [(ev, t)])"
    using noSync_step_times [OF _ step] by (auto simp: noSync_fires_def step)
  then show ?case
    unfolding invocations_Cons [OF step] using Cons by (simp add: step)
qed

section \<open>What a suppression rests on\<close>

text \<open>A poll confirms a reference rate for a queue type when it sees a backlog above the threshold
  and a positive dispatch rate within the band, or has no metrics for the type.\<close>

definition in_band :: "ScalingAlgorithmConfig \<Rightarrow> flt \<Rightarrow> TaskQueueType \<Rightarrow> ScalingMetricsSnapshot \<Rightarrow> bool"
where
  "in_band cfg ref t snap \<longleftrightarrow> (\<forall>m. (t, Some m) \<in> set (snapshot_queues snap) \<longrightarrow>
     LastBacklogCount m > noSync_threshold cfg \<and> \<not> flt_le (LastProcessingRate m) (Fin 0)
     \<and> \<not> dispatchRateOutsideEpsilonBand (dispatchRateEpsilon cfg) (LastProcessingRate m) ref)"

text \<open>The events so far explain a detector: its timestamp and rate are those of a poll, every
  later poll confirmed the rate, and a suppression was set by one of them, after the confirm
  window.\<close>

definition explains ::
    "ScalingAlgorithmConfig \<Rightarrow> TaskQueueType \<Rightarrow> algorithm_event list \<Rightarrow> detector \<Rightarrow> bool" where
  "explains cfg t evs d \<longleftrightarrow>
    (\<exists>before snap0 m0 after. evs = before @ MetricsPollEvent (withinSince d) snap0 # after
       \<and> (t, Some m0) \<in> set (snapshot_queues snap0) \<and> refRate d = LastProcessingRate m0
       \<and> LastBacklogCount m0 > noSync_threshold cfg
       \<and> (\<forall>now snap. MetricsPollEvent now snap \<in> set after \<longrightarrow> in_band cfg (refRate d) t snap)
       \<and> (suppressUntil d \<noteq> 0 \<longrightarrow> (\<exists>t1 snap1. MetricsPollEvent t1 snap1 \<in> set after
            \<and> withinSince d + noSync_confirm cfg \<le> t1
            \<and> suppressUntil d = t1 + noSync_suppress cfg)))"

definition detector_invariant ::
    "ScalingAlgorithmConfig \<Rightarrow> TaskQueueType \<Rightarrow> algorithm_event list \<Rightarrow> detector \<Rightarrow> bool" where
  "detector_invariant cfg t evs d \<longleftrightarrow>
    (if withinSince d = 0 then suppressUntil d = 0 else explains cfg t evs d)"

fun small_time :: "algorithm_event \<Rightarrow> bool" where
  "small_time (MetricsPollEvent now snap) = (0 \<le> now \<and> now \<le> 2 ^ 52)"
| "small_time _ = True"

lemma explains_snoc:
  assumes "explains cfg t evs d"
    and "\<And>now snap. ev = MetricsPollEvent now snap \<Longrightarrow> in_band cfg (refRate d) t snap"
  shows "explains cfg t (evs @ [ev]) d"
proof -
  from assms(1) obtain before snap0 m0 "after" where
    e: "evs = before @ MetricsPollEvent (withinSince d) snap0 # after"
      "(t, Some m0) \<in> set (snapshot_queues snap0)" "refRate d = LastProcessingRate m0"
      "LastBacklogCount m0 > noSync_threshold cfg"
      "\<forall>now snap. MetricsPollEvent now snap \<in> set after \<longrightarrow> in_band cfg (refRate d) t snap"
      "suppressUntil d \<noteq> 0 \<longrightarrow> (\<exists>t1 snap1. MetricsPollEvent t1 snap1 \<in> set after
         \<and> withinSince d + noSync_confirm cfg \<le> t1 \<and> suppressUntil d = t1 + noSync_suppress cfg)"
    unfolding explains_def by blast
  show ?thesis
    unfolding explains_def
    by (rule exI [of _ before], rule exI [of _ snap0], rule exI [of _ m0],
        rule exI [of _ "after @ [ev]"])
      (use e assms(2) in auto)
qed

lemma detector_invariant_snoc:
  assumes "detector_invariant cfg t evs d"
    and "\<And>now snap. ev = MetricsPollEvent now snap \<Longrightarrow> in_band cfg (refRate d) t snap"
  shows "detector_invariant cfg t (evs @ [ev]) d"
  using assms explains_snoc [of cfg t evs d ev] by (auto simp: detector_invariant_def)

lemma snapshot_unique:
  "(t, x) \<in> set (snapshot_queues snap) \<Longrightarrow> (t, y) \<in> set (snapshot_queues snap) \<Longrightarrow> x = y"
  by (auto simp: snapshot_queues_def)

lemma in_band_None:
  "(t, None) \<in> set (snapshot_queues snap) \<Longrightarrow> in_band cfg ref t snap"
  by (auto simp: in_band_def snapshot_queues_def)

lemma in_band_Some:
  "(t, Some m) \<in> set (snapshot_queues snap) \<Longrightarrow> in_band cfg ref t snap \<longleftrightarrow>
     LastBacklogCount m > noSync_threshold cfg \<and> \<not> flt_le (LastProcessingRate m) (Fin 0)
     \<and> \<not> dispatchRateOutsideEpsilonBand (dispatchRateEpsilon cfg) (LastProcessingRate m) ref"
proof -
  assume "(t, Some m) \<in> set (snapshot_queues snap)"
  then have "(t, Some m') \<in> set (snapshot_queues snap) \<longleftrightarrow> m' = m" for m'
    using snapshot_unique [of t "Some m" snap "Some m'"] by auto
  then show ?thesis by (simp add: in_band_def)
qed

lemma explains_time:
  "explains cfg t evs d \<Longrightarrow> \<forall>ev \<in> set evs. small_time ev \<Longrightarrow> 0 \<le> withinSince d \<and> withinSince d \<le> 2 ^ 52"
  by (auto simp: explains_def)

lemma explains_suppress:
  assumes e: "explains cfg t evs d" and b: "in_band cfg (refRate d) t snap"
    and c: "withinSince d + noSync_confirm cfg \<le> now"
  shows "explains cfg t (evs @ [MetricsPollEvent now snap])
    (d\<lparr>suppressUntil := now + noSync_suppress cfg\<rparr>)"
proof -
  from e obtain before snap0 m0 "after" where
    e: "evs = before @ MetricsPollEvent (withinSince d) snap0 # after"
      "(t, Some m0) \<in> set (snapshot_queues snap0)" "refRate d = LastProcessingRate m0"
      "LastBacklogCount m0 > noSync_threshold cfg"
      "\<forall>now snap. MetricsPollEvent now snap \<in> set after \<longrightarrow> in_band cfg (refRate d) t snap"
    unfolding explains_def by blast
  show ?thesis
    unfolding explains_def
    by (rule exI [of _ before], rule exI [of _ snap0], rule exI [of _ m0],
        rule exI [of _ "after @ [MetricsPollEvent now snap]"])
      (use e b c in auto)
qed

lemma poll_detector_invariant:
  assumes inv: "detector_invariant cfg t evs d" and small: "\<forall>ev \<in> set evs. small_time ev"
    and now: "0 \<le> now" "now \<le> 2 ^ 52" and sup: "\<bar>noSync_suppress cfg\<bar> \<le> 2 ^ 62"
    and q: "(t, qm) \<in> set (snapshot_queues snap)"
  shows "detector_invariant cfg t (evs @ [MetricsPollEvent now snap]) (poll_detector cfg now qm d)"
proof (cases "dispatchRateEpsilon cfg = Fin 0")
  case True
  then show ?thesis by (simp add: poll_detector_def zero_detector_def detector_invariant_def)
next
  case False
  show ?thesis
  proof (cases qm)
    case None
    with q in_band_None have "in_band cfg (refRate d) t snap" by simp
    then show ?thesis
      using detector_invariant_snoc [OF inv, of "MetricsPollEvent now snap"] None False by (simp add: poll_detector_def)
  next
    case (Some m)
    let ?b = "LastBacklogCount m > noSync_threshold cfg" and ?r = "LastProcessingRate m"
    have d': "poll_detector cfg now qm d = detector_step (dispatchRateEpsilon cfg)
        (noSync_confirm cfg) (noSync_suppress cfg) now ?b ?r d"
      using False Some by (simp add: poll_detector_def)
    note band = in_band_Some [OF q [unfolded Some]]
    show ?thesis
    proof (cases "in_band cfg (refRate d) t snap")
      case out: False
      then show ?thesis
        by (auto simp: d' band detector_step_def detector_invariant_def)
    next
      case True
      have w: "wrap64 (now + noSync_suppress cfg) = now + noSync_suppress cfg"
        using now sup by (intro wrap64_id) (auto simp: int_width_defs abs_le_iff)
      show ?thesis
      proof (cases "withinSince d = 0")
        case zero: True
        then have "suppressUntil d = 0" using inv by (simp add: detector_invariant_def)
        moreover have "poll_detector cfg now qm d = d\<lparr>withinSince := now, refRate := ?r\<rparr>"
          using True zero by (simp add: d' band detector_step_def)
        moreover have "explains cfg t (evs @ [MetricsPollEvent now snap])
            (d\<lparr>withinSince := now, refRate := ?r\<rparr>)"
          unfolding explains_def
          by (rule exI [of _ evs], rule exI [of _ snap], rule exI [of _ m], rule exI [of _ "[]"])
            (use True q Some \<open>suppressUntil d = 0\<close> band in simp)
        ultimately show ?thesis by (simp add: detector_invariant_def)
      next
        case nz: False
        then have e: "explains cfg t evs d" using inv by (simp add: detector_invariant_def)
        have "wrap64 (now - withinSince d) = now - withinSince d"
          using explains_time [OF e small] now
          by (intro wrap64_diff_nonneg) (simp_all add: int_width_defs)
        then have step: "poll_detector cfg now qm d =
            (if withinSince d + noSync_confirm cfg \<le> now
             then d\<lparr>suppressUntil := now + noSync_suppress cfg\<rparr> else d)"
          using True nz w by (auto simp: d' band detector_step_def)
        show ?thesis
          using explains_suppress [OF e True] explains_snoc [OF e, of "MetricsPollEvent now snap"]
            True nz
          by (auto simp: step detector_invariant_def)
      qed
    qed
  qed
qed

lemma run_append:
  "snd (algorithm_run ops cfg (evs @ [ev]) s) =
    snd (algorithm_step ops cfg ev (snd (algorithm_run ops cfg evs s)))"
  by (induction evs arbitrary: s) (simp_all add: split_beta)

lemma noSync_status_step:
  "snd (algorithm_step noSync_ops cfg (TaskAddEvent now req) s) =
    TaskAddStatus (noSyncProcessTaskAdd now cfg s req)"
  "snd (algorithm_step noSync_ops cfg (DeferredEvent req g) s) = s"
  "snd (algorithm_step noSync_ops cfg (MetricsPollEvent now snap) s) =
    PollStatus (noSyncProcessMetricsPoll now cfg s snap)"
  "snd (algorithm_step noSync_ops cfg RegistrationEvent s) = s"
  "snd (algorithm_step noSync_ops cfg InactiveEvent s) = None"
  by (simp_all add: noSync_ops_def Let_def noSyncProcessDeferredScalingDecision_def
      noSyncTaskQueueRegistrationActions_def noSyncInactiveGroupActions_def)

lemma read_detector_task_add:
  "q \<in> set queue_names \<Longrightarrow>
    read_detector (TaskAddStatus (noSyncProcessTaskAdd now cfg s req)) q = read_detector s q"
  by (simp add: noSyncProcessTaskAdd_def Let_def read_detector_known)

lemma read_detector_None: "read_detector None q = zero_detector"
  by (simp add: read_detector_def zero_detector_def GetFloat64Field_def getFloat64FromMap_def)

lemma scalable_queue:
  assumes "t \<in> set scalableTaskQueueTypes"
  shows "queueTypeName t \<in> set queue_names" and "\<exists>qm. (t, qm) \<in> set (snapshot_queues snap)"
  using assms
  by (auto simp: scalableTaskQueueTypes_def queueTypeName_def queue_names_def snapshot_queues_def)

lemma run_detector_invariant:
  assumes t: "t \<in> set scalableTaskQueueTypes" and sup: "\<bar>noSync_suppress cfg\<bar> \<le> 2 ^ 62"
    and small: "\<forall>ev \<in> set evs. small_time ev"
  shows "detector_invariant cfg t evs
    (read_detector (snd (algorithm_run noSync_ops cfg evs None)) (queueTypeName t))"
  using small
proof (induction evs rule: rev_induct)
  case Nil
  then show ?case by (simp add: read_detector_None zero_detector_def detector_invariant_def)
next
  case (snoc ev evs)
  let ?q = "queueTypeName t"
  define s where "s = snd (algorithm_run noSync_ops cfg evs None)"
  have inv: "detector_invariant cfg t evs (read_detector s ?q)"
    using snoc by (simp add: s_def)
  note same = detector_invariant_snoc [OF inv, of ev]
  show ?case
  proof (cases ev)
    case (TaskAddEvent now req)
    with same show ?thesis
      by (simp add: run_append noSync_status_step s_def read_detector_task_add
          scalable_queue(1) [OF t] del: algorithm_step.simps)
  next
    case (DeferredEvent req g)
    with same show ?thesis by (simp add: run_append noSync_status_step s_def del: algorithm_step.simps)
  next
    case (MetricsPollEvent now snap)
    obtain qm where q: "(t, qm) \<in> set (snapshot_queues snap)"
      using scalable_queue(2) [OF t] by blast
    have d: "read_detector (snd (algorithm_run noSync_ops cfg (evs @ [ev]) None)) ?q =
        poll_detector cfg now qm (read_detector s ?q)"
      using poll_loop_detector [OF q, of now cfg s] MetricsPollEvent
      by (simp add: run_append noSync_status_step s_def poll_response Let_def
          del: algorithm_step.simps)
    show ?thesis
      using poll_detector_invariant [OF inv _ _ _ sup q, of now] snoc.prems MetricsPollEvent
      unfolding d by simp
  next
    case RegistrationEvent
    with same show ?thesis by (simp add: run_append noSync_status_step s_def del: algorithm_step.simps)
  next
    case InactiveEvent
    then show ?thesis
      by (simp add: run_append noSync_status_step read_detector_None zero_detector_def
          detector_invariant_def del: algorithm_step.simps)
  qed
qed

section \<open>Properties\<close>

definition missed_a_poller :: "SignalTaskAddRequest \<Rightarrow> bool" where
  "missed_a_poller req \<longleftrightarrow> \<not> IsSyncMatch req \<or> NoSyncMatchSignalsSinceLast req > 0"

definition task_add_fires ::
    "int \<Rightarrow> ScalingAlgorithmConfig \<Rightarrow> ScalingAlgorithmStatus \<Rightarrow> SignalTaskAddRequest \<Rightarrow> bool" where
  "task_add_fires now cfg s req \<longleftrightarrow> missed_a_poller req
     \<and> \<not> task_add_suppressed now cfg s (SignalTaskQueueType req)
     \<and> noSync_cooloff cfg \<le> wrap64 (now - noSync_last s)"

text \<open>The exact behaviour of no-sync's \<open>ProcessTaskAdd\<close>: it starts one worker exactly when a
  task found no poller (now, or in the batch), the poll does not suppress scale-ups for the queue
  type, and the cooloff since the last scale-up has passed; then it records the time.  Otherwise
  it leaves the time as it was and reports the batch as throttled.\<close>

theorem noSync_task_add_behaviour:
  "TaskAddActions (noSyncProcessTaskAdd now cfg s req) =
      (if task_add_fires now cfg s req then [action_of ActionTypeInvokeWorker None] else [])
    \<and> noSync_last (TaskAddStatus (noSyncProcessTaskAdd now cfg s req)) =
      (if task_add_fires now cfg s req then now else noSync_last s)
    \<and> ThrottledCount (noSyncProcessTaskAdd now cfg s req) =
      (if missed_a_poller req \<and> \<not> task_add_fires now cfg s req
       then NoSyncMatchSignalsSinceLast req else 0)
    \<and> (\<forall>q \<in> set queue_names.
        read_detector (TaskAddStatus (noSyncProcessTaskAdd now cfg s req)) q = read_detector s q)"
  unfolding task_add_fires_def missed_a_poller_def
  by (simp add: noSyncProcessTaskAdd_def Let_def queue_keys_valid read_detector_known)

text \<open>A metrics poll of no-sync starts one worker exactly when some queue type it has metrics
  for either has a backlog above the threshold, outside the cooloff and not suppressed, or has a
  backlog and the last start is a worker lifetime ago; the lifetime refresh is never suppressed.
  A queue type counts as suppressed exactly when a task-add that reads the status this poll
  returns would find it so.\<close>

theorem noSync_poll_behaviour:
  "PollActions (noSyncProcessMetricsPoll now cfg s snap) =
    (if \<exists>t m. (t, Some m) \<in> set (snapshot_queues snap) \<and>
         (LastBacklogCount m > noSync_threshold cfg
            \<and> wrap64 (now - noSync_last s) \<ge> noSync_cooloff cfg
            \<and> \<not> task_add_suppressed now cfg
                 (PollStatus (noSyncProcessMetricsPoll now cfg s snap)) t
          \<or> noSync_lifetime cfg > 0 \<and> LastBacklogCount m > 0
            \<and> wrap64 (now - noSync_last s) \<ge> noSync_lifetime cfg)
     then [action_of ActionTypeInvokeWorker None] else [])"
  using poll_loop_scaleUp [of now cfg s snap]
  by (subst poll_response) (simp add: Let_def queue_wants_worker_def)

text \<open>C27: Over any run of task-adds, polls, deferred decisions and registrations, from any status, an
  invocation that a task-add asks for comes at least the cooloff after every invocation before it,
  on either path, and so does one that a poll asks for, unless the poll refreshes the workers: then
  it comes at least the worker lifetime after, where that is shorter.  A registration asks for a
  worker whenever the controller makes one, and neither counts nor resets the cooloff; only a
  deactivation of the group forgets it.\<close>

theorem noSync_invocations_spaced:
  assumes "\<forall>ev \<in> set evs. timed_event ev" and "0 \<le> noSync_cooloff cfg"
  shows "sorted_wrt (\<lambda>(ev, t) (ev', t').
      (if refreshes cfg ev' then min (noSync_cooloff cfg) (noSync_lifetime cfg) else noSync_cooloff cfg)
        \<le> t' - t)
    (invocations (fst (algorithm_run noSync_ops cfg evs s)))"
  unfolding noSync_firings [OF assms(1)] invocation_gap_def [symmetric]
  by (rule noSync_timer.spaced_by_event)
    (use assms in \<open>auto simp: invocation_gap_def refreshes_def\<close>)

definition missed_task :: SignalTaskAddRequest where
  "missed_task = \<lparr>TaskQueueName = ''q'', SignalTaskQueueType = TASK_QUEUE_TYPE_WORKFLOW,
     IsSyncMatch = False, SyncMatchSignalsSinceLast = 0, NoSyncMatchSignalsSinceLast = 1\<rparr>"

theorem noSync_invocations_spaced_witness:
  "invocations (fst (algorithm_run noSync_ops None
      [TaskAddEvent 1000 missed_task, RegistrationEvent, TaskAddEvent 1050 missed_task,
       TaskAddEvent 1100 missed_task] None))
    = [(TaskAddEvent 1000 missed_task, 1000), (TaskAddEvent 1100 missed_task, 1100)]
   \<and> 100 \<le> (1100 :: int) - 1000"
proof
  have cooloff: "noSync_cooloff None = 100" by code_simp
  show inv: "invocations (fst (algorithm_run noSync_ops None
      [TaskAddEvent 1000 missed_task, RegistrationEvent, TaskAddEvent 1050 missed_task,
       TaskAddEvent 1100 missed_task] None))
    = [(TaskAddEvent 1000 missed_task, 1000), (TaskAddEvent 1100 missed_task, 1100)]"
    by code_simp
  have "\<not> refreshes None (TaskAddEvent 1100 missed_task)" by (simp add: refreshes_def)
  then show "100 \<le> (1100 :: int) - 1000"
    using noSync_invocations_spaced [of "[TaskAddEvent 1000 missed_task, RegistrationEvent,
      TaskAddEvent 1050 missed_task, TaskAddEvent 1100 missed_task]" None None]
    unfolding inv by (simp add: int_width_defs cooloff)
qed

text \<open>C5: No-sync suppresses a task-add only on evidence: after any run from an empty status, if a
  task-add of a queue type is suppressed at a time, then the run has a poll at some \<open>t0\<close> that saw
  a backlog above the threshold, every later poll of the run stayed within the band around that
  poll's dispatch rate with the backlog still above the threshold, and one of them came at least
  the confirm window after \<open>t0\<close> and less than the suppression time ago.\<close>

theorem noSync_suppression_confirmed:
  assumes "t \<in> set scalableTaskQueueTypes" and "\<bar>noSync_suppress cfg\<bar> \<le> 2 ^ 62"
    and "\<forall>ev \<in> set evs. small_time ev" and "0 \<le> now"
    and "task_add_suppressed now cfg (snd (algorithm_run noSync_ops cfg evs None)) t"
  shows "\<exists>before t0 snap0 m0 after t1 snap1.
    evs = before @ MetricsPollEvent t0 snap0 # after
    \<and> (t, Some m0) \<in> set (snapshot_queues snap0) \<and> LastBacklogCount m0 > noSync_threshold cfg
    \<and> (\<forall>now snap. MetricsPollEvent now snap \<in> set after \<longrightarrow>
         in_band cfg (LastProcessingRate m0) t snap)
    \<and> MetricsPollEvent t1 snap1 \<in> set after
    \<and> t0 + noSync_confirm cfg \<le> t1 \<and> now < t1 + noSync_suppress cfg"
proof -
  define d where
    "d = read_detector (snd (algorithm_run noSync_ops cfg evs None)) (queueTypeName t)"
  have "now < suppressUntil d"
    using assms(5) by (simp add: task_add_suppressed_def read_detector_def d_def)
  with assms(4) have "suppressUntil d \<noteq> 0" by simp
  moreover have "detector_invariant cfg t evs d"
    unfolding d_def by (rule run_detector_invariant [OF assms(1-3)])
  ultimately have "explains cfg t evs d" by (simp add: detector_invariant_def split: if_splits)
  then obtain before snap0 m0 "after" where
    e: "evs = before @ MetricsPollEvent (withinSince d) snap0 # after"
      "(t, Some m0) \<in> set (snapshot_queues snap0)" "refRate d = LastProcessingRate m0"
      "LastBacklogCount m0 > noSync_threshold cfg"
      "\<forall>now snap. MetricsPollEvent now snap \<in> set after \<longrightarrow> in_band cfg (refRate d) t snap"
    and c: "suppressUntil d \<noteq> 0 \<longrightarrow> (\<exists>t1 snap1. MetricsPollEvent t1 snap1 \<in> set after
       \<and> withinSince d + noSync_confirm cfg \<le> t1 \<and> suppressUntil d = t1 + noSync_suppress cfg)"
    unfolding explains_def by blast
  from c \<open>suppressUntil d \<noteq> 0\<close> obtain t1 snap1 where
    "MetricsPollEvent t1 snap1 \<in> set after" "withinSince d + noSync_confirm cfg \<le> t1"
    "suppressUntil d = t1 + noSync_suppress cfg" by blast
  with e(1,2,4) e(5) [unfolded e(3)] \<open>now < suppressUntil d\<close> show ?thesis
    by (intro exI conjI) simp_all
qed

definition flat_queue :: QueueTypeScalingMetrics where
  "flat_queue = \<lparr>LastBacklogCount = 10, LastArrivalRate = Fin 3, LastProcessingRate = Fin 2,
     LastBacklogAge = 0\<rparr>"

definition flat_snapshot :: ScalingMetricsSnapshot where
  "flat_snapshot = \<lparr>Workflow = Some flat_queue, Activity = None, Nexus = None\<rparr>"

definition epsilon_config :: ScalingAlgorithmConfig where
  "epsilon_config = Some [(configNoSyncScaleUpDispatchRateEpsilonKey, VFloat64 (Fin (1 / 20)))]"

theorem noSync_suppression_confirmed_witness:
  "\<exists>before t0 snap0 after t1 snap1.
     map (\<lambda>t. MetricsPollEvent t flat_snapshot) [1000000, 1100000] =
       before @ MetricsPollEvent t0 snap0 # after
     \<and> MetricsPollEvent t1 snap1 \<in> set after \<and> t0 + 90000 \<le> t1 \<and> 1150000 < t1 + 120000"
proof -
  let ?evs = "map (\<lambda>t. MetricsPollEvent t flat_snapshot) [1000000, 1100000]"
  have "noSync_suppress epsilon_config = 120000" "noSync_confirm epsilon_config = 90000"
    by code_simp+
  moreover have "task_add_suppressed 1150000 epsilon_config
      (snd (algorithm_run noSync_ops epsilon_config ?evs None)) TASK_QUEUE_TYPE_WORKFLOW"
    by code_simp
  moreover have "TASK_QUEUE_TYPE_WORKFLOW \<in> set scalableTaskQueueTypes"
    by (simp add: scalableTaskQueueTypes_def)
  moreover have "\<forall>ev \<in> set ?evs. small_time ev" by simp
  ultimately show ?thesis
    using noSync_suppression_confirmed [of TASK_QUEUE_TYPE_WORKFLOW epsilon_config ?evs 1150000]
    by (simp only: abs_le_iff) (simp, blast)
qed

text \<open>With the detector disabled (an epsilon of 0 or outside its range) no task-add is
  suppressed, and a poll erases what the detector stored for every queue type.\<close>

theorem noSync_disabled_detector:
  assumes "dispatchRateEpsilon cfg = Fin 0" and "t \<in> set scalableTaskQueueTypes"
  shows "\<not> task_add_suppressed now cfg s t
    \<and> read_detector (PollStatus (noSyncProcessMetricsPoll now cfg s snap)) (queueTypeName t) =
        \<lparr>withinSince = 0, suppressUntil = 0, refRate = Fin (- 1)\<rparr>"
proof -
  obtain qm where q: "(t, qm) \<in> set (snapshot_queues snap)"
    using scalable_queue(2) [OF assms(2)] by blast
  show ?thesis
    using poll_loop_detector [OF q, of now cfg s] assms(1)
    by (simp add: task_add_suppressed_def poll_response Let_def poll_detector_def zero_detector_def)
qed

theorem noSync_disabled_detector_witness:
  "\<not> task_add_suppressed 5 None (Some [(suppressUntilKey ''nexus'', VInt64 1000)])
     TASK_QUEUE_TYPE_NEXUS"
  using noSync_disabled_detector [of None TASK_QUEUE_TYPE_NEXUS]
  by (simp add: dispatchRateEpsilon_def GetFloat64Field_def getFloat64FromMap_def
      scalableTaskQueueTypes_def)

text \<open>A configuration that no-sync validates cannot starve the metrics path: when a whole poll
  interval has passed since the last scale-up and some queue type that is not suppressed has a
  backlog above the threshold, the poll starts a worker.\<close>

theorem noSync_valid_config_polls_fire:
  assumes "noSyncValidateConfig cfg = None"
    and "GetInt64Field cfg configNoSyncMetricsPollIntervalMsKey
           configNoSyncMetricsPollIntervalMsDefault \<le> wrap64 (now - noSync_last s)"
    and "0 \<le> wrap64 (now - noSync_last s)"
    and "(t, Some m) \<in> set (snapshot_queues snap)" and "LastBacklogCount m > noSync_threshold cfg"
    and "\<not> task_add_suppressed now cfg (PollStatus (noSyncProcessMetricsPoll now cfg s snap)) t"
  shows "PollActions (noSyncProcessMetricsPoll now cfg s snap) =
    [action_of ActionTypeInvokeWorker None]"
proof -
  have "noSync_cooloff cfg \<le> wrap64 (now - noSync_last s)"
  proof (cases cfg)
    case None
    with assms(2) show ?thesis by simp
  next
    case (Some l)
    then have "noSyncCrossChecks cfg = None"
      using assms(1) by (simp add: noSyncValidateConfig_def split: option.splits)
    then have "noSync_cooloff cfg \<le> 0 \<or> noSync_cooloff cfg \<le> GetInt64Field cfg
        configNoSyncMetricsPollIntervalMsKey configNoSyncMetricsPollIntervalMsDefault"
      by (simp add: noSyncCrossChecks_def Let_def not_less split: if_splits)
    with assms(2,3) show ?thesis by linarith
  qed
  with assms(4-6) have "scaleUp (poll_loop_result now cfg s snap)"
    unfolding poll_loop_scaleUp queue_wants_worker_def by blast
  then show ?thesis by (simp add: poll_response Let_def)
qed

theorem noSync_valid_config_polls_fire_witness:
  "PollActions (noSyncProcessMetricsPoll 1000000 epsilon_config None flat_snapshot) =
    [action_of ActionTypeInvokeWorker None]"
proof -
  have "noSyncValidateConfig epsilon_config = None" by code_simp
  moreover have "GetInt64Field epsilon_config configNoSyncMetricsPollIntervalMsKey
      configNoSyncMetricsPollIntervalMsDefault \<le> wrap64 (1000000 - noSync_last None)" by code_simp
  moreover have "0 \<le> wrap64 (1000000 - noSync_last None)" by code_simp
  moreover have "(TASK_QUEUE_TYPE_WORKFLOW, Some flat_queue) \<in> set (snapshot_queues flat_snapshot)"
    by (simp add: snapshot_queues_def flat_snapshot_def)
  moreover have "LastBacklogCount flat_queue > noSync_threshold epsilon_config" by code_simp
  moreover have "\<not> task_add_suppressed 1000000 epsilon_config
      (PollStatus (noSyncProcessMetricsPoll 1000000 epsilon_config None flat_snapshot))
      TASK_QUEUE_TYPE_WORKFLOW"
    by code_simp
  ultimately show ?thesis by (rule noSync_valid_config_polls_fire)
qed

lemma noSync_never_defers:
  "(ev, a) \<in> set (fst (algorithm_run noSync_ops cfg evs s)) \<Longrightarrow>
    Action a \<noteq> ActionTypeDeferredScalingDecision"
proof (induction evs arbitrary: s)
  case (Cons ev' evs)
  have "\<forall>b \<in> set (fst (algorithm_step noSync_ops cfg ev' s)).
      Action b \<noteq> ActionTypeDeferredScalingDecision"
    by (cases ev') (auto simp: noSync_ops_def Let_def noSyncProcessTaskAdd_def poll_response
        noSyncProcessDeferredScalingDecision_def noSyncTaskQueueRegistrationActions_def
        noSyncInactiveGroupActions_def)
  with Cons show ?case by (auto simp: split_beta)
qed simp

text \<open>No-sync keeps the contract of the \<open>ScalingAlgorithm\<close> interface over whole runs: started
  from a status with its own keys only, every action is an invocation (never a resize or a
  deferred decision), and the status always has its own keys only.\<close>

theorem noSync_contract:
  assumes "status_keys_in noSyncValidStateKeys s"
  shows "(\<forall>(ev, a) \<in> set (fst (algorithm_run noSync_ops cfg evs s)).
      Action a = ActionTypeInvokeWorker)
    \<and> status_keys_in noSyncValidStateKeys (snd (algorithm_run noSync_ops cfg evs s))"
proof (intro conjI ballI)
  fix x assume x: "x \<in> set (fst (algorithm_run noSync_ops cfg evs s))"
  obtain ev a where ev: "x = (ev, a)" by fastforce
  have "executable_action [LaunchStrategyInvoke] a
      \<or> is_task_add ev \<and> Action a = ActionTypeDeferredScalingDecision"
    using nosync.run_actions x ev by (force simp: noSync_ops_def)
  moreover have "Action a \<noteq> ActionTypeDeferredScalingDecision"
    using noSync_never_defers x ev by blast
  ultimately show "case x of (ev, a) \<Rightarrow> Action a = ActionTypeInvokeWorker"
    using ev by (auto simp: executable_action_def split: ActionType.splits)
qed (rule nosync.run_keys [OF assms])

theorem noSync_contract_witness:
  "status_keys_in noSyncValidStateKeys
    (snd (algorithm_run noSync_ops None [TaskAddEvent 7 missed_task, InactiveEvent] None))"
  using noSync_contract [of None None "[TaskAddEvent 7 missed_task, InactiveEvent]"] by simp

theorem noSync_task_add_behaviour_witness:
  "TaskAddActions (noSyncProcessTaskAdd 1000 None None missed_task) =
    [action_of ActionTypeInvokeWorker None]"
proof -
  have "task_add_fires 1000 None None missed_task" by code_simp
  then show ?thesis using noSync_task_add_behaviour [of 1000 None None missed_task] by simp
qed

end
