(* ===== verification/RateBased.thy ===== *)
theory RateBased
  imports NoSync
begin

text \<open>
  \<open>src/wci/workflow/scaling_algorithm/rate_based.go\<close>: the rate-based algorithm, which keeps
  exponentially weighted averages of arrival rate, dispatch rate and per-worker capacity, and
  resizes a worker set towards the size that queueing formulas ask for, within bounds, in steps
  and with cooldowns.

  Worker counts are 32-bit and wrap (\<open>wrap32\<close>), timestamps 64-bit (\<open>wrap64\<close>), rates are IEEE
  doubles (\<open>GoFloat\<close>), and a conversion from double to integer is the processor's.  Products and
  sums of doubles are rounded one by one, as on amd64 (Go lets other processors fuse them).
  Only logging is left out.
\<close>

section \<open>Constants\<close>

abbreviation (input) "configRateBasedMinCountKey \<equiv> ''min_count''"
abbreviation (input) "configRateBasedMinCountDefault \<equiv> 0 :: int"
abbreviation (input) "configRateBasedMaxCountKey \<equiv> ''max_count''"
abbreviation (input) "configRateBasedMaxCountDefault \<equiv> 30 :: int"
abbreviation (input) "configRateBasedInitialCountKey \<equiv> ''initial_count''"
abbreviation (input) "configRateBasedInitialCountDefault \<equiv> 0 :: int"
abbreviation (input) "configRateBasedMetricsPollIntervalMsKey \<equiv> ''metrics_poll_interval_ms''"
abbreviation (input) "configRateBasedMetricsPollIntervalMsDefault \<equiv> 60000 :: int"
abbreviation (input) "configRateBasedEWMAAlphaKey \<equiv> ''ewma_alpha''"
abbreviation (input) "configRateBasedEWMAAlphaDefault \<equiv> rnd64 (45 / 100)"
abbreviation (input) "configRateBasedInitialPerConsumerCapacityKey \<equiv> ''initial_per_consumer_capacity''"
abbreviation (input) "configRateBasedInitialPerConsumerCapacityDefault \<equiv> Fin 2"
abbreviation (input) "configRateBasedTargetBacklogDrainRateKey \<equiv> ''target_backlog_drain_rate''"
abbreviation (input) "configRateBasedTargetBacklogDrainRateDefault \<equiv> Fin 2"
abbreviation (input) "configRateBasedMaterialBacklogThresholdKey \<equiv> ''material_backlog_threshold''"
abbreviation (input) "configRateBasedMaterialBacklogThresholdDefault \<equiv> 50 :: int"
abbreviation (input) "configRateBasedUtilizationTargetKey \<equiv> ''utilization_target''"
abbreviation (input) "configRateBasedUtilizationTargetDefault \<equiv> rnd64 (80 / 100)"
abbreviation (input) "configRateBasedHalfinWhittBetaKey \<equiv> ''halfin_whitt_beta''"
abbreviation (input) "configRateBasedHalfinWhittBetaDefault \<equiv> Fin (1 / 2)"
abbreviation (input) "configRateBasedMaxScaleUpStepKey \<equiv> ''max_scale_up_step''"
abbreviation (input) "configRateBasedMaxScaleUpStepDefault \<equiv> 4 :: int"
abbreviation (input) "configRateBasedScaleUpCooldownMsKey \<equiv> ''scale_up_cooldown_ms''"
abbreviation (input) "configRateBasedScaleUpCooldownMsDefault \<equiv> 2000 :: int"
abbreviation (input) "configRateBasedScaleDownCooldownMsKey \<equiv> ''scale_down_cooldown_ms''"
abbreviation (input) "configRateBasedScaleDownCooldownMsDefault \<equiv> 60000 :: int"
abbreviation (input) "configRateBasedNoSyncQuietMsKey \<equiv> ''no_sync_quiet_ms''"
abbreviation (input) "configRateBasedNoSyncQuietMsDefault \<equiv> 90000 :: int"

abbreviation (input) "stateRateBasedWorkerCount \<equiv> ''worker_count''"
abbreviation (input) "stateRateBasedEWMAArrivalRate \<equiv> ''ewma_arrival_rate''"
abbreviation (input) "stateRateBasedEWMADispatchRate \<equiv> ''ewma_dispatch_rate''"
abbreviation (input) "stateRateBasedEWMAPerConsumerCapacity \<equiv> ''ewma_per_consumer_capacity''"
abbreviation (input) "stateRateBasedLastScaleUpTimestamp \<equiv> ''last_scale_up_time_ms''"
abbreviation (input) "stateRateBasedLastScaleDownTimestamp \<equiv> ''last_scale_down_time_ms''"
abbreviation (input) "stateRateBasedLastNoSyncMatchTimestamp \<equiv> ''last_no_sync_match_time_ms''"

definition rateBasedValidConfigKeys :: "string list" where
  "rateBasedValidConfigKeys =
    [configRateBasedMinCountKey,
     configRateBasedMaxCountKey,
     configRateBasedInitialCountKey,
     configRateBasedMetricsPollIntervalMsKey,
     configRateBasedEWMAAlphaKey,
     configRateBasedInitialPerConsumerCapacityKey,
     configRateBasedTargetBacklogDrainRateKey,
     configRateBasedMaterialBacklogThresholdKey,
     configRateBasedUtilizationTargetKey,
     configRateBasedHalfinWhittBetaKey,
     configRateBasedMaxScaleUpStepKey,
     configRateBasedScaleUpCooldownMsKey,
     configRateBasedScaleDownCooldownMsKey,
     configRateBasedNoSyncQuietMsKey]"

definition rateBasedFiniteFloat64StateKeys :: "string list" where
  "rateBasedFiniteFloat64StateKeys =
    [stateRateBasedEWMAArrivalRate,
     stateRateBasedEWMADispatchRate,
     stateRateBasedEWMAPerConsumerCapacity]"

definition rateBasedNonNegativeInt64StateKeys :: "string list" where
  "rateBasedNonNegativeInt64StateKeys =
    [stateRateBasedLastScaleUpTimestamp,
     stateRateBasedLastScaleDownTimestamp,
     stateRateBasedLastNoSyncMatchTimestamp]"

definition rateBasedValidStateKeys :: "string list" where
  "rateBasedValidStateKeys =
    [stateRateBasedWorkerCount,
     stateRateBasedEWMAArrivalRate,
     stateRateBasedEWMADispatchRate,
     stateRateBasedEWMAPerConsumerCapacity,
     stateRateBasedLastScaleUpTimestamp,
     stateRateBasedLastScaleDownTimestamp,
     stateRateBasedLastNoSyncMatchTimestamp]"

section \<open>Checks on values\<close>

definition isPositiveFinite :: "flt \<Rightarrow> bool" where
  "isPositiveFinite v \<longleftrightarrow> \<not> is_nan v \<and> \<not> is_inf v \<and> flt_less (Fin 0) v"

definition isValidNonNegativeInt32 :: "anyval \<Rightarrow> bool" where
  "isValidNonNegativeInt32 raw = (case raw of
     VInt v \<Rightarrow> v \<ge> 0 \<and> v \<le> max_int32
   | VInt64 v \<Rightarrow> v \<ge> 0 \<and> v \<le> max_int32
   | VFloat64 v \<Rightarrow> \<not> is_nan v \<and> \<not> is_inf v \<and> flt_le (Fin 0) v
       \<and> flt_le v (f64_of_int max_int32) \<and> flt_eq v (ftrunc v)
   | _ \<Rightarrow> False)"

definition isValidNonNegativeInt64 :: "anyval \<Rightarrow> bool" where
  "isValidNonNegativeInt64 raw = (case raw of
     VInt v \<Rightarrow> v \<ge> 0
   | VInt64 v \<Rightarrow> v \<ge> 0
   | VFloat64 v \<Rightarrow> \<not> is_nan v \<and> \<not> is_inf v \<and> flt_le (Fin 0) v
       \<and> flt_less v (f64_of_int max_int64) \<and> flt_eq v (ftrunc v)
   | _ \<Rightarrow> False)"

section \<open>Configuration\<close>

datatype rate_config_error =
    RateUnknownKey string
  | RateField field_error
  | ExceedsMaxInt32 string int
  | NegativeCount string int
  | MinAboveMax int int
  | InitialOutOfBounds int int int
  | AlphaOutOfRange flt
  | CapacityNotPositive flt
  | UtilizationOutOfRange flt
  | PollBelowScaleUpCooldown int int
  | PollBelowScaleDownCooldown int int

definition rateFieldChecks :: "ScalingAlgorithmConfig \<Rightarrow> rate_config_error option" where
  "rateFieldChecks config = first_some (List.map (map_option RateField)
    ([ValidateInt64Field config configRateBasedMinCountKey 0,
      ValidateInt64Field config configRateBasedMaxCountKey 1,
      ValidateInt64Field config configRateBasedInitialCountKey 0,
      ValidateInt64Field config configRateBasedMetricsPollIntervalMsKey 30000,
      ValidateInt64Field config configRateBasedMaterialBacklogThresholdKey 1,
      ValidateInt64Field config configRateBasedMaxScaleUpStepKey 1,
      ValidateInt64Field config configRateBasedScaleUpCooldownMsKey 0,
      ValidateInt64Field config configRateBasedScaleDownCooldownMsKey 0,
      ValidateInt64Field config configRateBasedNoSyncQuietMsKey 0]
     @ [ValidateFloat64Field config configRateBasedEWMAAlphaKey (Fin 0),
      ValidateFloat64Field config configRateBasedInitialPerConsumerCapacityKey (Fin 0),
      ValidateFloat64Field config configRateBasedTargetBacklogDrainRateKey (Fin 0),
      ValidateFloat64Field config configRateBasedUtilizationTargetKey (Fin 0),
      ValidateFloat64Field config configRateBasedHalfinWhittBetaKey (Fin 0)]))"

definition rateCountCheck :: "ScalingAlgorithmConfig \<Rightarrow> string \<Rightarrow> rate_config_error option" where
  "rateCountCheck config key = (case any_at config key of
     None \<Rightarrow> None
   | Some raw \<Rightarrow>
      (let v = GetInt64Field config key 0
       in if v > max_int32 then Some (ExceedsMaxInt32 key v)
          else if v < 0 then Some (NegativeCount key v) else None))"

definition rateCrossChecks :: "ScalingAlgorithmConfig \<Rightarrow> rate_config_error option" where
  "rateCrossChecks config =
    (let minCount = GetInt64Field config configRateBasedMinCountKey configRateBasedMinCountDefault;
         maxCount = GetInt64Field config configRateBasedMaxCountKey configRateBasedMaxCountDefault;
         initialCount = GetInt64Field config configRateBasedInitialCountKey
           configRateBasedInitialCountDefault;
         alpha = GetFloat64Field config configRateBasedEWMAAlphaKey configRateBasedEWMAAlphaDefault;
         initialCapacity = GetFloat64Field config configRateBasedInitialPerConsumerCapacityKey
           configRateBasedInitialPerConsumerCapacityDefault;
         utilizationTarget = GetFloat64Field config configRateBasedUtilizationTargetKey
           configRateBasedUtilizationTargetDefault;
         pollInterval = GetInt64Field config configRateBasedMetricsPollIntervalMsKey
           configRateBasedMetricsPollIntervalMsDefault;
         scaleUpCooldown = GetInt64Field config configRateBasedScaleUpCooldownMsKey
           configRateBasedScaleUpCooldownMsDefault;
         scaleDownCooldown = GetInt64Field config configRateBasedScaleDownCooldownMsKey
           configRateBasedScaleDownCooldownMsDefault
     in if minCount > maxCount then Some (MinAboveMax minCount maxCount)
        else if initialCount < minCount \<or> initialCount > maxCount
          then Some (InitialOutOfBounds initialCount minCount maxCount)
        else if is_nan alpha \<or> flt_le alpha (Fin 0) \<or> flt_less (Fin 1) alpha
          then Some (AlphaOutOfRange alpha)
        else if \<not> isPositiveFinite initialCapacity
          then Some (CapacityNotPositive initialCapacity)
        else if is_nan utilizationTarget \<or> flt_le utilizationTarget (Fin 0)
            \<or> flt_less (Fin 1) utilizationTarget
          then Some (UtilizationOutOfRange utilizationTarget)
        else if scaleUpCooldown > 0 \<and> pollInterval < scaleUpCooldown
          then Some (PollBelowScaleUpCooldown pollInterval scaleUpCooldown)
        else if scaleDownCooldown > 0 \<and> pollInterval < scaleDownCooldown
          then Some (PollBelowScaleDownCooldown pollInterval scaleDownCooldown)
        else None)"

definition rateBasedValidateConfig :: "ScalingAlgorithmConfig \<Rightarrow> rate_config_error option" where
  "rateBasedValidateConfig config = (case config of
     None \<Rightarrow> None
   | Some m \<Rightarrow> first_some
      [first_error (\<lambda>k. if k \<in> set rateBasedValidConfigKeys then None else Some (RateUnknownKey k))
         (keys m),
       rateFieldChecks config,
       first_error (rateCountCheck config)
         [configRateBasedMinCountKey, configRateBasedMaxCountKey, configRateBasedInitialCountKey,
          configRateBasedMaxScaleUpStepKey],
       rateCrossChecks config])"

text \<open>The conversions \<open>int32(config.GetInt64Field(...))\<close>.\<close>

definition rateMinCount :: "ScalingAlgorithmConfig \<Rightarrow> int" where
  "rateMinCount config =
     wrap32 (GetInt64Field config configRateBasedMinCountKey configRateBasedMinCountDefault)"

definition rateMaxCount :: "ScalingAlgorithmConfig \<Rightarrow> int" where
  "rateMaxCount config =
     wrap32 (GetInt64Field config configRateBasedMaxCountKey configRateBasedMaxCountDefault)"

definition rateMaxStep :: "ScalingAlgorithmConfig \<Rightarrow> int" where
  "rateMaxStep config =
     wrap32 (GetInt64Field config configRateBasedMaxScaleUpStepKey
       configRateBasedMaxScaleUpStepDefault)"

definition rateAlpha :: "ScalingAlgorithmConfig \<Rightarrow> flt" where
  "rateAlpha config =
     GetFloat64Field config configRateBasedEWMAAlphaKey configRateBasedEWMAAlphaDefault"

section \<open>State\<close>

definition drop_unless :: "(anyval \<Rightarrow> bool) \<Rightarrow> string \<Rightarrow> anymap \<Rightarrow> anymap" where
  "drop_unless ok key m = (case map_of m key of
     None \<Rightarrow> m | Some raw \<Rightarrow> (if ok raw then m else AList.delete key m))"

definition finite_float64 :: "anyval \<Rightarrow> bool" where
  "finite_float64 raw = (case raw of
     VFloat64 v \<Rightarrow> \<not> (is_nan v \<or> is_inf v) | _ \<Rightarrow> False)"

definition not_nonpositive_float64 :: "anyval \<Rightarrow> bool" where
  "not_nonpositive_float64 raw = (case raw of VFloat64 v \<Rightarrow> \<not> flt_le v (Fin 0) | _ \<Rightarrow> True)"

definition cleanRateBasedState :: "ScalingAlgorithmStatus \<Rightarrow> anymap" where
  "cleanRateBasedState priorState =
    (let m1 = known_state rateBasedValidStateKeys priorState;
         m2 = fold (drop_unless finite_float64) rateBasedFiniteFloat64StateKeys m1;
         m3 = drop_unless not_nonpositive_float64 stateRateBasedEWMAPerConsumerCapacity m2;
         m4 = drop_unless isValidNonNegativeInt32 stateRateBasedWorkerCount m3
     in fold (drop_unless isValidNonNegativeInt64) rateBasedNonNegativeInt64StateKeys m4)"

definition currentRateBasedPlannedCount :: "ScalingAlgorithmConfig \<Rightarrow> anymap \<Rightarrow> int" where
  "currentRateBasedPlannedCount config state = (case map_of state stateRateBasedWorkerCount of
     Some raw \<Rightarrow> wrap32 (GetInt64Field (Some state) stateRateBasedWorkerCount 0)
   | None \<Rightarrow> wrap32 (GetInt64Field config configRateBasedInitialCountKey
       configRateBasedInitialCountDefault))"

definition set_count :: "int \<Rightarrow> anymap \<Rightarrow> anymap" where
  "set_count n state = AList.update stateRateBasedWorkerCount (VInt64 n) state"

definition estimatedRateBasedPerConsumerCapacity :: "ScalingAlgorithmConfig \<Rightarrow> anymap \<Rightarrow> flt" where
  "estimatedRateBasedPerConsumerCapacity config state =
    (let fallback = GetFloat64Field config configRateBasedInitialPerConsumerCapacityKey
           configRateBasedInitialPerConsumerCapacityDefault
     in (case map_of state stateRateBasedEWMAPerConsumerCapacity of
           Some (VFloat64 estimate) \<Rightarrow>
             (if isPositiveFinite estimate then estimate else fallback)
         | _ \<Rightarrow> fallback))"

section \<open>Metrics\<close>

record rateBasedAggregateMetrics =
  aggBacklog :: int
  aggArrivalRate :: flt
  aggDispatchRate :: flt
  hasData :: bool
  droppedQueues :: "string list"

definition zero_aggregate :: rateBasedAggregateMetrics where
  "zero_aggregate = \<lparr>aggBacklog = 0, aggArrivalRate = Fin 0, aggDispatchRate = Fin 0,
     hasData = False, droppedQueues = []\<rparr>"

definition invalid_sample :: "QueueTypeScalingMetrics \<Rightarrow> bool" where
  "invalid_sample q \<longleftrightarrow>
     is_nan (LastArrivalRate q) \<or> is_inf (LastArrivalRate q)
     \<or> is_nan (LastProcessingRate q) \<or> is_inf (LastProcessingRate q)
     \<or> flt_less (LastArrivalRate q) (Fin 0) \<or> flt_less (LastProcessingRate q) (Fin 0)
     \<or> LastBacklogCount q < 0"

definition aggregate_queue ::
    "string \<times> QueueTypeScalingMetrics option \<Rightarrow> rateBasedAggregateMetrics
      \<Rightarrow> rateBasedAggregateMetrics" where
  "aggregate_queue qt a = (case snd qt of
     None \<Rightarrow> a
   | Some q \<Rightarrow>
      (if invalid_sample q then a\<lparr>droppedQueues := droppedQueues a @ [fst qt]\<rparr>
       else a\<lparr>hasData := True,
              aggBacklog := wrap64 (aggBacklog a + LastBacklogCount q),
              aggArrivalRate := add64 (aggArrivalRate a) (LastArrivalRate q),
              aggDispatchRate := add64 (aggDispatchRate a) (LastProcessingRate q)\<rparr>))"

definition aggregateRateBasedMetrics ::
    "ScalingMetricsSnapshot option \<Rightarrow> rateBasedAggregateMetrics" where
  "aggregateRateBasedMetrics metricsSnapshot = (case metricsSnapshot of
     None \<Rightarrow> zero_aggregate
   | Some s \<Rightarrow> fold aggregate_queue
       [(''workflow'', Workflow s), (''activity'', Activity s), (''nexus'', Nexus s)]
       zero_aggregate)"

definition ewma :: "flt \<Rightarrow> flt \<Rightarrow> flt \<Rightarrow> flt" where
  "ewma alpha sample previous =
     add64 (mul64 alpha sample) (mul64 (sub64 (Fin 1) alpha) previous)"

definition updateRateBasedEWMAValue :: "anymap \<Rightarrow> string \<Rightarrow> flt \<Rightarrow> flt \<Rightarrow> flt" where
  "updateRateBasedEWMAValue state key alpha sample = (case map_of state key of
     Some (VFloat64 previous) \<Rightarrow> ewma alpha sample previous
   | _ \<Rightarrow> sample)"

definition updateRateBasedEWMA ::
    "ScalingAlgorithmConfig \<Rightarrow> rateBasedAggregateMetrics \<Rightarrow> anymap \<Rightarrow> anymap" where
  "updateRateBasedEWMA config metrics state =
    (let alpha = rateAlpha config;
         state1 = AList.update stateRateBasedEWMAArrivalRate (VFloat64 (updateRateBasedEWMAValue
           state stateRateBasedEWMAArrivalRate alpha (aggArrivalRate metrics))) state
     in AList.update stateRateBasedEWMADispatchRate (VFloat64 (updateRateBasedEWMAValue
           state1 stateRateBasedEWMADispatchRate alpha (aggDispatchRate metrics))) state1)"

definition snapIdleRateBasedEWMAToZero :: "rateBasedAggregateMetrics \<Rightarrow> anymap \<Rightarrow> bool \<times> anymap" where
  "snapIdleRateBasedEWMAToZero metrics state =
    (if \<not> hasData metrics then (False, state)
     else if aggBacklog metrics \<noteq> 0 \<or> \<not> flt_eq (aggArrivalRate metrics) (Fin 0)
         \<or> \<not> flt_eq (aggDispatchRate metrics) (Fin 0) then (False, state)
     else if flt_eq (GetFloat64Field (Some state) stateRateBasedEWMAArrivalRate (Fin 0)) (Fin 0)
         \<and> flt_eq (GetFloat64Field (Some state) stateRateBasedEWMADispatchRate (Fin 0)) (Fin 0)
       then (False, state)
     else (True, AList.update stateRateBasedEWMADispatchRate (VFloat64 (Fin 0))
            (AList.update stateRateBasedEWMAArrivalRate (VFloat64 (Fin 0)) state)))"

definition updateRateBasedPerConsumerCapacity ::
    "ScalingAlgorithmConfig \<Rightarrow> int \<Rightarrow> flt \<Rightarrow> anymap \<Rightarrow> anymap" where
  "updateRateBasedPerConsumerCapacity config plannedCount dispatchRate state =
    (if plannedCount \<le> 0 \<or> flt_le dispatchRate (Fin 0) then state
     else
       (let observedCapacity = div64 dispatchRate (f64_of_int plannedCount)
        in if \<not> isPositiveFinite observedCapacity then state
           else AList.update stateRateBasedEWMAPerConsumerCapacity
             (VFloat64 (ewma (rateAlpha config) observedCapacity
                (estimatedRateBasedPerConsumerCapacity config state))) state))"

section \<open>The desired count\<close>

definition offered_load :: "ScalingAlgorithmConfig \<Rightarrow> anymap \<Rightarrow> int \<Rightarrow> flt" where
  "offered_load config state backlog =
    (let catchUpRate = (if backlog > 0
           then GetFloat64Field config configRateBasedTargetBacklogDrainRateKey
                  configRateBasedTargetBacklogDrainRateDefault
           else Fin 0);
         requiredRate = add64 (GetFloat64Field (Some state) stateRateBasedEWMAArrivalRate (Fin 0))
           catchUpRate;
         perConsumerCapacity = estimatedRateBasedPerConsumerCapacity config state
     in if flt_less (Fin 0) requiredRate then div64 requiredRate perConsumerCapacity else Fin 0)"

definition raw_desired :: "ScalingAlgorithmConfig \<Rightarrow> flt \<Rightarrow> flt" where
  "raw_desired config offeredLoad =
    (let utilizationTarget = GetFloat64Field config configRateBasedUtilizationTargetKey
           configRateBasedUtilizationTargetDefault;
         beta = GetFloat64Field config configRateBasedHalfinWhittBetaKey
           configRateBasedHalfinWhittBetaDefault;
         utilizationDesired = (if flt_less (Fin 0) offeredLoad
           then fceil (div64 offeredLoad utilizationTarget) else Fin 0);
         halfinWhittDesired = (if flt_less (Fin 0) offeredLoad
           then fceil (add64 offeredLoad (mul64 beta (sqrt64 offeredLoad))) else Fin 0)
     in fmin (fmax (fmax utilizationDesired halfinWhittDesired) (Fin 0))
          (f64_of_int (rateMaxCount config)))"

definition computeRateBasedDesiredCapacity ::
    "ScalingAlgorithmConfig \<Rightarrow> anymap \<Rightarrow> int \<Rightarrow> int" where
  "computeRateBasedDesiredCapacity config state backlog =
    (let rawDesired = flt_to_int32 (raw_desired config (offered_load config state backlog))
     in min (max rawDesired (rateMinCount config)) (rateMaxCount config))"

section \<open>Operations\<close>

definition resize :: "int \<Rightarrow> ScalingAction" where
  "resize n = action_of ActionTypeUpdateWorkerSetSize (Some n)"

definition deferredAction :: ScalingAction where
  "deferredAction = action_of ActionTypeDeferredScalingDecision None"

definition rateBasedProcessTaskAdd ::
    "int \<Rightarrow> ScalingAlgorithmConfig \<Rightarrow> ScalingAlgorithmStatus \<Rightarrow> SignalTaskAddRequest
      \<Rightarrow> TaskAddResponse" where
  "rateBasedProcessTaskAdd nowMs config priorState request =
    (let cleaned = cleanRateBasedState priorState;
         currentCount = currentRateBasedPlannedCount config cleaned;
         updatedState = set_count currentCount cleaned
     in if IsSyncMatch request \<and> NoSyncMatchSignalsSinceLast request = 0 then
          \<lparr>TaskAddActions = [], TaskAddStatus = Some updatedState, ThrottledCount = 0\<rparr>
        else
         (let bumped = AList.update stateRateBasedLastNoSyncMatchTimestamp (VInt64 nowMs) updatedState;
              throttledCount = NoSyncMatchSignalsSinceLast request;
              cooldownMs = GetInt64Field config configRateBasedScaleUpCooldownMsKey
                configRateBasedScaleUpCooldownMsDefault;
              lastScaleUpMs = GetInt64Field (Some bumped) stateRateBasedLastScaleUpTimestamp 0
          in if currentCount \<ge> rateMaxCount config then
               \<lparr>TaskAddActions = [deferredAction], TaskAddStatus = Some bumped,
                ThrottledCount = throttledCount\<rparr>
             else if wrap64 (nowMs - lastScaleUpMs) < cooldownMs then
               \<lparr>TaskAddActions = [deferredAction], TaskAddStatus = Some bumped,
                ThrottledCount = throttledCount\<rparr>
             else
              (let newCount = wrap32 (currentCount + 1)
               in \<lparr>TaskAddActions = [resize newCount, deferredAction],
                   TaskAddStatus = Some (AList.update stateRateBasedLastScaleUpTimestamp
                     (VInt64 nowMs) (set_count newCount bumped)),
                   ThrottledCount = 0\<rparr>)))"

definition rateBasedProcessDeferredScalingDecision ::
    "ScalingAlgorithmConfig \<Rightarrow> ScalingAlgorithmStatus \<Rightarrow> SignalTaskAddRequest \<Rightarrow> metrics_getter
      \<Rightarrow> algorithm_error + TaskAddResponse" where
  "rateBasedProcessDeferredScalingDecision config priorState request getMetricsSnapshot =
    (let cleaned = cleanRateBasedState priorState;
         currentCount = currentRateBasedPlannedCount config cleaned;
         updatedState = set_count currentCount cleaned
     in (case getMetricsSnapshot of
           None \<Rightarrow> Inl MetricsGetterNil
         | Some result \<Rightarrow>
            (if currentCount \<le> 0 then
               Inr \<lparr>TaskAddActions = [], TaskAddStatus = Some updatedState, ThrottledCount = 0\<rparr>
             else (case result of
                Inl err \<Rightarrow> Inl (MetricsFetchFailed err)
              | Inr metricsSnapshot \<Rightarrow>
                 (let metrics = aggregateRateBasedMetrics metricsSnapshot;
                      updated = (if hasData metrics
                        then updateRateBasedPerConsumerCapacity config currentCount
                               (aggDispatchRate metrics) updatedState
                        else updatedState)
                  in Inr \<lparr>TaskAddActions = [], TaskAddStatus = Some updated,
                       ThrottledCount = 0\<rparr>)))))"

text \<open>The capacity sample of the metrics poll.\<close>

definition sample_capacity ::
    "ScalingAlgorithmConfig \<Rightarrow> int \<Rightarrow> rateBasedAggregateMetrics \<Rightarrow> anymap \<Rightarrow> anymap" where
  "sample_capacity config currentCount metrics state =
    (if aggBacklog metrics \<ge> GetInt64Field config configRateBasedMaterialBacklogThresholdKey
          configRateBasedMaterialBacklogThresholdDefault
     then (if currentCount \<le> 0 then state
           else if flt_le (aggDispatchRate metrics) (Fin 0) then state
           else if isPositiveFinite (div64 (aggDispatchRate metrics) (f64_of_int currentCount))
           then updateRateBasedPerConsumerCapacity config currentCount (aggDispatchRate metrics) state
           else state)
     else state)"

text \<open>The state after the metrics have been taken in, before the decision.\<close>

definition learn ::
    "ScalingAlgorithmConfig \<Rightarrow> int \<Rightarrow> rateBasedAggregateMetrics \<Rightarrow> anymap \<Rightarrow> anymap" where
  "learn config currentCount metrics state =
    sample_capacity config currentCount metrics
      (snd (snapIdleRateBasedEWMAToZero metrics
        (if hasData metrics then updateRateBasedEWMA config metrics state else state)))"

definition elapsed_since :: "int \<Rightarrow> string \<Rightarrow> anymap \<Rightarrow> int" where
  "elapsed_since nowMs key state = wrap64 (nowMs - GetInt64Field (Some state) key 0)"

text \<open>The decision: the actions and the state to persist.\<close>

definition decide ::
    "int \<Rightarrow> ScalingAlgorithmConfig \<Rightarrow> int \<Rightarrow> int \<Rightarrow> anymap \<Rightarrow> ScalingAction list \<times> anymap" where
  "decide nowMs config currentCount desiredCount state =
    (let scaleUpCooldownMs = GetInt64Field config configRateBasedScaleUpCooldownMsKey
           configRateBasedScaleUpCooldownMsDefault;
         elapsedSinceScaleUpMs = elapsed_since nowMs stateRateBasedLastScaleUpTimestamp state;
         noSyncQuietMs = GetInt64Field config configRateBasedNoSyncQuietMsKey
           configRateBasedNoSyncQuietMsDefault;
         elapsedSinceNoSyncMs = elapsed_since nowMs stateRateBasedLastNoSyncMatchTimestamp state;
         scaleDownCooldownMs = GetInt64Field config configRateBasedScaleDownCooldownMsKey
           configRateBasedScaleDownCooldownMsDefault;
         elapsedSinceScaleDownMs = elapsed_since nowMs stateRateBasedLastScaleDownTimestamp state
     in if desiredCount > currentCount then
          (if elapsedSinceScaleUpMs \<ge> scaleUpCooldownMs then
            (let addCount = min (rateMaxStep config) (min (wrap32 (desiredCount - currentCount))
                   (wrap32 (rateMaxCount config - currentCount)))
             in if addCount > 0 then
                  (let newCount = wrap32 (currentCount + addCount)
                   in ([resize newCount],
                       AList.update stateRateBasedLastScaleUpTimestamp (VInt64 nowMs)
                         (set_count newCount state)))
                else ([], state))
           else ([], state))
        else if desiredCount < currentCount then
          (if elapsedSinceNoSyncMs \<ge> noSyncQuietMs
              \<and> elapsedSinceScaleDownMs \<ge> scaleDownCooldownMs then
            (let newCount = max (rateMinCount config) (wrap32 (currentCount - 1))
             in if newCount \<noteq> currentCount then
                  ([resize newCount],
                   AList.update stateRateBasedLastScaleDownTimestamp (VInt64 nowMs)
                     (set_count newCount state))
                else ([], state))
           else ([], state))
        else ([], state))"

definition rateBasedProcessMetricsPoll ::
    "int \<Rightarrow> ScalingAlgorithmConfig \<Rightarrow> ScalingAlgorithmStatus \<Rightarrow> ScalingMetricsSnapshot
      \<Rightarrow> MetricsPollResponse" where
  "rateBasedProcessMetricsPoll nowMs config priorState metricsSnapshot =
    (let cleaned = cleanRateBasedState priorState;
         pollIntervalMs = GetInt64Field config configRateBasedMetricsPollIntervalMsKey
           configRateBasedMetricsPollIntervalMsDefault;
         metrics = aggregateRateBasedMetrics (Some metricsSnapshot);
         currentCount = currentRateBasedPlannedCount config cleaned;
         learned = learn config currentCount metrics (set_count currentCount cleaned);
         desiredCount = computeRateBasedDesiredCapacity config learned (aggBacklog metrics);
         (actions, updatedState) = decide nowMs config currentCount desiredCount learned
     in \<lparr>PollActions = actions, PollStatus = Some updatedState,
         NextPoll = Some (millis pollIntervalMs)\<rparr>)"

definition rateBasedTaskQueueRegistrationActions ::
    "ScalingAlgorithmConfig \<Rightarrow> ScalingAlgorithmStatus \<Rightarrow> TaskQueueRegistrationResponse" where
  "rateBasedTaskQueueRegistrationActions config status =
    (let updatedState = cleanRateBasedState status;
         planned = currentRateBasedPlannedCount config updatedState;
         size = max 1 (min (max planned (rateMinCount config)) (rateMaxCount config))
     in \<lparr>RegistrationActions = [resize size],
         RegistrationStatus = Some (set_count size updatedState)\<rparr>)"

definition rateBasedInactiveGroupActions ::
    "ScalingAlgorithmConfig \<Rightarrow> ScalingAlgorithmStatus \<Rightarrow> MetricsPollResponse" where
  "rateBasedInactiveGroupActions config status =
    (let updatedState = [(stateRateBasedWorkerCount, VInt64 0)]
     in if GetInt64Field (Some (cleanRateBasedState status)) stateRateBasedWorkerCount 0 \<le> 0
        then \<lparr>PollActions = [], PollStatus = Some updatedState, NextPoll = None\<rparr>
        else \<lparr>PollActions = [resize 0], PollStatus = Some updatedState, NextPoll = None\<rparr>)"

definition rateBased_ops :: algorithm_ops where
  "rateBased_ops =
    \<lparr>CompatibleLaunchStrategies = [LaunchStrategyWorkerSet],
     opProcessTaskAdd = rateBasedProcessTaskAdd,
     opProcessDeferredScalingDecision = rateBasedProcessDeferredScalingDecision,
     opProcessMetricsPoll = rateBasedProcessMetricsPoll,
     opTaskQueueRegistrationActions = rateBasedTaskQueueRegistrationActions,
     opInactiveGroupActions = rateBasedInactiveGroupActions\<rparr>"

section \<open>Cleaning the state\<close>

text \<open>What a slot of the state may hold.\<close>

definition slot_ok :: "string \<Rightarrow> anyval \<Rightarrow> bool" where
  "slot_ok k raw \<longleftrightarrow>
     (k \<in> set rateBasedFiniteFloat64StateKeys \<longrightarrow> finite_float64 raw)
     \<and> (k = stateRateBasedEWMAPerConsumerCapacity \<longrightarrow> not_nonpositive_float64 raw)
     \<and> (k = stateRateBasedWorkerCount \<longrightarrow> isValidNonNegativeInt32 raw)
     \<and> (k \<in> set rateBasedNonNegativeInt64StateKeys \<longrightarrow> isValidNonNegativeInt64 raw)"

lemma drop_unless_at:
  "map_of (drop_unless ok key m) k =
    (case map_of m k of
       None \<Rightarrow> None | Some raw \<Rightarrow> (if k = key \<and> \<not> ok raw then None else Some raw))"
  by (auto simp: drop_unless_def map_simps split: option.split)

lemma fold_drop_unless_at:
  "map_of (fold (drop_unless ok) ks m) k =
    (case map_of m k of
       None \<Rightarrow> None | Some raw \<Rightarrow> (if k \<in> set ks \<and> \<not> ok raw then None else Some raw))"
  by (induction ks arbitrary: m) (auto simp: drop_unless_at split: option.split)

lemma clean_at:
  "map_of (cleanRateBasedState s) k =
    (if k \<in> set rateBasedValidStateKeys
     then (case any_at s k of
        None \<Rightarrow> None | Some raw \<Rightarrow> (if slot_ok k raw then Some raw else None))
     else None)"
  by (auto simp: cleanRateBasedState_def Let_def fold_drop_unless_at drop_unless_at known_state_at
      slot_ok_def split: option.split)

lemma clean_idem:
  assumes "\<And>k raw. map_of m k = Some raw \<Longrightarrow> k \<in> set rateBasedValidStateKeys \<and> slot_ok k raw"
  shows "map_of (cleanRateBasedState (Some m)) = map_of m"
proof (rule ext)
  fix k
  show "map_of (cleanRateBasedState (Some m)) k = map_of m k"
    using assms [of k] by (cases "map_of m k") (auto simp: clean_at)
qed

lemma drop_unless_keys: "fst ` set (drop_unless ok key m) \<subseteq> fst ` set m"
  by (auto simp: drop_unless_def split: option.split)

lemma fold_drop_unless_keys: "fst ` set (fold (drop_unless ok) ks m) \<subseteq> fst ` set m"
proof (induction ks arbitrary: m)
  case (Cons k ks)
  show ?case using Cons [of "drop_unless ok k m"] drop_unless_keys [of ok k m] by auto
qed simp

lemma clean_keys: "status_keys_in rateBasedValidStateKeys (Some (cleanRateBasedState s))"
  unfolding status_keys_Some cleanRateBasedState_def Let_def
  by (intro subset_trans [OF fold_drop_unless_keys] subset_trans [OF drop_unless_keys]
      known_state_keys)

section \<open>Valid configurations\<close>

text \<open>What the count fields of a valid configuration satisfy; the conversions to \<open>int32\<close> are
  then exact.\<close>

definition counts_ok :: "ScalingAlgorithmConfig \<Rightarrow> bool" where
  "counts_ok cfg \<longleftrightarrow> 0 \<le> rateMinCount cfg
     \<and> rateMinCount cfg \<le> wrap32 (GetInt64Field cfg configRateBasedInitialCountKey
          configRateBasedInitialCountDefault)
     \<and> wrap32 (GetInt64Field cfg configRateBasedInitialCountKey
          configRateBasedInitialCountDefault) \<le> rateMaxCount cfg
     \<and> 1 \<le> rateMaxCount cfg \<and> rateMaxCount cfg \<le> max_int32"

lemma rateCountCheck_range:
  assumes "rateCountCheck cfg key = None" and "0 \<le> d" and "d \<le> max_int32"
  shows "0 \<le> GetInt64Field cfg key d \<and> GetInt64Field cfg key d \<le> max_int32
    \<or> any_at cfg key = Some VOther \<or> (\<exists>s. any_at cfg key = Some (VString s))"
proof (cases "any_at cfg key")
  case None
  with assms show ?thesis by (simp add: GetInt64Field_def getInt64FromMap_def)
next
  case (Some raw)
  with assms show ?thesis
    by (cases raw) (auto simp: rateCountCheck_def Let_def GetInt64Field_def getInt64FromMap_def
        split: if_splits)
qed

lemma validated_field_value:
  assumes "ValidateInt64Field cfg key lo = None"
  shows "any_at cfg key \<noteq> Some VOther"
    and "any_at cfg key = Some (VString s) \<Longrightarrow> \<exists>i. ParseInt s = Some i \<and> lo \<le> i"
  using assms
  by (auto simp: ValidateInt64Field_def validateInt64InMap_def split: option.splits if_splits)

lemma count_field_range:
  assumes "rateCountCheck cfg key = None" and "ValidateInt64Field cfg key lo = None"
    and "0 \<le> d" and "d \<le> max_int32"
  shows "0 \<le> GetInt64Field cfg key d" and "GetInt64Field cfg key d \<le> max_int32"
proof -
  have "0 \<le> GetInt64Field cfg key d \<and> GetInt64Field cfg key d \<le> max_int32"
  proof (cases "\<exists>s. any_at cfg key = Some (VString s)")
    case True
    then obtain s i where s: "any_at cfg key = Some (VString s)" "ParseInt s = Some i"
      using validated_field_value [OF assms(2)] by blast
    with assms(1) show ?thesis
      by (auto simp: rateCountCheck_def Let_def GetInt64Field_def getInt64FromMap_def
          split: if_splits)
  next
    case False
    with rateCountCheck_range [OF assms(1,3,4)] validated_field_value(1) [OF assms(2)]
    show ?thesis by blast
  qed
  then show "0 \<le> GetInt64Field cfg key d" "GetInt64Field cfg key d \<le> max_int32" by simp_all
qed

lemma rateBased_valid_parts:
  assumes "rateBasedValidateConfig cfg = None" and "cfg = Some m"
  shows "rateFieldChecks cfg = None" and "rateCrossChecks cfg = None"
    and "key \<in> {configRateBasedMinCountKey, configRateBasedMaxCountKey,
      configRateBasedInitialCountKey, configRateBasedMaxScaleUpStepKey} \<Longrightarrow>
      rateCountCheck cfg key = None"
  using assms
  by (auto simp: rateBasedValidateConfig_def first_some_None_iff first_error_None_iff
      split: option.splits)

lemma rateBased_valid_iff:
  "rateBasedValidateConfig (Some m) = None \<longleftrightarrow>
    (\<forall>k \<in> set (keys m). k \<in> set rateBasedValidConfigKeys) \<and> rateFieldChecks (Some m) = None
    \<and> (\<forall>k \<in> set [configRateBasedMinCountKey, configRateBasedMaxCountKey, configRateBasedInitialCountKey,
          configRateBasedMaxScaleUpStepKey]. rateCountCheck (Some m) k = None)
    \<and> rateCrossChecks (Some m) = None"
  unfolding rateBasedValidateConfig_def option.case first_some_None_iff
  by (simp add: first_error_None_iff del: first_error.simps)

lemma wrap32_count: "0 \<le> n \<Longrightarrow> n \<le> max_int32 \<Longrightarrow> wrap32 n = n"
  by (rule wrap32_id) (simp add: int_width_defs)

lemma unfit_value:
  "any_at cfg key = Some v \<Longrightarrow> \<not> float_fits_int64 v \<Longrightarrow> GetInt64Field cfg key d = min_int64"
  by (auto simp: float_fits_int64_def GetInt64Field_def getInt64FromMap_def flt_to_int64_def
      flt_to_int_def is_int64_def Let_def split: anyval.splits flt.splits)

lemma validated_nonneg_bound:
  assumes "ValidateInt64Field cfg key lo = None" and "0 \<le> GetInt64Field cfg key d"
    and "lo \<le> d" and "\<bar>lo\<bar> \<le> 2 ^ 53"
  shows "lo \<le> GetInt64Field cfg key d"
proof (rule ValidateInt64Field_sound [OF assms(1,3,4)])
  fix v assume v: "any_at cfg key = Some v"
  show "float_fits_int64 v"
  proof (rule ccontr)
    assume "\<not> float_fits_int64 v"
    from unfit_value [OF v this] assms(2) show False by (simp add: min_int64_def)
  qed
qed

lemma validated_counts:
  assumes "rateBasedValidateConfig cfg = None"
  shows "counts_ok cfg" and "1 \<le> rateMaxStep cfg" and "rateMaxStep cfg \<le> max_int32"
proof -
  have "counts_ok cfg \<and> 1 \<le> rateMaxStep cfg \<and> rateMaxStep cfg \<le> max_int32"
  proof (cases cfg)
    case None
    then show ?thesis
      by (simp add: counts_ok_def rateMinCount_def rateMaxCount_def rateMaxStep_def wrap32_def
          max_int32_def)
  next
    case (Some m)
    note parts = rateBased_valid_parts [OF assms Some]
    have fields: "ValidateInt64Field cfg configRateBasedMinCountKey 0 = None"
      "ValidateInt64Field cfg configRateBasedMaxCountKey 1 = None"
      "ValidateInt64Field cfg configRateBasedInitialCountKey 0 = None"
      "ValidateInt64Field cfg configRateBasedMaxScaleUpStepKey 1 = None"
      using parts(1) unfolding rateFieldChecks_def first_some_None_iff by simp_all
    let ?min = "GetInt64Field cfg configRateBasedMinCountKey configRateBasedMinCountDefault"
    let ?max = "GetInt64Field cfg configRateBasedMaxCountKey configRateBasedMaxCountDefault"
    let ?ini = "GetInt64Field cfg configRateBasedInitialCountKey configRateBasedInitialCountDefault"
    let ?step = "GetInt64Field cfg configRateBasedMaxScaleUpStepKey
      configRateBasedMaxScaleUpStepDefault"
    have r: "0 \<le> ?min" "?min \<le> max_int32" "0 \<le> ?max" "?max \<le> max_int32"
      "0 \<le> ?ini" "?ini \<le> max_int32" "0 \<le> ?step" "?step \<le> max_int32"
      using count_field_range [OF parts(3) fields(1), of 0]
        count_field_range [OF parts(3) fields(2), of 30]
        count_field_range [OF parts(3) fields(3), of 0]
        count_field_range [OF parts(3) fields(4), of 4]
      by (simp_all add: max_int32_def)
    have "1 \<le> ?max" "1 \<le> ?step"
      using validated_nonneg_bound [OF fields(2) r(3)] validated_nonneg_bound [OF fields(4) r(7)]
      by simp_all
    moreover have "?min \<le> ?ini" "?ini \<le> ?max"
      using parts(2) by (auto simp: rateCrossChecks_def Let_def split: if_splits)
    ultimately show ?thesis
      using r by (simp add: counts_ok_def rateMinCount_def rateMaxCount_def rateMaxStep_def
          wrap32_count)
  qed
  then show "counts_ok cfg" "1 \<le> rateMaxStep cfg" "rateMaxStep cfg \<le> max_int32" by simp_all
qed

section \<open>The planned count\<close>

abbreviation (input) "planned cfg s \<equiv> currentRateBasedPlannedCount cfg (cleanRateBasedState s)"

lemma int32_float_value:
  assumes "isValidNonNegativeInt32 (VFloat64 v)"
  shows "0 \<le> flt_to_int64 v \<and> flt_to_int64 v \<le> max_int32"
proof -
  have m: "f64_of_int max_int32 = Fin (of_int max_int32)"
    by (rule f64_of_int32) (simp add: int_width_defs)
  from assms obtain a where a: "v = Fin a" "0 \<le> a" "a \<le> of_int max_int32"
    by (cases v) (auto simp: isValidNonNegativeInt32_def m)
  then have "0 \<le> rat_trunc a" "rat_trunc a \<le> max_int32"
    by (simp_all add: rat_trunc_def le_floor_iff floor_le_iff)
  then show ?thesis
    using a(1) by (simp add: flt_to_int64_def flt_to_int_def int_width_defs)
qed

lemma valid_int32_value:
  assumes "map_of m k = Some raw" and "isValidNonNegativeInt32 raw"
  shows "0 \<le> GetInt64Field (Some m) k d" and "GetInt64Field (Some m) k d \<le> max_int32"
  using assms int32_float_value
  by (auto simp: GetInt64Field_def getInt64FromMap_def isValidNonNegativeInt32_def
      split: anyval.splits)

lemma worker_count_valid [simp]:
  "map_of (cleanRateBasedState s) stateRateBasedWorkerCount = Some raw \<Longrightarrow>
    isValidNonNegativeInt32 raw"
  by (auto simp: clean_at slot_ok_def split: option.splits if_splits)

lemma planned_range:
  assumes "counts_ok cfg"
  shows "0 \<le> planned cfg s" and "planned cfg s \<le> max_int32"
proof -
  have "0 \<le> planned cfg s \<and> planned cfg s \<le> max_int32"
  proof (cases "map_of (cleanRateBasedState s) stateRateBasedWorkerCount")
    case None
    with assms show ?thesis by (simp add: currentRateBasedPlannedCount_def counts_ok_def)
  next
    case (Some raw)
    note v = valid_int32_value [OF Some worker_count_valid [OF Some], of 0]
    with Some show ?thesis by (simp add: currentRateBasedPlannedCount_def wrap32_count)
  qed
  then show "0 \<le> planned cfg s" "planned cfg s \<le> max_int32" by simp_all
qed

text \<open>A status that stores a count, and one that stores none.\<close>

definition stores_count :: "ScalingAlgorithmStatus \<Rightarrow> int \<Rightarrow> bool" where
  "stores_count s n \<longleftrightarrow> any_at s stateRateBasedWorkerCount = Some (VInt64 n)
     \<and> 0 \<le> n \<and> n \<le> max_int32"

lemma worker_count_key [simp]: "stateRateBasedWorkerCount \<in> set rateBasedValidStateKeys"
  by (simp add: rateBasedValidStateKeys_def)

lemma stores_count_clean:
  "stores_count s n \<Longrightarrow> map_of (cleanRateBasedState s) stateRateBasedWorkerCount = Some (VInt64 n)"
  by (auto simp: clean_at stores_count_def slot_ok_def rateBasedFiniteFloat64StateKeys_def
      rateBasedNonNegativeInt64StateKeys_def isValidNonNegativeInt32_def)

lemma stores_count_planned: "stores_count s n \<Longrightarrow> planned cfg s = n"
  using stores_count_clean [of s n]
  by (simp add: currentRateBasedPlannedCount_def GetInt64Field_def getInt64FromMap_def
      wrap32_count stores_count_def)

lemma stores_count_unique: "stores_count s n \<Longrightarrow> stores_count s n' \<Longrightarrow> n = n'"
  by (simp add: stores_count_def)

text \<open>The updates of the state other than \<open>set_count\<close> keep the count and the timestamps.\<close>

definition same_at :: "string list \<Rightarrow> anymap \<Rightarrow> anymap \<Rightarrow> bool" where
  "same_at ks m m' \<longleftrightarrow> (\<forall>k \<in> set ks. map_of m' k = map_of m k)"

lemma same_at_refl [simp]: "same_at ks m m"
  by (simp add: same_at_def)

lemma same_at_trans: "same_at ks m m' \<Longrightarrow> same_at ks m' m'' \<Longrightarrow> same_at ks m m''"
  by (simp add: same_at_def)

lemma same_at_update: "k \<notin> set ks \<Longrightarrow> same_at ks m (AList.update k v m)"
  by (auto simp: same_at_def map_simps)

definition control_keys :: "string list" where
  "control_keys = stateRateBasedWorkerCount # rateBasedNonNegativeInt64StateKeys"

lemma rates_not_control:
  "stateRateBasedEWMAArrivalRate \<notin> set control_keys"
  "stateRateBasedEWMADispatchRate \<notin> set control_keys"
  "stateRateBasedEWMAPerConsumerCapacity \<notin> set control_keys"
  by (simp_all add: control_keys_def rateBasedNonNegativeInt64StateKeys_def)

lemma ewma_same: "same_at control_keys m (updateRateBasedEWMA cfg metrics m)"
  unfolding updateRateBasedEWMA_def Let_def
  by (rule same_at_trans; rule same_at_update) (simp_all add: rates_not_control)

lemma snap_same: "same_at control_keys m (snd (snapIdleRateBasedEWMAToZero metrics m))"
  unfolding snapIdleRateBasedEWMAToZero_def
  by (auto intro!: same_at_trans [OF same_at_update same_at_update] simp: rates_not_control)

lemma capacity_same:
  "same_at control_keys m (updateRateBasedPerConsumerCapacity cfg n r m)"
  by (simp add: updateRateBasedPerConsumerCapacity_def Let_def same_at_update rates_not_control)

lemma sample_same: "same_at control_keys m (sample_capacity cfg n metrics m)"
  by (simp add: sample_capacity_def capacity_same)

lemma learn_same: "same_at control_keys m (learn cfg n metrics m)"
  unfolding learn_def
  by (rule same_at_trans [OF same_at_trans [OF _ snap_same] sample_same]) (simp add: ewma_same)

section \<open>The effect of each operation\<close>

lemma desired_bounds:
  "counts_ok cfg \<Longrightarrow> rateMinCount cfg \<le> computeRateBasedDesiredCapacity cfg m b
     \<and> computeRateBasedDesiredCapacity cfg m b \<le> rateMaxCount cfg"
  by (auto simp: computeRateBasedDesiredCapacity_def counts_ok_def Let_def)

abbreviation (input) "rate_up_cooldown cfg \<equiv> GetInt64Field cfg configRateBasedScaleUpCooldownMsKey
  configRateBasedScaleUpCooldownMsDefault"
abbreviation (input) "rate_down_cooldown cfg \<equiv> GetInt64Field cfg
  configRateBasedScaleDownCooldownMsKey configRateBasedScaleDownCooldownMsDefault"
abbreviation (input) "rate_quiet cfg \<equiv> GetInt64Field cfg configRateBasedNoSyncQuietMsKey
  configRateBasedNoSyncQuietMsDefault"

definition goes_up ::
    "int \<Rightarrow> ScalingAlgorithmConfig \<Rightarrow> int \<Rightarrow> int \<Rightarrow> anymap \<Rightarrow> int \<Rightarrow> bool" where
  "goes_up now cfg c d m n \<longleftrightarrow> c < n \<and> n \<le> d \<and> n \<le> c + rateMaxStep cfg \<and> n \<le> rateMaxCount cfg
     \<and> rate_up_cooldown cfg \<le> elapsed_since now stateRateBasedLastScaleUpTimestamp m"

definition goes_down ::
    "int \<Rightarrow> ScalingAlgorithmConfig \<Rightarrow> int \<Rightarrow> int \<Rightarrow> anymap \<Rightarrow> int \<Rightarrow> bool" where
  "goes_down now cfg c d m n \<longleftrightarrow> n = c - 1 \<and> d \<le> n \<and> rateMinCount cfg \<le> n
     \<and> rate_quiet cfg \<le> elapsed_since now stateRateBasedLastNoSyncMatchTimestamp m
     \<and> rate_down_cooldown cfg \<le> elapsed_since now stateRateBasedLastScaleDownTimestamp m"

lemma decide_cases:
  assumes ok: "counts_ok cfg" and c: "0 \<le> c" "c \<le> max_int32"
    and d: "rateMinCount cfg \<le> d" "d \<le> rateMaxCount cfg"
  shows "decide now cfg c d m = ([], m)
    \<or> (\<exists>n. goes_up now cfg c d m n \<and> decide now cfg c d m = ([resize n],
         AList.update stateRateBasedLastScaleUpTimestamp (VInt64 now) (set_count n m)))
    \<or> (\<exists>n. goes_down now cfg c d m n \<and> decide now cfg c d m = ([resize n],
         AList.update stateRateBasedLastScaleDownTimestamp (VInt64 now) (set_count n m)))"
proof -
  have mx: "rateMaxCount cfg \<le> max_int32" "0 \<le> rateMinCount cfg"
    using ok by (simp_all add: counts_ok_def)
  have w: "wrap32 x = x" if "- max_int32 \<le> x" "x \<le> max_int32" for x
    using that by (intro wrap32_id) (simp add: int_width_defs)
  show ?thesis
  proof (cases "d > c")
    case True
    let ?a = "min (rateMaxStep cfg) (min (d - c) (rateMaxCount cfg - c))"
    have a: "min (rateMaxStep cfg) (min (wrap32 (d - c)) (wrap32 (rateMaxCount cfg - c))) = ?a"
      using True c d mx by (simp add: w)
    show ?thesis
    proof (cases "?a > 0 \<and> rate_up_cooldown cfg \<le>
        elapsed_since now stateRateBasedLastScaleUpTimestamp m")
      case fire: True
      have n: "wrap32 (c + ?a) = c + ?a"
        using fire c d mx by (intro w) linarith+
      have "decide now cfg c d m = ([resize (c + ?a)],
          AList.update stateRateBasedLastScaleUpTimestamp (VInt64 now) (set_count (c + ?a) m))"
        using fire True by (simp only: decide_def Let_def a n) simp
      moreover have "goes_up now cfg c d m (c + ?a)"
        using fire unfolding goes_up_def by (simp add: min_def)
      ultimately show ?thesis by blast
    next
      case False
      then have "decide now cfg c d m = ([], m)"
        using True by (simp only: decide_def Let_def a) auto
      then show ?thesis by blast
    qed
  next
    case False
    show ?thesis
    proof (cases "d < c \<and> rate_quiet cfg \<le>
          elapsed_since now stateRateBasedLastNoSyncMatchTimestamp m
        \<and> rate_down_cooldown cfg \<le> elapsed_since now stateRateBasedLastScaleDownTimestamp m")
      case True
      have n: "max (rateMinCount cfg) (wrap32 (c - 1)) = c - 1"
        using True c d w [of "c - 1"] by (simp add: max_int32_def)
      have "decide now cfg c d m = ([resize (c - 1)],
          AList.update stateRateBasedLastScaleDownTimestamp (VInt64 now) (set_count (c - 1) m))"
        using True by (simp only: decide_def Let_def n) simp
      moreover have "goes_down now cfg c d m (c - 1)"
        using True d by (simp add: goes_down_def)
      ultimately show ?thesis by blast
    next
      case stay: False
      then have "decide now cfg c d m = ([], m)"
        using False by (auto simp: decide_def Let_def)
      then show ?thesis by blast
    qed
  qed
qed

text \<open>What the controller can observe of a status: its count and its three timestamps, after the
  cleaning that every operation begins with.\<close>

definition rate_time :: "string \<Rightarrow> ScalingAlgorithmStatus \<Rightarrow> int" where
  "rate_time key s = GetInt64Field (Some (cleanRateBasedState s)) key 0"

lemma control_slot:
  assumes "map_of m k = map_of (cleanRateBasedState s) k"
  shows "map_of (cleanRateBasedState (Some m)) k = map_of (cleanRateBasedState s) k"
  using assms by (auto simp: clean_at split: option.split)

lemma rate_time_kept:
  "map_of m k = map_of (cleanRateBasedState s) k \<Longrightarrow> rate_time k (Some m) = rate_time k s"
  unfolding rate_time_def by (rule GetInt64Field_cong) (simp add: control_slot)

lemma rate_time_set:
  assumes "map_of m k = Some (VInt64 now)" and "k \<in> set rateBasedNonNegativeInt64StateKeys"
    and "0 \<le> now"
  shows "rate_time k (Some m) = now"
proof -
  have "map_of (cleanRateBasedState (Some m)) k = Some (VInt64 now)"
    using assms by (auto simp: clean_at slot_ok_def rateBasedNonNegativeInt64StateKeys_def
        rateBasedValidStateKeys_def rateBasedFiniteFloat64StateKeys_def isValidNonNegativeInt64_def
        isValidNonNegativeInt32_def)
  then show ?thesis by (simp add: rate_time_def GetInt64Field_def getInt64FromMap_def)
qed

lemma elapsed_rate_time:
  "map_of m k = map_of (cleanRateBasedState s) k \<Longrightarrow>
    elapsed_since now k m = wrap64 (now - rate_time k s)"
  unfolding elapsed_since_def rate_time_def
  by (subst GetInt64Field_cong [of "Some m" k "Some (cleanRateBasedState s)"]) simp_all

text \<open>The state that the metrics poll decides on.\<close>

definition poll_learned :: "ScalingAlgorithmConfig \<Rightarrow> ScalingAlgorithmStatus
    \<Rightarrow> ScalingMetricsSnapshot \<Rightarrow> anymap" where
  "poll_learned cfg s snap =
    learn cfg (planned cfg s) (aggregateRateBasedMetrics (Some snap))
      (set_count (planned cfg s) (cleanRateBasedState s))"

definition poll_desired :: "ScalingAlgorithmConfig \<Rightarrow> ScalingAlgorithmStatus
    \<Rightarrow> ScalingMetricsSnapshot \<Rightarrow> int" where
  "poll_desired cfg s snap = computeRateBasedDesiredCapacity cfg (poll_learned cfg s snap)
     (aggBacklog (aggregateRateBasedMetrics (Some snap)))"

lemma poll_decide:
  "rateBasedProcessMetricsPoll now cfg s snap =
    \<lparr>PollActions = fst (decide now cfg (planned cfg s) (poll_desired cfg s snap)
         (poll_learned cfg s snap)),
     PollStatus = Some (snd (decide now cfg (planned cfg s) (poll_desired cfg s snap)
         (poll_learned cfg s snap))),
     NextPoll = Some (millis (GetInt64Field cfg configRateBasedMetricsPollIntervalMsKey
       configRateBasedMetricsPollIntervalMsDefault))\<rparr>"
  by (simp add: rateBasedProcessMetricsPoll_def Let_def poll_learned_def poll_desired_def
      split_beta)

lemma poll_learned_at:
  "map_of (poll_learned cfg s snap) stateRateBasedWorkerCount = Some (VInt64 (planned cfg s))"
  "k \<in> set rateBasedNonNegativeInt64StateKeys \<Longrightarrow>
    map_of (poll_learned cfg s snap) k = map_of (cleanRateBasedState s) k"
  using learn_same [of "set_count (planned cfg s) (cleanRateBasedState s)" cfg "planned cfg s"
      "aggregateRateBasedMetrics (Some snap)"]
  by (auto simp: poll_learned_def same_at_def control_keys_def set_count_def map_simps
      rateBasedNonNegativeInt64StateKeys_def)

text \<open>Keys at which the resize writes.\<close>

lemma control_keys_distinct [simp]:
  "stateRateBasedWorkerCount \<notin> set rateBasedNonNegativeInt64StateKeys"
  "stateRateBasedLastScaleUpTimestamp \<in> set rateBasedNonNegativeInt64StateKeys"
  "stateRateBasedLastScaleDownTimestamp \<in> set rateBasedNonNegativeInt64StateKeys"
  "stateRateBasedLastNoSyncMatchTimestamp \<in> set rateBasedNonNegativeInt64StateKeys"
  by (simp_all add: rateBasedNonNegativeInt64StateKeys_def)

abbreviation (input) "up_time \<equiv> rate_time stateRateBasedLastScaleUpTimestamp"
abbreviation (input) "down_time \<equiv> rate_time stateRateBasedLastScaleDownTimestamp"
abbreviation (input) "miss_time \<equiv> rate_time stateRateBasedLastNoSyncMatchTimestamp"

text \<open>The possible outcomes of an operation at time \<open>now\<close>: no resize, a scale-up, a scale-down.\<close>

definition keeps_size ::
    "ScalingAlgorithmConfig \<Rightarrow> ScalingAlgorithmStatus \<Rightarrow> ScalingAlgorithmStatus \<Rightarrow> bool" where
  "keeps_size cfg s s' \<longleftrightarrow> stores_count s' (planned cfg s)
     \<and> up_time s' = up_time s \<and> down_time s' = down_time s"

definition scales_up ::
    "ScalingAlgorithmConfig \<Rightarrow> int \<Rightarrow> ScalingAlgorithmStatus \<Rightarrow> int \<Rightarrow> ScalingAlgorithmStatus \<Rightarrow> bool"
where
  "scales_up cfg now s n s' \<longleftrightarrow> planned cfg s < n \<and> n \<le> planned cfg s + rateMaxStep cfg
     \<and> n \<le> rateMaxCount cfg \<and> rate_up_cooldown cfg \<le> wrap64 (now - up_time s)
     \<and> stores_count s' n \<and> up_time s' = now \<and> down_time s' = down_time s"

definition scales_down ::
    "ScalingAlgorithmConfig \<Rightarrow> int \<Rightarrow> ScalingAlgorithmStatus \<Rightarrow> int \<Rightarrow> ScalingAlgorithmStatus \<Rightarrow> bool"
where
  "scales_down cfg now s n s' \<longleftrightarrow> n = planned cfg s - 1 \<and> rateMinCount cfg \<le> n
     \<and> rate_quiet cfg \<le> wrap64 (now - miss_time s)
     \<and> rate_down_cooldown cfg \<le> wrap64 (now - down_time s)
     \<and> stores_count s' n \<and> up_time s' = up_time s \<and> down_time s' = now"

lemma stores_count_Some:
  "stores_count (Some m) n \<longleftrightarrow>
    map_of m stateRateBasedWorkerCount = Some (VInt64 n) \<and> 0 \<le> n \<and> n \<le> max_int32"
  by (simp add: stores_count_def)

lemma resize_eq [simp]: "resize n = resize n' \<longleftrightarrow> n = n'"
  by (simp add: resize_def action_of_def)

lemma poll_outcome:
  fixes s :: ScalingAlgorithmStatus and snap :: ScalingMetricsSnapshot
  assumes ok: "counts_ok cfg" and now: "0 \<le> now"
  defines "r \<equiv> rateBasedProcessMetricsPoll now cfg s snap"
  shows "PollActions r = [] \<and> keeps_size cfg s (PollStatus r) \<and> miss_time (PollStatus r) = miss_time s
    \<or> (\<exists>n. PollActions r = [resize n] \<and> scales_up cfg now s n (PollStatus r)
         \<and> n \<le> poll_desired cfg s snap \<and> miss_time (PollStatus r) = miss_time s)
    \<or> (\<exists>n. PollActions r = [resize n] \<and> scales_down cfg now s n (PollStatus r)
         \<and> poll_desired cfg s snap \<le> n \<and> miss_time (PollStatus r) = miss_time s)"
proof -
  let ?c = "planned cfg s" and ?d = "poll_desired cfg s snap" and ?m = "poll_learned cfg s snap"
  note c = planned_range [OF ok, of s]
  have d: "rateMinCount cfg \<le> ?d" "?d \<le> rateMaxCount cfg"
    using desired_bounds [OF ok] by (simp_all add: poll_desired_def)
  have mx: "rateMaxCount cfg \<le> max_int32" "0 \<le> rateMinCount cfg"
    using ok by (simp_all add: counts_ok_def)
  note at_count = poll_learned_at(1) [of cfg s snap]
  note at = poll_learned_at(2) [of _ cfg s snap]
  from decide_cases [OF ok c d, of now ?m] show ?thesis
  proof (elim disjE exE conjE)
    assume "decide now cfg ?c ?d ?m = ([], ?m)"
    then show ?thesis
      using at_count c
      by (simp add: r_def poll_decide keeps_size_def stores_count_Some rate_time_kept at)
  next
    fix n
    assume up: "goes_up now cfg ?c ?d ?m n"
      and dec: "decide now cfg ?c ?d ?m = ([resize n],
        AList.update stateRateBasedLastScaleUpTimestamp (VInt64 now) (set_count n ?m))"
    let ?m' = "AList.update stateRateBasedLastScaleUpTimestamp (VInt64 now) (set_count n ?m)"
    have "up_time (Some ?m') = now"
      by (rule rate_time_set [OF _ _ now]) (simp_all add: map_simps)
    moreover have "down_time (Some ?m') = down_time s" "miss_time (Some ?m') = miss_time s"
      by (rule rate_time_kept; simp add: map_simps set_count_def at)+
    moreover have "stores_count (Some ?m') n"
      using up c mx by (simp add: stores_count_Some map_simps set_count_def goes_up_def)
    ultimately have "scales_up cfg now s n (Some ?m') \<and> n \<le> ?d \<and> miss_time (Some ?m') = miss_time s"
      using up by (simp add: scales_up_def goes_up_def elapsed_rate_time [OF at])
    then show ?thesis by (simp add: r_def poll_decide dec)
  next
    fix n
    assume down: "goes_down now cfg ?c ?d ?m n"
      and dec: "decide now cfg ?c ?d ?m = ([resize n],
        AList.update stateRateBasedLastScaleDownTimestamp (VInt64 now) (set_count n ?m))"
    let ?m' = "AList.update stateRateBasedLastScaleDownTimestamp (VInt64 now) (set_count n ?m)"
    have "down_time (Some ?m') = now"
      by (rule rate_time_set [OF _ _ now]) (simp_all add: map_simps)
    moreover have "up_time (Some ?m') = up_time s" "miss_time (Some ?m') = miss_time s"
      by (rule rate_time_kept; simp add: map_simps set_count_def at)+
    moreover have "stores_count (Some ?m') n"
      using down c mx by (simp add: stores_count_Some map_simps set_count_def goes_down_def)
    ultimately have "scales_down cfg now s n (Some ?m') \<and> ?d \<le> n
        \<and> miss_time (Some ?m') = miss_time s"
      using down by (simp add: scales_down_def goes_down_def elapsed_rate_time [OF at])
    then show ?thesis by (simp add: r_def poll_decide dec)
  qed
qed

lemma task_add_outcome:
  fixes s :: ScalingAlgorithmStatus and req :: SignalTaskAddRequest
  assumes ok: "counts_ok cfg" and step: "1 \<le> rateMaxStep cfg" and now: "0 \<le> now"
  defines "r \<equiv> rateBasedProcessTaskAdd now cfg s req"
  shows "set (TaskAddActions r) \<subseteq> {deferredAction} \<and> keeps_size cfg s (TaskAddStatus r)
    \<or> (TaskAddActions r = [resize (planned cfg s + 1), deferredAction]
        \<and> \<not> (IsSyncMatch req \<and> NoSyncMatchSignalsSinceLast req = 0)
        \<and> scales_up cfg now s (planned cfg s + 1) (TaskAddStatus r))"
proof -
  let ?c = "planned cfg s" and ?m = "cleanRateBasedState s"
  note c = planned_range [OF ok, of s]
  let ?b = "AList.update stateRateBasedLastNoSyncMatchTimestamp (VInt64 now) (set_count ?c ?m)"
  have kept: "keeps_size cfg s (Some (set_count ?c ?m))"
    using c by (simp add: keeps_size_def stores_count_Some set_count_def map_simps rate_time_kept)
  have bumped: "keeps_size cfg s (Some ?b)"
    using c by (simp add: keeps_size_def stores_count_Some set_count_def map_simps rate_time_kept)
  have el: "GetInt64Field (Some (set_count ?c ?m)) stateRateBasedLastScaleUpTimestamp 0 = up_time s"
    by (simp add: set_count_def rate_time_def)
  show ?thesis
  proof (cases "IsSyncMatch req \<and> NoSyncMatchSignalsSinceLast req = 0")
    case True
    with kept show ?thesis by (simp add: r_def rateBasedProcessTaskAdd_def Let_def)
  next
    case False
    show ?thesis
    proof (cases "?c \<ge> rateMaxCount cfg \<or> wrap64 (now - up_time s) < rate_up_cooldown cfg")
      case True
      with False bumped show ?thesis
        by (auto simp: r_def rateBasedProcessTaskAdd_def Let_def el)
    next
      case fire: False
      have w: "wrap32 (?c + 1) = ?c + 1"
        using fire c ok by (intro wrap32_count) (simp_all add: counts_ok_def)
      let ?m' = "AList.update stateRateBasedLastScaleUpTimestamp (VInt64 now)
        (set_count (?c + 1) ?b)"
      have "TaskAddActions r = [resize (?c + 1), deferredAction]" "TaskAddStatus r = Some ?m'"
        using False fire by (auto simp: r_def rateBasedProcessTaskAdd_def Let_def el w)
      moreover have "up_time (Some ?m') = now"
        by (rule rate_time_set [OF _ _ now]) (simp_all add: map_simps)
      moreover have "down_time (Some ?m') = down_time s"
        by (rule rate_time_kept) (simp add: map_simps set_count_def)
      moreover have "stores_count (Some ?m') (?c + 1)"
        using fire c ok by (simp add: stores_count_Some set_count_def map_simps counts_ok_def)
      ultimately show ?thesis
        using fire step False by (auto simp: scales_up_def)
    qed
  qed
qed

lemma deferred_outcome:
  assumes ok: "counts_ok cfg"
    and r: "rateBasedProcessDeferredScalingDecision cfg s req g = Inr r"
  shows "TaskAddActions r = [] \<and> keeps_size cfg s (TaskAddStatus r)
    \<and> miss_time (TaskAddStatus r) = miss_time s"
proof -
  let ?c = "planned cfg s"
  let ?m = "set_count ?c (cleanRateBasedState s)"
  note c = planned_range [OF ok, of s]
  have at: "map_of ?m k = map_of (cleanRateBasedState s) k"
    if "k \<in> set rateBasedNonNegativeInt64StateKeys" for k
    using that by (auto simp: set_count_def map_simps rateBasedNonNegativeInt64StateKeys_def)
  have all: "keeps_size cfg s (Some m') \<and> miss_time (Some m') = miss_time s"
    if "same_at control_keys ?m m'" for m'
  proof -
    have "map_of m' stateRateBasedWorkerCount = Some (VInt64 ?c)"
      "\<And>k. k \<in> set rateBasedNonNegativeInt64StateKeys \<Longrightarrow>
        map_of m' k = map_of (cleanRateBasedState s) k"
      using that at by (simp_all add: same_at_def control_keys_def set_count_def map_simps)
    then show ?thesis using c by (simp add: keeps_size_def stores_count_Some rate_time_kept)
  qed
  show ?thesis
    using r all [OF same_at_refl] all [OF capacity_same]
    by (auto simp: rateBasedProcessDeferredScalingDecision_def Let_def
        split: option.splits sum.splits if_splits)
qed

section \<open>The contract of the interface\<close>

lemma learn_keys:
  assumes "status_keys_in rateBasedValidStateKeys (Some m)"
  shows "status_keys_in rateBasedValidStateKeys (Some (learn cfg n metrics m))"
proof -
  have rates: "stateRateBasedEWMAArrivalRate \<in> set rateBasedValidStateKeys"
    "stateRateBasedEWMADispatchRate \<in> set rateBasedValidStateKeys"
    "stateRateBasedEWMAPerConsumerCapacity \<in> set rateBasedValidStateKeys"
    by (simp_all add: rateBasedValidStateKeys_def)
  show ?thesis
    using assms
    by (auto simp: learn_def sample_capacity_def updateRateBasedPerConsumerCapacity_def Let_def
        snapIdleRateBasedEWMAToZero_def updateRateBasedEWMA_def rates status_keys_Some)
qed

lemma decide_keys:
  assumes "status_keys_in rateBasedValidStateKeys (Some m)"
  shows "status_keys_in rateBasedValidStateKeys (Some (snd (decide now cfg c d m)))"
  using assms
  by (auto simp: decide_def Let_def set_count_def status_keys_Some rateBasedValidStateKeys_def)

lemma decide_actions: "a \<in> set (fst (decide now cfg c d m)) \<Longrightarrow> \<exists>n. a = resize n"
  by (auto simp: decide_def Let_def split: if_splits)

lemma resize_executable [simp]: "executable_action [LaunchStrategyWorkerSet] (resize n)"
  by (simp add: resize_def executable_action_of)

lemma set_count_keys:
  "status_keys_in rateBasedValidStateKeys (Some m) \<Longrightarrow>
    status_keys_in rateBasedValidStateKeys (Some (set_count n m))"
  by (auto simp: set_count_def)

lemma time_update_keys:
  "status_keys_in rateBasedValidStateKeys (Some m) \<Longrightarrow>
    k \<in> set rateBasedNonNegativeInt64StateKeys \<Longrightarrow>
    status_keys_in rateBasedValidStateKeys (Some (AList.update k v m))"
  by (rule status_keys_update)
    (auto simp: rateBasedNonNegativeInt64StateKeys_def rateBasedValidStateKeys_def)

lemma capacity_keys:
  "status_keys_in rateBasedValidStateKeys (Some m) \<Longrightarrow> status_keys_in rateBasedValidStateKeys
    (Some (updateRateBasedPerConsumerCapacity cfg n r m))"
  by (auto simp: updateRateBasedPerConsumerCapacity_def Let_def status_keys_Some
      rateBasedValidStateKeys_def)

interpretation ratebased: scaling_algorithm rateBased_ops rateBasedValidStateKeys
proof unfold_locales
  fix now cfg s req snap g a r
  show "a \<in> set (TaskAddActions (opProcessTaskAdd rateBased_ops now cfg s req)) \<Longrightarrow>
      executable_action (CompatibleLaunchStrategies rateBased_ops) a
      \<or> Action a = ActionTypeDeferredScalingDecision"
    by (auto simp: rateBased_ops_def rateBasedProcessTaskAdd_def Let_def deferredAction_def
        split: if_splits)
  show "opProcessDeferredScalingDecision rateBased_ops cfg s req g = Inr r \<Longrightarrow>
      a \<in> set (TaskAddActions r) \<Longrightarrow> executable_action (CompatibleLaunchStrategies rateBased_ops) a"
    by (auto simp: rateBased_ops_def rateBasedProcessDeferredScalingDecision_def Let_def
        split: option.splits sum.splits if_splits)
  show "a \<in> set (PollActions (opProcessMetricsPoll rateBased_ops now cfg s snap)) \<Longrightarrow>
      executable_action (CompatibleLaunchStrategies rateBased_ops) a"
    by (auto simp: rateBased_ops_def poll_decide dest!: decide_actions)
  show "a \<in> set (RegistrationActions (opTaskQueueRegistrationActions rateBased_ops cfg s)) \<Longrightarrow>
      executable_action (CompatibleLaunchStrategies rateBased_ops) a"
    by (auto simp: rateBased_ops_def rateBasedTaskQueueRegistrationActions_def Let_def)
  show "a \<in> set (PollActions (opInactiveGroupActions rateBased_ops cfg s)) \<Longrightarrow>
      executable_action (CompatibleLaunchStrategies rateBased_ops) a"
    by (auto simp: rateBased_ops_def rateBasedInactiveGroupActions_def Let_def split: if_splits)
  show "status_keys_in rateBasedValidStateKeys
      (TaskAddStatus (opProcessTaskAdd rateBased_ops now cfg s req))"
    by (simp add: rateBased_ops_def rateBasedProcessTaskAdd_def Let_def set_count_keys
        time_update_keys clean_keys)
  show "opProcessDeferredScalingDecision rateBased_ops cfg s req g = Inr r \<Longrightarrow>
      status_keys_in rateBasedValidStateKeys s \<Longrightarrow>
      status_keys_in rateBasedValidStateKeys (TaskAddStatus r)"
    by (auto simp: rateBased_ops_def rateBasedProcessDeferredScalingDecision_def Let_def
        set_count_keys capacity_keys clean_keys split: option.splits sum.splits if_splits)
  show "status_keys_in rateBasedValidStateKeys
      (PollStatus (opProcessMetricsPoll rateBased_ops now cfg s snap))"
    by (simp add: rateBased_ops_def poll_decide poll_learned_def decide_keys learn_keys
        set_count_keys clean_keys)
  show "status_keys_in rateBasedValidStateKeys s \<Longrightarrow> status_keys_in rateBasedValidStateKeys
      (RegistrationStatus (opTaskQueueRegistrationActions rateBased_ops cfg s))"
    by (simp add: rateBased_ops_def rateBasedTaskQueueRegistrationActions_def Let_def
        set_count_keys clean_keys)
  show "status_keys_in rateBasedValidStateKeys
      (PollStatus (opInactiveGroupActions rateBased_ops cfg s))"
    by (simp add: rateBased_ops_def rateBasedInactiveGroupActions_def Let_def status_keys_Some)
qed

section \<open>Counts over a run\<close>

definition counts_of :: "ScalingAction list \<Rightarrow> int list" where
  "counts_of actions = concat (List.map (\<lambda>a. case Count a of None \<Rightarrow> [] | Some n \<Rightarrow> [n]) actions)"

definition commanded :: "(algorithm_event \<times> ScalingAction) list \<Rightarrow> int list" where
  "commanded entries = counts_of (List.map snd entries)"

fun after_epoch :: "algorithm_event \<Rightarrow> bool" where
  "after_epoch (TaskAddEvent now req) = (0 \<le> now)"
| "after_epoch (MetricsPollEvent now snap) = (0 \<le> now)"
| "after_epoch _ = True"

lemma counts_of_simps [simp]:
  "counts_of [] = []" "counts_of [resize n] = [n]" "counts_of [resize n, deferredAction] = [n]"
  "counts_of (xs @ ys) = counts_of xs @ counts_of ys"
  by (simp_all add: counts_of_def resize_def deferredAction_def)

lemma counts_of_deferred: "set actions \<subseteq> {deferredAction} \<Longrightarrow> counts_of actions = []"
  by (induction actions) (simp_all add: counts_of_def deferredAction_def)

definition count_step :: "ScalingAlgorithmConfig \<Rightarrow> ScalingAlgorithmStatus \<Rightarrow> int list
    \<Rightarrow> ScalingAlgorithmStatus \<Rightarrow> bool" where
  "count_step cfg s ns s' \<longleftrightarrow>
     (ns = [] \<and> (\<forall>n. stores_count s n \<longrightarrow> stores_count s' n) \<or> (\<exists>n. ns = [n] \<and> stores_count s' n))
     \<and> (s' = s \<or> (\<exists>n. stores_count s' n))
     \<and> planned cfg s' \<le> max (rateMaxCount cfg) (planned cfg s)"

lemma keeps_size_count:
  assumes "keeps_size cfg s s'"
  shows "count_step cfg s [] s'"
proof -
  have h: "stores_count s' (planned cfg s)" using assms by (simp add: keeps_size_def)
  have "stores_count s' n" if "stores_count s n" for n
    using h stores_count_planned [OF that, of cfg] by simp
  with h stores_count_planned [OF h, of cfg] show ?thesis by (auto simp: count_step_def)
qed

lemma scales_count:
  "scales_up cfg now s n s' \<Longrightarrow> count_step cfg s [n] s'"
  "scales_down cfg now s n s' \<Longrightarrow> count_step cfg s [n] s'"
  using stores_count_planned [of s' n cfg]
  by (auto simp: count_step_def scales_up_def scales_down_def)

lemma registration_count:
  fixes s :: ScalingAlgorithmStatus
  assumes ok: "counts_ok cfg"
  defines "r \<equiv> rateBasedTaskQueueRegistrationActions cfg s"
  shows "\<exists>n. RegistrationActions r = [resize n] \<and> stores_count (RegistrationStatus r) n
    \<and> 1 \<le> n \<and> n \<le> rateMaxCount cfg \<and> rateMinCount cfg \<le> n"
  using ok
  by (simp add: r_def rateBasedTaskQueueRegistrationActions_def Let_def stores_count_Some
      set_count_def map_simps counts_ok_def) linarith

lemma inactive_outcome:
  shows "stores_count (PollStatus (rateBasedInactiveGroupActions cfg s)) 0"
    and "stores_count s n \<Longrightarrow>
      PollActions (rateBasedInactiveGroupActions cfg s) = (if n = 0 then [] else [resize 0])"
    and "PollActions (rateBasedInactiveGroupActions cfg s) = []
      \<or> PollActions (rateBasedInactiveGroupActions cfg s) = [resize 0]"
proof -
  show "stores_count (PollStatus (rateBasedInactiveGroupActions cfg s)) 0"
    by (simp add: rateBasedInactiveGroupActions_def Let_def stores_count_Some max_int32_def)
  show "PollActions (rateBasedInactiveGroupActions cfg s) = (if n = 0 then [] else [resize 0])"
    if "stores_count s n"
    using that stores_count_clean [OF that]
    by (auto simp: rateBasedInactiveGroupActions_def Let_def GetInt64Field_def
        getInt64FromMap_def stores_count_def)
qed (simp add: rateBasedInactiveGroupActions_def Let_def)

lemma rateBased_count_step:
  assumes ok: "counts_ok cfg" and st: "1 \<le> rateMaxStep cfg" and ev: "after_epoch ev"
    and step: "algorithm_step rateBased_ops cfg ev s = (actions, s')"
  shows "count_step cfg s (counts_of actions) s'"
proof (cases ev)
  case (TaskAddEvent now req)
  with step have r: "actions = TaskAddActions (rateBasedProcessTaskAdd now cfg s req)"
    "s' = TaskAddStatus (rateBasedProcessTaskAdd now cfg s req)"
    by (auto simp: rateBased_ops_def Let_def)
  have "0 \<le> now" using ev TaskAddEvent by simp
  from task_add_outcome [OF ok st this, of s req] show ?thesis
    unfolding r by (auto simp: counts_of_deferred keeps_size_count scales_count)
next
  case (MetricsPollEvent now snap)
  with step have r: "actions = PollActions (rateBasedProcessMetricsPoll now cfg s snap)"
    "s' = PollStatus (rateBasedProcessMetricsPoll now cfg s snap)"
    by (auto simp: rateBased_ops_def Let_def)
  have "0 \<le> now" using ev MetricsPollEvent by simp
  from poll_outcome [OF ok this, of s snap] show ?thesis
    unfolding r by (auto simp: keeps_size_count scales_count)
next
  case (DeferredEvent req g)
  show ?thesis
  proof (cases "rateBasedProcessDeferredScalingDecision cfg s req g")
    case (Inl e)
    with step DeferredEvent show ?thesis by (auto simp: rateBased_ops_def count_step_def)
  next
    case (Inr r)
    from deferred_outcome [OF ok Inr] step DeferredEvent Inr show ?thesis
      by (auto simp: rateBased_ops_def keeps_size_count)
  qed
next
  case RegistrationEvent
  then have r: "actions = RegistrationActions (rateBasedTaskQueueRegistrationActions cfg s)"
    "s' = RegistrationStatus (rateBasedTaskQueueRegistrationActions cfg s)"
    using step by (auto simp: rateBased_ops_def Let_def)
  obtain n where n: "actions = [resize n]" "stores_count s' n" "n \<le> rateMaxCount cfg"
    using registration_count [OF ok, of s] unfolding r by blast
  with stores_count_planned [OF n(2), of cfg] show ?thesis by (auto simp: count_step_def)
next
  case InactiveEvent
  then have r: "actions = PollActions (rateBasedInactiveGroupActions cfg s)"
    "s' = PollStatus (rateBasedInactiveGroupActions cfg s)"
    using step by (auto simp: rateBased_ops_def Let_def)
  have "planned cfg s' \<le> max (rateMaxCount cfg) (planned cfg s)"
    using stores_count_planned [OF inactive_outcome(1)] ok by (simp add: r counts_ok_def le_max_iff_disj)
  moreover have "stores_count s' 0" unfolding r(2) by (rule inactive_outcome(1))
  moreover have "counts_of actions = [] \<and> (\<forall>n. stores_count s n \<longrightarrow> stores_count s' n)
      \<or> (\<exists>n. counts_of actions = [n] \<and> stores_count s' n)"
  proof (cases "actions = []")
    case True
    then have "n = 0" if "stores_count s n" for n
      using inactive_outcome(2) [OF that, of cfg] r(1) by (auto split: if_splits)
    with True inactive_outcome(1) [of cfg s] show ?thesis unfolding r(2) by auto
  next
    case False
    then have "actions = [resize 0]" using inactive_outcome(3) [of cfg s] r(1) by simp
    with inactive_outcome(1) [of cfg s] show ?thesis unfolding r(2) by simp
  qed
  ultimately show ?thesis unfolding count_step_def by blast
qed

lemma commanded_Cons:
  assumes "algorithm_step ops cfg ev s = (actions, s')"
  shows "commanded (fst (algorithm_run ops cfg (ev # evs) s)) =
    counts_of actions @ commanded (fst (algorithm_run ops cfg evs s'))"
  using assms by (simp add: commanded_def comp_def split_beta)

lemma run_status_Cons:
  assumes "algorithm_step ops cfg ev s = (actions, s')"
  shows "snd (algorithm_run ops cfg (ev # evs) s) = snd (algorithm_run ops cfg evs s')"
  using assms by (simp add: split_beta)

lemma rateBased_run_last:
  assumes ok: "counts_ok cfg" "1 \<le> rateMaxStep cfg" and evs: "\<forall>ev \<in> set evs. after_epoch ev"
  shows "if commanded (fst (algorithm_run rateBased_ops cfg evs s)) = []
    then \<forall>n. stores_count s n \<longrightarrow> stores_count (snd (algorithm_run rateBased_ops cfg evs s)) n
    else stores_count (snd (algorithm_run rateBased_ops cfg evs s))
      (last (commanded (fst (algorithm_run rateBased_ops cfg evs s))))"
  using evs
proof (induction evs arbitrary: s)
  case Nil
  then show ?case by (simp add: commanded_def counts_of_def)
next
  case (Cons ev evs)
  obtain actions s' where step: "algorithm_step rateBased_ops cfg ev s = (actions, s')" by fastforce
  have cs: "count_step cfg s (counts_of actions) s'"
    using rateBased_count_step [OF ok _ step] Cons.prems by simp
  have ih: "if commanded (fst (algorithm_run rateBased_ops cfg evs s')) = []
    then \<forall>n. stores_count s' n \<longrightarrow> stores_count (snd (algorithm_run rateBased_ops cfg evs s')) n
    else stores_count (snd (algorithm_run rateBased_ops cfg evs s'))
      (last (commanded (fst (algorithm_run rateBased_ops cfg evs s'))))"
    using Cons.IH [of s'] Cons.prems by simp
  show ?case
    unfolding commanded_Cons [OF step] run_status_Cons [OF step]
    using cs ih unfolding count_step_def by (auto split: if_splits)
qed

lemma rateBased_run_bounded:
  assumes ok: "counts_ok cfg" "1 \<le> rateMaxStep cfg" and evs: "\<forall>ev \<in> set evs. after_epoch ev"
  shows "(\<forall>n \<in> set (commanded (fst (algorithm_run rateBased_ops cfg evs s))).
      0 \<le> n \<and> n \<le> max (rateMaxCount cfg) (planned cfg s))
    \<and> (snd (algorithm_run rateBased_ops cfg evs s) = s
       \<or> (\<exists>n. stores_count (snd (algorithm_run rateBased_ops cfg evs s)) n))
    \<and> planned cfg (snd (algorithm_run rateBased_ops cfg evs s)) \<le> max (rateMaxCount cfg) (planned cfg s)"
  using evs
proof (induction evs arbitrary: s)
  case Nil
  then show ?case by (simp add: commanded_def counts_of_def)
next
  case (Cons ev evs)
  obtain actions s' where step: "algorithm_step rateBased_ops cfg ev s = (actions, s')" by fastforce
  have cs: "count_step cfg s (counts_of actions) s'"
    using rateBased_count_step [OF ok _ step] Cons.prems by simp
  then have s': "planned cfg s' \<le> max (rateMaxCount cfg) (planned cfg s)"
    by (simp add: count_step_def)
  have "0 \<le> n \<and> n \<le> max (rateMaxCount cfg) (planned cfg s)" if "n \<in> set (counts_of actions)" for n
  proof -
    have n: "stores_count s' n" using cs that by (auto simp: count_step_def)
    with s' stores_count_planned [OF n, of cfg] show ?thesis by (simp add: stores_count_def)
  qed
  moreover have "s' = s \<or> (\<exists>n. stores_count s' n)" using cs by (simp add: count_step_def)
  ultimately show ?case
    using Cons.IH [of s'] Cons.prems s'
    unfolding commanded_Cons [OF step] run_status_Cons [OF step] by fastforce
qed

lemma planned_None:
  "planned cfg None = wrap32 (GetInt64Field cfg configRateBasedInitialCountKey
     configRateBasedInitialCountDefault)"
  by (simp add: currentRateBasedPlannedCount_def clean_at)

section \<open>Cooldowns over a run\<close>

fun event_time :: "algorithm_event \<Rightarrow> int option" where
  "event_time (TaskAddEvent now req) = Some now"
| "event_time (MetricsPollEvent now snap) = Some now"
| "event_time _ = None"

text \<open>The time of a scale-up (a scale-down), if the step is one.\<close>

definition up_fires :: "ScalingAlgorithmConfig \<Rightarrow> algorithm_event \<Rightarrow> ScalingAlgorithmStatus \<Rightarrow> int option"
where
  "up_fires cfg ev s =
    (if \<exists>n \<in> set (counts_of (fst (algorithm_step rateBased_ops cfg ev s))). planned cfg s < n
     then event_time ev else None)"

definition down_fires :: "ScalingAlgorithmConfig \<Rightarrow> algorithm_event \<Rightarrow> ScalingAlgorithmStatus \<Rightarrow> int option"
where
  "down_fires cfg ev s =
    (if \<exists>n \<in> set (counts_of (fst (algorithm_step rateBased_ops cfg ev s))). n < planned cfg s
     then event_time ev else None)"

definition rate_admissible :: "ScalingAlgorithmConfig \<Rightarrow> algorithm_event \<Rightarrow> bool" where
  "rate_admissible cfg ev \<longleftrightarrow> timed_event ev \<and> counts_ok cfg \<and> 1 \<le> rateMaxStep cfg"

lemma rate_step_outcome:
  assumes adm: "rate_admissible cfg ev"
    and step: "algorithm_step rateBased_ops cfg ev s = (actions, s')"
  shows "(counts_of actions = [] \<or> event_time ev = None) \<and> up_time s' = up_time s \<and> down_time s' = down_time s
    \<or> (\<exists>now n. event_time ev = Some now \<and> 0 \<le> now \<and> now \<le> max_int64
        \<and> counts_of actions = [n] \<and> (scales_up cfg now s n s' \<or> scales_down cfg now s n s'))"
proof (cases ev)
  case (TaskAddEvent now req)
  then have now: "0 \<le> now" "now \<le> max_int64" using adm by (simp_all add: rate_admissible_def)
  from step TaskAddEvent have r: "actions = TaskAddActions (rateBasedProcessTaskAdd now cfg s req)"
    "s' = TaskAddStatus (rateBasedProcessTaskAdd now cfg s req)"
    by (auto simp: rateBased_ops_def Let_def)
  show ?thesis
    using task_add_outcome [OF _ _ now(1), of cfg s req] adm now TaskAddEvent
    unfolding r by (auto simp: counts_of_deferred keeps_size_def rate_admissible_def)
next
  case (MetricsPollEvent now snap)
  then have now: "0 \<le> now" "now \<le> max_int64" using adm by (simp_all add: rate_admissible_def)
  from step MetricsPollEvent have r: "actions = PollActions (rateBasedProcessMetricsPoll now cfg s snap)"
    "s' = PollStatus (rateBasedProcessMetricsPoll now cfg s snap)"
    by (auto simp: rateBased_ops_def Let_def)
  show ?thesis
    using poll_outcome [OF _ now(1), of cfg s snap] adm now MetricsPollEvent
    unfolding r by (auto simp: keeps_size_def rate_admissible_def)
next
  case (DeferredEvent req g)
  with step adm deferred_outcome [of cfg s req g] show ?thesis
    by (cases "rateBasedProcessDeferredScalingDecision cfg s req g")
      (auto simp: rateBased_ops_def rate_admissible_def keeps_size_def)
next
  case RegistrationEvent
  with step show ?thesis
    by (auto simp: rateBased_ops_def Let_def rateBasedTaskQueueRegistrationActions_def set_count_def
        map_simps intro!: rate_time_kept)
qed (use adm in \<open>simp_all add: rate_admissible_def\<close>)

interpretation rate_up: cooldown_timer "rate_admissible cfg"
  "\<lambda>ev s. snd (algorithm_step rateBased_ops cfg ev s)" "up_fires cfg" "\<lambda>s. up_time s"
  "\<lambda>ev. rate_up_cooldown cfg" for cfg
proof unfold_locales
  fix ev s t
  assume adm: "rate_admissible cfg ev"
  obtain actions s' where step: "algorithm_step rateBased_ops cfg ev s = (actions, s')" by fastforce
  show "up_fires cfg ev s = Some t \<Longrightarrow>
      up_time (snd (algorithm_step rateBased_ops cfg ev s)) = t \<and> 0 \<le> t \<and> t \<le> max_int64
      \<and> rate_up_cooldown cfg \<le> wrap64 (t - up_time s)"
    using rate_step_outcome [OF adm step]
    by (auto simp: up_fires_def step scales_up_def scales_down_def split: if_splits)
  show "up_fires cfg ev s = None \<Longrightarrow>
      up_time (snd (algorithm_step rateBased_ops cfg ev s)) = up_time s"
    using rate_step_outcome [OF adm step]
    by (auto simp: up_fires_def step scales_up_def scales_down_def split: if_splits)
qed

interpretation rate_down: cooldown_timer "rate_admissible cfg"
  "\<lambda>ev s. snd (algorithm_step rateBased_ops cfg ev s)" "down_fires cfg" "\<lambda>s. down_time s"
  "\<lambda>ev. rate_down_cooldown cfg" for cfg
proof unfold_locales
  fix ev s t
  assume adm: "rate_admissible cfg ev"
  obtain actions s' where step: "algorithm_step rateBased_ops cfg ev s = (actions, s')" by fastforce
  show "down_fires cfg ev s = Some t \<Longrightarrow>
      down_time (snd (algorithm_step rateBased_ops cfg ev s)) = t \<and> 0 \<le> t \<and> t \<le> max_int64
      \<and> rate_down_cooldown cfg \<le> wrap64 (t - down_time s)"
    using rate_step_outcome [OF adm step]
    by (auto simp: down_fires_def step scales_up_def scales_down_def split: if_splits)
  show "down_fires cfg ev s = None \<Longrightarrow>
      down_time (snd (algorithm_step rateBased_ops cfg ev s)) = down_time s"
    using rate_step_outcome [OF adm step]
    by (auto simp: down_fires_def step scales_up_def scales_down_def split: if_splits)
qed

section \<open>The averages stay non-negative\<close>

definition rates_nonneg :: "ScalingAlgorithmStatus \<Rightarrow> bool" where
  "rates_nonneg s \<longleftrightarrow>
    (\<forall>key \<in> {stateRateBasedEWMAArrivalRate, stateRateBasedEWMADispatchRate}. \<forall>x.
       any_at s key = Some (VFloat64 x) \<longrightarrow> flt_nonneg x)"

lemma fmul_alpha_nonneg:
  "0 < a \<Longrightarrow> flt_nonneg x \<Longrightarrow> flt_nonneg (mul64 (Fin a) x)"
  by (auto elim!: flt_nonnegE simp: fmul_nonneg) (simp add: fmul_def inf_of_sign_def)

lemma ewma_nonneg:
  assumes "alpha = Fin a" and "0 < a" and "a \<le> 1" and "flt_nonneg sample" and "0 \<le> p"
  shows "flt_nonneg (ewma alpha sample (Fin p))"
proof -
  have "flt_nonneg (sub64 (Fin 1) alpha)"
    using assms(1,3) by (simp add: fsub_def fadd_def rnd64_nonneg)
  moreover have "sub64 (Fin 1) alpha \<noteq> PInf"
  proof
    assume "sub64 (Fin 1) alpha = PInf"
    then have "rnd64 (1 - a) = PInf" by (simp add: assms(1) fsub_def fadd_def)
    moreover have "flt_le (rnd64 (1 - a)) (rnd64 1)" using assms(2) by (intro rnd64_mono) simp
    ultimately show False by simp
  qed
  ultimately obtain b where "sub64 (Fin 1) alpha = Fin b" "0 \<le> b" by (auto elim: flt_nonnegE)
  then have "flt_nonneg (mul64 (sub64 (Fin 1) alpha) (Fin p))"
    using assms(5) by (simp add: fmul_nonneg)
  then show ?thesis
    unfolding ewma_def using assms(1,2,4) by (intro fadd_nonneg) (simp_all add: fmul_alpha_nonneg)
qed

lemma valid_sample:
  "\<not> invalid_sample q \<Longrightarrow> flt_nonneg (LastArrivalRate q) \<and> flt_nonneg (LastProcessingRate q)"
  by (cases "LastArrivalRate q"; cases "LastProcessingRate q")
    (auto simp: invalid_sample_def is_nan_def is_inf_def)

lemma aggregate_queue_nonneg:
  "flt_nonneg (aggArrivalRate a) \<and> flt_nonneg (aggDispatchRate a) \<Longrightarrow>
    flt_nonneg (aggArrivalRate (aggregate_queue qt a))
    \<and> flt_nonneg (aggDispatchRate (aggregate_queue qt a))"
  by (auto simp: aggregate_queue_def fadd_nonneg dest: valid_sample split: option.split)

lemma aggregate_nonneg:
  "flt_nonneg (aggArrivalRate (aggregateRateBasedMetrics snap))
    \<and> flt_nonneg (aggDispatchRate (aggregateRateBasedMetrics snap))"
  by (cases snap) (simp_all add: aggregateRateBasedMetrics_def zero_aggregate_def
      aggregate_queue_nonneg)

lemma clean_rate_slot:
  assumes "rates_nonneg s"
    and "key \<in> {stateRateBasedEWMAArrivalRate, stateRateBasedEWMADispatchRate}"
    and "map_of (cleanRateBasedState s) key = Some (VFloat64 x)"
  shows "\<exists>p. x = Fin p \<and> 0 \<le> p"
proof -
  from assms(3) have at: "any_at s key = Some (VFloat64 x)" and ok: "slot_ok key (VFloat64 x)"
    by (auto simp: clean_at split: if_splits option.splits)
  have "flt_nonneg x" using assms(1,2) at by (auto simp: rates_nonneg_def)
  moreover have "finite_float64 (VFloat64 x)"
    using ok assms(2) by (auto simp: slot_ok_def rateBasedFiniteFloat64StateKeys_def)
  ultimately show ?thesis by (cases x) (auto simp: finite_float64_def is_inf_def)
qed

definition rate_slots_ok :: "anymap \<Rightarrow> bool" where
  "rate_slots_ok m \<longleftrightarrow>
    (\<forall>key \<in> {stateRateBasedEWMAArrivalRate, stateRateBasedEWMADispatchRate}. \<forall>x.
       map_of m key = Some (VFloat64 x) \<longrightarrow> (\<exists>p. x = Fin p \<and> 0 \<le> p))"

lemma clean_rate_slots: "rates_nonneg s \<Longrightarrow> rate_slots_ok (cleanRateBasedState s)"
  unfolding rate_slots_ok_def using clean_rate_slot by blast

lemma rate_slots_nonneg: "rate_slots_ok m \<Longrightarrow> rates_nonneg (Some m)"
  by (auto simp: rate_slots_ok_def rates_nonneg_def)

lemma rates_nonneg_same:
  "same_at [stateRateBasedEWMAArrivalRate, stateRateBasedEWMADispatchRate] m m' \<Longrightarrow>
    rates_nonneg (Some m) \<Longrightarrow> rates_nonneg (Some m')"
  by (simp add: same_at_def rates_nonneg_def)

lemma ewma_value_nonneg:
  assumes "rate_slots_ok m" and "key \<in> {stateRateBasedEWMAArrivalRate, stateRateBasedEWMADispatchRate}"
    and "alpha = Fin a" "0 < a" "a \<le> 1" and "flt_nonneg sample"
  shows "flt_nonneg (updateRateBasedEWMAValue m key alpha sample)"
proof -
  have "flt_nonneg (ewma alpha sample x)" if "map_of m key = Some (VFloat64 x)" for x
    using assms that ewma_nonneg [OF assms(3-6)] by (auto simp: rate_slots_ok_def)
  with assms(6) show ?thesis
    by (auto simp: updateRateBasedEWMAValue_def split: option.split anyval.split)
qed

lemma updateEWMA_nonneg:
  assumes ok: "rate_slots_ok m" and alpha: "rateAlpha cfg = Fin a" "0 < a" "a \<le> 1"
    and s: "flt_nonneg (aggArrivalRate metrics)" "flt_nonneg (aggDispatchRate metrics)"
  shows "rates_nonneg (Some (updateRateBasedEWMA cfg metrics m))"
proof -
  let ?v = "updateRateBasedEWMAValue m stateRateBasedEWMAArrivalRate (rateAlpha cfg)
    (aggArrivalRate metrics)"
  let ?m1 = "AList.update stateRateBasedEWMAArrivalRate (VFloat64 ?v) m"
  have v: "flt_nonneg ?v" using ewma_value_nonneg [OF ok _ alpha s(1)] by simp
  have "updateRateBasedEWMAValue ?m1 stateRateBasedEWMADispatchRate (rateAlpha cfg)
      (aggDispatchRate metrics) =
    updateRateBasedEWMAValue m stateRateBasedEWMADispatchRate (rateAlpha cfg)
      (aggDispatchRate metrics)"
    by (simp add: updateRateBasedEWMAValue_def map_simps)
  with v ewma_value_nonneg [OF ok _ alpha s(2)] show ?thesis
    by (simp add: updateRateBasedEWMA_def Let_def rates_nonneg_def map_simps)
qed

lemma learn_nonneg:
  assumes ok: "rate_slots_ok m" and alpha: "rateAlpha cfg = Fin a" "0 < a" "a \<le> 1"
    and s: "flt_nonneg (aggArrivalRate metrics)" "flt_nonneg (aggDispatchRate metrics)"
  shows "rates_nonneg (Some (learn cfg n metrics m))"
proof -
  let ?m1 = "if hasData metrics then updateRateBasedEWMA cfg metrics m else m"
  have m1: "rates_nonneg (Some ?m1)"
    using updateEWMA_nonneg [OF ok alpha s] rate_slots_nonneg [OF ok] by simp
  have m2: "rates_nonneg (Some (snd (snapIdleRateBasedEWMAToZero metrics ?m1)))"
    using m1 by (simp add: snapIdleRateBasedEWMAToZero_def rates_nonneg_def map_simps)
  show ?thesis
    unfolding learn_def
    by (rule rates_nonneg_same [OF _ m2])
      (simp add: sample_capacity_def updateRateBasedPerConsumerCapacity_def Let_def same_at_update)
qed

lemma valid_alpha:
  assumes "rateBasedValidateConfig cfg = None"
  shows "\<exists>a. rateAlpha cfg = Fin a \<and> 0 < a \<and> a \<le> 1"
proof (cases cfg)
  case None
  have "\<exists>a. rnd64 (45 / 100) = Fin a \<and> 0 < a \<and> a \<le> 1"
    by (rule exI [of _ "8106479329266893 / 18014398509481984"]) code_simp
  then show ?thesis
    by (simp add: None rateAlpha_def GetFloat64Field_def getFloat64FromMap_def)
next
  case (Some m)
  have "rateCrossChecks cfg = None" by (rule rateBased_valid_parts(2) [OF assms Some])
  then have "\<not> (is_nan (rateAlpha cfg) \<or> flt_le (rateAlpha cfg) (Fin 0)
      \<or> flt_less (Fin 1) (rateAlpha cfg))"
    by (auto simp: rateCrossChecks_def Let_def rateAlpha_def split: if_splits)
  then show ?thesis by (cases "rateAlpha cfg") (auto simp: is_nan_def)
qed

lemma set_other_rates:
  "k \<notin> {stateRateBasedEWMAArrivalRate, stateRateBasedEWMADispatchRate} \<Longrightarrow>
    rates_nonneg (Some m) \<Longrightarrow> rates_nonneg (Some (AList.update k v m))"
  by (rule rates_nonneg_same [OF same_at_update]) simp_all

lemma set_count_rates:
  "rates_nonneg (Some m) \<Longrightarrow> rates_nonneg (Some (set_count n m))"
  by (simp add: set_count_def set_other_rates)

lemma rate_slots_set_count: "rate_slots_ok m \<Longrightarrow> rate_slots_ok (set_count n m)"
  by (simp add: rate_slots_ok_def set_count_def map_simps)

lemma rates_nonneg_step:
  assumes alpha: "rateAlpha cfg = Fin a" "0 < a" "a \<le> 1" and s: "rates_nonneg s"
  shows "rates_nonneg (snd (algorithm_step rateBased_ops cfg ev s))"
proof -
  note ok = clean_rate_slots [OF s]
  note cl = rate_slots_nonneg [OF ok]
  note counted = set_count_rates [OF cl]
  show ?thesis
  proof (cases ev)
    case (TaskAddEvent now req)
    then show ?thesis
      by (simp add: rateBased_ops_def rateBasedProcessTaskAdd_def Let_def counted set_other_rates
          set_count_rates)
  next
    case (MetricsPollEvent now snap)
    have "rates_nonneg (Some (poll_learned cfg s snap))"
      unfolding poll_learned_def
      using aggregate_nonneg by (intro learn_nonneg [OF _ alpha]) (simp_all add: ok rate_slots_set_count)
    then have "rates_nonneg (Some (snd (decide now cfg c d (poll_learned cfg s snap))))" for c d
      by (simp add: decide_def Let_def set_other_rates set_count_rates)
    then show ?thesis
      using MetricsPollEvent by (simp add: rateBased_ops_def poll_decide Let_def)
  next
    case (DeferredEvent req g)
    have "rates_nonneg (Some (updateRateBasedPerConsumerCapacity cfg n r m))"
      if "rates_nonneg (Some m)" for n r m
      using that by (simp add: updateRateBasedPerConsumerCapacity_def Let_def set_other_rates)
    with DeferredEvent s counted show ?thesis
      by (auto simp: rateBased_ops_def rateBasedProcessDeferredScalingDecision_def Let_def
          split: option.split sum.split)
  next
    case RegistrationEvent
    then show ?thesis
      by (simp add: rateBased_ops_def rateBasedTaskQueueRegistrationActions_def Let_def
          set_count_rates cl)
  next
    case InactiveEvent
    then show ?thesis
      by (simp add: rateBased_ops_def rateBasedInactiveGroupActions_def Let_def rates_nonneg_def)
  qed
qed

lemma rates_nonneg_run:
  assumes alpha: "rateAlpha cfg = Fin a" "0 < a" "a \<le> 1" and s: "rates_nonneg s"
  shows "rates_nonneg (snd (algorithm_run rateBased_ops cfg evs s))"
  using s
proof (induction evs arbitrary: s)
  case (Cons ev evs)
  have "rates_nonneg (snd (algorithm_step rateBased_ops cfg ev s))"
    by (rule rates_nonneg_step [OF alpha Cons.prems])
  from Cons.IH [OF this] show ?case by (simp add: split_beta)
qed simp

section \<open>Properties\<close>

text \<open>A configuration that rate-based validates has consistent, unwrapped bounds: the minimum,
  initial and maximum count and the maximum step survive the conversion to \<open>int32\<close>, with
  \<open>0 \<le> min \<le> initial \<le> max\<close>, \<open>1 \<le> max\<close> and \<open>1 \<le> step\<close>, whatever mixture of integers,
  floats and strings the configuration uses.\<close>

theorem rateBased_validated_bounds:
  assumes "rateBasedValidateConfig cfg = None"
  shows "counts_ok cfg \<and> 1 \<le> rateMaxStep cfg \<and> rateMaxStep cfg \<le> max_int32"
  using validated_counts [OF assms] by blast

definition sample_rate_config :: ScalingAlgorithmConfig where
  "sample_rate_config = Some
     [(configRateBasedMinCountKey, VFloat64 (Fin 1)), (configRateBasedMaxCountKey, VString ''6''),
      (configRateBasedInitialCountKey, VInt 2)]"

text \<open>Single steps at concrete inputs, for the witnesses below.\<close>

lemma sample_valid: "rateBasedValidateConfig sample_rate_config = None"
  by code_simp

lemma sample_registration:
  "algorithm_step rateBased_ops sample_rate_config RegistrationEvent None =
    ([resize 2], Some [(stateRateBasedWorkerCount, VInt64 2)])"
  by code_simp

lemma sample_task_add:
  "algorithm_step rateBased_ops sample_rate_config (TaskAddEvent 5000 missed_task)
      (Some [(stateRateBasedWorkerCount, VInt64 2)]) =
    ([resize 3, deferredAction],
     Some [(stateRateBasedWorkerCount, VInt64 3),
       (stateRateBasedLastNoSyncMatchTimestamp, VInt64 5000),
       (stateRateBasedLastScaleUpTimestamp, VInt64 5000)])"
  by code_simp

lemma sample_task_add_early:
  "algorithm_step rateBased_ops sample_rate_config (TaskAddEvent 6000 missed_task)
      (Some [(stateRateBasedWorkerCount, VInt64 3),
       (stateRateBasedLastNoSyncMatchTimestamp, VInt64 5000),
       (stateRateBasedLastScaleUpTimestamp, VInt64 5000)]) =
    ([deferredAction],
     Some [(stateRateBasedWorkerCount, VInt64 3),
       (stateRateBasedLastNoSyncMatchTimestamp, VInt64 6000),
       (stateRateBasedLastScaleUpTimestamp, VInt64 5000)])"
  by code_simp

lemma sample_inactive:
  "algorithm_step rateBased_ops sample_rate_config InactiveEvent
      (Some [(stateRateBasedWorkerCount, VInt64 2)]) =
    ([resize 0], Some [(stateRateBasedWorkerCount, VInt64 0)])"
  by code_simp

lemma sample_planned:
  "planned sample_rate_config (Some [(stateRateBasedWorkerCount, VInt64 2)]) = 2"
  "planned sample_rate_config (Some [(stateRateBasedWorkerCount, VInt64 3),
       (stateRateBasedLastNoSyncMatchTimestamp, VInt64 5000),
       (stateRateBasedLastScaleUpTimestamp, VInt64 5000)]) = 3"
  by code_simp+

theorem rateBased_validated_bounds_witness:
  "counts_ok sample_rate_config \<and> rateMaxCount sample_rate_config = 6"
proof -
  note sample_valid
  moreover have "rateMaxCount sample_rate_config = 6" by code_simp
  ultimately show ?thesis using rateBased_validated_bounds by blast
qed

text \<open>C4: Every decision of a rate-based metrics poll under a valid configuration is one of three:
  no resize, and count and timestamps are kept; a scale-up by at most the maximum step, up to the
  desired and to the maximum count, after the scale-up cooldown; or a scale-down by exactly one,
  not below the desired or the minimum count, after the quiet time since the last missed task and
  the scale-down cooldown.  The count it commands is the count it persists.\<close>

theorem rateBased_poll_outcomes:
  assumes "rateBasedValidateConfig cfg = None" and "0 \<le> now"
  shows "(PollActions (rateBasedProcessMetricsPoll now cfg s snap) = []
      \<and> keeps_size cfg s (PollStatus (rateBasedProcessMetricsPoll now cfg s snap)))
    \<or> (\<exists>n. PollActions (rateBasedProcessMetricsPoll now cfg s snap) = [resize n]
        \<and> scales_up cfg now s n (PollStatus (rateBasedProcessMetricsPoll now cfg s snap))
        \<and> n \<le> poll_desired cfg s snap)
    \<or> (\<exists>n. PollActions (rateBasedProcessMetricsPoll now cfg s snap) = [resize n]
        \<and> scales_down cfg now s n (PollStatus (rateBasedProcessMetricsPoll now cfg s snap))
        \<and> poll_desired cfg s snap \<le> n)"
  using poll_outcome [OF validated_counts(1) [OF assms(1)] assms(2), of s snap] by blast

definition idle_snapshot :: ScalingMetricsSnapshot where
  "idle_snapshot = \<lparr>Workflow = Some \<lparr>LastBacklogCount = 0, LastArrivalRate = Fin 0,
     LastProcessingRate = Fin 0, LastBacklogAge = 0\<rparr>, Activity = None, Nexus = None\<rparr>"

theorem rateBased_poll_outcomes_witness:
  "\<exists>n. PollActions (rateBasedProcessMetricsPoll 1000000 sample_rate_config None idle_snapshot) =
      [resize n]
    \<and> scales_down sample_rate_config 1000000 None n
        (PollStatus (rateBasedProcessMetricsPoll 1000000 sample_rate_config None idle_snapshot))"
proof -
  note sample_valid
  moreover have "PollActions (rateBasedProcessMetricsPoll 1000000 sample_rate_config None
      idle_snapshot) = [resize 1]"
    by code_simp
  moreover have "planned sample_rate_config None = 2" by code_simp
  ultimately show ?thesis
    using rateBased_poll_outcomes [of sample_rate_config 1000000 None idle_snapshot]
    by (auto simp: scales_up_def)
qed

text \<open>A task-add of rate-based scales up by exactly one, only when a task missed its poller, the
  count is below the maximum and the scale-up cooldown has passed, and always together with a
  deferred decision; otherwise it resizes nothing and keeps count and timestamps.\<close>

theorem rateBased_task_add_outcomes:
  assumes "rateBasedValidateConfig cfg = None" and "0 \<le> now"
  shows "(set (TaskAddActions (rateBasedProcessTaskAdd now cfg s req)) \<subseteq> {deferredAction}
      \<and> keeps_size cfg s (TaskAddStatus (rateBasedProcessTaskAdd now cfg s req)))
    \<or> (TaskAddActions (rateBasedProcessTaskAdd now cfg s req) =
          [resize (planned cfg s + 1), deferredAction]
        \<and> \<not> (IsSyncMatch req \<and> NoSyncMatchSignalsSinceLast req = 0)
        \<and> scales_up cfg now s (planned cfg s + 1)
            (TaskAddStatus (rateBasedProcessTaskAdd now cfg s req)))"
  using task_add_outcome [OF validated_counts(1,2) [OF assms(1)] assms(2)] by blast

theorem rateBased_task_add_outcomes_witness:
  "scales_up sample_rate_config 5000 None 3
    (TaskAddStatus (rateBasedProcessTaskAdd 5000 sample_rate_config None missed_task))"
proof -
  note sample_valid
  moreover have "planned sample_rate_config None = 2" by code_simp
  moreover have "\<not> set (TaskAddActions (rateBasedProcessTaskAdd 5000 sample_rate_config None
      missed_task)) \<subseteq> {deferredAction}" by code_simp
  ultimately show ?thesis
    using rateBased_task_add_outcomes [of sample_rate_config 5000 None missed_task] by simp
qed

text \<open>C6: Over any run of all five operations under a valid configuration, from any status, every
  size that rate-based commands lies between 0 and the maximum, or the count it started from where
  that is larger (as after an update that lowers the maximum); and the status at the end is the one
  it started from or holds as its worker count an integer in the same range, so that the count
  never grows past the maximum.\<close>

theorem rateBased_counts_bounded:
  assumes "rateBasedValidateConfig cfg = None" and "\<forall>ev \<in> set evs. after_epoch ev"
  shows "(\<forall>n \<in> set (commanded (fst (algorithm_run rateBased_ops cfg evs s))).
      0 \<le> n \<and> n \<le> max (rateMaxCount cfg) (planned cfg s))
    \<and> (snd (algorithm_run rateBased_ops cfg evs s) = s
       \<or> (\<exists>n. any_at (snd (algorithm_run rateBased_ops cfg evs s)) stateRateBasedWorkerCount = Some (VInt64 n)
           \<and> 0 \<le> n \<and> n \<le> max (rateMaxCount cfg) (planned cfg s)))"
proof -
  note bounded = rateBased_run_bounded [OF validated_counts(1,2) [OF assms(1)] assms(2), of s]
  let ?s = "snd (algorithm_run rateBased_ops cfg evs s)"
  have "any_at ?s stateRateBasedWorkerCount = Some (VInt64 n)
      \<and> 0 \<le> n \<and> n \<le> max (rateMaxCount cfg) (planned cfg s)" if "stores_count ?s n" for n
    using bounded stores_count_planned [OF that, of cfg] that by (simp add: stores_count_def)
  with bounded show ?thesis by blast
qed

theorem rateBased_counts_bounded_witness:
  "commanded (fst (algorithm_run rateBased_ops sample_rate_config
      [RegistrationEvent, TaskAddEvent 5000 missed_task] None)) = [2, 3]
   \<and> (\<exists>n. any_at (snd (algorithm_run rateBased_ops sample_rate_config
        [RegistrationEvent, TaskAddEvent 5000 missed_task] None)) stateRateBasedWorkerCount = Some (VInt64 n)
      \<and> 0 \<le> n \<and> n \<le> rateMaxCount sample_rate_config)"
proof -
  let ?evs = "[RegistrationEvent, TaskAddEvent 5000 missed_task]"
  have max: "max (rateMaxCount sample_rate_config) (planned sample_rate_config None)
      = rateMaxCount sample_rate_config" by code_simp
  have cmd: "commanded (fst (algorithm_run rateBased_ops sample_rate_config ?evs None)) = [2, 3]"
    unfolding commanded_Cons [OF sample_registration] commanded_Cons [OF sample_task_add]
    by (simp add: commanded_def)
  have "snd (algorithm_run rateBased_ops sample_rate_config ?evs None) \<noteq> None"
    unfolding run_status_Cons [OF sample_registration] run_status_Cons [OF sample_task_add] by simp
  with rateBased_counts_bounded [OF sample_valid, of ?evs None, unfolded max] cmd show ?thesis
    by (simp del: algorithm_run.simps algorithm_step.simps)
qed

text \<open>C29: Rate-based never acts on a phantom count: after any run from any status, if the run
  commanded a size at all, then the count the next operation will start from is the last size
  commanded, on every path (task-add, poll, registration, scale-down of an inactive group).\<close>

theorem rateBased_no_phantom_count:
  assumes "rateBasedValidateConfig cfg = None" and "\<forall>ev \<in> set evs. after_epoch ev"
    and "commanded (fst (algorithm_run rateBased_ops cfg evs s)) \<noteq> []"
  shows "planned cfg (snd (algorithm_run rateBased_ops cfg evs s)) =
    last (commanded (fst (algorithm_run rateBased_ops cfg evs s)))"
  using rateBased_run_last [OF validated_counts(1,2) [OF assms(1)] assms(2), of s] assms(3)
    stores_count_planned by simp

theorem rateBased_no_phantom_count_witness:
  "planned sample_rate_config (snd (algorithm_run rateBased_ops sample_rate_config
      [RegistrationEvent, InactiveEvent] None)) = 0"
proof -
  have "commanded (fst (algorithm_run rateBased_ops sample_rate_config
      [RegistrationEvent, InactiveEvent] None)) = [2, 0]"
    unfolding commanded_Cons [OF sample_registration] commanded_Cons [OF sample_inactive]
    by (simp add: commanded_def)
  then show ?thesis
    using rateBased_no_phantom_count [OF sample_valid, of "[RegistrationEvent, InactiveEvent]"
      None] by simp
qed

text \<open>C28: Over any run of task-adds, polls, deferred decisions and registrations, from any status,
  the scale-ups that task-adds and polls decide on are at least the scale-up cooldown apart, on both
  paths together, and the scale-downs at least the scale-down cooldown.  A registration commands its
  size whenever the controller makes one, and neither counts nor resets the cooldowns; only a
  deactivation of the group forgets them.\<close>

theorem rateBased_cooldowns:
  assumes "rateBasedValidateConfig cfg = None" and "\<forall>ev \<in> set evs. timed_event ev"
    and "0 \<le> rate_up_cooldown cfg" and "0 \<le> rate_down_cooldown cfg"
  shows "sorted_wrt (\<lambda>t t'. rate_up_cooldown cfg \<le> t' - t)
      (fire_times (\<lambda>ev s. snd (algorithm_step rateBased_ops cfg ev s)) (up_fires cfg) evs s)
    \<and> sorted_wrt (\<lambda>t t'. rate_down_cooldown cfg \<le> t' - t)
      (fire_times (\<lambda>ev s. snd (algorithm_step rateBased_ops cfg ev s)) (down_fires cfg) evs s)"
proof -
  have "\<forall>ev \<in> set evs. rate_admissible cfg ev"
    using assms(2) validated_counts [OF assms(1)] by (simp add: rate_admissible_def)
  with rate_up.spaced [of evs cfg "rate_up_cooldown cfg" s]
    rate_down.spaced [of evs cfg "rate_down_cooldown cfg" s] assms(3,4) show ?thesis
    by blast
qed

theorem rateBased_cooldowns_witness:
  "fire_times (\<lambda>ev s. snd (algorithm_step rateBased_ops sample_rate_config ev s))
      (up_fires sample_rate_config)
      [TaskAddEvent 5000 missed_task, TaskAddEvent 6000 missed_task]
      (Some [(stateRateBasedWorkerCount, VInt64 2)]) = [5000]
   \<and> sorted_wrt (\<lambda>t t'. 2000 \<le> t' - t)
      (fire_times (\<lambda>ev s. snd (algorithm_step rateBased_ops sample_rate_config ev s))
        (up_fires sample_rate_config)
        [TaskAddEvent 5000 missed_task, TaskAddEvent 6000 missed_task]
        (Some [(stateRateBasedWorkerCount, VInt64 2)]))"
proof -
  let ?evs = "[TaskAddEvent 5000 missed_task, TaskAddEvent 6000 missed_task]"
  let ?s = "Some [(stateRateBasedWorkerCount, VInt64 2)]"
  have c: "rate_up_cooldown sample_rate_config = 2000"
    "rate_down_cooldown sample_rate_config = 60000" by code_simp+
  have "fire_times (\<lambda>ev s. snd (algorithm_step rateBased_ops sample_rate_config ev s))
      (up_fires sample_rate_config) ?evs ?s = [5000]"
    by (simp add: up_fires_def sample_task_add sample_task_add_early sample_planned
        counts_of_deferred del: algorithm_step.simps)
  moreover have "\<forall>ev \<in> set ?evs. timed_event ev" by (simp add: max_int64_def)
  ultimately show ?thesis
    using rateBased_cooldowns [OF sample_valid, of ?evs ?s] unfolding c by simp
qed

text \<open>The size a registration asks for is at least 1, so that a worker comes up to register its
  queues, within the bounds of the configuration, and is the count that is persisted.\<close>

theorem rateBased_registration_size:
  assumes "rateBasedValidateConfig cfg = None"
  shows "\<exists>n. RegistrationActions (rateBasedTaskQueueRegistrationActions cfg s) = [resize n]
    \<and> stores_count (RegistrationStatus (rateBasedTaskQueueRegistrationActions cfg s)) n
    \<and> 1 \<le> n \<and> rateMinCount cfg \<le> n \<and> n \<le> rateMaxCount cfg"
  using registration_count [OF validated_counts(1) [OF assms], of s] by blast

theorem rateBased_registration_size_witness:
  "\<exists>n. RegistrationActions (rateBasedTaskQueueRegistrationActions None None) = [resize n] \<and> 1 \<le> n"
  using rateBased_registration_size [of None None] by (auto simp: rateBasedValidateConfig_def)

abbreviation (input) "released cfg s \<equiv> PollStatus (rateBasedInactiveGroupActions cfg s)"

text \<open>A group released while inactive comes back: after \<open>InactiveGroupActions\<close> the count is 0,
  and under a valid configuration with a positive minimum the next poll past the cooldown scales
  up again by as much as the maximum step allows towards the desired count.\<close>

theorem rateBased_inactive_recovers:
  assumes "rateBasedValidateConfig cfg = None" and "1 \<le> rateMinCount cfg"
    and "0 \<le> now" and "now \<le> max_int64" and "rate_up_cooldown cfg \<le> now"
  shows "planned cfg (released cfg s) = 0
    \<and> PollActions (rateBasedProcessMetricsPoll now cfg (released cfg s) snap) =
        [resize (min (rateMaxStep cfg) (poll_desired cfg (released cfg s) snap))]
    \<and> 1 \<le> min (rateMaxStep cfg) (poll_desired cfg (released cfg s) snap)"
proof -
  note ok = validated_counts [OF assms(1)]
  have zero: "planned cfg (released cfg s) = 0"
    by (rule stores_count_planned [OF inactive_outcome(1)])
  let ?d = "poll_desired cfg (released cfg s) snap"
  have d: "1 \<le> ?d" "?d \<le> rateMaxCount cfg" "rateMaxCount cfg \<le> max_int32"
    using desired_bounds [OF ok(1)] assms(2) ok(1)
    by (auto simp: poll_desired_def counts_ok_def intro: order_trans)
  have "up_time (released cfg s) = 0"
    by (simp add: rateBasedInactiveGroupActions_def Let_def rate_time_def
        GetInt64Field_def getInt64FromMap_def clean_at)
  then have "elapsed_since now stateRateBasedLastScaleUpTimestamp (poll_learned cfg (released cfg s) snap) = now"
    using assms(3,4) elapsed_rate_time [OF poll_learned_at(2), of stateRateBasedLastScaleUpTimestamp now]
    by (simp add: wrap64_id int_width_defs)
  moreover have "wrap32 ?d = ?d" "wrap32 (rateMaxCount cfg) = rateMaxCount cfg"
    using d by (simp_all add: wrap32_count)
  moreover have m: "min (rateMaxStep cfg) (min ?d (rateMaxCount cfg)) = min (rateMaxStep cfg) ?d"
    using d by simp
  moreover have "wrap32 (min (rateMaxStep cfg) ?d) = min (rateMaxStep cfg) ?d"
    using d ok by (intro wrap32_count) linarith+
  ultimately have "decide now cfg 0 ?d (poll_learned cfg (released cfg s) snap) =
      ([resize (min (rateMaxStep cfg) ?d)],
       AList.update stateRateBasedLastScaleUpTimestamp (VInt64 now)
         (set_count (min (rateMaxStep cfg) ?d) (poll_learned cfg (released cfg s) snap)))"
    using d ok(2) assms(5) by (simp add: decide_def Let_def)
  then show ?thesis
    using zero d ok(2) by (simp add: poll_decide)
qed

theorem rateBased_inactive_recovers_witness:
  "\<exists>n. PollActions (rateBasedProcessMetricsPoll 1000000 sample_rate_config
      (PollStatus (rateBasedInactiveGroupActions sample_rate_config None)) idle_snapshot) =
    [resize n] \<and> 1 \<le> n"
proof -
  have "1 \<le> rateMinCount sample_rate_config" "rate_up_cooldown sample_rate_config \<le> 1000000"
    by code_simp+
  then show ?thesis
    using rateBased_inactive_recovers [OF sample_valid, of 1000000 None idle_snapshot]
    by (auto simp: max_int64_def)
qed

text \<open>Whatever the persisted status holds, the state that rate-based works on after cleaning has
  only known keys, and every slot has its type and range: finite rates, a positive capacity, a
  non-negative 32-bit count, non-negative timestamps.  Sound slots are kept, and cleaning twice
  changes nothing.\<close>

theorem rateBased_clean_state:
  "map_of (cleanRateBasedState s) k =
      (if k \<in> set rateBasedValidStateKeys
       then (case any_at s k of
          None \<Rightarrow> None | Some raw \<Rightarrow> (if slot_ok k raw then Some raw else None))
       else None)
    \<and> map_of (cleanRateBasedState (Some (cleanRateBasedState s))) = map_of (cleanRateBasedState s)"
proof (rule conjI)
  show "map_of (cleanRateBasedState s) k =
      (if k \<in> set rateBasedValidStateKeys
       then (case any_at s k of
          None \<Rightarrow> None | Some raw \<Rightarrow> (if slot_ok k raw then Some raw else None))
       else None)"
    by (rule clean_at)
  show "map_of (cleanRateBasedState (Some (cleanRateBasedState s))) = map_of (cleanRateBasedState s)"
    by (rule clean_idem) (auto simp: clean_at split: if_splits option.splits)
qed

text \<open>The averages of arrival and dispatch rate that rate-based persists are never negative and
  never a NaN, over any run of all operations from an empty status, whatever floats the metrics
  and the valid configuration contain.\<close>

theorem rateBased_averages_nonneg:
  assumes "rateBasedValidateConfig cfg = None"
    and "key \<in> {stateRateBasedEWMAArrivalRate, stateRateBasedEWMADispatchRate}"
    and "any_at (snd (algorithm_run rateBased_ops cfg evs None)) key = Some (VFloat64 x)"
  shows "flt_nonneg x"
proof -
  obtain a where a: "rateAlpha cfg = Fin a" "0 < a" "a \<le> 1" using valid_alpha [OF assms(1)] by blast
  have "rates_nonneg None" by (simp add: rates_nonneg_def)
  from rates_nonneg_run [OF a this] assms(2,3) show ?thesis
    unfolding rates_nonneg_def by blast
qed

definition busy_snapshot :: ScalingMetricsSnapshot where
  "busy_snapshot = \<lparr>Workflow = Some \<lparr>LastBacklogCount = 1000, LastArrivalRate = Fin 100,
     LastProcessingRate = Fin 4, LastBacklogAge = 0\<rparr>, Activity = None, Nexus = None\<rparr>"

lemma sample_poll:
  "any_at (snd (algorithm_step rateBased_ops None (MetricsPollEvent 1000 busy_snapshot) None))
     stateRateBasedEWMAArrivalRate = Some (VFloat64 (Fin 100))"
  by code_simp

theorem rateBased_averages_nonneg_witness: "flt_nonneg (Fin 100)"
proof (rule rateBased_averages_nonneg [of None stateRateBasedEWMAArrivalRate
    "[MetricsPollEvent 1000 busy_snapshot]"])
  show "any_at (snd (algorithm_run rateBased_ops None [MetricsPollEvent 1000 busy_snapshot] None))
      stateRateBasedEWMAArrivalRate = Some (VFloat64 (Fin 100))"
    using sample_poll by (simp add: split_beta del: algorithm_step.simps)
qed (simp_all add: rateBasedValidateConfig_def)

text \<open>A drain rate that reads as a NaN: with a backlog, the desired count is the minimum.\<close>

lemma nan_drain_desired:
  assumes "counts_ok cfg" and "0 < backlog"
    and "GetFloat64Field cfg configRateBasedTargetBacklogDrainRateKey
      configRateBasedTargetBacklogDrainRateDefault = NaN"
  shows "computeRateBasedDesiredCapacity cfg state backlog = rateMinCount cfg"
proof -
  have max: "f64_of_int (rateMaxCount cfg) = Fin (of_int (rateMaxCount cfg))" "0 \<le> rateMaxCount cfg"
    using assms(1) by (auto simp: counts_ok_def int_width_defs intro!: f64_of_int32)
  have "add64 x NaN = NaN" for x by (cases x) (simp_all add: fadd_def)
  then have "offered_load cfg state backlog = Fin 0"
    using assms(2,3) by (simp add: offered_load_def Let_def)
  then have "raw_desired cfg (offered_load cfg state backlog) = Fin 0"
    using max by (simp add: raw_desired_def Let_def fmin_def fmax_def)
  with assms(1) show ?thesis
    by (simp add: computeRateBasedDesiredCapacity_def counts_ok_def flt_to_int32_def flt_to_int_def
        rat_trunc_def int_width_defs)
qed

text \<open>C30: A string that reads as a NaN passes the validation of a float field, and as the backlog drain
  rate it stops rate-based from scaling for a backlog: whatever valid configuration it is put into,
  the configuration stays valid, and as long as there is a backlog the desired count is the minimum,
  for any rates and any backlog, so that a poll scales up to the minimum at most.\<close>

theorem rateBased_nan_drain_rate:
  assumes "rateBasedValidateConfig (Some m) = None" and "ParseFloat str = Some NaN"
  shows "rateBasedValidateConfig
      (Some (AList.update configRateBasedTargetBacklogDrainRateKey (VString str) m)) = None
    \<and> (0 < backlog \<longrightarrow> computeRateBasedDesiredCapacity
        (Some (AList.update configRateBasedTargetBacklogDrainRateKey (VString str) m)) state backlog
        = rateMinCount (Some m))
    \<and> (0 \<le> now \<longrightarrow> 0 < aggBacklog (aggregateRateBasedMetrics (Some snap)) \<longrightarrow>
        resize n \<in> set (PollActions (rateBasedProcessMetricsPoll now
          (Some (AList.update configRateBasedTargetBacklogDrainRateKey (VString str) m)) s snap)) \<longrightarrow>
        planned (Some (AList.update configRateBasedTargetBacklogDrainRateKey (VString str) m)) s < n \<longrightarrow>
        n \<le> rateMinCount (Some m))"
proof -
  let ?cfg = "Some (AList.update configRateBasedTargetBacklogDrainRateKey (VString str) m)"
  have "rateFieldChecks ?cfg = None"
    using assms by (simp add: rateBased_valid_iff rateFieldChecks_def first_some_None_iff
        ValidateInt64Field_def ValidateFloat64Field_def validateInt64InMap_def validateFloat64InMap_def
        map_simps del: first_some.simps)
  moreover have "rateCrossChecks ?cfg = rateCrossChecks (Some m)"
    by (simp add: rateCrossChecks_def)
  moreover have "rateCountCheck ?cfg k = rateCountCheck (Some m) k"
    if "k \<noteq> configRateBasedTargetBacklogDrainRateKey" for k
    unfolding rateCountCheck_def GetInt64Field_update_other [OF that] using that by (simp add: map_simps)
  ultimately have valid: "rateBasedValidateConfig ?cfg = None"
    using assms(1) by (auto simp: rateBased_valid_iff rateBasedValidConfigKeys_def)
  have min: "rateMinCount ?cfg = rateMinCount (Some m)" by (simp add: rateMinCount_def)
  have nan: "GetFloat64Field ?cfg configRateBasedTargetBacklogDrainRateKey d = NaN" for d
    using assms(2) by (simp add: GetFloat64Field_def getFloat64FromMap_def map_simps)
  note desired = nan_drain_desired [OF validated_counts(1) [OF valid] _ nan, unfolded min]
  have "n \<le> rateMinCount (Some m)"
    if "0 \<le> now" "0 < aggBacklog (aggregateRateBasedMetrics (Some snap))" "planned ?cfg s < n"
      "resize n \<in> set (PollActions (rateBasedProcessMetricsPoll now ?cfg s snap))"
    using poll_outcome [OF validated_counts(1) [OF valid] that(1), of s snap] that(3,4)
      desired [OF that(2)] by (auto simp: scales_down_def poll_desired_def)
  with valid desired show ?thesis by blast
qed

theorem rateBased_nan_drain_rate_witness:
  "computeRateBasedDesiredCapacity
      (Some [(configRateBasedTargetBacklogDrainRateKey, VString ''NaN'')])
      [(stateRateBasedEWMAArrivalRate, VFloat64 (Fin 100))] 1000 = 0
    \<and> computeRateBasedDesiredCapacity (Some [])
      [(stateRateBasedEWMAArrivalRate, VFloat64 (Fin 100))] 1000 = 30"
proof
  have "rateBasedValidateConfig (Some []) = None" "ParseFloat ''NaN'' = Some NaN"
    "rateMinCount (Some []) = 0" by code_simp+
  then show "computeRateBasedDesiredCapacity
      (Some [(configRateBasedTargetBacklogDrainRateKey, VString ''NaN'')])
      [(stateRateBasedEWMAArrivalRate, VFloat64 (Fin 100))] 1000 = 0"
    using rateBased_nan_drain_rate [of "[]" "''NaN''" 1000
        "[(stateRateBasedEWMAArrivalRate, VFloat64 (Fin 100))]"] by simp
  show "computeRateBasedDesiredCapacity (Some [])
      [(stateRateBasedEWMAArrivalRate, VFloat64 (Fin 100))] 1000 = 30" by code_simp
qed

text \<open>Rate-based keeps the contract of the \<open>ScalingAlgorithm\<close> interface over whole runs, under
  any configuration: every action is a resize with a size or, from a task-add only, a deferred
  decision, never an invocation; and the status has its own keys only.\<close>

theorem rateBased_contract:
  assumes "status_keys_in rateBasedValidStateKeys s"
  shows "(\<forall>(ev, a) \<in> set (fst (algorithm_run rateBased_ops cfg evs s)).
      Action a = ActionTypeUpdateWorkerSetSize \<and> Count a \<noteq> None
      \<or> is_task_add ev \<and> Action a = ActionTypeDeferredScalingDecision)
    \<and> status_keys_in rateBasedValidStateKeys (snd (algorithm_run rateBased_ops cfg evs s))"
proof (intro conjI ballI)
  fix x assume x: "x \<in> set (fst (algorithm_run rateBased_ops cfg evs s))"
  obtain ev a where ev: "x = (ev, a)" by fastforce
  have "executable_action [LaunchStrategyWorkerSet] a
      \<or> is_task_add ev \<and> Action a = ActionTypeDeferredScalingDecision"
    using ratebased.run_actions x ev by (force simp: rateBased_ops_def)
  then show "case x of (ev, a) \<Rightarrow> Action a = ActionTypeUpdateWorkerSetSize \<and> Count a \<noteq> None
      \<or> is_task_add ev \<and> Action a = ActionTypeDeferredScalingDecision"
    using ev by (auto simp: executable_action_def split: ActionType.splits)
qed (rule ratebased.run_keys [OF assms])

theorem rateBased_contract_witness:
  "status_keys_in rateBasedValidStateKeys
    (snd (algorithm_run rateBased_ops None [TaskAddEvent 7 missed_task, InactiveEvent] None))"
  using rateBased_contract [of None None "[TaskAddEvent 7 missed_task, InactiveEvent]"] by simp

end
