(* ===== verification/Activities.thy ===== *)
theory Activities
  imports NoSync RateBased
begin

text \<open>
  The activities of the controller (\<open>workflow/activities.go\<close>) with the metrics snapshot
  (\<open>workflow/scaling_metrics_snapshot.go\<close>) and the registered queues
  (\<open>workflow/register_task_queues.go\<close>) they read, and the registry of compute providers and the
  classification of their failures (\<open>compute_provider/registry.go\<close>, \<open>errors.go\<close>).

  \<^item> What the activities call outside the repository is the record \<open>activity_env\<close>: the two
    describe calls, the decoding of payloads, the enabled providers and the constructors of the
    providers; so is the clock, which each call of an algorithm reads anew (\<open>envNow\<close>, by group).
  \<^item> A compute provider is a record of its methods; a call that starts or resizes workers is
    logged as a \<open>compute_call\<close>, so an activity that fails half way still shows what it did.
  \<^item> A map of statuses is a Go map; \<open>None\<close> is the nil map, reading from which is allowed.
  \<^item> Errors are structured (\<open>activity_cause\<close>) with the type string of the
    \<open>ApplicationError\<close> where there is one; the wording of messages, logs and metrics are left out.
\<close>

section \<open>Compute providers\<close>

record RequestContext =
  NamespaceName :: string
  RequestDeploymentName :: string
  DeploymentBuildID :: string

datatype FailureClass =
    FailureUnclassified
  | FailureRejected
  | FailureNotFound
  | FailureAccessDenied
  | FailureUnavailable
  | FailureThrottled
  | FailureInternal
  | FailureConflict

text \<open>An error of a provider: the class of the outermost \<open>ProviderError\<close> that \<open>errors.As\<close> finds
  in it, if there is one, and its message.\<close>

record provider_error =
  ErrorClass :: "FailureClass option"
  ErrorText :: string

definition NewProviderError :: "FailureClass \<Rightarrow> provider_error option \<Rightarrow> provider_error option" where
  "NewProviderError c err = (case err of None \<Rightarrow> None | Some e \<Rightarrow> Some (e\<lparr>ErrorClass := Some c\<rparr>))"

text \<open>The values of the tag \<open>error_type\<close> (\<open>metrics/metric_defs.go\<close>).\<close>

datatype ErrorType =
    ErrorTypeDescribeWorkerDeploymentVersionFailed
  | ErrorTypeLockFailure
  | ErrorTypeBuildUpdatedSpecFailure
  | ErrorTypeInvalidSpec
  | ErrorTypeActivityError
  | ErrorTypeInvalidRequest
  | ErrorTypeAlgorithmUnavailable
  | ErrorTypeAlgorithmFailed
  | ErrorTypeComputeProviderNotEnabled
  | ErrorTypeComputeProviderFailed
  | ErrorTypeComputeProviderRejected
  | ErrorTypeComputeProviderRejectedNotFound
  | ErrorTypeComputeProviderRejectedAccessDenied
  | ErrorTypeComputeProviderServiceUnavailable
  | ErrorTypeComputeProviderThrottled
  | ErrorTypeComputeProviderConflict
  | ErrorTypeComputeProviderInternal
  | ErrorTypeNone

definition computeProviderErrorType :: "provider_error \<Rightarrow> ErrorType" where
  "computeProviderErrorType err = (case ErrorClass err of
     None \<Rightarrow> ErrorTypeComputeProviderFailed
   | Some FailureRejected \<Rightarrow> ErrorTypeComputeProviderRejected
   | Some FailureNotFound \<Rightarrow> ErrorTypeComputeProviderRejectedNotFound
   | Some FailureAccessDenied \<Rightarrow> ErrorTypeComputeProviderRejectedAccessDenied
   | Some FailureUnavailable \<Rightarrow> ErrorTypeComputeProviderServiceUnavailable
   | Some FailureThrottled \<Rightarrow> ErrorTypeComputeProviderThrottled
   | Some FailureConflict \<Rightarrow> ErrorTypeComputeProviderConflict
   | Some FailureInternal \<Rightarrow> ErrorTypeComputeProviderInternal
   | Some FailureUnclassified \<Rightarrow> ErrorTypeComputeProviderFailed)"

record compute_provider =
  providerLaunchStrategy :: LaunchStrategy
  providerValidateConfig :: "RequestContext \<Rightarrow> anymap option \<Rightarrow> provider_error option"
  providerInvokeWorker :: "RequestContext \<Rightarrow> anymap option \<Rightarrow> provider_error option"
  providerUpdateWorkerSetSize :: "RequestContext \<Rightarrow> anymap option \<Rightarrow> int \<Rightarrow> provider_error option"

text \<open>A constructor returns an error or a (possibly nil) provider.\<close>

type_synonym provider_constructor = "provider_error + compute_provider option"

definition RegisterComputeProvider ::
    "string \<Rightarrow> provider_constructor \<Rightarrow> (string, provider_constructor) gomap
      \<Rightarrow> (string, provider_constructor) gomap" where
  "RegisterComputeProvider providerType ctor providerConstructors =
    (if has_key providerConstructors providerType then providerConstructors
     else AList.update providerType ctor providerConstructors)"

definition GetComputeProvider ::
    "string list \<Rightarrow> (string, provider_constructor) gomap \<Rightarrow> string
      \<Rightarrow> provider_error + compute_provider option" where
  "GetComputeProvider enabledProviders providerConstructors providerType =
    (if providerType \<notin> set enabledProviders then Inr None
     else (case map_of providerConstructors providerType of
        None \<Rightarrow> Inr None
      | Some ctor \<Rightarrow> ctor))"

datatype compute_call =
    CallInvokeWorker string "anymap option"
  | CallUpdateWorkerSetSize string "anymap option" int

section \<open>Algorithms as the activities see them\<close>

datatype config_error =
    NoSyncConfigError nosync_config_error
  | RateBasedConfigError rate_config_error

record algorithm_impl = algorithm_ops +
  opValidateConfig :: "ScalingAlgorithmConfig \<Rightarrow> config_error option"

definition noSync_impl :: algorithm_impl where
  "noSync_impl = algorithm_ops.extend noSync_ops
     \<lparr>opValidateConfig = map_option NoSyncConfigError \<circ> noSyncValidateConfig\<rparr>"

definition rateBased_impl :: algorithm_impl where
  "rateBased_impl = algorithm_ops.extend rateBased_ops
     \<lparr>opValidateConfig = map_option RateBasedConfigError \<circ> rateBasedValidateConfig\<rparr>"

text \<open>The registry after the \<open>init\<close> functions of the package, in the order of its files.\<close>

definition builtin_algorithms :: "algorithm_impl algorithm_registry" where
  "builtin_algorithms =
    RegisterScalingAlgorithm ''rate-based'' rateBased_impl [''aws-ecs'', ''k8s'', ''gcp-cloud-run'']
     (RegisterScalingAlgorithm ''no-sync'' noSync_impl [''aws-lambda'', ''aws-agentcore'', ''subprocess'']
       \<lparr>algorithmConstructors = [], defaultAlgorithmByComputeProvider = []\<rparr>)"

section \<open>The environment\<close>

text \<open>What the describe calls report of a task queue; the stats and the queue itself may be nil.
  \<open>QueueBacklogAge\<close> is a duration in nanoseconds.\<close>

record task_queue_stats =
  ApproximateBacklogCount :: int
  TasksAddRate :: flt
  TasksDispatchRate :: flt
  ApproximateBacklogAge :: int

record version_task_queue =
  QueueType :: TaskQueueType
  QueueStats :: "task_queue_stats option"

datatype describe_error = DescribeRateLimited string | DescribeError string

type_synonym describe_result = "describe_error + version_task_queue option list option"

record activity_env =
  envRegion :: "string option"
  envEnabled :: bool
  envEnabledProviders :: "string list"
  envProviders :: "(string, provider_constructor) gomap"
  envEnabledAlgorithms :: "string list option"
  envAlgorithms :: "algorithm_impl algorithm_registry"
  envDecode :: "Payload option \<Rightarrow> string + anymap option"
  envDescribeQueues :: describe_result
  envDescribeStats :: describe_result
  envNow :: "string \<Rightarrow> int"

abbreviation get_provider :: "activity_env \<Rightarrow> string \<Rightarrow> provider_error + compute_provider option" where
  "get_provider env \<equiv> GetComputeProvider (envEnabledProviders env) (envProviders env)"

definition regionID :: "activity_env \<Rightarrow> string" where
  "regionID env = (case envRegion env of None \<Rightarrow> '''' | Some r \<Rightarrow> r)"

type_synonym status_map = "(string, ScalingAlgorithmStatus) gomap"

definition status_at :: "status_map option \<Rightarrow> string \<Rightarrow> ScalingAlgorithmStatus" where
  "status_at m k = (case m of None \<Rightarrow> None
     | Some l \<Rightarrow> (case map_of l k of None \<Rightarrow> None | Some s \<Rightarrow> s))"

section \<open>Errors\<close>

datatype lookup_error =
    UnknownScalingAlgorithm string
  | UnknownDefaultAlgorithm string
  | InvalidScalingConfig string

datatype activity_cause =
    InvalidActivityRequest
  | RegionIdsNotSupported string
  | ComputeProviderFailed string provider_error
  | ComputeProviderUnknown string string
  | PayloadUndecodable string string
  | ProviderConfigInvalid string provider_error
  | ScalingAlgorithmUnavailable string string
  | ScalingConfigInvalid string config_error
  | LaunchStrategyIncompatible string string string
  | DescribeFailed string
  | AlgorithmLookupFailed string lookup_error
  | InvokeWorkerFailed string provider_error
  | UpdateWorkerSetSizeFailed string provider_error
  | RegistrationCountMissing string
  | UnexpectedRegistrationAction string ActionType
  | DeferredDecisionFailed algorithm_error

text \<open>An \<open>ApplicationError\<close> with its type, or another error.\<close>

datatype activity_error =
    ApplicationError string activity_cause
  | PlainError activity_cause

section \<open>ValidateSpec\<close>

record ValidateSpecRequest =
  ValidateContext :: RequestContext
  ValidateSpecOf :: "WorkerControllerInstanceSpec option"
  ScalingGroupsToSkipProviderValidation :: "string list"

definition invalid_argument :: "activity_cause \<Rightarrow> activity_error" where
  "invalid_argument = ApplicationError ''InvalidArgument''"

text \<open>The part of the loop body on the scaling algorithm of a group.\<close>

definition validate_group_scaling ::
    "activity_env \<Rightarrow> compute_provider \<Rightarrow> string \<Rightarrow> ScalingGroupSpec \<Rightarrow> activity_error option" where
  "validate_group_scaling env provider key entry = (case Scaling entry of
     None \<Rightarrow> None
   | Some scaling \<Rightarrow>
      (case GetScalingAlgorithm (envEnabledAlgorithms env) (envAlgorithms env) (ScalingAlgorithm scaling) of
         None \<Rightarrow> Some (invalid_argument (ScalingAlgorithmUnavailable key (ScalingAlgorithm scaling)))
       | Some scalingAlgo \<Rightarrow>
          (case envDecode env (AlgorithmConfig scaling) of
             Inl e \<Rightarrow> Some (invalid_argument (PayloadUndecodable key e))
           | Inr config \<Rightarrow>
              (case opValidateConfig scalingAlgo config of
                 Some e \<Rightarrow> Some (invalid_argument (ScalingConfigInvalid key e))
               | None \<Rightarrow>
                  (if providerLaunchStrategy provider \<notin> set (CompatibleLaunchStrategies scalingAlgo)
                   then Some (invalid_argument (LaunchStrategyIncompatible key
                      (ScalingAlgorithm scaling) (ProviderType (Compute entry))))
                   else None)))))"

definition validate_group ::
    "activity_env \<Rightarrow> RequestContext \<Rightarrow> string list \<Rightarrow> string \<times> ScalingGroupSpec
      \<Rightarrow> activity_error option" where
  "validate_group env rc skip kv = (case kv of (key, entry) \<Rightarrow>
     (if RegionIds entry \<noteq> [] \<and> regionID env = '''' then
        Some (invalid_argument (RegionIdsNotSupported key))
      else (case get_provider env (ProviderType (Compute entry)) of
         Inl e \<Rightarrow> Some (invalid_argument (ComputeProviderFailed key e))
       | Inr None \<Rightarrow> Some (invalid_argument (ComputeProviderUnknown key (ProviderType (Compute entry))))
       | Inr (Some provider) \<Rightarrow>
          (case envDecode env (ProviderConfig (Compute entry)) of
             Inl e \<Rightarrow> Some (invalid_argument (PayloadUndecodable key e))
           | Inr config \<Rightarrow>
              (case (if key \<in> set skip then None else providerValidateConfig provider rc config) of
                 Some e \<Rightarrow> Some (invalid_argument (ProviderConfigInvalid key e))
               | None \<Rightarrow> validate_group_scaling env provider key entry)))))"

definition ValidateSpec :: "activity_env \<Rightarrow> ValidateSpecRequest option \<Rightarrow> activity_error option" where
  "ValidateSpec env req = (case req of
     None \<Rightarrow> Some (invalid_argument InvalidActivityRequest)
   | Some r \<Rightarrow> (case ValidateSpecOf r of
       None \<Rightarrow> Some (invalid_argument InvalidActivityRequest)
     | Some spec \<Rightarrow> first_error
         (validate_group env (ValidateContext r) (ScalingGroupsToSkipProviderValidation r))
         (ScalingGroupSpecs spec)))"

section \<open>The algorithm of a group\<close>

definition getScalingAlgorithmAndConfig ::
    "activity_env \<Rightarrow> ScalingGroupSpec \<Rightarrow> lookup_error + algorithm_impl \<times> ScalingAlgorithmConfig" where
  "getScalingAlgorithmAndConfig env entry = (case Scaling entry of
     None \<Rightarrow>
      (case GetDefaultScalingAlgorithmForComputeProvider (envAlgorithms env)
              (ProviderType (Compute entry)) of
         None \<Rightarrow> Inl (UnknownDefaultAlgorithm (ProviderType (Compute entry)))
       | Some scalingAlgo \<Rightarrow> Inr (scalingAlgo, None))
   | Some scaling \<Rightarrow>
      (case GetScalingAlgorithmWithoutValidation (envAlgorithms env) (ScalingAlgorithm scaling) of
         None \<Rightarrow> Inl (UnknownScalingAlgorithm (ScalingAlgorithm scaling))
       | Some scalingAlgo \<Rightarrow>
          (case envDecode env (AlgorithmConfig scaling) of
             Inl e \<Rightarrow> Inl (InvalidScalingConfig e)
           | Inr config \<Rightarrow> Inr (scalingAlgo, config))))"

section \<open>Metrics\<close>

definition zero_metrics :: QueueTypeScalingMetrics where
  "zero_metrics = \<lparr>LastBacklogCount = 0, LastArrivalRate = Fin 0, LastProcessingRate = Fin 0,
     LastBacklogAge = 0\<rparr>"

definition add_stats :: "task_queue_stats \<Rightarrow> QueueTypeScalingMetrics \<Rightarrow> QueueTypeScalingMetrics" where
  "add_stats stats m =
    \<lparr>LastBacklogCount = wrap64 (LastBacklogCount m + ApproximateBacklogCount stats),
     LastArrivalRate = add32 (LastArrivalRate m) (TasksAddRate stats),
     LastProcessingRate = add32 (LastProcessingRate m) (TasksDispatchRate stats),
     LastBacklogAge = max (LastBacklogAge m) (ApproximateBacklogAge stats)\<rparr>"

text \<open>The three entries of the snapshot are never nil while it is built.\<close>

definition add_queue ::
    "version_task_queue option \<Rightarrow> ScalingMetricsSnapshot \<Rightarrow> ScalingMetricsSnapshot" where
  "add_queue queue snapshot = (case queue of None \<Rightarrow> snapshot | Some q \<Rightarrow>
    (case QueueStats q of None \<Rightarrow> snapshot | Some stats \<Rightarrow>
      (case QueueType q of
         TASK_QUEUE_TYPE_WORKFLOW \<Rightarrow>
           snapshot\<lparr>Workflow := map_option (add_stats stats) (Workflow snapshot)\<rparr>
       | TASK_QUEUE_TYPE_ACTIVITY \<Rightarrow>
           snapshot\<lparr>Activity := map_option (add_stats stats) (Activity snapshot)\<rparr>
       | TASK_QUEUE_TYPE_NEXUS \<Rightarrow>
           snapshot\<lparr>Nexus := map_option (add_stats stats) (Nexus snapshot)\<rparr>
       | _ \<Rightarrow> snapshot)))"

definition pullScalingMetricsSnapshot :: "activity_env \<Rightarrow> string + ScalingMetricsSnapshot" where
  "pullScalingMetricsSnapshot env = (case envDescribeStats env of
     Inl (DescribeRateLimited e) \<Rightarrow> Inl e
   | Inl (DescribeError e) \<Rightarrow> Inl e
   | Inr None \<Rightarrow> Inl ''did not receive details in the describe response''
   | Inr (Some queues) \<Rightarrow> Inr (fold add_queue queues
       \<lparr>Workflow = Some zero_metrics, Activity = Some zero_metrics, Nexus = Some zero_metrics\<rparr>))"

definition filterScalingMetricsSnapshotByTaskTypes ::
    "ScalingMetricsSnapshot option \<Rightarrow> TaskQueueType list \<Rightarrow> ScalingMetricsSnapshot option" where
  "filterScalingMetricsSnapshotByTaskTypes metricsSnapshot taskTypes = (case metricsSnapshot of
     None \<Rightarrow> None
   | Some s \<Rightarrow> Some
      \<lparr>Workflow = (if TASK_QUEUE_TYPE_WORKFLOW \<in> set taskTypes then Workflow s else None),
       Activity = (if TASK_QUEUE_TYPE_ACTIVITY \<in> set taskTypes then Activity s else None),
       Nexus = (if TASK_QUEUE_TYPE_NEXUS \<in> set taskTypes then Nexus s else None)\<rparr>)"

definition empty_snapshot :: ScalingMetricsSnapshot where
  "empty_snapshot = \<lparr>Workflow = None, Activity = None, Nexus = None\<rparr>"

section \<open>Registration of task queues\<close>

definition registeredTaskQueueTypes :: "activity_env \<Rightarrow> describe_error + TaskQueueType list" where
  "registeredTaskQueueTypes env = (case envDescribeQueues env of
     Inl e \<Rightarrow> Inl e
   | Inr None \<Rightarrow> Inl (DescribeError ''did not receive details in the describe response'')
   | Inr (Some queues) \<Rightarrow>
       Inr (List.map_filter (\<lambda>q. map_option QueueType q) queues))"

definition taskTypesAllRegistered :: "TaskQueueType list \<Rightarrow> TaskQueueType list \<Rightarrow> bool" where
  "taskTypesAllRegistered want registered \<longleftrightarrow> want \<noteq> [] \<and> list_all (\<lambda>t. t \<in> set registered) want"

record InvokeWorkersToRegisterTaskQueuesRequest =
  RegisterContext :: RequestContext
  RegisterSpec :: WorkerControllerInstanceSpec
  RegisterScalingStatus :: "status_map option"

text \<open>The loop over the actions of one group.\<close>

fun registration_actions ::
    "compute_provider \<Rightarrow> RequestContext \<Rightarrow> anymap option \<Rightarrow> string \<Rightarrow> ScalingAction list
      \<Rightarrow> compute_call list \<Rightarrow> compute_call list \<times> activity_error option" where
  "registration_actions provider rc config k [] calls = (calls, None)"
| "registration_actions provider rc config k (a # as) calls =
    (case Action a of
       ActionTypeInvokeWorker \<Rightarrow>
         (let calls' = calls @ [CallInvokeWorker k config]
          in case providerInvokeWorker provider rc config of
               Some e \<Rightarrow> (calls', Some (ApplicationError ''InvokeWorkerFailed'' (InvokeWorkerFailed k e)))
             | None \<Rightarrow> registration_actions provider rc config k as calls')
     | ActionTypeUpdateWorkerSetSize \<Rightarrow>
         (case Count a of
            None \<Rightarrow> (calls, Some (ApplicationError ''InternalError'' (RegistrationCountMissing k)))
          | Some n \<Rightarrow>
             (let calls' = calls @ [CallUpdateWorkerSetSize k config n]
              in case providerUpdateWorkerSetSize provider rc config n of
                   Some e \<Rightarrow> (calls',
                     Some (ApplicationError ''UpdateWorkerSetSizeFailed'' (UpdateWorkerSetSizeFailed k e)))
                 | None \<Rightarrow> registration_actions provider rc config k as calls'))
     | ActionTypeDeferredScalingDecision \<Rightarrow>
         (calls, Some (ApplicationError ''InternalError'' (UnexpectedRegistrationAction k (Action a)))))"

text \<open>The body of the loop over the groups.\<close>

definition register_group ::
    "activity_env \<Rightarrow> InvokeWorkersToRegisterTaskQueuesRequest \<Rightarrow> TaskQueueType list
      \<Rightarrow> string \<times> ScalingGroupSpec \<Rightarrow> compute_call list \<times> status_map
      \<Rightarrow> compute_call list \<times> (activity_error + status_map)" where
  "register_group env req registered kv acc = (case (kv, acc) of ((k, v), (calls, before)) \<Rightarrow>
    (let prior = status_at (RegisterScalingStatus req) k;
         status = (if prior \<noteq> None then AList.update k prior before else before);
         effectiveTaskTypes =
           EffectiveTaskTypesForGroup (Some (RegisterSpec req)) k (regionID env)
     in if effectiveTaskTypes = [] then (calls, Inr status)
        else if taskTypesAllRegistered effectiveTaskTypes registered then (calls, Inr status)
        else (case get_provider env (ProviderType (Compute v)) of
          Inl e \<Rightarrow> (calls, Inl (invalid_argument (ComputeProviderFailed k e)))
        | Inr None \<Rightarrow> (calls, Inl (invalid_argument (ComputeProviderUnknown k (ProviderType (Compute v)))))
        | Inr (Some provider) \<Rightarrow>
         (case envDecode env (ProviderConfig (Compute v)) of
            Inl e \<Rightarrow> (calls, Inl (invalid_argument (PayloadUndecodable k e)))
          | Inr config \<Rightarrow>
           (case getScalingAlgorithmAndConfig env v of
              Inl e \<Rightarrow> (calls, Inl (invalid_argument (AlgorithmLookupFailed k e)))
            | Inr (algo, scalingConfig) \<Rightarrow>
             (let regResp = opTaskQueueRegistrationActions algo scalingConfig prior
              in case registration_actions provider (RegisterContext req) config k
                        (RegistrationActions regResp) calls of
                   (calls', Some e) \<Rightarrow> (calls', Inl e)
                 | (calls', None) \<Rightarrow>
                    (calls', Inr (if RegistrationStatus regResp \<noteq> None
                       then AList.update k (RegistrationStatus regResp) status else status))))))))"

fun register_groups ::
    "activity_env \<Rightarrow> InvokeWorkersToRegisterTaskQueuesRequest \<Rightarrow> TaskQueueType list
      \<Rightarrow> (string \<times> ScalingGroupSpec) list \<Rightarrow> compute_call list \<times> status_map
      \<Rightarrow> compute_call list \<times> (activity_error + status_map)" where
  "register_groups env req registered [] acc = (fst acc, Inr (snd acc))"
| "register_groups env req registered (kv # kvs) acc =
    (case register_group env req registered kv acc of
       (calls, Inl e) \<Rightarrow> (calls, Inl e)
     | (calls, Inr status) \<Rightarrow> register_groups env req registered kvs (calls, status))"

definition InvokeWorkersToRegisterTaskQueues ::
    "activity_env \<Rightarrow> InvokeWorkersToRegisterTaskQueuesRequest option
      \<Rightarrow> compute_call list \<times> (activity_error + status_map)" where
  "InvokeWorkersToRegisterTaskQueues env req = (case req of
     None \<Rightarrow> ([], Inl (ApplicationError ''InternalError'' InvalidActivityRequest))
   | Some r \<Rightarrow>
      (case registeredTaskQueueTypes env of
         Inl (DescribeRateLimited e) \<Rightarrow>
           ([], Inl (ApplicationError ''ResourceExhausted'' (DescribeFailed e)))
       | Inl (DescribeError e) \<Rightarrow>
           register_groups env r [] (ScalingGroupSpecs (RegisterSpec r)) ([], [])
       | Inr registered \<Rightarrow>
           register_groups env r registered (ScalingGroupSpecs (RegisterSpec r)) ([], [])))"

section \<open>Starting and resizing workers\<close>

record InvokeWorkerActivityRequest =
  InvokeContext :: RequestContext
  InvokeComputeConfig :: "ComputeProviderSpec option"

record UpdateWorkerSetSizeActivityRequest =
  ResizeContext :: RequestContext
  ResizeComputeConfig :: "ComputeProviderSpec option"
  UpdatedSize :: int

definition InvokeWorker ::
    "activity_env \<Rightarrow> InvokeWorkerActivityRequest option \<Rightarrow> compute_call list \<times> activity_error option" where
  "InvokeWorker env req = (case req of None \<Rightarrow> ([], Some (PlainError InvalidActivityRequest)) | Some r \<Rightarrow>
    (case InvokeComputeConfig r of None \<Rightarrow> ([], Some (PlainError InvalidActivityRequest)) | Some cc \<Rightarrow>
      (case get_provider env (ProviderType cc) of
         Inl e \<Rightarrow> ([], Some (PlainError (ComputeProviderFailed '''' e)))
       | Inr None \<Rightarrow> ([], Some (invalid_argument (ComputeProviderUnknown '''' (ProviderType cc))))
       | Inr (Some provider) \<Rightarrow>
          (case envDecode env (ProviderConfig cc) of
             Inl e \<Rightarrow> ([], Some (invalid_argument (PayloadUndecodable '''' e)))
           | Inr config \<Rightarrow>
              ([CallInvokeWorker '''' config],
               map_option (\<lambda>e. ApplicationError ''InvokeWorkerFailed'' (InvokeWorkerFailed '''' e))
                 (providerInvokeWorker provider (InvokeContext r) config))))))"

definition UpdateWorkerSetSize ::
    "activity_env \<Rightarrow> UpdateWorkerSetSizeActivityRequest option
      \<Rightarrow> compute_call list \<times> activity_error option" where
  "UpdateWorkerSetSize env req =
   (case req of None \<Rightarrow> ([], Some (PlainError InvalidActivityRequest)) | Some r \<Rightarrow>
    (case ResizeComputeConfig r of None \<Rightarrow> ([], Some (PlainError InvalidActivityRequest)) | Some cc \<Rightarrow>
      (case get_provider env (ProviderType cc) of
         Inl e \<Rightarrow> ([], Some (PlainError (ComputeProviderFailed '''' e)))
       | Inr None \<Rightarrow> ([], Some (PlainError (ComputeProviderUnknown '''' (ProviderType cc))))
       | Inr (Some provider) \<Rightarrow>
          (case envDecode env (ProviderConfig cc) of
             Inl e \<Rightarrow> ([], Some (invalid_argument (PayloadUndecodable '''' e)))
           | Inr config \<Rightarrow>
              ([CallUpdateWorkerSetSize '''' config (UpdatedSize r)],
               map_option (\<lambda>e. ApplicationError ''UpdateWorkerSetSizeFailed'' (UpdateWorkerSetSizeFailed '''' e))
                 (providerUpdateWorkerSetSize provider (ResizeContext r) config (UpdatedSize r)))))))"

section \<open>Deferred scaling decisions\<close>

record HandleDeferredScalingDecisionActivityRequest =
  DeferredContext :: RequestContext
  DeferredRequest :: SignalTaskAddRequest
  DeferredGroupKey :: string
  DeferredGroupSpec :: ScalingGroupSpec
  DeferredTaskTypes :: "TaskQueueType list"
  DeferredStatus :: ScalingAlgorithmStatus

record DeferredDecisionResponse =
  DeferredActions :: "ScalingAction list"
  DeferredUpdatedStatus :: ScalingAlgorithmStatus

text \<open>Actions of one group leave an activity under the key of the group, and without the kind of
  action that may not be nested.\<close>

definition keyed_actions :: "string \<Rightarrow> ScalingAction list \<Rightarrow> ScalingAction list" where
  "keyed_actions key acts = List.map (\<lambda>a. a\<lparr>ScalingGroupKey := key\<rparr>) acts"

definition not_deferred :: "ScalingAction list \<Rightarrow> ScalingAction list" where
  "not_deferred = filter (\<lambda>a. Action a \<noteq> ActionTypeDeferredScalingDecision)"

definition HandleDeferredScalingDecision ::
    "activity_env \<Rightarrow> HandleDeferredScalingDecisionActivityRequest
      \<Rightarrow> activity_error + DeferredDecisionResponse" where
  "HandleDeferredScalingDecision env req =
    (let scalingStatus = DeferredStatus req;
         unchanged = \<lparr>DeferredActions = [], DeferredUpdatedStatus = scalingStatus\<rparr>
     in if SignalTaskQueueType (DeferredRequest req) \<notin> set (DeferredTaskTypes req) then Inr unchanged
        else (case getScalingAlgorithmAndConfig env (DeferredGroupSpec req) of
          Inl e \<Rightarrow> Inr unchanged
        | Inr (scalingAlgo, scalingConfig) \<Rightarrow>
           (let getter = (case pullScalingMetricsSnapshot env of
                  Inl e \<Rightarrow> Inl e
                | Inr s \<Rightarrow> Inr (filterScalingMetricsSnapshotByTaskTypes (Some s) (DeferredTaskTypes req)))
            in case opProcessDeferredScalingDecision scalingAlgo scalingConfig scalingStatus
                      (DeferredRequest req) (Some getter) of
                 Inl e \<Rightarrow> Inl (ApplicationError ''AlgorithmFailed'' (DeferredDecisionFailed e))
               | Inr response \<Rightarrow> Inr
                  \<lparr>DeferredActions =
                     keyed_actions (DeferredGroupKey req) (not_deferred (TaskAddActions response)),
                   DeferredUpdatedStatus = TaskAddStatus response\<rparr>)))"

section \<open>Task-add signals\<close>

record HandleTaskAddSignalActivityRequest =
  TaskAddContext :: RequestContext
  TaskAddRequestOf :: SignalTaskAddRequest
  TaskAddSpec :: "WorkerControllerInstanceSpec option"
  TaskAddScalingStatus :: "status_map option"

record HandleTaskAddSignalActivityResponse =
  SignalUpdatedStatus :: "status_map option"
  SignalActions :: "ScalingAction list"

definition for_deferred :: "TaskQueueType list \<Rightarrow> ScalingAction \<Rightarrow> ScalingAction" where
  "for_deferred effectiveTaskTypes act =
    (if Action act = ActionTypeDeferredScalingDecision
     then act\<lparr>EffectiveTaskTypes := effectiveTaskTypes\<rparr> else act)"

definition HandleTaskAddSignal ::
    "activity_env \<Rightarrow> HandleTaskAddSignalActivityRequest \<Rightarrow> HandleTaskAddSignalActivityResponse" where
  "HandleTaskAddSignal env req =
    (let updatedScalingStatus = (case TaskAddScalingStatus req of None \<Rightarrow> [] | Some m \<Rightarrow> m);
         unchanged = \<lparr>SignalUpdatedStatus = Some updatedScalingStatus, SignalActions = []\<rparr>
     in case TaskAddSpec req of
          None \<Rightarrow> unchanged
        | Some spec \<Rightarrow>
           (let key = ScalingGroupKeyForTaskQueueType (Some spec)
                  (SignalTaskQueueType (TaskAddRequestOf req)) (regionID env)
            in if key = '''' then unchanged
               else (case map_of (ScalingGroupSpecs spec) key of
                 None \<Rightarrow> unchanged
               | Some entry \<Rightarrow>
                  (case getScalingAlgorithmAndConfig env entry of
                     Inl e \<Rightarrow> unchanged
                   | Inr (scalingAlgo, scalingConfig) \<Rightarrow>
                      (let response = opProcessTaskAdd scalingAlgo (envNow env key) scalingConfig
                             (status_at (TaskAddScalingStatus req) key) (TaskAddRequestOf req)
                       in \<lparr>SignalUpdatedStatus =
                             Some (AList.update key (TaskAddStatus response) updatedScalingStatus),
                           SignalActions = List.map
                             (for_deferred (EffectiveTaskTypesForGroup (Some spec) key (regionID env)))
                             (keyed_actions key (TaskAddActions response))\<rparr>)))))"

section \<open>The metrics poll\<close>

text \<open>The two intervals, in nanoseconds.\<close>

definition minPollInterval :: int where "minPollInterval = 30 * 1000000000"
definition maxPollInterval :: int where "maxPollInterval = 5 * 60 * 1000000000"

record PullStatsActivityRequest =
  PullContext :: RequestContext
  PullSpec :: "WorkerControllerInstanceSpec option"
  PullScalingStatus :: "status_map option"

record PullStatsActivityResponse =
  PullUpdatedStatus :: "status_map option"
  PullActions :: "ScalingAction list"
  NextPollSeconds :: int

record pull_loop =
  loopActions :: "ScalingAction list"
  loopStatus :: status_map
  loopNextPoll :: int

text \<open>The body of the loop over the groups, first for a group that serves nothing here.\<close>

definition pull_inactive_group ::
    "activity_env \<Rightarrow> PullStatsActivityRequest \<Rightarrow> string \<Rightarrow> ScalingGroupSpec \<Rightarrow> pull_loop
      \<Rightarrow> pull_loop" where
  "pull_inactive_group env req key entry l =
    (case getScalingAlgorithmAndConfig env entry of
       Inl e \<Rightarrow>
         l\<lparr>loopStatus := AList.update key (status_at (PullScalingStatus req) key) (loopStatus l)\<rparr>
     | Inr (scalingAlgo, scalingConfig) \<Rightarrow>
         (let response =
                opInactiveGroupActions scalingAlgo scalingConfig (status_at (PullScalingStatus req) key)
          in l\<lparr>loopStatus := (if PollStatus response \<noteq> None
                 then AList.update key (PollStatus response) (loopStatus l) else loopStatus l),
               loopActions := loopActions l @ keyed_actions key (PollActions response)\<rparr>))"

definition pull_active_group ::
    "activity_env \<Rightarrow> PullStatsActivityRequest \<Rightarrow> ScalingMetricsSnapshot \<Rightarrow> TaskQueueType list
      \<Rightarrow> string \<Rightarrow> ScalingGroupSpec \<Rightarrow> pull_loop \<Rightarrow> pull_loop" where
  "pull_active_group env req metricsSnapshot taskTypes key entry l =
    (let scalingStatus = status_at (PullScalingStatus req) key;
         snapshot = (case filterScalingMetricsSnapshotByTaskTypes (Some metricsSnapshot) taskTypes of
           None \<Rightarrow> empty_snapshot | Some s \<Rightarrow> s)
     in case getScalingAlgorithmAndConfig env entry of
          Inl e \<Rightarrow> l\<lparr>loopStatus := AList.update key scalingStatus (loopStatus l)\<rparr>
        | Inr (scalingAlgo, scalingConfig) \<Rightarrow>
           (let response = opProcessMetricsPoll scalingAlgo (envNow env key) scalingConfig
                  scalingStatus snapshot
            in l\<lparr>loopStatus := AList.update key (PollStatus response) (loopStatus l),
                 loopActions := loopActions l @ keyed_actions key (not_deferred (PollActions response)),
                 loopNextPoll := (case NextPoll response of
                    None \<Rightarrow> loopNextPoll l
                  | Some p \<Rightarrow> max minPollInterval (min (loopNextPoll l) p))\<rparr>))"

definition pull_group ::
    "activity_env \<Rightarrow> PullStatsActivityRequest \<Rightarrow> WorkerControllerInstanceSpec
      \<Rightarrow> ScalingMetricsSnapshot \<Rightarrow> string \<times> ScalingGroupSpec \<Rightarrow> pull_loop \<Rightarrow> pull_loop" where
  "pull_group env req spec metricsSnapshot kv l = (case kv of (key, entry) \<Rightarrow>
    (let taskTypes = EffectiveTaskTypesForGroup (Some spec) key (regionID env)
     in if taskTypes = [] then pull_inactive_group env req key entry l
        else pull_active_group env req metricsSnapshot taskTypes key entry l))"

text \<open>\<open>uint32(d.Seconds())\<close>: the poll interval lies between the two bounds, where \<open>Seconds\<close>
  does not round up to the next whole second, so the conversion is the integer division.\<close>

definition seconds_of :: "int \<Rightarrow> int" where
  "seconds_of d = d div 1000000000"

definition PullStats ::
    "activity_env \<Rightarrow> PullStatsActivityRequest option \<Rightarrow> activity_error + PullStatsActivityResponse" where
  "PullStats env req = (case req of
     None \<Rightarrow> Inl (PlainError InvalidActivityRequest)
   | Some r \<Rightarrow> (case PullSpec r of
       None \<Rightarrow> Inl (PlainError InvalidActivityRequest)
     | Some spec \<Rightarrow>
        (if \<not> envEnabled env then
           Inr \<lparr>PullUpdatedStatus = PullScalingStatus r, PullActions = [],
                NextPollSeconds = seconds_of maxPollInterval\<rparr>
         else (case pullScalingMetricsSnapshot env of
           Inl e \<Rightarrow> Inl (ApplicationError ''PullScalingMetricsSnapshotFailed'' (DescribeFailed e))
         | Inr metricsSnapshot \<Rightarrow>
            (let l = fold (pull_group env r spec metricsSnapshot) (ScalingGroupSpecs spec)
                   \<lparr>loopActions = [], loopStatus = [], loopNextPoll = maxPollInterval\<rparr>
             in Inr \<lparr>PullUpdatedStatus = Some (loopStatus l), PullActions = loopActions l,
                     NextPollSeconds = seconds_of (loopNextPoll l)\<rparr>)))))"

section \<open>Lemmas on the algorithms of the registry\<close>

lemma truncate_ops [simp]:
  "opProcessTaskAdd (algorithm_ops.truncate a) = opProcessTaskAdd a"
  "opProcessDeferredScalingDecision (algorithm_ops.truncate a) = opProcessDeferredScalingDecision a"
  "opProcessMetricsPoll (algorithm_ops.truncate a) = opProcessMetricsPoll a"
  "opTaskQueueRegistrationActions (algorithm_ops.truncate a) = opTaskQueueRegistrationActions a"
  "opInactiveGroupActions (algorithm_ops.truncate a) = opInactiveGroupActions a"
  "CompatibleLaunchStrategies (algorithm_ops.truncate a) = CompatibleLaunchStrategies a"
  by (simp_all add: algorithm_ops.truncate_def)

lemma truncate_impl [simp]:
  "algorithm_ops.truncate noSync_impl = noSync_ops"
  "algorithm_ops.truncate rateBased_impl = rateBased_ops"
  by (simp_all add: noSync_impl_def rateBased_impl_def algorithm_ops.truncate_def algorithm_ops.extend_def)

lemma impl_strategies [simp]:
  "CompatibleLaunchStrategies noSync_impl = [LaunchStrategyInvoke]"
  "CompatibleLaunchStrategies rateBased_impl = [LaunchStrategyWorkerSet]"
  by (simp_all add: noSync_impl_def rateBased_impl_def noSync_ops_def rateBased_ops_def
      algorithm_ops.extend_def)

lemma impl_validate [simp]:
  "opValidateConfig noSync_impl = map_option NoSyncConfigError \<circ> noSyncValidateConfig"
  "opValidateConfig rateBased_impl = map_option RateBasedConfigError \<circ> rateBasedValidateConfig"
  by (simp_all add: noSync_impl_def rateBased_impl_def algorithm_ops.extend_def noSync_ops_def
      rateBased_ops_def)

lemma builtin_lookup:
  "map_of (algorithmConstructors builtin_algorithms) t =
    (if t = ''no-sync'' then Some noSync_impl
     else if t = ''rate-based'' then Some rateBased_impl else None)"
  by (simp add: builtin_algorithms_def RegisterScalingAlgorithm_def has_key_iff map_simps)

text \<open>An action under another key is as executable as before.\<close>

lemma executable_keyed [simp]:
  "executable_action strategies (a\<lparr>ScalingGroupKey := k\<rparr>) = executable_action strategies a"
  by (cases "Action a") (simp_all add: executable_action_def)

text \<open>What the activities rely on: the registry hands out only algorithms that keep the contract
  of the interface.\<close>

locale sound_registry =
  fixes env :: activity_env
  assumes registered_sound: "map_of (algorithmConstructors (envAlgorithms env)) t = Some a \<Longrightarrow>
    \<exists>valid. scaling_algorithm (algorithm_ops.truncate a) valid"
begin

lemma group_algorithm_sound:
  assumes "getScalingAlgorithmAndConfig env entry = Inr (a, cfg)"
  shows "\<exists>valid. scaling_algorithm (algorithm_ops.truncate a) valid"
  using assms registered_sound
  by (auto simp: getScalingAlgorithmAndConfig_def GetDefaultScalingAlgorithmForComputeProvider_def
      GetScalingAlgorithmWithoutValidation_def split: option.splits sum.splits)

lemma poll_action_executable:
  assumes "getScalingAlgorithmAndConfig env entry = Inr (a, cfg)"
    and "act \<in> set (PollActions (opProcessMetricsPoll a now cfg s snap))"
  shows "executable_action (CompatibleLaunchStrategies a) act"
  using group_algorithm_sound [OF assms(1)] assms(2) scaling_algorithm.poll_actions by fastforce

lemma inactive_action_executable:
  assumes "getScalingAlgorithmAndConfig env entry = Inr (a, cfg)"
    and "act \<in> set (PollActions (opInactiveGroupActions a cfg s))"
  shows "executable_action (CompatibleLaunchStrategies a) act"
  using group_algorithm_sound [OF assms(1)] assms(2) scaling_algorithm.inactive_actions by fastforce

lemma deferred_action_executable:
  assumes "getScalingAlgorithmAndConfig env entry = Inr (a, cfg)"
    and "opProcessDeferredScalingDecision a cfg s req g = Inr r"
    and "act \<in> set (TaskAddActions r)"
  shows "executable_action (CompatibleLaunchStrategies a) act"
  using group_algorithm_sound [OF assms(1)] assms(2,3) scaling_algorithm.deferred_actions by fastforce

lemma task_add_action_executable:
  assumes "getScalingAlgorithmAndConfig env entry = Inr (a, cfg)"
    and "act \<in> set (TaskAddActions (opProcessTaskAdd a now cfg s req))"
  shows "executable_action (CompatibleLaunchStrategies a) act
    \<or> Action act = ActionTypeDeferredScalingDecision"
  using group_algorithm_sound [OF assms(1)] assms(2) scaling_algorithm.task_add_actions by fastforce

lemma registration_action_executable:
  assumes "getScalingAlgorithmAndConfig env entry = Inr (a, cfg)"
    and "act \<in> set (RegistrationActions (opTaskQueueRegistrationActions a cfg s))"
  shows "executable_action (CompatibleLaunchStrategies a) act"
  using group_algorithm_sound [OF assms(1)] assms(2) scaling_algorithm.registration_actions
  by fastforce

end

lemma builtin_sound:
  "envAlgorithms env = builtin_algorithms \<Longrightarrow> sound_registry env"
  by unfold_locales
    (auto simp: builtin_lookup intro: nosync.scaling_algorithm_axioms ratebased.scaling_algorithm_axioms
      split: if_splits)

interpretation builtin: sound_registry "env\<lparr>envAlgorithms := builtin_algorithms\<rparr>" for env
  by (rule builtin_sound) simp

section \<open>Lemmas on the poll\<close>

text \<open>An action that belongs to a group of the specification, which the launch strategies of the
  group's algorithm allow.\<close>

definition issued_for ::
    "activity_env \<Rightarrow> WorkerControllerInstanceSpec \<Rightarrow> ScalingAction \<Rightarrow> bool" where
  "issued_for env spec a \<longleftrightarrow> (\<exists>entry algo cfg.
     (ScalingGroupKey a, entry) \<in> set (ScalingGroupSpecs spec)
     \<and> getScalingAlgorithmAndConfig env entry = Inr (algo, cfg)
     \<and> executable_action (CompatibleLaunchStrategies algo) a)"

lemma issued_forI:
  assumes "(k, entry) \<in> set (ScalingGroupSpecs spec)"
    and "getScalingAlgorithmAndConfig env entry = Inr (algo, cfg)"
    and "executable_action (CompatibleLaunchStrategies algo) a"
  shows "issued_for env spec (a\<lparr>ScalingGroupKey := k\<rparr>)"
  unfolding issued_for_def using assms by (intro exI [of _ entry]) auto

definition pull_loop_ok ::
    "activity_env \<Rightarrow> WorkerControllerInstanceSpec \<Rightarrow> pull_loop \<Rightarrow> bool" where
  "pull_loop_ok env spec l \<longleftrightarrow> (\<forall>a \<in> set (loopActions l). issued_for env spec a)
     \<and> fst ` set (loopStatus l) \<subseteq> fst ` set (ScalingGroupSpecs spec)
     \<and> minPollInterval \<le> loopNextPoll l \<and> loopNextPoll l \<le> maxPollInterval"

lemma min_le_max_interval: "minPollInterval \<le> maxPollInterval"
  by (simp add: minPollInterval_def maxPollInterval_def)

lemma set_keyed: "set (keyed_actions k as) = (\<lambda>a. a\<lparr>ScalingGroupKey := k\<rparr>) ` set as"
  by (simp add: keyed_actions_def)

lemma set_not_deferred:
  "set (not_deferred as) = {a \<in> set as. Action a \<noteq> ActionTypeDeferredScalingDecision}"
  by (auto simp: not_deferred_def)

context sound_registry
begin

lemma pull_group_ok:
  assumes kv: "kv \<in> set (ScalingGroupSpecs spec)" and l: "pull_loop_ok env spec l"
  shows "pull_loop_ok env spec (pull_group env req spec snap kv l)"
proof -
  obtain k entry where k: "kv = (k, entry)" by fastforce
  with kv have mem: "(k, entry) \<in> set (ScalingGroupSpecs spec)" "k \<in> fst ` set (ScalingGroupSpecs spec)"
    by force+
  show ?thesis
  proof (cases "getScalingAlgorithmAndConfig env entry")
    case (Inl e)
    with l mem show ?thesis
      by (simp add: pull_group_def k Let_def pull_inactive_group_def pull_active_group_def pull_loop_ok_def)
  next
    case (Inr ac)
    then obtain algo cfg where alg: "getScalingAlgorithmAndConfig env entry = Inr (algo, cfg)"
      by (cases ac) auto
    note issue = issued_forI [OF mem(1) alg]
    show ?thesis
    proof (cases "EffectiveTaskTypesForGroup (Some spec) k (regionID env) = []")
      case True
      with l mem alg show ?thesis
        by (auto simp: pull_group_def k pull_inactive_group_def pull_loop_ok_def Let_def set_keyed
            dest!: inactive_action_executable [OF alg] intro!: issue)
    next
      case False
      with l mem alg min_le_max_interval show ?thesis
        by (auto simp: pull_group_def k pull_active_group_def pull_loop_ok_def Let_def set_keyed
            set_not_deferred dest!: poll_action_executable [OF alg] intro!: issue split: option.splits)
    qed
  qed
qed

lemma pull_stats_ok:
  assumes "PullStats env (Some req) = Inr resp" and "PullSpec req = Some spec" and "envEnabled env"
  obtains l where "pull_loop_ok env spec l" and "PullUpdatedStatus resp = Some (loopStatus l)"
    and "PullActions resp = loopActions l" and "NextPollSeconds resp = seconds_of (loopNextPoll l)"
proof -
  obtain snap where snap: "pullScalingMetricsSnapshot env = Inr snap"
    using assms by (auto simp: PullStats_def split: sum.splits)
  define l where "l = fold (pull_group env req spec snap) (ScalingGroupSpecs spec)
     \<lparr>loopActions = [], loopStatus = [], loopNextPoll = maxPollInterval\<rparr>"
  have start: "pull_loop_ok env spec \<lparr>loopActions = [], loopStatus = [], loopNextPoll = maxPollInterval\<rparr>"
    by (simp add: pull_loop_ok_def min_le_max_interval)
  have "pull_loop_ok env spec l" unfolding l_def
    by (rule fold_invariant [where Q = "\<lambda>kv. kv \<in> set (ScalingGroupSpecs spec)"])
      (simp_all add: start pull_group_ok)
  with assms snap that show ?thesis by (auto simp: PullStats_def l_def Let_def)
qed

end

lemma seconds_bounds:
  "minPollInterval \<le> d \<Longrightarrow> d \<le> maxPollInterval \<Longrightarrow> 30 \<le> seconds_of d \<and> seconds_of d \<le> 300"
  using zdiv_mono1 [of minPollInterval d 1000000000] zdiv_mono1 [of d maxPollInterval 1000000000]
  by (simp add: seconds_of_def minPollInterval_def maxPollInterval_def)

section \<open>Lemmas on registration\<close>

definition calls_for :: "string \<Rightarrow> compute_call list \<Rightarrow> compute_call list" where
  "calls_for k = filter (\<lambda>c. case c of CallInvokeWorker k' cfg \<Rightarrow> k' = k
     | CallUpdateWorkerSetSize k' cfg n \<Rightarrow> k' = k)"

text \<open>The call that carries out an action of a registration.\<close>

definition call_of :: "string \<Rightarrow> anymap option \<Rightarrow> ScalingAction \<Rightarrow> compute_call" where
  "call_of k config a = (case Count a of
     None \<Rightarrow> CallInvokeWorker k config
   | Some n \<Rightarrow> (if Action a = ActionTypeInvokeWorker then CallInvokeWorker k config
       else CallUpdateWorkerSetSize k config n))"

lemma registration_actions_ok:
  "registration_actions provider rc config k as calls = (calls', None) \<Longrightarrow>
    calls' = calls @ List.map (call_of k config) as"
proof (induction as arbitrary: calls)
  case (Cons a as)
  from Cons.prems show ?case
    by (auto simp: Let_def call_of_def split: ActionType.splits option.splits dest!: Cons.IH)
qed simp

lemma calls_for_append [simp]: "calls_for k (xs @ ys) = calls_for k xs @ calls_for k ys"
  by (simp add: calls_for_def)

lemma calls_for_map [simp]:
  "calls_for k' (List.map (call_of k config) as) =
    (if k' = k then List.map (call_of k config) as else [])"
  by (induction as) (auto simp: calls_for_def call_of_def split: option.splits)

text \<open>What a registration is to do for one group: the actions of its algorithm unless the group
  serves nothing here or all it serves is registered, and the status that follows.\<close>

definition registration_of ::
    "activity_env \<Rightarrow> InvokeWorkersToRegisterTaskQueuesRequest \<Rightarrow> TaskQueueType list
      \<Rightarrow> string \<Rightarrow> ScalingGroupSpec \<Rightarrow> ScalingAction list \<times> ScalingAlgorithmStatus" where
  "registration_of env req registered k v =
    (let prior = status_at (RegisterScalingStatus req) k;
         types = EffectiveTaskTypesForGroup (Some (RegisterSpec req)) k (regionID env)
     in if list_all (\<lambda>t. t \<in> set registered) types then ([], prior)
        else (case getScalingAlgorithmAndConfig env v of
          Inl e \<Rightarrow> ([], prior)
        | Inr (algo, cfg) \<Rightarrow>
           (let r = opTaskQueueRegistrationActions algo cfg prior
            in (RegistrationActions r,
                if RegistrationStatus r \<noteq> None then RegistrationStatus r else prior))))"

lemma status_at_update [simp]:
  "status_at (Some (AList.update k s m)) k' = (if k' = k then s else status_at (Some m) k')"
  by (simp add: status_at_def map_simps)

lemma taskTypesAllRegistered_iff:
  "types = [] \<or> taskTypesAllRegistered types registered \<longleftrightarrow>
    list_all (\<lambda>t. t \<in> set registered) types"
  by (auto simp: taskTypesAllRegistered_def)

lemma register_group_ok:
  assumes "register_group env req registered (k, v) (calls, st) = (calls', Inr st')"
    and "map_of st k = None"
  shows "status_at (Some st') k = snd (registration_of env req registered k v)
    \<and> (\<exists>config. calls' =
        calls @ List.map (call_of k config) (fst (registration_of env req registered k v)))
    \<and> (\<forall>k'. k' \<noteq> k \<longrightarrow> map_of st' k' = map_of st k')"
proof -
  let ?types = "EffectiveTaskTypesForGroup (Some (RegisterSpec req)) k (regionID env)"
  let ?prior = "status_at (RegisterScalingStatus req) k"
  have absent: "status_at (Some st) k = None" using assms(2) by (simp add: status_at_def)
  show ?thesis
  proof (cases "list_all (\<lambda>t. t \<in> set registered) ?types")
    case True
    then have "?types = [] \<or> taskTypesAllRegistered ?types registered"
      using taskTypesAllRegistered_iff by blast
    then have "register_group env req registered (k, v) (calls, st) =
        (calls, Inr (if ?prior \<noteq> None then AList.update k ?prior st else st))"
      by (elim disjE) (simp_all add: register_group_def Let_def)
    with assms(1) have "calls' = calls" "st' = (if ?prior \<noteq> None then AList.update k ?prior st else st)"
      by simp_all
    moreover have "registration_of env req registered k v = ([], ?prior)"
      using True by (simp add: registration_of_def Let_def)
    ultimately show ?thesis using absent by (auto simp: map_simps)
  next
    case False
    then have "?types \<noteq> []" "\<not> taskTypesAllRegistered ?types registered"
      using taskTypesAllRegistered_iff by blast+
    with assms(1) obtain provider config algo cfg where
      parts: "get_provider env (ProviderType (Compute v)) = Inr (Some provider)"
        "envDecode env (ProviderConfig (Compute v)) = Inr config"
        "getScalingAlgorithmAndConfig env v = Inr (algo, cfg)"
      by (auto simp: register_group_def Let_def split: sum.splits option.splits)
    define r where "r = opTaskQueueRegistrationActions algo cfg ?prior"
    have reg: "registration_of env req registered k v =
        (RegistrationActions r, if RegistrationStatus r \<noteq> None then RegistrationStatus r else ?prior)"
      using False parts by (simp add: registration_of_def r_def Let_def)
    have "registration_actions provider (RegisterContext req) config k (RegistrationActions r) calls =
        (calls', None)"
      and st': "st' = (let status = (if ?prior \<noteq> None then AList.update k ?prior st else st)
        in if RegistrationStatus r \<noteq> None then AList.update k (RegistrationStatus r) status else status)"
      using assms(1) parts \<open>?types \<noteq> []\<close> \<open>\<not> taskTypesAllRegistered ?types registered\<close>
      by (auto simp: register_group_def Let_def r_def split: prod.splits option.splits)
    from registration_actions_ok [OF this(1)] have
      "calls' = calls @ List.map (call_of k config) (RegistrationActions r)" .
    moreover have "status_at (Some st') k = snd (registration_of env req registered k v)"
      using absent by (auto simp: st' reg Let_def)
    moreover have "map_of st' k' = map_of st k'" if "k' \<noteq> k" for k'
      using that by (simp add: st' Let_def map_simps)
    ultimately show ?thesis unfolding reg by auto
  qed
qed

lemma register_groups_ok:
  "register_groups env req registered kvs (calls, st) = (calls', Inr st') \<Longrightarrow>
   distinct (keys kvs) \<Longrightarrow> (\<forall>k \<in> set (keys kvs). map_of st k = None) \<Longrightarrow>
   (\<forall>k. k \<notin> set (keys kvs) \<longrightarrow> map_of st' k = map_of st k \<and> calls_for k calls' = calls_for k calls)
   \<and> (\<forall>(k, v) \<in> set kvs.
        status_at (Some st') k = snd (registration_of env req registered k v)
        \<and> (\<exists>config. calls_for k calls' = calls_for k calls
             @ List.map (call_of k config) (fst (registration_of env req registered k v))))"
proof (induction kvs arbitrary: calls st)
  case Nil
  then show ?case by simp
next
  case (Cons kv kvs)
  obtain k v where kv: "kv = (k, v)" by fastforce
  obtain calls1 st1 where one: "register_group env req registered (k, v) (calls, st) = (calls1, Inr st1)"
    and rest: "register_groups env req registered kvs (calls1, st1) = (calls', Inr st')"
    using Cons.prems(1) by (auto simp: kv split: prod.splits sum.splits)
  have "map_of st k = None" using Cons.prems(3) by (simp add: kv)
  note one = register_group_ok [OF one this]
  have "\<forall>k' \<in> set (keys kvs). map_of st1 k' = None"
  proof
    fix k' assume k': "k' \<in> set (keys kvs)"
    with Cons.prems(2) have "k' \<noteq> k" by (auto simp: kv)
    with one have "map_of st1 k' = map_of st k'" by blast
    moreover have "k' \<in> set (keys (kv # kvs))" using k' by simp
    ultimately show "map_of st1 k' = None" using Cons.prems(3) by (metis (no_types))
  qed
  moreover have "distinct (keys kvs)" and k: "k \<notin> set (keys kvs)"
    using Cons.prems(2) by (simp_all add: kv)
  ultimately have ih: "\<And>k'. k' \<notin> set (keys kvs) \<Longrightarrow>
      map_of st' k' = map_of st1 k' \<and> calls_for k' calls' = calls_for k' calls1"
    "\<And>k' v'. (k', v') \<in> set kvs \<Longrightarrow>
      status_at (Some st') k' = snd (registration_of env req registered k' v')
      \<and> (\<exists>config. calls_for k' calls' = calls_for k' calls1
           @ List.map (call_of k' config) (fst (registration_of env req registered k' v')))"
    using Cons.IH [OF rest] by auto
  obtain config where config: "calls1 =
      calls @ List.map (call_of k config) (fst (registration_of env req registered k v))"
    using one by blast
  have head: "status_at (Some st') k = snd (registration_of env req registered k v)"
    using one ih(1) [OF k] by (simp add: status_at_def)
  have other: "k' \<noteq> k" if "(k', v') \<in> set kvs" for k' v' using that k by force
  show ?case
  proof (intro conjI allI impI ballI)
    fix k' assume "k' \<notin> set (keys (kv # kvs))"
    then show "map_of st' k' = map_of st k'" "calls_for k' calls' = calls_for k' calls"
      using one ih(1) [of k'] config by (auto simp: kv)
  next
    fix x assume x: "x \<in> set (kv # kvs)"
    show "case x of (k, v) \<Rightarrow> status_at (Some st') k = snd (registration_of env req registered k v)
        \<and> (\<exists>config. calls_for k calls' = calls_for k calls
             @ List.map (call_of k config) (fst (registration_of env req registered k v)))"
    proof (cases "x = (k, v)")
      case True
      then show ?thesis using head ih(1) [OF k] config by auto
    next
      case False
      obtain k' v' where k': "x = (k', v')" by fastforce
      with False x have "(k', v') \<in> set kvs" by (auto simp: kv)
      with ih(2) [OF this] other [OF this] config show ?thesis by (simp add: k')
    qed
  qed
qed

definition known_registered :: "activity_env \<Rightarrow> TaskQueueType list" where
  "known_registered env = (case registeredTaskQueueTypes env of Inl e \<Rightarrow> [] | Inr ts \<Rightarrow> ts)"

lemma registration_groups:
  assumes "InvokeWorkersToRegisterTaskQueues env (Some req) = (calls, Inr status)"
  shows "register_groups env req (known_registered env) (ScalingGroupSpecs (RegisterSpec req)) ([], []) =
    (calls, Inr status)"
  using assms
  by (auto simp: InvokeWorkersToRegisterTaskQueues_def known_registered_def
      split: sum.splits describe_error.splits)

lemma calls_for_Nil [simp]: "calls_for k [] = []"
  by (simp add: calls_for_def)

section \<open>Properties\<close>

definition sample_provider :: "LaunchStrategy \<Rightarrow> compute_provider" where
  "sample_provider strategy =
    \<lparr>providerLaunchStrategy = strategy, providerValidateConfig = (\<lambda>_ _. None),
     providerInvokeWorker = (\<lambda>_ _. None), providerUpdateWorkerSetSize = (\<lambda>_ _ _. None)\<rparr>"

definition sample_env :: activity_env where
  "sample_env =
    \<lparr>envRegion = Some ''eu'', envEnabled = True, envEnabledProviders = [''aws-lambda'', ''k8s''],
     envProviders = [(''aws-lambda'', Inr (Some (sample_provider LaunchStrategyInvoke))),
       (''k8s'', Inr (Some (sample_provider LaunchStrategyWorkerSet)))],
     envEnabledAlgorithms = None, envAlgorithms = builtin_algorithms,
     envDecode = (\<lambda>_. Inr None), envDescribeQueues = Inr (Some []),
     envDescribeStats = Inr (Some
       [Some \<lparr>QueueType = TASK_QUEUE_TYPE_WORKFLOW, QueueStats = Some
          \<lparr>ApproximateBacklogCount = 5, TasksAddRate = Fin 1, TasksDispatchRate = Fin 0,
           ApproximateBacklogAge = 0\<rparr>\<rparr>, None]),
     envNow = (\<lambda>_. 1000000)\<rparr>"

definition sample_context :: RequestContext where
  "sample_context = \<lparr>NamespaceName = ''ns'', RequestDeploymentName = ''app'', DeploymentBuildID = ''v1''\<rparr>"

definition scaled_group :: "TaskQueueType list \<Rightarrow> string \<Rightarrow> string \<Rightarrow> ScalingGroupSpec" where
  "scaled_group ts p algo = \<lparr>TaskTypes = ts, RegionIds = [],
     Compute = \<lparr>ProviderType = p, ProviderConfig = None, NexusEndpoint = ''''\<rparr>,
     Scaling = Some \<lparr>ScalingAlgorithm = algo, AlgorithmConfig = None\<rparr>\<rparr>"

definition sample_spec :: WorkerControllerInstanceSpec where
  "sample_spec = \<lparr>ScalingGroupSpecs =
     [(''wf'', scaled_group [TASK_QUEUE_TYPE_WORKFLOW] ''aws-lambda'' ''no-sync''),
      (''rest'', scaled_group [] ''k8s'' ''rate-based'')]\<rparr>"

definition sample_pull :: PullStatsActivityRequest where
  "sample_pull = \<lparr>PullContext = sample_context, PullSpec = Some sample_spec, PullScalingStatus = None\<rparr>"

lemma env_builtin: "envAlgorithms env = builtin_algorithms \<Longrightarrow> env\<lparr>envAlgorithms := builtin_algorithms\<rparr> = env"
  by simp

text \<open>A specification that \<open>ValidateSpec\<close> accepts: each group has a provider that can be
  constructed; a group with an algorithm of its own has a valid configuration for it, and the
  algorithm is made for exactly the provider's launch strategy.\<close>

lemma validated_group:
  assumes "ValidateSpec env (Some r) = None" and "ValidateSpecOf r = Some spec"
    and "(k, entry) \<in> set (ScalingGroupSpecs spec)"
  obtains provider where "get_provider env (ProviderType (Compute entry)) = Inr (Some provider)"
    and "validate_group_scaling env provider k entry = None"
proof -
  have "validate_group env (ValidateContext r) (ScalingGroupsToSkipProviderValidation r) (k, entry) = None"
    using assms by (auto simp: ValidateSpec_def first_error_None_iff)
  then show ?thesis
    using that by (auto simp: validate_group_def split: sum.splits option.splits if_splits)
qed

lemma validated_scaling:
  assumes "validate_group_scaling env provider k entry = None" and "Scaling entry = Some scaling"
    and "envAlgorithms env = builtin_algorithms"
  obtains algo cfg where "getScalingAlgorithmAndConfig env entry = Inr (algo, cfg)"
    and "opValidateConfig algo cfg = None"
    and "CompatibleLaunchStrategies algo = [providerLaunchStrategy provider]"
proof -
  from assms(1,2) obtain algo cfg where
    algo: "GetScalingAlgorithm (envEnabledAlgorithms env) (envAlgorithms env) (ScalingAlgorithm scaling) = Some algo"
    and cfg: "envDecode env (AlgorithmConfig scaling) = Inr cfg" "opValidateConfig algo cfg = None"
    and fits: "providerLaunchStrategy provider \<in> set (CompatibleLaunchStrategies algo)"
    by (auto simp: validate_group_scaling_def split: sum.splits option.splits if_splits)
  have found: "map_of (algorithmConstructors builtin_algorithms) (ScalingAlgorithm scaling) = Some algo"
    using algo assms(3) by (auto simp: GetScalingAlgorithm_def split: option.splits if_splits)
  have "getScalingAlgorithmAndConfig env entry = Inr (algo, cfg)"
    using found cfg(1) assms(2,3)
    by (simp add: getScalingAlgorithmAndConfig_def GetScalingAlgorithmWithoutValidation_def)
  moreover have "CompatibleLaunchStrategies algo = [providerLaunchStrategy provider]"
    using found fits by (auto simp: builtin_lookup split: if_splits)
  ultimately show ?thesis using that cfg(2) by blast
qed

text \<open>What an algorithm asks for fits a strategy that it is made for.\<close>

lemma fitting_actions:
  assumes "getScalingAlgorithmAndConfig env entry = Inr (algo, cfg)"
    and "envAlgorithms env = builtin_algorithms" and "CompatibleLaunchStrategies algo = [strategy]"
    and "a \<in> set (fst (algorithm_step (algorithm_ops.truncate algo) cfg ev s))"
  shows "executable_action [strategy] a
    \<or> is_task_add ev \<and> Action a = ActionTypeDeferredScalingDecision"
proof -
  obtain valid where "scaling_algorithm (algorithm_ops.truncate algo) valid"
    using builtin.group_algorithm_sound [of env entry algo cfg] assms(1) by (auto simp: env_builtin [OF assms(2)])
  from scaling_algorithm.step_actions [OF this assms(4)] show ?thesis by (simp add: assms(3))
qed

text \<open>A poll of the metrics returns only actions of groups of the specification, none of them
  deferred and each one executable under the launch strategies of the group's algorithm; it
  persists statuses for groups of the specification only; and the next poll is due in 30 to 300
  seconds, whatever interval an algorithm asks for.\<close>

theorem pull_stats_sound:
  assumes "PullStats env (Some req) = Inr resp" and "PullSpec req = Some spec" and "envEnabled env"
    and "envAlgorithms env = builtin_algorithms"
  shows "(\<forall>a \<in> set (PullActions resp). issued_for env spec a
      \<and> Action a \<noteq> ActionTypeDeferredScalingDecision)
    \<and> (\<forall>m. PullUpdatedStatus resp = Some m \<longrightarrow> fst ` set m \<subseteq> fst ` set (ScalingGroupSpecs spec))
    \<and> 30 \<le> NextPollSeconds resp \<and> NextPollSeconds resp \<le> 300"
proof -
  note eq = env_builtin [OF assms(4)]
  obtain l where l: "pull_loop_ok env spec l" "PullUpdatedStatus resp = Some (loopStatus l)"
    "PullActions resp = loopActions l" "NextPollSeconds resp = seconds_of (loopNextPoll l)"
    using builtin.pull_stats_ok [of env req resp spec] assms(1-3) unfolding eq by blast
  then have "30 \<le> NextPollSeconds resp \<and> NextPollSeconds resp \<le> 300"
    using seconds_bounds by (simp add: pull_loop_ok_def)
  moreover have "Action a \<noteq> ActionTypeDeferredScalingDecision" if "issued_for env spec a" for a
    using that by (auto simp: issued_for_def executable_action_def)
  ultimately show ?thesis using l by (auto simp: pull_loop_ok_def)
qed

theorem pull_stats_sound_witness:
  "\<exists>resp. PullStats sample_env (Some sample_pull) = Inr resp
    \<and> 30 \<le> NextPollSeconds resp \<and> NextPollSeconds resp \<le> 300"
proof -
  obtain resp where resp: "PullStats sample_env (Some sample_pull) = Inr resp"
    by (auto simp: PullStats_def sample_pull_def sample_env_def pullScalingMetricsSnapshot_def Let_def)
  have "PullSpec sample_pull = Some sample_spec" "envEnabled sample_env"
    "envAlgorithms sample_env = builtin_algorithms"
    by (simp_all add: sample_pull_def sample_env_def)
  from pull_stats_sound [OF resp this] resp show ?thesis by blast
qed

definition sample_signal :: SignalTaskAddRequest where
  "sample_signal = \<lparr>TaskQueueName = ''q'', SignalTaskQueueType = TASK_QUEUE_TYPE_ACTIVITY,
     IsSyncMatch = False, SyncMatchSignalsSinceLast = 0, NoSyncMatchSignalsSinceLast = 1\<rparr>"

lemma HandleTaskAddSignal_cases:
  assumes "TaskAddSpec req = Some spec"
    and "key = ScalingGroupKeyForTaskQueueType (Some spec)
           (SignalTaskQueueType (TaskAddRequestOf req)) (regionID env)"
  shows "(SignalActions (HandleTaskAddSignal env req) = []
      \<and> SignalUpdatedStatus (HandleTaskAddSignal env req) =
          Some (case TaskAddScalingStatus req of None \<Rightarrow> [] | Some m \<Rightarrow> m))
    \<or> key \<noteq> ''''
      \<and> (\<exists>s acts. SignalUpdatedStatus (HandleTaskAddSignal env req) =
            Some (AList.update key s (case TaskAddScalingStatus req of None \<Rightarrow> [] | Some m \<Rightarrow> m))
          \<and> SignalActions (HandleTaskAddSignal env req) =
            List.map (for_deferred (EffectiveTaskTypesForGroup (Some spec) key (regionID env)))
              (keyed_actions key acts))"
  using assms
  by (auto simp: HandleTaskAddSignal_def Let_def split: option.splits sum.splits prod.splits)

text \<open>C31: A task-add signal concerns one group, the one that the README's precedence names: no other
  group's status changes, every action carries its key, and a deferred decision carries its
  effective task types, which contain the type of the signal, so that it is not dropped later.\<close>

theorem task_add_concerns_serving_group:
  assumes "TaskAddSpec req = Some spec" and "distinct (keys (ScalingGroupSpecs spec))"
    and "Validate (Some spec) = None"
    and "key = serving_group (ScalingGroupSpecs spec) (SignalTaskQueueType (TaskAddRequestOf req))
           (regionID env)"
  shows "(\<forall>k. k \<noteq> key \<longrightarrow> status_at (SignalUpdatedStatus (HandleTaskAddSignal env req)) k =
      status_at (TaskAddScalingStatus req) k)
    \<and> (\<forall>a \<in> set (SignalActions (HandleTaskAddSignal env req)).
        ScalingGroupKey a = key \<and> key \<noteq> ''''
        \<and> (Action a = ActionTypeDeferredScalingDecision \<longrightarrow>
            EffectiveTaskTypes a = EffectiveTaskTypesForGroup (Some spec) key (regionID env)
            \<and> SignalTaskQueueType (TaskAddRequestOf req) \<in> set (EffectiveTaskTypes a)))"
proof -
  let ?t = "SignalTaskQueueType (TaskAddRequestOf req)" and ?r = "regionID env"
  have wf: "wf_claims (ScalingGroupSpecs spec)"
    using assms(2,3) Validate_decides by (simp add: wf_spec_def)
  have key: "key = ScalingGroupKeyForTaskQueueType (Some spec) ?t ?r"
    using lookup_serving_group [OF wf] assms(4) by simp
  have effective: "key \<noteq> '''' \<Longrightarrow> ?t \<in> set (EffectiveTaskTypesForGroup (Some spec) key ?r)"
    using effective_iff [OF wf assms(2)] key by simp
  have same: "status_at (Some (case m of None \<Rightarrow> [] | Some l \<Rightarrow> l)) k = status_at m k" for m k
    by (cases m) (simp_all add: status_at_def)
  show ?thesis
    using HandleTaskAddSignal_cases [OF assms(1) key] effective
    by (elim disjE conjE exE) (auto simp: same set_keyed for_deferred_def)
qed

theorem task_add_concerns_serving_group_witness:
  "status_at (SignalUpdatedStatus (HandleTaskAddSignal sample_env
      \<lparr>TaskAddContext = sample_context, TaskAddRequestOf = sample_signal,
       TaskAddSpec = Some sample_spec, TaskAddScalingStatus = Some [(''wf'', Some [])]\<rparr>)) ''wf'' = Some []"
proof -
  let ?req = "\<lparr>TaskAddContext = sample_context, TaskAddRequestOf = sample_signal,
       TaskAddSpec = Some sample_spec, TaskAddScalingStatus = Some [(''wf'', Some [])]\<rparr>"
  have spec': "TaskAddSpec ?req = Some sample_spec" by simp
  have valid: "distinct (keys (ScalingGroupSpecs sample_spec))" "Validate (Some sample_spec) = None"
    by code_simp+
  have key: "''rest'' = serving_group (ScalingGroupSpecs sample_spec)
      (SignalTaskQueueType (TaskAddRequestOf ?req)) (regionID sample_env)"
    by code_simp
  have "status_at (SignalUpdatedStatus (HandleTaskAddSignal sample_env ?req)) ''wf'' =
      status_at (TaskAddScalingStatus ?req) ''wf''"
    by (rule mp [OF spec [OF conjunct1 [OF task_add_concerns_serving_group [OF spec' valid key]]]]) simp
  then show ?thesis by (simp add: status_at_def)
qed

text \<open>C24: A successful registration does for every group what the plan says, whatever happens to the
  other groups: it carries out the actions of the group's algorithm and persists its status, and
  a group that serves nothing here, or whose task types are all registered, is not disturbed and
  keeps its status.\<close>

theorem registration_follows_plan:
  assumes "InvokeWorkersToRegisterTaskQueues env (Some req) = (calls, Inr status)"
    and "distinct (keys (ScalingGroupSpecs (RegisterSpec req)))"
    and "(k, v) \<in> set (ScalingGroupSpecs (RegisterSpec req))"
  shows "status_at (Some status) k = snd (registration_of env req (known_registered env) k v)
    \<and> (\<exists>config. calls_for k calls = List.map (call_of k config)
         (fst (registration_of env req (known_registered env) k v)))"
  using register_groups_ok [OF registration_groups [OF assms(1)] assms(2)] assms(3) by auto

definition sample_register :: InvokeWorkersToRegisterTaskQueuesRequest where
  "sample_register = \<lparr>RegisterContext = sample_context, RegisterSpec = sample_spec,
     RegisterScalingStatus = None\<rparr>"

lemma sample_register_calls:
  "fst (InvokeWorkersToRegisterTaskQueues sample_env (Some sample_register)) =
    [CallInvokeWorker ''wf'' None, CallUpdateWorkerSetSize ''rest'' None 1]"
  by code_simp

lemma sample_registration_ok:
  obtains status where "InvokeWorkersToRegisterTaskQueues sample_env (Some sample_register) =
    ([CallInvokeWorker ''wf'' None, CallUpdateWorkerSetSize ''rest'' None 1], Inr status)"
proof -
  have "\<not> (case snd (InvokeWorkersToRegisterTaskQueues sample_env (Some sample_register)) of
      Inl e \<Rightarrow> True | Inr s \<Rightarrow> False)"
    by code_simp
  then show ?thesis using that sample_register_calls
    by (cases "InvokeWorkersToRegisterTaskQueues sample_env (Some sample_register)")
      (auto split: sum.splits)
qed

lemma sample_groups:
  "distinct (keys (ScalingGroupSpecs (RegisterSpec sample_register)))"
  "(''rest'', scaled_group [] ''k8s'' ''rate-based'') \<in> set (ScalingGroupSpecs (RegisterSpec sample_register))"
  by (simp_all add: sample_register_def sample_spec_def)

theorem registration_follows_plan_witness:
  "\<exists>config. [CallUpdateWorkerSetSize ''rest'' None 1] =
    List.map (call_of ''rest'' config) (fst (registration_of sample_env sample_register
      (known_registered sample_env) ''rest'' (scaled_group [] ''k8s'' ''rate-based'')))"
proof -
  obtain status where s: "InvokeWorkersToRegisterTaskQueues sample_env (Some sample_register) =
      ([CallInvokeWorker ''wf'' None, CallUpdateWorkerSetSize ''rest'' None 1], Inr status)"
    by (rule sample_registration_ok)
  from registration_follows_plan [OF s sample_groups] show ?thesis by (simp add: calls_for_def)
qed

text \<open>The registration path leaves no phantom count: for a group of the rate-based algorithm
  with a valid configuration a successful registration either leaves the group alone, or sets its
  worker set to one size, of at least 1 and at most the maximum, and persists exactly that size.\<close>

theorem registration_persists_its_size:
  assumes "InvokeWorkersToRegisterTaskQueues env (Some req) = (calls, Inr status)"
    and "distinct (keys (ScalingGroupSpecs (RegisterSpec req)))"
    and "(k, v) \<in> set (ScalingGroupSpecs (RegisterSpec req))"
    and "getScalingAlgorithmAndConfig env v = Inr (rateBased_impl, cfg)"
    and "rateBasedValidateConfig cfg = None"
  shows "(calls_for k calls = []
      \<and> status_at (Some status) k = status_at (RegisterScalingStatus req) k)
    \<or> (\<exists>config n. calls_for k calls = [CallUpdateWorkerSetSize k config n]
        \<and> stores_count (status_at (Some status) k) n \<and> 1 \<le> n \<and> n \<le> rateMaxCount cfg)"
proof -
  let ?prior = "status_at (RegisterScalingStatus req) k"
  have op: "opTaskQueueRegistrationActions rateBased_impl = rateBasedTaskQueueRegistrationActions"
    by (simp add: rateBased_impl_def rateBased_ops_def algorithm_ops.extend_def)
  obtain n where n: "RegistrationActions (rateBasedTaskQueueRegistrationActions cfg ?prior) = [resize n]"
    "stores_count (RegistrationStatus (rateBasedTaskQueueRegistrationActions cfg ?prior)) n"
    "1 \<le> n" "n \<le> rateMaxCount cfg"
    using registration_count [OF validated_counts(1) [OF assms(5)], of ?prior] by blast
  have "RegistrationStatus (rateBasedTaskQueueRegistrationActions cfg ?prior) \<noteq> None"
    by (simp add: rateBasedTaskQueueRegistrationActions_def Let_def)
  then have "registration_of env req (known_registered env) k v \<in>
      {([], ?prior), ([resize n], RegistrationStatus (rateBasedTaskQueueRegistrationActions cfg ?prior))}"
    using assms(4) n(1) by (auto simp: registration_of_def Let_def op)
  then show ?thesis
    using register_groups_ok [OF registration_groups [OF assms(1)] assms(2)] assms(3) n
    by (auto simp: call_of_def resize_def)
qed

theorem registration_persists_its_size_witness:
  "\<exists>status. InvokeWorkersToRegisterTaskQueues sample_env (Some sample_register) =
      ([CallInvokeWorker ''wf'' None, CallUpdateWorkerSetSize ''rest'' None 1], Inr status)
    \<and> stores_count (status_at (Some status) ''rest'') 1"
proof -
  obtain status where s: "InvokeWorkersToRegisterTaskQueues sample_env (Some sample_register) =
      ([CallInvokeWorker ''wf'' None, CallUpdateWorkerSetSize ''rest'' None 1], Inr status)"
    by (rule sample_registration_ok)
  have "getScalingAlgorithmAndConfig sample_env (scaled_group [] ''k8s'' ''rate-based'') =
      Inr (rateBased_impl, None)"
    by (simp add: getScalingAlgorithmAndConfig_def scaled_group_def sample_env_def
        GetScalingAlgorithmWithoutValidation_def builtin_lookup)
  from registration_persists_its_size [OF s sample_groups this] s show ?thesis
    by (auto simp: calls_for_def rateBasedValidateConfig_def)
qed

fun metrics_of :: "TaskQueueType \<Rightarrow> ScalingMetricsSnapshot \<Rightarrow> QueueTypeScalingMetrics option" where
  "metrics_of TASK_QUEUE_TYPE_WORKFLOW s = Workflow s"
| "metrics_of TASK_QUEUE_TYPE_ACTIVITY s = Activity s"
| "metrics_of TASK_QUEUE_TYPE_NEXUS s = Nexus s"
| "metrics_of _ s = None"

definition stats_of :: "TaskQueueType \<Rightarrow> version_task_queue option list \<Rightarrow> task_queue_stats list" where
  "stats_of t queues = List.map_filter
     (\<lambda>q. case q of None \<Rightarrow> None | Some q \<Rightarrow> if QueueType q = t then QueueStats q else None) queues"

lemma scalable_cases:
  "t \<in> set scalableTaskQueueTypes \<longleftrightarrow>
    t = TASK_QUEUE_TYPE_WORKFLOW \<or> t = TASK_QUEUE_TYPE_ACTIVITY \<or> t = TASK_QUEUE_TYPE_NEXUS"
  by (auto simp: scalableTaskQueueTypes_def)

lemma fold_add_queue:
  assumes "t \<in> set scalableTaskQueueTypes"
  shows "metrics_of t (fold add_queue queues s) =
    map_option (fold add_stats (stats_of t queues)) (metrics_of t s)"
proof (induction queues arbitrary: s)
  case Nil
  then show ?case by (simp add: stats_of_def map_filter_simps option.map_id0 option.map_ident)
next
  case (Cons q queues)
  have "metrics_of t (add_queue q s) = map_option (fold add_stats (stats_of t [q])) (metrics_of t s)"
    using assms
    by (auto simp: scalable_cases add_queue_def stats_of_def map_filter_simps option.map_id0 option.map_ident
        split: option.splits TaskQueueType.splits)
  moreover have "stats_of t (q # queues) = stats_of t [q] @ stats_of t queues"
    by (simp add: stats_of_def map_filter_simps split: option.splits)
  ultimately show ?case
    using Cons.IH [of "add_queue q s"] by (simp add: option.map_comp comp_def)
qed

lemma wrap64_add: "wrap64 (wrap64 a + b) = wrap64 (a + b)"
proof -
  have "(wrap64 a + b + 2 ^ 63) mod 2 ^ 64 = (a + b + 2 ^ 63) mod 2 ^ 64"
    unfolding wrap64_def by (simp add: mod_simps algebra_simps)
  then show ?thesis unfolding wrap64_def by simp
qed

lemma fold_add_stats_backlog:
  "LastBacklogCount m = wrap64 a \<Longrightarrow>
    LastBacklogCount (fold add_stats sts m) = wrap64 (a + sum_list (List.map ApproximateBacklogCount sts))"
proof (induction sts arbitrary: m a)
  case (Cons st sts)
  have "LastBacklogCount (add_stats st m) = wrap64 (a + ApproximateBacklogCount st)"
    using Cons.prems by (simp add: add_stats_def wrap64_add)
  from Cons.IH [OF this] show ?case by (simp add: add.assoc)
qed simp

lemma fold_add_stats_age:
  "LastBacklogAge (fold add_stats sts m) = Max (set (LastBacklogAge m # List.map ApproximateBacklogAge sts))"
proof (induction sts arbitrary: m)
  case (Cons st sts)
  show ?case
    using Cons.IH [of "add_stats st m"]
    by (cases "sts = []") (simp_all add: add_stats_def max.assoc max.left_commute max.commute)
qed simp

text \<open>The metrics that a group of task types gets of a snapshot are those of its own types: the
  backlog of a type is the sum over the queues of that type that report stats (in 64 bits), its
  age the largest of their ages, and types that the group does not serve have no metrics.\<close>

theorem snapshot_metrics_by_type:
  assumes "envDescribeStats env = Inr (Some queues)" and "pullScalingMetricsSnapshot env = Inr s"
    and "filterScalingMetricsSnapshotByTaskTypes (Some s) types = Some s'"
    and "t \<in> set scalableTaskQueueTypes"
  shows "(t \<notin> set types \<longrightarrow> metrics_of t s' = None)
    \<and> (t \<in> set types \<longrightarrow> (\<exists>m. metrics_of t s' = Some m
        \<and> LastBacklogCount m =
            wrap64 (\<Sum>st \<leftarrow> stats_of t queues. ApproximateBacklogCount st)
        \<and> LastBacklogAge m = Max (set (0 # List.map ApproximateBacklogAge (stats_of t queues)))))"
proof -
  have s: "metrics_of t s = Some (fold add_stats (stats_of t queues) zero_metrics)"
    using assms(1,2,4) fold_add_queue [OF assms(4), of queues]
    by (auto simp: pullScalingMetricsSnapshot_def scalable_cases)
  have "metrics_of t s' = (if t \<in> set types then metrics_of t s else None)"
    using assms(3,4) by (auto simp: filterScalingMetricsSnapshotByTaskTypes_def scalable_cases)
  moreover have "LastBacklogCount zero_metrics = wrap64 0" "LastBacklogAge zero_metrics = 0"
    by (simp_all add: zero_metrics_def wrap64_def)
  ultimately show ?thesis
    using s fold_add_stats_backlog [of zero_metrics 0] fold_add_stats_age [of _ zero_metrics] by simp
qed

theorem snapshot_metrics_by_type_witness:
  "\<exists>s s' m. pullScalingMetricsSnapshot sample_env = Inr s
    \<and> filterScalingMetricsSnapshotByTaskTypes (Some s) [TASK_QUEUE_TYPE_WORKFLOW] = Some s'
    \<and> metrics_of TASK_QUEUE_TYPE_WORKFLOW s' = Some m \<and> LastBacklogCount m = 5"
proof -
  obtain queues where q: "envDescribeStats sample_env = Inr (Some queues)"
    "(\<Sum>st \<leftarrow> stats_of TASK_QUEUE_TYPE_WORKFLOW queues. ApproximateBacklogCount st) = 5"
    by (simp add: sample_env_def stats_of_def map_filter_simps)
  obtain s where s: "pullScalingMetricsSnapshot sample_env = Inr s"
    using q(1) by (simp add: pullScalingMetricsSnapshot_def)
  obtain s' where s': "filterScalingMetricsSnapshotByTaskTypes (Some s) [TASK_QUEUE_TYPE_WORKFLOW] = Some s'"
    by (simp add: filterScalingMetricsSnapshotByTaskTypes_def)
  have "TASK_QUEUE_TYPE_WORKFLOW \<in> set scalableTaskQueueTypes" by (simp add: scalable_cases)
  from snapshot_metrics_by_type [OF q(1) s s' this] s s' q(2) show ?thesis
    by (auto simp: wrap64_def)
qed

end
