(* ===== verification/SpecUpdate.thy ===== *)
theory SpecUpdate
  imports Spec
begin

text \<open>
  \<open>src/wci/workflow/iface/spec_update.go\<close> with the request types of \<open>workflow.go\<close>: applying a
  field mask to a scaling group, and building the specification an update asks for together with
  the list of groups whose compute provider it leaves as is (the caller skips their provider
  validation).

  \<open>workflow.DeterministicKeys\<close> of the workflow SDK is a parameter that acts on the list of keys
  of a map; the locale \<open>deterministic_keys\<close> holds what its documentation promises, that it lists
  exactly the keys, each once.  \<open>applied_group\<close> and \<open>updated_group\<close> are the specification: what
  an update does to one group, without the order in which the code visits the groups.
\<close>

section \<open>Requests\<close>

record ScalingGroupSpecUpdate =
  UpdateSpec :: ScalingGroupSpec
  UpdateMask :: "string list"

record UpdateWorkerControllerInstanceRequest =
  Identity :: string
  RequestConflictToken :: "string option"
  UpsertScalingGroups :: "(string, ScalingGroupSpecUpdate) gomap"
  RemoveScalingGroups :: "string list"

datatype update_error =
    ScalerTypeNotProvided
  | ScalerDetailsNotProvided
  | UnsupportedPath string

section \<open>Field masks\<close>

definition emptyScalingAlgorithmSpec :: ScalingAlgorithmSpec where
  "emptyScalingAlgorithmSpec = \<lparr>ScalingAlgorithm = '''', AlgorithmConfig = None\<rparr>"

text \<open>The body of the loop of \<open>applyFieldMask\<close>: one path.  \<open>proto.Clone\<close> is the identity on
  values.\<close>

definition apply_path ::
    "ScalingGroupSpec \<Rightarrow> ScalingGroupSpec \<Rightarrow> string \<Rightarrow> update_error + ScalingGroupSpec" where
  "apply_path dst src path =
    (if path = ''task_queue_types'' then Inr (dst\<lparr>TaskTypes := TaskTypes src\<rparr>)
     else if path = ''region_ids'' then Inr (dst\<lparr>RegionIds := RegionIds src\<rparr>)
     else if path = ''provider'' then Inr (dst\<lparr>Compute := Compute src\<rparr>)
     else if path = ''provider.type'' then
       Inr (dst\<lparr>Compute := (Compute dst)\<lparr>ProviderType := ProviderType (Compute src)\<rparr>\<rparr>)
     else if path = ''provider.details'' then
       Inr (dst\<lparr>Compute := (Compute dst)\<lparr>ProviderConfig := ProviderConfig (Compute src)\<rparr>\<rparr>)
     else if path = ''provider.nexus_endpoint'' then
       Inr (dst\<lparr>Compute := (Compute dst)\<lparr>NexusEndpoint := NexusEndpoint (Compute src)\<rparr>\<rparr>)
     else if path = ''scaler'' then Inr (dst\<lparr>Scaling := Scaling src\<rparr>)
     else if path = ''scaler.type'' then
       (case Scaling src of
          None \<Rightarrow> Inl ScalerTypeNotProvided
        | Some s \<Rightarrow>
            (let d = (case Scaling dst of None \<Rightarrow> emptyScalingAlgorithmSpec | Some d \<Rightarrow> d)
             in Inr (dst\<lparr>Scaling := Some (d\<lparr>ScalingAlgorithm := ScalingAlgorithm s\<rparr>)\<rparr>)))
     else if path = ''scaler.details'' then
       (case Scaling src of
          None \<Rightarrow> Inl ScalerDetailsNotProvided
        | Some s \<Rightarrow>
            (let d = (case Scaling dst of None \<Rightarrow> emptyScalingAlgorithmSpec | Some d \<Rightarrow> d)
             in Inr (dst\<lparr>Scaling := Some (d\<lparr>AlgorithmConfig := AlgorithmConfig s\<rparr>)\<rparr>)))
     else Inl (UnsupportedPath path))"

fun applyFieldMask ::
    "ScalingGroupSpec \<Rightarrow> ScalingGroupSpec \<Rightarrow> string list \<Rightarrow> update_error + ScalingGroupSpec" where
  "applyFieldMask dst src [] = Inr dst"
| "applyFieldMask dst src (path # paths) = (case apply_path dst src path of
     Inl e \<Rightarrow> Inl e
   | Inr dst' \<Rightarrow> applyFieldMask dst' src paths)"

section \<open>Building the updated specification\<close>

fun clone_groups ::
    "(string \<times> ScalingGroupSpec) list \<Rightarrow> (string, ScalingGroupSpec) gomap
      \<Rightarrow> (string, ScalingGroupSpec) gomap" where
  "clone_groups [] newGroups = newGroups"
| "clone_groups ((name, sg) # gs) newGroups =
     clone_groups gs (AList.update name (Clone sg) newGroups)"

definition cloned_groups ::
    "WorkerControllerInstanceSpec option \<Rightarrow> (string, ScalingGroupSpec) gomap" where
  "cloned_groups current = (case current of
     None \<Rightarrow> [] | Some c \<Rightarrow> clone_groups (ScalingGroupSpecs c) [])"

text \<open>The nexus endpoint isn't part of provider validation.\<close>

definition touches_provider :: "string list \<Rightarrow> bool" where
  "touches_provider paths \<longleftrightarrow>
     (\<exists>path \<in> set paths. HasPrefix path ''provider'' \<and> path \<noteq> ''provider.nexus_endpoint'')"

text \<open>The body of the upsert loop, on the pair (newGroups, groups without provider changes).\<close>

definition apply_upsert ::
    "string \<Rightarrow> ScalingGroupSpecUpdate \<Rightarrow> (string, ScalingGroupSpec) gomap \<times> string list
      \<Rightarrow> update_error + (string, ScalingGroupSpec) gomap \<times> string list" where
  "apply_upsert name update st = (case st of (newGroups, unchanged) \<Rightarrow>
    (case map_of newGroups name of
       None \<Rightarrow> Inr (AList.update name (Clone (UpdateSpec update)) newGroups, unchanged)
     | Some existing \<Rightarrow>
        (if UpdateMask update = [] then Inr (newGroups, unchanged)
         else (case applyFieldMask existing (UpdateSpec update) (UpdateMask update) of
            Inl e \<Rightarrow> Inl e
          | Inr existing' \<Rightarrow>
              Inr (AList.update name existing' newGroups,
                   if touches_provider (UpdateMask update)
                   then filter (\<lambda>n. n \<noteq> name) unchanged else unchanged)))))"

fun apply_upserts ::
    "(string, ScalingGroupSpecUpdate) gomap \<Rightarrow> string list
      \<Rightarrow> (string, ScalingGroupSpec) gomap \<times> string list
      \<Rightarrow> update_error + (string, ScalingGroupSpec) gomap \<times> string list" where
  "apply_upserts upserts [] st = Inr st"
| "apply_upserts upserts (name # names) st = (case map_of upserts name of
     None \<Rightarrow> apply_upserts upserts names st
   | Some update \<Rightarrow> (case apply_upsert name update st of
       Inl e \<Rightarrow> Inl e
     | Inr st' \<Rightarrow> apply_upserts upserts names st'))"

definition BuildUpdatedSpec ::
    "(string list \<Rightarrow> string list) \<Rightarrow> WorkerControllerInstanceSpec option
      \<Rightarrow> UpdateWorkerControllerInstanceRequest
      \<Rightarrow> update_error + WorkerControllerInstanceSpec \<times> string list" where
  "BuildUpdatedSpec DeterministicKeys current args =
    (let newGroups = cloned_groups current;
         unchanged = (if UpsertScalingGroups args \<noteq> [] \<or> RemoveScalingGroups args \<noteq> []
           then filter (\<lambda>name. name \<notin> set (RemoveScalingGroups args))
                  (DeterministicKeys (keys newGroups))
           else [])
     in (case apply_upserts (UpsertScalingGroups args)
              (DeterministicKeys (keys (UpsertScalingGroups args))) (newGroups, unchanged) of
           Inl e \<Rightarrow> Inl e
         | Inr (newGroups', unchanged') \<Rightarrow>
             Inr (\<lparr>ScalingGroupSpecs =
                    fold AList.delete (RemoveScalingGroups args) newGroups'\<rparr>, unchanged')))"

section \<open>The effect of a field mask\<close>

definition known_paths :: "string list" where
  "known_paths = [''task_queue_types'', ''region_ids'', ''provider'', ''provider.type'',
     ''provider.details'', ''provider.nexus_endpoint'', ''scaler'', ''scaler.type'',
     ''scaler.details'']"

definition path_ok :: "ScalingGroupSpec \<Rightarrow> string \<Rightarrow> bool" where
  "path_ok src path \<longleftrightarrow> path \<in> set known_paths
     \<and> (Scaling src = None \<longrightarrow> path \<noteq> ''scaler.type'' \<and> path \<noteq> ''scaler.details'')"

lemma apply_path_ok: "(\<exists>g. apply_path dst src path = Inr g) \<longleftrightarrow> path_ok src path"
  by (cases "Scaling src") (auto simp: apply_path_def path_ok_def known_paths_def Let_def)

lemma applyFieldMask_ok:
  "(\<exists>g. applyFieldMask dst src paths = Inr g) \<longleftrightarrow> (\<forall>path \<in> set paths. path_ok src path)"
proof (induction paths arbitrary: dst)
  case Nil
  then show ?case by simp
next
  case (Cons path paths)
  show ?case
  proof (cases "apply_path dst src path")
    case (Inl e)
    with apply_path_ok [of dst src path] show ?thesis by auto
  next
    case (Inr g)
    with apply_path_ok [of dst src path] Cons.IH [of g] show ?thesis by auto
  qed
qed

text \<open>Each field of the result is the source's or the destination's, as the mask says.\<close>

definition chosen :: "bool \<Rightarrow> 'a \<Rightarrow> 'a \<Rightarrow> 'a" where
  "chosen b x y = (if b then x else y)"

lemma apply_path_fields:
  assumes "apply_path dst src path = Inr g"
  shows "TaskTypes g = chosen (path = ''task_queue_types'') (TaskTypes src) (TaskTypes dst)"
    and "RegionIds g = chosen (path = ''region_ids'') (RegionIds src) (RegionIds dst)"
    and "ProviderType (Compute g) = chosen (path = ''provider'' \<or> path = ''provider.type'')
      (ProviderType (Compute src)) (ProviderType (Compute dst))"
    and "ProviderConfig (Compute g) = chosen (path = ''provider'' \<or> path = ''provider.details'')
      (ProviderConfig (Compute src)) (ProviderConfig (Compute dst))"
    and "NexusEndpoint (Compute g) =
      chosen (path = ''provider'' \<or> path = ''provider.nexus_endpoint'')
        (NexusEndpoint (Compute src)) (NexusEndpoint (Compute dst))"
    and "\<not> HasPrefix path ''scaler'' \<Longrightarrow> Scaling g = Scaling dst"
    and "path = ''scaler'' \<Longrightarrow> Scaling g = Scaling src"
    and "HasPrefix path ''scaler'' \<Longrightarrow> Scaling dst = Scaling src \<Longrightarrow> Scaling g = Scaling src"
  using assms
  by (auto simp: apply_path_def chosen_def HasPrefix_def Let_def split: if_splits option.splits)

lemma applyFieldMask_fields:
  assumes "applyFieldMask dst src paths = Inr g"
  shows "TaskTypes g = chosen (''task_queue_types'' \<in> set paths) (TaskTypes src) (TaskTypes dst)
    \<and> RegionIds g = chosen (''region_ids'' \<in> set paths) (RegionIds src) (RegionIds dst)
    \<and> ProviderType (Compute g) =
        chosen (''provider'' \<in> set paths \<or> ''provider.type'' \<in> set paths)
          (ProviderType (Compute src)) (ProviderType (Compute dst))
    \<and> ProviderConfig (Compute g) =
        chosen (''provider'' \<in> set paths \<or> ''provider.details'' \<in> set paths)
          (ProviderConfig (Compute src)) (ProviderConfig (Compute dst))
    \<and> NexusEndpoint (Compute g) =
        chosen (''provider'' \<in> set paths \<or> ''provider.nexus_endpoint'' \<in> set paths)
          (NexusEndpoint (Compute src)) (NexusEndpoint (Compute dst))"
  using assms
proof (induction paths arbitrary: dst)
  case Nil
  then show ?case by (simp add: chosen_def)
next
  case (Cons path paths)
  then obtain d where d: "apply_path dst src path = Inr d" "applyFieldMask d src paths = Inr g"
    by (auto split: sum.splits)
  note fields = apply_path_fields(1-5) [OF d(1)]
  from Cons.IH [OF d(2)] show ?case
    unfolding fields by (simp add: chosen_def)
qed

lemma applyFieldMask_scaling_same:
  "applyFieldMask dst src paths = Inr g \<Longrightarrow> Scaling dst = Scaling src \<Longrightarrow> Scaling g = Scaling src"
proof (induction paths arbitrary: dst)
  case (Cons path paths)
  then obtain d where "apply_path dst src path = Inr d" "applyFieldMask d src paths = Inr g"
    by (auto split: sum.splits)
  with Cons.prems(2) Cons.IH [of d] apply_path_fields(6,8) [of dst src path d] show ?case
    by metis
qed simp

lemma applyFieldMask_scaling:
  "applyFieldMask dst src paths = Inr g \<Longrightarrow>
    Scaling g = Scaling src \<or> ''scaler'' \<notin> set paths"
  "applyFieldMask dst src paths = Inr g \<Longrightarrow>
    \<forall>path \<in> set paths. \<not> HasPrefix path ''scaler'' \<Longrightarrow> Scaling g = Scaling dst"
proof (induction paths arbitrary: dst)
  case (Cons path paths)
  {
    case 1
    then obtain d where d: "apply_path dst src path = Inr d" "applyFieldMask d src paths = Inr g"
      by (auto split: sum.splits)
    then show ?case
      using Cons.IH(1) [OF d(2)] apply_path_fields(7) [OF d(1)]
        applyFieldMask_scaling_same [OF d(2)] by auto
  next
    case 2
    then obtain d where d: "apply_path dst src path = Inr d" "applyFieldMask d src paths = Inr g"
      by (auto split: sum.splits)
    then show ?case
      using 2 Cons.IH(2) [OF d(2)] apply_path_fields(6) [OF d(1)] by auto
  }
qed simp_all

section \<open>The effect of an update on one group\<close>

definition group_at ::
    "WorkerControllerInstanceSpec option \<Rightarrow> string \<Rightarrow> ScalingGroupSpec option" where
  "group_at current n = (case current of None \<Rightarrow> None | Some c \<Rightarrow> map_of (ScalingGroupSpecs c) n)"

definition applied_group ::
    "ScalingGroupSpec option \<Rightarrow> ScalingGroupSpecUpdate option
      \<Rightarrow> update_error + ScalingGroupSpec option" where
  "applied_group existing update = (case (existing, update) of
     (g, None) \<Rightarrow> Inr g
   | (None, Some u) \<Rightarrow> Inr (Some (UpdateSpec u))
   | (Some g, Some u) \<Rightarrow>
      (if UpdateMask u = [] then Inr (Some g)
       else (case applyFieldMask g (UpdateSpec u) (UpdateMask u) of
          Inl e \<Rightarrow> Inl e | Inr g' \<Rightarrow> Inr (Some g'))))"

definition updated_group ::
    "WorkerControllerInstanceSpec option \<Rightarrow> UpdateWorkerControllerInstanceRequest \<Rightarrow> string
      \<Rightarrow> update_error + ScalingGroupSpec option" where
  "updated_group current args n =
    (case applied_group (group_at current n) (map_of (UpsertScalingGroups args) n) of
       Inl e \<Rightarrow> Inl e
     | Inr g \<Rightarrow> Inr (if n \<in> set (RemoveScalingGroups args) then None else g))"

definition provider_update :: "ScalingGroupSpec option \<Rightarrow> ScalingGroupSpecUpdate option \<Rightarrow> bool" where
  "provider_update existing update \<longleftrightarrow>
     existing \<noteq> None \<and> (\<exists>u. update = Some u \<and> touches_provider (UpdateMask u))"

lemma clone_groups_map:
  "distinct (keys gs) \<Longrightarrow>
    map_of (clone_groups gs m) n = (case map_of gs n of Some v \<Rightarrow> Some v | None \<Rightarrow> map_of m n)"
proof (induction gs arbitrary: m)
  case (Cons kv gs)
  moreover have "map_of gs n = None" if "fst kv = n"
    using Cons.prems that by (auto simp: map_of_eq_None_iff)
  ultimately show ?case by (cases kv) (auto simp: map_simps split: option.split)
qed simp

lemma clone_groups_distinct: "distinct (keys m) \<Longrightarrow> distinct (keys (clone_groups gs m))"
  by (induction gs m rule: clone_groups.induct) auto

lemma cloned_groups_at:
  assumes "\<forall>c. current = Some c \<longrightarrow> distinct (keys (ScalingGroupSpecs c))"
  shows "map_of (cloned_groups current) = group_at current"
  using assms
  by (intro ext) (auto simp: cloned_groups_def group_at_def clone_groups_map split: option.split)

lemma cloned_groups_distinct: "distinct (keys (cloned_groups current))"
  by (simp add: cloned_groups_def clone_groups_distinct split: option.split)

lemma fold_delete_map:
  "map_of (fold AList.delete ns m) n = (if n \<in> set ns then None else map_of m n)"
  by (induction ns arbitrary: m) (auto simp: map_simps)

lemma fold_delete_distinct: "distinct (keys m) \<Longrightarrow> distinct (keys (fold AList.delete ns m))"
  by (induction ns arbitrary: m) auto

lemma touches_provider_Nil [simp]: "\<not> touches_provider []"
  by (simp add: touches_provider_def)

text \<open>One iteration of the upsert loop.\<close>

lemma apply_upsert_spec:
  "(case apply_upsert name u (m, un) of
     Inl e \<Rightarrow> applied_group (map_of m name) (Some u) = Inl e
   | Inr (m', un') \<Rightarrow> applied_group (map_of m name) (Some u) = Inr (map_of m' name)
       \<and> (\<forall>n. n \<noteq> name \<longrightarrow> map_of m' n = map_of m n)
       \<and> (distinct (keys m) \<longrightarrow> distinct (keys m'))
       \<and> set un' = {n \<in> set un. \<not> (n = name \<and> provider_update (map_of m name) (Some u))})"
  by (auto simp: apply_upsert_def applied_group_def provider_update_def map_simps
      split: option.splits sum.splits)

lemma apply_upserts_spec:
  assumes "distinct names" and "set names \<subseteq> set (keys ups)"
  shows "(case apply_upserts ups names (m, un) of
     Inl e \<Rightarrow> \<exists>n \<in> set names. applied_group (map_of m n) (map_of ups n) = Inl e
   | Inr (m', un') \<Rightarrow>
       (\<forall>n \<in> set names. applied_group (map_of m n) (map_of ups n) = Inr (map_of m' n))
       \<and> (\<forall>n. n \<notin> set names \<longrightarrow> map_of m' n = map_of m n)
       \<and> (distinct (keys m) \<longrightarrow> distinct (keys m'))
       \<and> set un' = {n \<in> set un. \<not> (n \<in> set names \<and> provider_update (map_of m n) (map_of ups n))})"
  using assms
proof (induction names arbitrary: m un)
  case Nil
  then show ?case by simp
next
  case (Cons name names)
  then have "name \<in> set (keys ups)" by simp
  then obtain u where u: "map_of ups name = Some u"
    by (cases "map_of ups name") (simp_all add: map_of_eq_None_iff)
  show ?case
  proof (cases "apply_upsert name u (m, un)")
    case (Inl e)
    with u apply_upsert_spec [where name = name and u = u and m = m and un = un] show ?thesis by auto
  next
    case (Inr st)
    obtain m1 un1 where st: "st = (m1, un1)" by fastforce
    have rest: "distinct names" "set names \<subseteq> set (keys ups)" "name \<notin> set names"
      using Cons.prems by auto
    from apply_upsert_spec [where name = name and u = u and m = m and un = un] Inr st have one:
      "applied_group (map_of m name) (Some u) = Inr (map_of m1 name)"
      "\<And>n. n \<noteq> name \<Longrightarrow> map_of m1 n = map_of m n"
      "distinct (keys m) \<Longrightarrow> distinct (keys m1)"
      "set un1 = {n \<in> set un. \<not> (n = name \<and> provider_update (map_of m name) (Some u))}"
      by auto
    have same: "map_of m1 n = map_of m n" if "n \<in> set names" for n
      using one(2) [of n] rest(3) that by blast
    note ih = Cons.IH [OF rest(1,2), where m = m1 and un = un1]
    show ?thesis
    proof (cases "apply_upserts ups names (m1, un1)")
      case (Inl e)
      with ih obtain n where n: "n \<in> set names" "applied_group (map_of m1 n) (map_of ups n) = Inl e"
        by auto
      with same have "applied_group (map_of m n) (map_of ups n) = Inl e" by simp
      with n(1) Inl \<open>apply_upsert name u (m, un) = Inr st\<close> st u show ?thesis by auto
    next
      case (Inr st2)
      obtain m2 un2 where st2: "st2 = (m2, un2)" by fastforce
      from ih Inr st2 have two:
        "\<And>n. n \<in> set names \<Longrightarrow> applied_group (map_of m1 n) (map_of ups n) = Inr (map_of m2 n)"
        "\<And>n. n \<notin> set names \<Longrightarrow> map_of m2 n = map_of m1 n"
        "distinct (keys m1) \<Longrightarrow> distinct (keys m2)"
        "set un2 = {n \<in> set un1. \<not> (n \<in> set names \<and> provider_update (map_of m1 n) (map_of ups n))}"
        by auto
      have res: "apply_upserts ups (name # names) (m, un) = Inr (m2, un2)"
        using u \<open>apply_upsert name u (m, un) = Inr st\<close> st Inr st2 by simp
      have A: "applied_group (map_of m n) (map_of ups n) = Inr (map_of m2 n)"
        if "n \<in> set (name # names)" for n
        using that two(1) [of n] two(2) [of name] one(1) u rest(3) same [of n] by auto
      have B: "map_of m2 n = map_of m n" if "n \<notin> set (name # names)" for n
        using that two(2) [of n] one(2) [of n] by auto
      have C: "set un2 = {n \<in> set un. \<not> (n \<in> set (name # names)
          \<and> provider_update (map_of m n) (map_of ups n))}"
        unfolding two(4) one(4) using u rest(3) same by auto
      from res A B C two(3) one(3) show ?thesis by simp
    qed
  qed
qed

lemma provider_paths:
  assumes "\<not> touches_provider paths"
  shows "''provider'' \<notin> set paths" "''provider.type'' \<notin> set paths"
    "''provider.details'' \<notin> set paths"
  using assms by (auto simp: touches_provider_def HasPrefix_def)

lemma applied_group_keeps_provider:
  assumes "applied_group (Some g) u = Inr a" and "\<not> provider_update (Some g) u"
  shows "\<exists>g'. a = Some g' \<and> ProviderType (Compute g') = ProviderType (Compute g)
    \<and> ProviderConfig (Compute g') = ProviderConfig (Compute g)"
proof (cases u)
  case None
  with assms(1) show ?thesis by (auto simp: applied_group_def)
next
  case (Some v)
  with assms(2) have "\<not> touches_provider (UpdateMask v)" by (simp add: provider_update_def)
  note paths = provider_paths [OF this]
  show ?thesis
    using assms(1) Some applyFieldMask_fields [of g "UpdateSpec v" "UpdateMask v"]
    by (auto simp: applied_group_def paths chosen_def split: if_splits sum.splits)
qed

section \<open>The interface of DeterministicKeys\<close>

locale deterministic_keys =
  fixes det_keys :: "string list \<Rightarrow> string list"
  assumes set_det_keys: "set (det_keys ks) = set ks"
    and distinct_det_keys: "distinct ks \<Longrightarrow> distinct (det_keys ks)"
begin

lemma upserts_result:
  assumes ups: "distinct (keys (UpsertScalingGroups args))"
    and cur: "\<forall>c. current = Some c \<longrightarrow> distinct (keys (ScalingGroupSpecs c))"
  shows "(case BuildUpdatedSpec det_keys current args of
     Inl e \<Rightarrow> \<exists>n. updated_group current args n = Inl e
   | Inr (spec, unchanged) \<Rightarrow>
       distinct (keys (ScalingGroupSpecs spec))
       \<and> (\<forall>n. updated_group current args n = Inr (map_of (ScalingGroupSpecs spec) n))
       \<and> set unchanged = {n. (UpsertScalingGroups args \<noteq> [] \<or> RemoveScalingGroups args \<noteq> [])
            \<and> group_at current n \<noteq> None \<and> n \<notin> set (RemoveScalingGroups args)
            \<and> \<not> provider_update (group_at current n) (map_of (UpsertScalingGroups args) n)})"
proof -
  define ups where "ups = UpsertScalingGroups args"
  define m where "m = cloned_groups current"
  define un where "un = (if UpsertScalingGroups args \<noteq> [] \<or> RemoveScalingGroups args \<noteq> []
    then filter (\<lambda>name. name \<notin> set (RemoveScalingGroups args)) (det_keys (keys m)) else [])"
  have at: "map_of m = group_at current" by (simp add: m_def cloned_groups_at [OF cur])
  have km: "n \<in> set (keys m) \<longleftrightarrow> group_at current n \<noteq> None" for n
    by (simp flip: at add: map_of_eq_None_iff)
  have names: "distinct (det_keys (keys ups))" "set (det_keys (keys ups)) \<subseteq> set (keys ups)"
    using assms by (simp_all add: ups_def set_det_keys distinct_det_keys)
  have absent: "applied_group (map_of m n) (map_of ups n) = Inr (map_of m n)"
    "\<not> provider_update (map_of m n) (map_of ups n)" if "n \<notin> set (det_keys (keys ups))" for n
  proof -
    have "map_of ups n = None" using that by (simp add: set_det_keys map_of_eq_None_iff)
    then show "applied_group (map_of m n) (map_of ups n) = Inr (map_of m n)"
      "\<not> provider_update (map_of m n) (map_of ups n)"
      by (simp_all add: applied_group_def provider_update_def split: option.split)
  qed
  have un: "set un = {n. (UpsertScalingGroups args \<noteq> [] \<or> RemoveScalingGroups args \<noteq> [])
      \<and> group_at current n \<noteq> None \<and> n \<notin> set (RemoveScalingGroups args)}"
    using km by (auto simp: un_def set_det_keys)
  have B: "BuildUpdatedSpec det_keys current args =
    (case apply_upserts ups (det_keys (keys ups)) (m, un) of
       Inl e \<Rightarrow> Inl e
     | Inr (m', un') \<Rightarrow>
         Inr (\<lparr>ScalingGroupSpecs = fold AList.delete (RemoveScalingGroups args) m'\<rparr>, un'))"
    by (simp add: BuildUpdatedSpec_def ups_def m_def un_def Let_def)
  note loop = apply_upserts_spec [OF names, where m = m and un = un]
  show ?thesis
  proof (cases "apply_upserts ups (det_keys (keys ups)) (m, un)")
    case (Inl e)
    with loop obtain n where "applied_group (map_of m n) (map_of ups n) = Inl e" by auto
    then have "updated_group current args n = Inl e"
      by (simp add: updated_group_def at ups_def)
    with Inl show ?thesis by (auto simp: B)
  next
    case (Inr st)
    obtain m' un' where st: "st = (m', un')" by fastforce
    from loop Inr st have r:
      "\<And>n. n \<in> set (det_keys (keys ups)) \<Longrightarrow>
         applied_group (map_of m n) (map_of ups n) = Inr (map_of m' n)"
      "\<And>n. n \<notin> set (det_keys (keys ups)) \<Longrightarrow> map_of m' n = map_of m n"
      "distinct (keys m) \<Longrightarrow> distinct (keys m')"
      "set un' = {n \<in> set un. \<not> (n \<in> set (det_keys (keys ups))
         \<and> provider_update (map_of m n) (map_of ups n))}"
      by auto
    have one: "applied_group (map_of m n) (map_of ups n) = Inr (map_of m' n)" for n
      using r(1,2) absent(1) by (cases "n \<in> set (det_keys (keys ups))") simp_all
    have un': "set un' = {n \<in> set un. \<not> provider_update (map_of m n) (map_of ups n)}"
      unfolding r(4) using absent(2) by blast
    have d: "distinct (keys (fold AList.delete (RemoveScalingGroups args) m'))"
      using r(3) by (simp add: m_def cloned_groups_distinct fold_delete_distinct)
    have "updated_group current args n =
        Inr (map_of (fold AList.delete (RemoveScalingGroups args) m') n)" for n
      using one [of n] by (simp add: updated_group_def fold_delete_map at ups_def)
    moreover have "set un' = {n. (UpsertScalingGroups args \<noteq> [] \<or> RemoveScalingGroups args \<noteq> [])
        \<and> group_at current n \<noteq> None \<and> n \<notin> set (RemoveScalingGroups args)
        \<and> \<not> provider_update (group_at current n) (map_of (UpsertScalingGroups args) n)}"
      unfolding un' un at ups_def by blast
    ultimately show ?thesis using d by (simp add: B Inr st)
  qed
qed

end

interpretation sorted_keys: deterministic_keys sort
  by unfold_locales simp_all

section \<open>Properties\<close>

text \<open>A field mask writes what it names and nothing else: after a successful
  \<open>applyFieldMask\<close> every field is the request's where the mask names it or a path above it, and
  the old one otherwise.  It fails exactly when a path is unknown, or names a part of a scaler
  that the request does not have.\<close>

theorem field_mask_frame:
  "(case applyFieldMask dst src paths of
      Inl e \<Rightarrow> \<exists>path \<in> set paths. \<not> path_ok src path
    | Inr g \<Rightarrow> (\<forall>path \<in> set paths. path_ok src path)
        \<and> TaskTypes g = chosen (''task_queue_types'' \<in> set paths) (TaskTypes src) (TaskTypes dst)
        \<and> RegionIds g = chosen (''region_ids'' \<in> set paths) (RegionIds src) (RegionIds dst)
        \<and> ProviderType (Compute g) =
            chosen (''provider'' \<in> set paths \<or> ''provider.type'' \<in> set paths)
              (ProviderType (Compute src)) (ProviderType (Compute dst))
        \<and> ProviderConfig (Compute g) =
            chosen (''provider'' \<in> set paths \<or> ''provider.details'' \<in> set paths)
              (ProviderConfig (Compute src)) (ProviderConfig (Compute dst))
        \<and> NexusEndpoint (Compute g) =
            chosen (''provider'' \<in> set paths \<or> ''provider.nexus_endpoint'' \<in> set paths)
              (NexusEndpoint (Compute src)) (NexusEndpoint (Compute dst))
        \<and> (Scaling g = Scaling src \<or> ''scaler'' \<notin> set paths)
        \<and> (Scaling g = Scaling dst \<or> (\<exists>path \<in> set paths. HasPrefix path ''scaler'')))"
proof (cases "applyFieldMask dst src paths")
  case (Inl e)
  with applyFieldMask_ok [of dst src paths] show ?thesis by auto
next
  case (Inr g)
  then have "\<forall>path \<in> set paths. path_ok src path"
    using applyFieldMask_ok [of dst src paths] by auto
  with applyFieldMask_fields [OF Inr] applyFieldMask_scaling [OF Inr] show ?thesis
    unfolding Inr by simp blast
qed

text \<open>C25: \<open>BuildUpdatedSpec\<close> implements the update group by group: it fails exactly when the mask
  of some group fails, and otherwise each group of the result is the removed, the new, the
  masked or the untouched one that \<open>updated_group\<close> specifies, whatever the order in which the
  code visits the groups.\<close>

theorem build_updated_spec_refines:
  assumes "deterministic_keys dk" and "distinct (keys (UpsertScalingGroups args))"
    and "distinct (keys (ScalingGroupSpecs c))"
  shows "(case BuildUpdatedSpec dk (Some c) args of
     Inl e \<Rightarrow> \<exists>n. updated_group (Some c) args n = Inl e
   | Inr (spec, unchanged) \<Rightarrow>
       distinct (keys (ScalingGroupSpecs spec))
       \<and> (\<forall>n. updated_group (Some c) args n = Inr (map_of (ScalingGroupSpecs spec) n)))"
  using deterministic_keys.upserts_result [OF assms(1,2), of "Some c"] assms(3)
  by (auto split: sum.splits)

definition example_request :: UpdateWorkerControllerInstanceRequest where
  "example_request = \<lparr>Identity = ''me'', RequestConflictToken = None,
     UpsertScalingGroups =
       [(''workflows'', \<lparr>UpdateSpec = group_of [] [] ''gcp-cloud-run'', UpdateMask = [''provider.type'']\<rparr>),
        (''new'', \<lparr>UpdateSpec = group_of [] [''eu''] ''k8s'', UpdateMask = []\<rparr>)],
     RemoveScalingGroups = [''rest'']\<rparr>"

theorem build_updated_spec_refines_witness:
  "\<exists>spec unchanged. BuildUpdatedSpec sort (Some readme_spec) example_request = Inr (spec, unchanged)
     \<and> map_of (ScalingGroupSpecs spec) ''rest'' = None
     \<and> map_of (ScalingGroupSpecs spec) ''new'' = Some (group_of [] [''eu''] ''k8s'')"
proof -
  have ok: "\<exists>r. BuildUpdatedSpec sort (Some readme_spec) example_request = Inr r"
    by (rule exI) code_simp
  have d: "distinct (keys (UpsertScalingGroups example_request))"
    by code_simp
  have new: "updated_group (Some readme_spec) example_request ''new'' =
      Inr (Some (group_of [] [''eu''] ''k8s''))"
    "updated_group (Some readme_spec) example_request ''rest'' = Inr None"
    by code_simp+
  from ok obtain spec unchanged where
    r: "BuildUpdatedSpec sort (Some readme_spec) example_request = Inr (spec, unchanged)" by auto
  from build_updated_spec_refines [OF sorted_keys.deterministic_keys_axioms d readme_spec_ok(1)]
  have "\<forall>n. updated_group (Some readme_spec) example_request n =
      Inr (map_of (ScalingGroupSpecs spec) n)"
    unfolding r by simp
  with new r show ?thesis by (metis sum.inject(2))
qed

text \<open>C26: The groups that \<open>BuildUpdatedSpec\<close> reports as unchanged, whose provider validation the
  caller skips, are present before and after with the same provider type and configuration, and
  they are all the kept groups whose mask has no provider path; an empty request reports none.\<close>

theorem skipped_groups_keep_provider:
  assumes "deterministic_keys dk" and "distinct (keys (UpsertScalingGroups args))"
    and "distinct (keys (ScalingGroupSpecs c))"
    and "BuildUpdatedSpec dk (Some c) args = Inr (spec, unchanged)"
  shows "(\<forall>n \<in> set unchanged. \<exists>g g'. map_of (ScalingGroupSpecs c) n = Some g
        \<and> map_of (ScalingGroupSpecs spec) n = Some g'
        \<and> ProviderType (Compute g') = ProviderType (Compute g)
        \<and> ProviderConfig (Compute g') = ProviderConfig (Compute g))
    \<and> set unchanged = {n. (UpsertScalingGroups args \<noteq> [] \<or> RemoveScalingGroups args \<noteq> [])
        \<and> map_of (ScalingGroupSpecs c) n \<noteq> None \<and> n \<notin> set (RemoveScalingGroups args)
        \<and> \<not> (\<exists>u. map_of (UpsertScalingGroups args) n = Some u \<and> touches_provider (UpdateMask u))}"
proof -
  from deterministic_keys.upserts_result [OF assms(1,2), of "Some c"] assms(3,4)
  have all: "\<forall>n. updated_group (Some c) args n = Inr (map_of (ScalingGroupSpecs spec) n)"
    and un: "set unchanged = {n. (UpsertScalingGroups args \<noteq> [] \<or> RemoveScalingGroups args \<noteq> [])
      \<and> map_of (ScalingGroupSpecs c) n \<noteq> None \<and> n \<notin> set (RemoveScalingGroups args)
      \<and> \<not> provider_update (map_of (ScalingGroupSpecs c) n) (map_of (UpsertScalingGroups args) n)}"
    by (simp_all add: group_at_def)
  have "\<exists>g g'. map_of (ScalingGroupSpecs c) n = Some g
      \<and> map_of (ScalingGroupSpecs spec) n = Some g'
      \<and> ProviderType (Compute g') = ProviderType (Compute g)
      \<and> ProviderConfig (Compute g') = ProviderConfig (Compute g)" if n: "n \<in> set unchanged" for n
  proof -
    from n un obtain g where g: "map_of (ScalingGroupSpecs c) n = Some g"
      "n \<notin> set (RemoveScalingGroups args)"
      "\<not> provider_update (Some g) (map_of (UpsertScalingGroups args) n)" by auto
    from all have "updated_group (Some c) args n = Inr (map_of (ScalingGroupSpecs spec) n)"
      by blast
    with g obtain a where a: "applied_group (Some g) (map_of (UpsertScalingGroups args) n) = Inr a"
      "map_of (ScalingGroupSpecs spec) n = a"
      by (auto simp: updated_group_def group_at_def split: sum.splits)
    from a(1) g(3) have "\<exists>g'. a = Some g' \<and> ProviderType (Compute g') = ProviderType (Compute g)
        \<and> ProviderConfig (Compute g') = ProviderConfig (Compute g)"
      by (rule applied_group_keeps_provider)
    with g(1) a(2) show ?thesis by auto
  qed
  with un show ?thesis by (auto simp: provider_update_def)
qed

theorem skipped_groups_keep_provider_witness:
  "\<exists>spec unchanged. BuildUpdatedSpec sort (Some readme_spec) example_request = Inr (spec, unchanged)
     \<and> ''activities'' \<in> set unchanged \<and> ''workflows'' \<notin> set unchanged"
proof -
  have ok: "\<exists>r. BuildUpdatedSpec sort (Some readme_spec) example_request = Inr r"
    by (rule exI) code_simp
  then obtain spec unchanged where
    r: "BuildUpdatedSpec sort (Some readme_spec) example_request = Inr (spec, unchanged)" by auto
  have d: "distinct (keys (UpsertScalingGroups example_request))"
    by code_simp
  have "UpsertScalingGroups example_request \<noteq> []"
    "map_of (ScalingGroupSpecs readme_spec) ''activities'' \<noteq> None"
    "''activities'' \<notin> set (RemoveScalingGroups example_request)"
    "map_of (UpsertScalingGroups example_request) ''activities'' = None"
    "case map_of (UpsertScalingGroups example_request) ''workflows'' of
       Some u \<Rightarrow> touches_provider (UpdateMask u) | None \<Rightarrow> False"
    by code_simp+
  then show ?thesis
    using skipped_groups_keep_provider
      [OF sorted_keys.deterministic_keys_axioms d readme_spec_ok(1) r] r
    by (auto split: option.splits)
qed

theorem field_mask_frame_witness:
  "\<exists>g. applyFieldMask (group_of [] [''eu''] ''k8s'') (group_of [] [] ''aws-lambda'')
        [''provider.type''] = Inr g
    \<and> RegionIds g = [''eu''] \<and> ProviderType (Compute g) = ''aws-lambda''"
proof -
  have "\<exists>g. applyFieldMask (group_of [] [''eu''] ''k8s'') (group_of [] [] ''aws-lambda'')
      [''provider.type''] = Inr g"
    by (simp add: apply_path_def)
  then obtain g where g: "applyFieldMask (group_of [] [''eu''] ''k8s'') (group_of [] [] ''aws-lambda'')
      [''provider.type''] = Inr g" ..
  with field_mask_frame [where dst = "group_of [] [''eu''] ''k8s''"
      and src = "group_of [] [] ''aws-lambda''" and paths = "[''provider.type'']"]
  show ?thesis by (simp add: chosen_def group_of_def)
qed

end
