(* ===== verification/Runner.thy ===== *)
theory Runner
  imports Activities SpecUpdate
begin

text \<open>
  The workflow of one worker controller instance (\<open>workflow/workflow.go\<close>): the state it keeps,
  its update handlers, and what its run loop does for signals, polls and periodic validation.

  Workflow code runs cooperatively: a handler runs until it waits for something (an activity, a
  signal to another workflow, the mutex), and others may run before it goes on.  A handler is
  therefore a coroutine (\<open>co\<close>): it returns, or panics, or awaits a request with the code that
  resumes on the response, reading the state as it is then.  Code that has something left to do
  takes it as an argument, a continuation \<open>runner \<Rightarrow> runner \<times> 'r co\<close>; so a loop whose body
  waits keeps its place.

  \<^item> The record \<open>runner\<close> holds the fields of \<open>WorkflowRunner\<close> that change, the persisted local
    state, and what the code reads of the workflow runtime: the time (in nanoseconds), whether
    continue-as-new is suggested, the flag of the dynamic configuration, the mutex, the signal
    channel and the armed timers.
  \<^item> What an activity returns is part of its response; an error is an \<open>ApplicationError\<close> with
    its type and message, or another one (a timeout, a cancellation).
  \<^item> Logs and metrics are left out.  \<open>dk\<close> is \<open>workflow.DeterministicKeys\<close>.
\<close>

section \<open>State\<close>

record ValidationResult =
  LastValidationTime :: int
  ValidationSucceeded :: bool
  ErrMessage :: string

definition NewValidationStatusSuccess :: "int \<Rightarrow> ValidationResult" where
  "NewValidationStatusSuccess t =
    \<lparr>LastValidationTime = t, ValidationSucceeded = True, ErrMessage = ''''\<rparr>"

definition NewValidationStatusFailed :: "int \<Rightarrow> string \<Rightarrow> ValidationResult" where
  "NewValidationStatusFailed t msg =
    \<lparr>LastValidationTime = t, ValidationSucceeded = False, ErrMessage = msg\<rparr>"

record LocalState =
  StateSpec :: "WorkerControllerInstanceSpec option"
  ScalingStatus :: "status_map option"
  PendingTaskAddSignals :: "SignalTaskAddRequest list"
  NextPollTime :: "int option"
  StateConflictToken :: "string option"
  CreateTime :: "int option"
  ValidationStatus :: "ValidationResult option"

record runner =
  RunContext :: RequestContext
  RunState :: LocalState
  deleteInstance :: bool
  stateChanged :: bool
  forceCAN :: bool
  limitPendingTaskAddSignals :: bool
  useTimerSelector :: bool
  workflowVersion :: int
  timersCancelled :: bool
  pollTimer :: "int option"
  validationTimer :: "int option"
  lockHeld :: bool
  taskAddSignalChannel :: "SignalTaskAddRequest option list"
  currentTime :: int
  enabledFlag :: bool
  continueAsNewSuggested :: bool

definition on_state :: "(LocalState \<Rightarrow> LocalState) \<Rightarrow> runner \<Rightarrow> runner" where
  "on_state f d = d\<lparr>RunState := f (RunState d)\<rparr>"

abbreviation "maxPendingTaskAddSignals \<equiv> 4000 :: nat"
abbreviation "taskAddSignalBatchSizePerRunLoopIteration \<equiv> 100 :: nat"

abbreviation "PeriodicValidationVersion \<equiv> 1 :: int"
abbreviation "SignalVersionWorkflowVersion \<equiv> 2 :: int"
abbreviation "CancelTimersOnDeleteVersion \<equiv> 3 :: int"
abbreviation "CheckWorkerControllerEnabledVersion \<equiv> 4 :: int"

text \<open>The memo that a run writes when it begins.\<close>

record WorkerControllerInstanceMemo =
  MemoDeploymentName :: string
  MemoBuildId :: string
  MemoCreateTime :: "int option"

definition WorkerControllerInstanceMemoField :: string where
  "WorkerControllerInstanceMemoField = ''WorkerControllerInstanceMemo''"

definition updateMemo :: "runner \<Rightarrow> (string, WorkerControllerInstanceMemo) gomap" where
  "updateMemo d = [(WorkerControllerInstanceMemoField,
     \<lparr>MemoDeploymentName = RequestDeploymentName (RunContext d),
      MemoBuildId = DeploymentBuildID (RunContext d), MemoCreateTime = CreateTime (RunState d)\<rparr>)]"

section \<open>Requests, responses and coroutines\<close>

datatype call_error = AppError string string | OtherError string

datatype wf_request =
    CallValidateSpec ValidateSpecRequest
  | CallRegister InvokeWorkersToRegisterTaskQueuesRequest
  | CallPullStats PullStatsActivityRequest
  | CallTaskAdd HandleTaskAddSignalActivityRequest
  | CallDeferred HandleDeferredScalingDecisionActivityRequest
  | CallInvoke InvokeWorkerActivityRequest
  | CallResize UpdateWorkerSetSizeActivityRequest
  | CallSignalVersion ValidationResult
  | CallLock

datatype wf_response =
    ErrorResponse call_error
  | DoneResponse
  | RegisterResponse "status_map option"
  | PullResponse PullStatsActivityResponse
  | TaskAddedResponse HandleTaskAddSignalActivityResponse
  | DeferredResponse DeferredDecisionResponse

datatype 'r co =
    Return 'r
  | Panic string
  | Await wf_request "wf_response \<Rightarrow> runner \<Rightarrow> runner \<times> 'r co"

text \<open>A coroutine is finite along every sequence of responses; so it is not its own continuation.\<close>

lemma co_induct [case_names Return Panic Await]:
  assumes "\<And>x. P (Return x)" and "\<And>m. P (Panic m)"
    and "\<And>rq k. (\<And>r d. P (snd (k r d))) \<Longrightarrow> P (Await rq k)"
  shows "P (co :: 'r co)"
proof (induction co)
  case (Await rq k)
  have "P (snd (k r d))" for r d
    by (rule Await [of "k r" "k r d"]) (simp_all add: snds.simps)
  then show ?case by (rule assms(3))
qed (simp_all add: assms)

lemma co_progress: "snd (k r d) \<noteq> Await rq k"
proof -
  have "\<forall>rq k. co = Await rq k \<longrightarrow> (\<forall>r d. snd (k r d) \<noteq> co)" for co :: "'r co"
    by (induction co rule: co_induct) (simp_all, metis)
  then show ?thesis by blast
qed

type_synonym 'r segment = "runner \<Rightarrow> runner \<times> 'r co"

section \<open>Checks\<close>

definition hasMinVersion :: "runner \<Rightarrow> int \<Rightarrow> bool" where
  "hasMinVersion d version \<longleftrightarrow> workflowVersion d \<ge> version"

text \<open>The version of the logic, read once at the start of a run: \<open>patch\<close> is what \<open>GetVersion\<close> says of
  the change that introduced it (\<open>-1\<close>, the default version, in older runs), \<open>effect\<close> what the side
  effect recorded.\<close>

definition getWorkflowVersion :: "int \<Rightarrow> call_error + int \<Rightarrow> int" where
  "getWorkflowVersion patch effect =
    (if patch \<ge> 0 then (case effect of Inr ver \<Rightarrow> ver | Inl err \<Rightarrow> 0) else 0)"

definition workerControllerEnabled :: "runner \<Rightarrow> bool" where
  "workerControllerEnabled d \<longleftrightarrow>
     (if \<not> hasMinVersion d CheckWorkerControllerEnabledVersion then True else enabledFlag d)"

definition shouldContinueAsNew :: "runner \<Rightarrow> bool" where
  "shouldContinueAsNew d \<longleftrightarrow>
     deleteInstance d \<or> forceCAN d \<or> stateChanged d \<or> continueAsNewSuggested d"

datatype handler_error =
    WorkerControllerDisabled
  | InstanceDeleted
  | LongHistory
  | NoChangeFound
  | ConflictTokenMismatch
  | LockFailure
  | InvalidUpdate update_error
  | InvalidSpec spec_error
  | InvalidArgument string
  | ResourceExhausted string
  | FailedPrecondition string
  | CallFailed call_error

datatype handler_reply =
    Updated "WorkerControllerInstanceSpec option"
  | Deleted
  | Validated

type_synonym handler_result = "handler_error + handler_reply"

definition ensureEnabled :: "runner \<Rightarrow> handler_error option" where
  "ensureEnabled d = (if workerControllerEnabled d then None else Some WorkerControllerDisabled)"

definition ensureNotDeleted :: "runner \<Rightarrow> handler_error option" where
  "ensureNotDeleted d = (if deleteInstance d then Some InstanceDeleted else None)"

definition preUpdateChecks :: "runner \<Rightarrow> handler_error option" where
  "preUpdateChecks d = (case ensureNotDeleted d of
     Some e \<Rightarrow> Some e
   | None \<Rightarrow> (if continueAsNewSuggested d then Some LongHistory else None))"

section \<open>Signalling the version workflow\<close>

text \<open>The response, an error included, is only logged.\<close>

definition signalVersionWorkflow :: "'r segment \<Rightarrow> 'r segment" where
  "signalVersionWorkflow k d =
    (if \<not> hasMinVersion d SignalVersionWorkflowVersion then k d
     else (case ValidationStatus (RunState d) of
        None \<Rightarrow> k d
      | Some v \<Rightarrow> (d, Await (CallSignalVersion v) (\<lambda>_. k))))"

definition set_validation :: "ValidationResult \<Rightarrow> runner \<Rightarrow> runner" where
  "set_validation v = on_state (\<lambda>s. s\<lparr>ValidationStatus := Some v\<rparr>)"

section \<open>Update handlers\<close>

definition markDeleted :: "runner \<Rightarrow> runner" where
  "markDeleted d = d\<lparr>deleteInstance := True,
     timersCancelled := (if hasMinVersion d CancelTimersOnDeleteVersion then True else timersCancelled d)\<rparr>"

text \<open>The deferred function of the handlers that take the mutex.\<close>

definition unlock_and_return :: "'r \<Rightarrow> 'r segment" where
  "unlock_and_return x d = (d\<lparr>stateChanged := True, lockHeld := False\<rparr>, Return x)"

definition with_lock :: "handler_result segment \<Rightarrow> handler_result segment" where
  "with_lock critical d = (d, Await CallLock (\<lambda>r d. case r of
     DoneResponse \<Rightarrow> critical d
   | _ \<Rightarrow> (d, Return (Inl LockFailure))))"

text \<open>\<open>bytes.Equal\<close> does not tell a nil token from an empty one.\<close>

definition token_bytes :: "string option \<Rightarrow> string" where
  "token_bytes token = (case token of None \<Rightarrow> [] | Some b \<Rightarrow> b)"

definition validateUpdateInstance ::
    "UpdateWorkerControllerInstanceRequest \<Rightarrow> runner \<Rightarrow> handler_error option" where
  "validateUpdateInstance args d = (case ensureNotDeleted d of
     Some e \<Rightarrow> Some e
   | None \<Rightarrow>
      (if RemoveScalingGroups args = [] \<and> UpsertScalingGroups args = [] then Some NoChangeFound
       else if RequestConflictToken args \<noteq> None
               \<and> token_bytes (RequestConflictToken args) \<noteq> token_bytes (StateConflictToken (RunState d))
       then Some ConflictTokenMismatch else None))"

definition validateDeleteInstance :: "runner \<Rightarrow> handler_error option" where
  "validateDeleteInstance d = ensureNotDeleted d"

definition validateValidateSpec :: "runner \<Rightarrow> handler_error option" where
  "validateValidateSpec d = ensureNotDeleted d"

text \<open>The end of a successful update; between the two assignments the version workflow is
  signalled.\<close>

definition set_token_and_spec ::
    "UpdateWorkerControllerInstanceRequest \<Rightarrow> WorkerControllerInstanceSpec \<Rightarrow> runner \<Rightarrow> runner" where
  "set_token_and_spec args spec = on_state (\<lambda>s. s\<lparr>StateConflictToken := RequestConflictToken args,
     StateSpec := Some spec\<rparr>)"

definition set_scaling_status :: "status_map option \<Rightarrow> runner \<Rightarrow> runner" where
  "set_scaling_status m = on_state (\<lambda>s. s\<lparr>ScalingStatus := m\<rparr>)"

definition register_error :: "call_error \<Rightarrow> handler_error" where
  "register_error e = (case e of
     AppError t msg \<Rightarrow>
       (if t = ''InvalidArgument'' then InvalidArgument msg
        else if t = ''ResourceExhausted'' then ResourceExhausted msg
        else FailedPrecondition msg)
   | OtherError msg \<Rightarrow> CallFailed e)"

definition update_registered ::
    "UpdateWorkerControllerInstanceRequest \<Rightarrow> WorkerControllerInstanceSpec \<Rightarrow> int
      \<Rightarrow> wf_response \<Rightarrow> handler_result segment" where
  "update_registered args updatedSpec validationTime r d = (case r of
     RegisterResponse status \<Rightarrow>
       signalVersionWorkflow
         (\<lambda>d. let d' = set_token_and_spec args updatedSpec d
               in unlock_and_return (Inr (Updated (StateSpec (RunState d')))) d')
         (set_validation (NewValidationStatusSuccess validationTime) (set_scaling_status status d))
   | ErrorResponse e \<Rightarrow> unlock_and_return (Inl (register_error e)) d
   | _ \<Rightarrow> unlock_and_return (Inl (CallFailed (OtherError ''''))) d)"

definition update_validated ::
    "UpdateWorkerControllerInstanceRequest \<Rightarrow> WorkerControllerInstanceSpec \<Rightarrow> int
      \<Rightarrow> wf_response \<Rightarrow> handler_result segment" where
  "update_validated args updatedSpec validationTime r d = (case r of
     ErrorResponse (AppError t msg) \<Rightarrow> unlock_and_return (Inl (InvalidArgument msg)) d
   | ErrorResponse (OtherError msg) \<Rightarrow> unlock_and_return (Inl (CallFailed (OtherError msg))) d
   | _ \<Rightarrow> (d, Await (CallRegister
       \<lparr>RegisterContext = RunContext d, RegisterSpec = updatedSpec,
        RegisterScalingStatus = ScalingStatus (RunState d)\<rparr>)
      (update_registered args updatedSpec validationTime)))"

definition update_locked ::
    "(string list \<Rightarrow> string list) \<Rightarrow> UpdateWorkerControllerInstanceRequest
      \<Rightarrow> handler_result segment" where
  "update_locked dk args d = (case BuildUpdatedSpec dk (StateSpec (RunState d)) args of
     Inl e \<Rightarrow> unlock_and_return (Inl (InvalidUpdate e)) d
   | Inr (updatedSpec, unchanged) \<Rightarrow>
      (if ScalingGroupSpecs updatedSpec = [] then
         unlock_and_return (Inr (Updated (Some updatedSpec)))
           (set_token_and_spec args updatedSpec (markDeleted d))
       else (case Validate (Some updatedSpec) of
         Some e \<Rightarrow> unlock_and_return (Inl (InvalidSpec e)) d
       | None \<Rightarrow> (d, Await (CallValidateSpec
           \<lparr>ValidateContext = RunContext d, ValidateSpecOf = Some updatedSpec,
            ScalingGroupsToSkipProviderValidation = unchanged\<rparr>)
          (update_validated args updatedSpec (currentTime d))))))"

definition handleUpdateInstance ::
    "(string list \<Rightarrow> string list) \<Rightarrow> UpdateWorkerControllerInstanceRequest
      \<Rightarrow> handler_result segment" where
  "handleUpdateInstance dk args d = (case ensureEnabled d of
     Some e \<Rightarrow> (d, Return (Inl e))
   | None \<Rightarrow> (case preUpdateChecks d of
       Some e \<Rightarrow> (d, Return (Inl e))
     | None \<Rightarrow> with_lock (update_locked dk args) d))"

definition handleDeleteInstance :: "handler_result segment" where
  "handleDeleteInstance d = (case preUpdateChecks d of
     Some e \<Rightarrow> (d, Return (Inl e))
   | None \<Rightarrow> with_lock (\<lambda>d. unlock_and_return (Inr Deleted) (markDeleted d)) d)"

text \<open>A dry run takes no mutex; only one without changes records its outcome.\<close>

definition validate_done :: "bool \<Rightarrow> wf_response \<Rightarrow> handler_result segment" where
  "validate_done no_changes r d = (case r of
     ErrorResponse (AppError t msg) \<Rightarrow>
       (if no_changes
        then signalVersionWorkflow (\<lambda>d. (d, Return (Inl (InvalidArgument msg))))
               (set_validation (NewValidationStatusFailed (currentTime d) msg) d)
        else (d, Return (Inl (InvalidArgument msg))))
   | ErrorResponse (OtherError msg) \<Rightarrow> (d, Return (Inl (CallFailed (OtherError msg))))
   | _ \<Rightarrow>
       (if no_changes
        then signalVersionWorkflow (\<lambda>d. (d, Return (Inr Validated)))
               (set_validation (NewValidationStatusSuccess (currentTime d)) d)
        else (d, Return (Inr Validated))))"

definition handleValidateSpec ::
    "(string list \<Rightarrow> string list) \<Rightarrow> UpdateWorkerControllerInstanceRequest
      \<Rightarrow> handler_result segment" where
  "handleValidateSpec dk args d = (case ensureEnabled d of
     Some e \<Rightarrow> (d, Return (Inl e))
   | None \<Rightarrow> (case preUpdateChecks d of
       Some e \<Rightarrow> (d, Return (Inl e))
     | None \<Rightarrow> (case BuildUpdatedSpec dk (StateSpec (RunState d)) args of
         Inl e \<Rightarrow> (d, Return (Inl (InvalidUpdate e)))
       | Inr (updatedSpec, unchanged) \<Rightarrow> (case Validate (Some updatedSpec) of
           Some e \<Rightarrow> (d, Return (Inl (InvalidSpec e)))
         | None \<Rightarrow> (d, Await (CallValidateSpec
             \<lparr>ValidateContext = RunContext d, ValidateSpecOf = Some updatedSpec,
              ScalingGroupsToSkipProviderValidation = unchanged\<rparr>)
            (validate_done (RemoveScalingGroups args = [] \<and> UpsertScalingGroups args = [])))))))"

section \<open>Scaling actions\<close>

text \<open>\<open>handleActions\<close> returns at once when there is no specification, and then reads the group of
  each action from the specification as it is at that moment.\<close>

definition group_spec :: "runner \<Rightarrow> string \<Rightarrow> ScalingGroupSpec option" where
  "group_spec d key = (case StateSpec (RunState d) of
     None \<Rightarrow> None | Some spec \<Rightarrow> map_of (ScalingGroupSpecs spec) key)"

text \<open>A failed start or resize marks the specification as failed when it is an application
  error.\<close>

definition action_done :: "int \<Rightarrow> 'r segment \<Rightarrow> wf_response \<Rightarrow> 'r segment" where
  "action_done now next r d = (case r of
     ErrorResponse (AppError t msg) \<Rightarrow>
       signalVersionWorkflow next (set_validation (NewValidationStatusFailed now msg) d)
   | _ \<Rightarrow> next d)"

definition dispatch_invoke :: "ScalingGroupSpec \<Rightarrow> 'r segment \<Rightarrow> 'r segment" where
  "dispatch_invoke spec next d =
    (d, Await (CallInvoke \<lparr>InvokeContext = RunContext d, InvokeComputeConfig = Some (Compute spec)\<rparr>)
       (action_done (currentTime d) next))"

definition dispatch_resize :: "ScalingGroupSpec \<Rightarrow> ScalingAction \<Rightarrow> 'r segment \<Rightarrow> 'r segment" where
  "dispatch_resize spec action next d =
    (case (case Count action of None \<Rightarrow> Some 1 | Some n \<Rightarrow> if n < 0 then None else Some n) of
       None \<Rightarrow> next d
     | Some count \<Rightarrow>
        (d, Await (CallResize \<lparr>ResizeContext = RunContext d,
              ResizeComputeConfig = Some (Compute spec), UpdatedSize = count\<rparr>)
           (action_done (currentTime d) next)))"

text \<open>The loop over the actions; what happens to a deferred decision depends on whether there is
  a task-add that it came from, and is an argument.\<close>

fun handle_actions_loop ::
    "(ScalingGroupSpec \<Rightarrow> ScalingAction \<Rightarrow> 'r segment \<Rightarrow> 'r segment)
      \<Rightarrow> ScalingAction list \<Rightarrow> 'r segment \<Rightarrow> 'r segment" where
  "handle_actions_loop deferred [] k = k"
| "handle_actions_loop deferred (action # actions) k =
    (\<lambda>d. let next = handle_actions_loop deferred actions k
      in if ScalingGroupKey action = '''' then next d
         else (case group_spec d (ScalingGroupKey action) of
           None \<Rightarrow> next d
         | Some spec \<Rightarrow> (case Action action of
              ActionTypeDeferredScalingDecision \<Rightarrow> deferred spec action next d
            | ActionTypeInvokeWorker \<Rightarrow> dispatch_invoke spec next d
            | ActionTypeUpdateWorkerSetSize \<Rightarrow> dispatch_resize spec action next d)))"

text \<open>Without a source request, as in the nested call, a deferred decision is dropped.\<close>

definition handleActionsWithoutRequest :: "ScalingAction list \<Rightarrow> 'r segment \<Rightarrow> 'r segment" where
  "handleActionsWithoutRequest actions k d =
    (if StateSpec (RunState d) = None then k d
     else handle_actions_loop (\<lambda>spec action next. next) actions k d)"

text \<open>Writing to an entry of a nil map panics.\<close>

definition set_group_status :: "string \<Rightarrow> ScalingAlgorithmStatus \<Rightarrow> 'r segment \<Rightarrow> 'r segment" where
  "set_group_status key s next d = (case ScalingStatus (RunState d) of
     None \<Rightarrow> (d, Panic ''assignment to entry in nil map'')
   | Some m \<Rightarrow> next (set_scaling_status (Some (AList.update key s m)) d))"

definition deferred_done :: "string \<Rightarrow> 'r segment \<Rightarrow> wf_response \<Rightarrow> 'r segment" where
  "deferred_done key next r d = (case r of
     DeferredResponse resp \<Rightarrow>
       (if DeferredUpdatedStatus resp \<noteq> None
        then set_group_status key (DeferredUpdatedStatus resp)
               (handleActionsWithoutRequest (DeferredActions resp) next) d
        else handleActionsWithoutRequest (DeferredActions resp) next d)
   | _ \<Rightarrow> next d)"

definition dispatch_deferred ::
    "SignalTaskAddRequest \<Rightarrow> ScalingGroupSpec \<Rightarrow> ScalingAction \<Rightarrow> 'r segment \<Rightarrow> 'r segment" where
  "dispatch_deferred taskAddRequest spec action next d =
    (if Count action \<noteq> None then next d
     else (d, Await (CallDeferred
       \<lparr>DeferredContext = RunContext d, DeferredRequest = taskAddRequest,
        DeferredGroupKey = ScalingGroupKey action, DeferredGroupSpec = spec,
        DeferredTaskTypes = (if EffectiveTaskTypes action = []
          then EffectiveTaskTypesForGroup (StateSpec (RunState d)) (ScalingGroupKey action) ''''
          else EffectiveTaskTypes action),
        DeferredStatus = status_at (ScalingStatus (RunState d)) (ScalingGroupKey action)\<rparr>)
      (deferred_done (ScalingGroupKey action) next)))"

definition handleActions ::
    "ScalingAction list \<Rightarrow> SignalTaskAddRequest option \<Rightarrow> 'r segment \<Rightarrow> 'r segment" where
  "handleActions actions taskAddRequest k d = (case taskAddRequest of
     None \<Rightarrow> handleActionsWithoutRequest actions k d
   | Some req \<Rightarrow>
      (if StateSpec (RunState d) = None then k d
       else handle_actions_loop (dispatch_deferred req) actions k d))"

section \<open>Signals\<close>

definition apply_status :: "status_map option \<Rightarrow> runner \<Rightarrow> runner" where
  "apply_status m d = (if m \<noteq> None then set_scaling_status m d else d)"

definition task_add_done ::
    "SignalTaskAddRequest \<Rightarrow> 'r segment \<Rightarrow> wf_response \<Rightarrow> 'r segment" where
  "task_add_done req k r d = (case r of
     TaskAddedResponse resp \<Rightarrow>
       handleActions (SignalActions resp) (Some req) k (apply_status (SignalUpdatedStatus resp) d)
   | _ \<Rightarrow> k d)"

definition handleNoSyncMatchSignal ::
    "SignalTaskAddRequest option \<Rightarrow> 'r segment \<Rightarrow> 'r segment" where
  "handleNoSyncMatchSignal request k d =
    (if ensureEnabled d \<noteq> None then k d
     else (case request of
        None \<Rightarrow> k d
      | Some req \<Rightarrow> (d, Await (CallTaskAdd
          \<lparr>TaskAddContext = RunContext d, TaskAddRequestOf = req,
           TaskAddSpec = StateSpec (RunState d), TaskAddScalingStatus = ScalingStatus (RunState d)\<rparr>)
         (task_add_done req k))))"

definition queueTaskAddSignal :: "SignalTaskAddRequest option \<Rightarrow> runner \<Rightarrow> runner" where
  "queueTaskAddSignal request d = (case request of
     None \<Rightarrow> d
   | Some req \<Rightarrow>
      (if limitPendingTaskAddSignals d
          \<and> length (PendingTaskAddSignals (RunState d)) \<ge> maxPendingTaskAddSignals then d
       else on_state (\<lambda>s. s\<lparr>PendingTaskAddSignals := PendingTaskAddSignals s @ [req]\<rparr>) d))"

definition pop_signal :: "SignalTaskAddRequest list \<Rightarrow> runner \<Rightarrow> runner" where
  "pop_signal rest = on_state (\<lambda>s. s\<lparr>PendingTaskAddSignals := rest\<rparr>)"

definition processNextQueuedTaskAddSignal :: "(bool \<Rightarrow> 'r segment) \<Rightarrow> 'r segment" where
  "processNextQueuedTaskAddSignal k d = (case PendingTaskAddSignals (RunState d) of
     [] \<Rightarrow> k False d
   | req # rest \<Rightarrow> handleNoSyncMatchSignal (Some req) (k True) (pop_signal rest d))"

definition drainTaskAddSignalChannelToQueue :: "runner \<Rightarrow> runner" where
  "drainTaskAddSignalChannelToQueue d =
    fold queueTaskAddSignal (taskAddSignalChannel d) (d\<lparr>taskAddSignalChannel := []\<rparr>)"

text \<open>Receiving the next signal in the selector, for a run with the queue limit.\<close>

definition select_signal :: "runner \<Rightarrow> runner" where
  "select_signal d = (case taskAddSignalChannel d of
     [] \<Rightarrow> d
   | req # rest \<Rightarrow> queueTaskAddSignal req (d\<lparr>taskAddSignalChannel := rest\<rparr>))"

text \<open>Up to \<open>n\<close> rounds of the batch, each of which handles a queued signal and receives one.\<close>

fun processTaskAddBatch :: "nat \<Rightarrow> 'r segment \<Rightarrow> 'r segment" where
  "processTaskAddBatch 0 k = k"
| "processTaskAddBatch (Suc n) k =
    (\<lambda>d. if shouldContinueAsNew d then k d
      else processNextQueuedTaskAddSignal (\<lambda>processed d.
        if taskAddSignalChannel d \<noteq> [] then processTaskAddBatch n k (select_signal d)
        else if \<not> processed then k d
        else processTaskAddBatch n k d) d)"

section \<open>Timers\<close>

definition addStatsPullTimer :: "int \<Rightarrow> runner \<Rightarrow> runner" where
  "addStatsPullTimer nextPoll d =
    (if useTimerSelector d
     then on_state (\<lambda>s. s\<lparr>NextPollTime := Some (currentTime d + nextPoll)\<rparr>) d else d)
    \<lparr>pollTimer := Some (currentTime d + nextPoll)\<rparr>"

definition pull_done :: "(int \<Rightarrow> 'r segment) \<Rightarrow> wf_response \<Rightarrow> 'r segment" where
  "pull_done k r d = (case r of
     PullResponse resp \<Rightarrow>
       handleActions (PullActions resp) None (k (NextPollSeconds resp * 1000000000))
         (apply_status (PullUpdatedStatus resp) d)
   | _ \<Rightarrow> k maxPollInterval d)"

definition has_groups :: "runner \<Rightarrow> bool" where
  "has_groups d \<longleftrightarrow> (case StateSpec (RunState d) of
     None \<Rightarrow> False | Some spec \<Rightarrow> ScalingGroupSpecs spec \<noteq> [])"

definition pullStatsAndUpdate :: "(int \<Rightarrow> 'r segment) \<Rightarrow> 'r segment" where
  "pullStatsAndUpdate k d =
    (if \<not> has_groups d then k maxPollInterval d
     else if ensureEnabled d \<noteq> None then k maxPollInterval d
     else (d, Await (CallPullStats \<lparr>PullContext = RunContext d, PullSpec = StateSpec (RunState d),
         PullScalingStatus = ScalingStatus (RunState d)\<rparr>) (pull_done k)))"

text \<open>The callback of the poll timer: a cancelled timer is not armed again.\<close>

definition poll_timer_fired :: "unit segment" where
  "poll_timer_fired d =
    (let d' = d\<lparr>pollTimer := None\<rparr>
     in if timersCancelled d then (d', Return ())
        else pullStatsAndUpdate (\<lambda>next d. (addStatsPullTimer next d, Return ())) d')"

definition validation_done :: "int \<Rightarrow> 'r segment \<Rightarrow> wf_response \<Rightarrow> 'r segment" where
  "validation_done now k r d = (case r of
     ErrorResponse (AppError t msg) \<Rightarrow>
       signalVersionWorkflow k (set_validation (NewValidationStatusFailed now msg) d)
   | ErrorResponse (OtherError msg) \<Rightarrow> k d
   | _ \<Rightarrow> signalVersionWorkflow k (set_validation (NewValidationStatusSuccess now) d))"

definition periodicValidateSpec :: "'r segment \<Rightarrow> 'r segment" where
  "periodicValidateSpec k d =
    (if \<not> has_groups d then k d
     else if ensureEnabled d \<noteq> None then k d
     else (d, Await (CallValidateSpec \<lparr>ValidateContext = RunContext d,
         ValidateSpecOf = StateSpec (RunState d), ScalingGroupsToSkipProviderValidation = []\<rparr>)
        (validation_done (currentTime d) k)))"

definition addPeriodicValidationTimer :: "int \<Rightarrow> runner \<Rightarrow> runner" where
  "addPeriodicValidationTimer validationInterval d =
    d\<lparr>validationTimer := Some (currentTime d + validationInterval)\<rparr>"

definition validation_timer_fired :: "int \<Rightarrow> unit segment" where
  "validation_timer_fired validationInterval d =
    (let d' = d\<lparr>validationTimer := None\<rparr>
     in if timersCancelled d then (d', Return ())
        else periodicValidateSpec
          (\<lambda>d. (addPeriodicValidationTimer validationInterval d, Return ())) d')"

text \<open>A timer is ready when its time has come or when it has been cancelled.\<close>

definition timer_ready :: "runner \<Rightarrow> int option \<Rightarrow> bool" where
  "timer_ready d timer = (case timer of None \<Rightarrow> False
     | Some t \<Rightarrow> t \<le> currentTime d \<or> timersCancelled d)"

definition timers_pending :: "runner \<Rightarrow> bool" where
  "timers_pending d \<longleftrightarrow> timer_ready d (pollTimer d) \<or> timer_ready d (validationTimer d)"

definition hasQueuedTaskAdds :: "runner \<Rightarrow> bool" where
  "hasQueuedTaskAdds d \<longleftrightarrow> PendingTaskAddSignals (RunState d) \<noteq> []"

text \<open>What the run loop waits for between two iterations.\<close>

definition loop_wakes :: "runner \<Rightarrow> bool" where
  "loop_wakes d \<longleftrightarrow> shouldContinueAsNew d \<or> taskAddSignalChannel d \<noteq> [] \<or> hasQueuedTaskAdds d
     \<or> timers_pending d"

section \<open>The start of a run\<close>

definition minute :: int where "minute = 60 * 1000000000"

text \<open>The beginning of \<open>run\<close>, up to the loop: missing fields are filled in, the timers are armed
  (the poll timer for what remains of a persisted deadline), and the channel is drained.
  \<open>timestamp\<close> is what \<open>MarshalBinary\<close> makes of the current time.\<close>

definition init_state :: "string \<Rightarrow> int \<Rightarrow> LocalState \<Rightarrow> LocalState" where
  "init_state timestamp now s =
    s\<lparr>CreateTime := (case CreateTime s of None \<Rightarrow> Some now | Some t \<Rightarrow> Some t),
      StateConflictToken := (case StateConflictToken s of None \<Rightarrow> Some timestamp | Some t \<Rightarrow> Some t)\<rparr>"

definition arm_poll_timer :: "runner \<Rightarrow> runner" where
  "arm_poll_timer d =
    (if useTimerSelector d then
       (case NextPollTime (RunState d) of
          Some t \<Rightarrow> addStatsPullTimer (max 0 (t - currentTime d)) d
        | None \<Rightarrow> addStatsPullTimer maxPollInterval d)
     else addStatsPullTimer maxPollInterval d)"

definition start_run :: "string \<Rightarrow> int \<Rightarrow> runner \<Rightarrow> runner" where
  "start_run timestamp periodicValidationInterval d =
    (let d1 = on_state (init_state timestamp (currentTime d)) d;
         d2 = arm_poll_timer d1;
         d3 = (if hasMinVersion d2 PeriodicValidationVersion
               then addPeriodicValidationTimer (max periodicValidationInterval minute) d2 else d2)
     in if limitPendingTaskAddSignals d3 then drainTaskAddSignalChannelToQueue d3 else d3)"

section \<open>Runs from before the queue limit\<close>

text \<open>Such a run handles a signal when it is received, hands the ones it did not receive to the
  next run, and that run handles them before anything else.\<close>

fun handle_all :: "SignalTaskAddRequest list \<Rightarrow> 'r segment \<Rightarrow> 'r segment" where
  "handle_all [] k = k"
| "handle_all (req # reqs) k = handleNoSyncMatchSignal (Some req) (handle_all reqs k)"

definition processPendingTaskAddSignals :: "'r segment \<Rightarrow> 'r segment" where
  "processPendingTaskAddSignals k d =
    (if PendingTaskAddSignals (RunState d) = [] then k d
     else handle_all (PendingTaskAddSignals (RunState d)) k (pop_signal [] d))"

definition hand_over :: "SignalTaskAddRequest option \<Rightarrow> runner \<Rightarrow> runner" where
  "hand_over request d = (case request of
     None \<Rightarrow> d
   | Some req \<Rightarrow> (on_state (\<lambda>s. s\<lparr>PendingTaskAddSignals := PendingTaskAddSignals s @ [req]\<rparr>) d)
        \<lparr>stateChanged := True\<rparr>)"

definition drainPendingTaskAddSignals :: "runner \<Rightarrow> runner" where
  "drainPendingTaskAddSignals d =
    fold hand_over (taskAddSignalChannel d) (d\<lparr>taskAddSignalChannel := []\<rparr>)"

end
