(* ===== verification/DryRun.thy ===== *)
theory DryRun
  imports Runner
begin

text \<open>
  The workflow that validates the specification of an instance that does not exist yet
  (\<open>workflow/validate_workflow.go\<close>).  The activity is a parameter: what awaiting it returns.
  \<open>dk\<close> is \<open>workflow.DeterministicKeys\<close>.
\<close>

section \<open>The workflow\<close>

abbreviation "ValidateWorkflowCheckWorkerControllerEnabledVersion \<equiv> 1 :: int"

record ValidateWorkflowArgs =
  ValidateUpserts :: "(string, ScalingGroupSpecUpdate) gomap option"

datatype validate_error =
    ValidateDisabled
  | UpsertsMissing
  | MaskWithoutGroup string
  | SpecRejected spec_error
  | ActivityRejected string
  | ActivityErrored call_error

definition validateWorkflowEnabled :: "int \<Rightarrow> bool \<Rightarrow> bool" where
  "validateWorkflowEnabled version flag \<longleftrightarrow>
     (if version < ValidateWorkflowCheckWorkerControllerEnabledVersion then True else flag)"

fun collect_groups ::
    "(string, ScalingGroupSpecUpdate) gomap \<Rightarrow> string list \<Rightarrow> (string, ScalingGroupSpec) gomap
      \<Rightarrow> validate_error + (string, ScalingGroupSpec) gomap" where
  "collect_groups upserts [] groups = Inr groups"
| "collect_groups upserts (key # ks) groups = (case map_of upserts key of
     None \<Rightarrow> collect_groups upserts ks groups
   | Some update \<Rightarrow>
      (if UpdateMask update \<noteq> [] then Inl (MaskWithoutGroup key)
       else collect_groups upserts ks (AList.update key (UpdateSpec update) groups)))"

definition ValidateSpecWorkflow ::
    "(string list \<Rightarrow> string list) \<Rightarrow> int \<Rightarrow> bool \<Rightarrow> string
      \<Rightarrow> (ValidateSpecRequest \<Rightarrow> call_error option) \<Rightarrow> ValidateWorkflowArgs option
      \<Rightarrow> validate_error option" where
  "ValidateSpecWorkflow dk version flag ns activity args =
    (if \<not> validateWorkflowEnabled version flag then Some ValidateDisabled
     else (case args of None \<Rightarrow> Some UpsertsMissing | Some a \<Rightarrow>
      (case ValidateUpserts a of None \<Rightarrow> Some UpsertsMissing | Some upserts \<Rightarrow>
       (case collect_groups upserts (dk (keys upserts)) [] of
          Inl e \<Rightarrow> Some e
        | Inr groups \<Rightarrow>
           (let spec = \<lparr>ScalingGroupSpecs = groups\<rparr>
            in case Validate (Some spec) of
                 Some e \<Rightarrow> Some (SpecRejected e)
               | None \<Rightarrow>
                  (case activity \<lparr>ValidateContext = \<lparr>NamespaceName = ns, RequestDeploymentName = '''',
                            DeploymentBuildID = ''''\<rparr>,
                          ValidateSpecOf = Some spec, ScalingGroupsToSkipProviderValidation = []\<rparr> of
                     None \<Rightarrow> None
                   | Some (AppError t msg) \<Rightarrow>
                      (if t = ''InvalidArgument'' then Some (ActivityRejected msg)
                       else Some (ActivityErrored (AppError t msg)))
                   | Some e \<Rightarrow> Some (ActivityErrored e)))))))"

section \<open>The dry run and the first update\<close>

text \<open>Without masks the loop of the dry run and the one of the update build the same map.\<close>

lemma collect_groups_upserts:
  assumes "distinct ks" and "\<forall>k \<in> set ks. map_of groups k = None"
    and "\<forall>k u. map_of upserts k = Some u \<longrightarrow> UpdateMask u = []"
  shows "\<exists>groups'. collect_groups upserts ks groups = Inr groups'
    \<and> apply_upserts upserts ks (groups, unchanged) = Inr (groups', unchanged)"
  using assms(1,2)
proof (induction ks arbitrary: groups)
  case (Cons k ks)
  show ?case
  proof (cases "map_of upserts k")
    case None
    with Cons show ?thesis by simp
  next
    case (Some u)
    have "\<forall>k' \<in> set ks. map_of (AList.update k (UpdateSpec u) groups) k' = None"
      using Cons.prems by (auto simp: map_of_update)
    with Cons Some assms(3) show ?thesis by (auto simp: apply_upsert_def)
  qed
qed simp

lemma masked_group_rejected:
  assumes "k \<in> set ks" and "map_of upserts k = Some u" and "UpdateMask u \<noteq> []"
  shows "\<exists>k'. collect_groups upserts ks groups = Inl (MaskWithoutGroup k')"
  using assms by (induction ks arbitrary: groups) (auto split: option.splits)

lemma collected_distinct:
  "collect_groups upserts ks groups = Inr groups' \<Longrightarrow> distinct (keys groups) \<Longrightarrow> distinct (keys groups')"
  by (induction ks arbitrary: groups) (auto split: option.splits if_splits)

lemma first_update_builds:
  assumes "deterministic_keys dk" and "distinct (keys (UpsertScalingGroups args))"
    and "RemoveScalingGroups args = []"
    and "\<forall>k u. map_of (UpsertScalingGroups args) k = Some u \<longrightarrow> UpdateMask u = []"
  shows "\<exists>groups. collect_groups (UpsertScalingGroups args) (dk (keys (UpsertScalingGroups args))) []
      = Inr groups \<and> BuildUpdatedSpec dk None args = Inr (\<lparr>ScalingGroupSpecs = groups\<rparr>, [])"
proof -
  let ?ks = "dk (keys (UpsertScalingGroups args))"
  have "distinct ?ks" by (rule deterministic_keys.distinct_det_keys [OF assms(1,2)])
  moreover have "dk [] = []" using deterministic_keys.set_det_keys [OF assms(1), of "[]"] by simp
  ultimately show ?thesis
    using collect_groups_upserts [of ?ks "[]" "UpsertScalingGroups args" "[]"] assms(3,4)
    by (auto simp: BuildUpdatedSpec_def cloned_groups_def)
qed

text \<open>An update of a new instance ignores the masks.\<close>

definition without_masks :: "UpdateWorkerControllerInstanceRequest \<Rightarrow> UpdateWorkerControllerInstanceRequest"
where
  "without_masks args = args\<lparr>UpsertScalingGroups :=
     List.map (\<lambda>(k, u). (k, u\<lparr>UpdateMask := []\<rparr>)) (UpsertScalingGroups args)\<rparr>"

lemma without_masks_frame [simp]:
  "RemoveScalingGroups (without_masks args) = RemoveScalingGroups args"
  "keys (UpsertScalingGroups (without_masks args)) = keys (UpsertScalingGroups args)"
  "UpsertScalingGroups (without_masks args) = [] \<longleftrightarrow> UpsertScalingGroups args = []"
  by (auto simp: without_masks_def)

lemma new_groups_unmasked:
  assumes "distinct ks" and "\<forall>k \<in> set ks. map_of groups k = None"
  shows "apply_upserts (List.map (\<lambda>(k, u). (k, u\<lparr>UpdateMask := []\<rparr>)) upserts) ks (groups, unchanged)
    = apply_upserts upserts ks (groups, unchanged)"
  using assms
proof (induction ks arbitrary: groups)
  case (Cons k ks)
  have at: "map_of (List.map (\<lambda>(k, u). (k, u\<lparr>UpdateMask := []\<rparr>)) upserts) k =
      map_option (\<lambda>u. u\<lparr>UpdateMask := []\<rparr>) (map_of upserts k)"
    by (induction upserts) auto
  show ?case
  proof (cases "map_of upserts k")
    case None
    with Cons at show ?thesis by simp
  next
    case (Some u)
    have "\<forall>k' \<in> set ks. map_of (AList.update k (Clone (UpdateSpec u)) groups) k' = None"
      using Cons.prems by (auto simp: map_of_update)
    with Cons Some at show ?thesis by (simp add: apply_upsert_def)
  qed
qed simp

lemma first_update_unmasked:
  assumes "deterministic_keys dk" and "distinct (keys (UpsertScalingGroups args))"
  shows "BuildUpdatedSpec dk None (without_masks args) = BuildUpdatedSpec dk None args"
proof -
  have "distinct (dk (keys (UpsertScalingGroups args)))"
    by (rule deterministic_keys.distinct_det_keys [OF assms])
  then have "apply_upserts (UpsertScalingGroups (without_masks args)) (dk (keys (UpsertScalingGroups args)))
      ([], unchanged) = apply_upserts (UpsertScalingGroups args) (dk (keys (UpsertScalingGroups args)))
      ([], unchanged)" for unchanged
    by (simp add: without_masks_def new_groups_unmasked)
  then show ?thesis
    unfolding BuildUpdatedSpec_def without_masks_frame by (simp add: cloned_groups_def Let_def)
qed

text \<open>The handler of an update, with the mutex, gets as far as asking the validation activity about
  the specification \<open>u\<close>, with no group skipped.\<close>

definition asks_about ::
    "(string list \<Rightarrow> string list) \<Rightarrow> UpdateWorkerControllerInstanceRequest \<Rightarrow> runner
      \<Rightarrow> WorkerControllerInstanceSpec \<Rightarrow> bool" where
  "asks_about dk args d u \<longleftrightarrow> (\<exists>k. update_locked dk args d = (d, Await (CallValidateSpec
     \<lparr>ValidateContext = RunContext d, ValidateSpecOf = Some u,
      ScalingGroupsToSkipProviderValidation = []\<rparr>) k))"

lemma first_update_asks:
  assumes "deterministic_keys dk" and "distinct (keys (UpsertScalingGroups args))"
    and "StateSpec (RunState d) = None"
  shows "asks_about dk args d u \<longleftrightarrow> BuildUpdatedSpec dk None args = Inr (u, []) \<and> wf_spec u"
proof (cases "BuildUpdatedSpec dk None args")
  case (Inl e)
  then show ?thesis by (simp add: asks_about_def update_locked_def assms(3) unlock_and_return_def)
next
  case (Inr r)
  then obtain spec skip where built: "BuildUpdatedSpec dk None args = Inr (spec, skip)" by (cases r) simp
  have "distinct (keys (ScalingGroupSpecs spec))"
    using deterministic_keys.upserts_result [OF assms(1,2), of None] built by simp
  note valid = Validate_decides [OF this]
  show ?thesis
  proof (cases "ScalingGroupSpecs spec = [] \<or> Validate (Some spec) \<noteq> None")
    case True
    with valid have "\<not> wf_spec spec" by (auto simp: wf_spec_def)
    with True show ?thesis
      by (auto simp: asks_about_def update_locked_def assms(3) built unlock_and_return_def)
  next
    case False
    with valid show ?thesis by (auto simp: asks_about_def update_locked_def assms(3) built)
  qed
qed

section \<open>Properties\<close>

text \<open>C19: The dry run for an instance that does not exist does the checks of the first update, but
  for masks and names.  It accepts a request exactly when no group has a mask, the update of an
  instance without a specification gets as far as asking the validation activity, about a
  specification that meets the contract \<open>wf_spec\<close> and with no group skipped, and the activity
  accepts that specification when asked under the dry run's names (deployment and build are empty).
  A mask makes the dry run reject the request, whereas the update ignores it: it asks about the same
  specification as without the masks.\<close>

theorem dry_run_matches_first_update:
  assumes "deterministic_keys dk" and "distinct (keys (UpsertScalingGroups args))"
    and "RemoveScalingGroups args = []" and "validateWorkflowEnabled version flag"
    and "StateSpec (RunState d) = None"
  shows "(ValidateSpecWorkflow dk version flag ns activity
      (Some \<lparr>ValidateUpserts = Some (UpsertScalingGroups args)\<rparr>) = None \<longleftrightarrow>
      (\<forall>k u. map_of (UpsertScalingGroups args) k = Some u \<longrightarrow> UpdateMask u = [])
      \<and> (\<exists>u. asks_about dk args d u \<and> wf_spec u
          \<and> activity \<lparr>ValidateContext = \<lparr>NamespaceName = ns, RequestDeploymentName = '''',
                DeploymentBuildID = ''''\<rparr>,
              ValidateSpecOf = Some u, ScalingGroupsToSkipProviderValidation = []\<rparr> = None))
    \<and> (\<forall>u. asks_about dk args d u \<longleftrightarrow> asks_about dk (without_masks args) d u)
    \<and> ((\<exists>k u. map_of (UpsertScalingGroups args) k = Some u \<and> UpdateMask u \<noteq> []) \<longrightarrow>
        (\<exists>k. ValidateSpecWorkflow dk version flag ns activity
          (Some \<lparr>ValidateUpserts = Some (UpsertScalingGroups args)\<rparr>) = Some (MaskWithoutGroup k)))"
proof -
  note asks = first_update_asks [OF assms(1) _ assms(5)]
  have same: "asks_about dk args d u \<longleftrightarrow> asks_about dk (without_masks args) d u" for u
    using asks [OF assms(2)] asks [of "without_masks args"] first_update_unmasked [OF assms(1,2)] assms(2)
    by (simp del: map_map)
  show ?thesis
  proof (cases "\<forall>k u. map_of (UpsertScalingGroups args) k = Some u \<longrightarrow> UpdateMask u = []")
    case True
    then obtain groups where groups: "collect_groups (UpsertScalingGroups args)
        (dk (keys (UpsertScalingGroups args))) [] = Inr groups"
      "BuildUpdatedSpec dk None args = Inr (\<lparr>ScalingGroupSpecs = groups\<rparr>, [])"
      using first_update_builds [OF assms(1-3)] by blast
    have "distinct (keys groups)" by (rule collected_distinct [OF groups(1)]) simp
    then have "Validate (Some \<lparr>ScalingGroupSpecs = groups\<rparr>) = None \<longleftrightarrow> wf_spec \<lparr>ScalingGroupSpecs = groups\<rparr>"
      by (simp add: Validate_decides)
    with groups(1) assms(4) have "ValidateSpecWorkflow dk version flag ns activity
        (Some \<lparr>ValidateUpserts = Some (UpsertScalingGroups args)\<rparr>) = None \<longleftrightarrow>
        wf_spec \<lparr>ScalingGroupSpecs = groups\<rparr>
        \<and> activity \<lparr>ValidateContext = \<lparr>NamespaceName = ns, RequestDeploymentName = '''',
              DeploymentBuildID = ''''\<rparr>, ValidateSpecOf = Some \<lparr>ScalingGroupSpecs = groups\<rparr>,
            ScalingGroupsToSkipProviderValidation = []\<rparr> = None"
      by (cases "Validate (Some \<lparr>ScalingGroupSpecs = groups\<rparr>)")
        (simp_all add: ValidateSpecWorkflow_def Let_def split: option.split call_error.split)
    moreover have "asks_about dk args d u \<longleftrightarrow> u = \<lparr>ScalingGroupSpecs = groups\<rparr> \<and> wf_spec u" for u
      using asks [OF assms(2)] groups(2) by auto
    ultimately show ?thesis using True same by auto
  next
    case False
    then obtain k u where u: "map_of (UpsertScalingGroups args) k = Some u" "UpdateMask u \<noteq> []" by blast
    then have "k \<in> set (dk (keys (UpsertScalingGroups args)))"
      using deterministic_keys.set_det_keys [OF assms(1)] by (force dest: map_of_SomeD)
    from masked_group_rejected [OF this u, of "[]"] False assms(4) same show ?thesis
      by (auto simp: ValidateSpecWorkflow_def)
  qed
qed

definition first_request :: UpdateWorkerControllerInstanceRequest where
  "first_request = \<lparr>Identity = ''me'', RequestConflictToken = None,
     UpsertScalingGroups = List.map (\<lambda>(k, g). (k, \<lparr>UpdateSpec = g, UpdateMask = []\<rparr>))
       (ScalingGroupSpecs sample_spec),
     RemoveScalingGroups = []\<rparr>"

definition sample_activity :: "ValidateSpecRequest \<Rightarrow> call_error option" where
  "sample_activity r = (case ValidateSpec sample_env (Some r) of
     None \<Rightarrow> None | Some e \<Rightarrow> Some (AppError ''InvalidArgument'' ''''))"

definition new_runner_of :: "runner \<Rightarrow> runner" where
  "new_runner_of d = on_state (\<lambda>st. st\<lparr>StateSpec := None\<rparr>) d"

theorem dry_run_matches_first_update_witness:
  "\<forall>d. \<exists>u. asks_about sort first_request (new_runner_of d) u \<and> wf_spec u"
proof
  fix d
  have args: "distinct (keys (UpsertScalingGroups first_request))"
    "RemoveScalingGroups first_request = []" "validateWorkflowEnabled 1 True"
    by code_simp+
  have "ValidateSpecWorkflow sort 1 True ''ns'' sample_activity
      (Some \<lparr>ValidateUpserts = Some (UpsertScalingGroups first_request)\<rparr>) = None"
    by code_simp
  moreover have "StateSpec (RunState (new_runner_of d)) = None"
    by (simp add: new_runner_of_def on_state_def)
  ultimately show "\<exists>u. asks_about sort first_request (new_runner_of d) u \<and> wf_spec u"
    using dry_run_matches_first_update [OF sorted_keys.deterministic_keys_axioms args,
        of "new_runner_of d" "''ns''" sample_activity] by blast
qed

end
