(* ===== verification/Client.thy ===== *)
theory Client
  imports Hook DryRun
begin

text \<open>
  The client of the instances (\<open>client/client.go\<close>, \<open>client/workflow_interaction.go\<close>,
  \<open>client/errors.go\<close>): what it makes of the answers of the Temporal server.  The server, the
  retry utility and the payload conversion are not part of the repository; they are the fields
  of \<open>client_env\<close>.  A field that answers a call takes the number of the attempt, since a call
  that is retried can be answered differently each time.

  An error is a value of \<open>service_error\<close>: the constructor is what \<open>errors.As\<close> and
  \<open>errors.Is\<close> find in it, the text what \<open>Error()\<close> returns.  Logs are left out.
\<close>

section \<open>Errors\<close>

datatype exhausted_cause = ConcurrentLimit | BusyWorkflowCause | WorkerDeploymentLimits | OtherCause

datatype service_error =
    InvalidArgumentErr string
  | FailedPreconditionErr string
  | NotFoundErr string
  | InternalErr string
  | ResourceExhaustedErr exhausted_cause string
  | WorkflowNotReadyErr string
  | QueryFailedErr string
  | MultiOperationErr string "service_error option list"
  | DeadlineExceededErr string
  | CanceledErr string
  | UpdateInProgress
  | WorkflowHistoryTooLong
  | OtherErr string

fun error_text :: "service_error \<Rightarrow> string" where
  "error_text (InvalidArgumentErr msg) = msg"
| "error_text (FailedPreconditionErr msg) = msg"
| "error_text (NotFoundErr msg) = msg"
| "error_text (InternalErr msg) = msg"
| "error_text (ResourceExhaustedErr c msg) = msg"
| "error_text (WorkflowNotReadyErr msg) = msg"
| "error_text (QueryFailedErr msg) = msg"
| "error_text (MultiOperationErr msg es) = msg"
| "error_text (DeadlineExceededErr msg) = msg"
| "error_text (CanceledErr msg) = msg"
| "error_text UpdateInProgress = ''update in progress''"
| "error_text WorkflowHistoryTooLong = ''workflow history too long''"
| "error_text (OtherErr msg) = msg"

fun isFailedPreconditionOrNotFound :: "service_error \<Rightarrow> bool" where
  "isFailedPreconditionOrNotFound (FailedPreconditionErr msg) = True"
| "isFailedPreconditionOrNotFound (NotFoundErr msg) = True"
| "isFailedPreconditionOrNotFound _ = False"

fun is_internal :: "service_error \<Rightarrow> bool" where
  "is_internal (InternalErr msg) = True"
| "is_internal _ = False"

fun retryable_cause :: "service_error \<Rightarrow> bool" where
  "retryable_cause (ResourceExhaustedErr c msg) = (c = ConcurrentLimit \<or> c = BusyWorkflowCause)"
| "retryable_cause _ = False"

section \<open>The server and the libraries\<close>

record failure =
  FailureMessage :: string
  AppFailureType :: "string option"

datatype outcome = OutcomeFailure failure | OutcomeSuccess Payload | OutcomeEmpty

record update_response =
  StageCompleted :: bool
  Outcome :: "outcome option"

datatype multi_response = StartResponse | UpdateResponse "update_response option" | OtherResponse

datatype update_call =
    UpdateCall UpdateWorkerControllerInstanceRequest
  | DeleteCall string
  | ValidateCall string "(string, ScalingGroupSpecUpdate) gomap" "string list"

datatype encoded =
    EncodeStart WorkerDeploymentVersion
  | EncodeUpdate update_call
  | EncodeDryRun "(string, ScalingGroupSpecUpdate) gomap"
  | EncodeSignal SignalTaskAddRequest

datatype version_field = DeploymentNameField | BuildIdField

datatype query_response = QueryRejected string | QueryNoResult | QueryResult Payload

text \<open>\<open>LastModifierIdentity\<close>, which nothing assigns, is left out as in the state.\<close>

record DescribeResponse =
  DescribedName :: string
  DescribedBuildID :: string
  DescribedCreateTime :: "int option"
  DescribedSpec :: "WorkerControllerInstanceSpec option"
  DescribedToken :: "string option"
  DescribedValidation :: "ValidationResult option"

datatype close_event =
    Completed
  | Failed "failure option"
  | TimedOut
  | CanceledEvent
  | Terminated
  | OtherClose string

record execution =
  ExecutionWorkflowId :: string
  ExecutionMemo :: "(string, Payload) gomap option option"
  ExecutionStart :: "int option"

record summary =
  SummaryVersion :: WorkerDeploymentVersion
  SummaryCreateTime :: "int option"

text \<open>The retry utility gets what each attempt returns and which errors are retryable, and tells
  which attempt was the last one (none when the context has ended before), and the error.\<close>

type_synonym retrier =
  "(nat \<Rightarrow> service_error option) \<Rightarrow> (service_error \<Rightarrow> bool) \<Rightarrow> nat option \<times> service_error option"

record client_env =
  controllerTaskQueueName :: string
  Retry :: retrier
  ClosingTexts :: "string list"
  ApiRetryable :: "service_error \<Rightarrow> bool"
  MaxIDLength :: int
  ValidateField :: "version_field \<Rightarrow> string \<Rightarrow> int \<Rightarrow> service_error option"
  Namespace :: string
  NamespaceEnabled :: bool
  MaxInstances :: int
  VisibilityMaxPageSize :: int
  EncodeFails :: "encoded \<Rightarrow> service_error option"
  DecodeUpdate :: "Payload option \<Rightarrow> service_error + WorkerControllerInstanceSpec option"
  DecodeDescribe :: "Payload \<Rightarrow> service_error + DescribeResponse"
  DecodeMemo :: "Payload option \<Rightarrow> service_error + WorkerControllerInstanceMemo"
  DescribeExecution :: "string \<Rightarrow> service_error + bool"
  CountExecutions :: "service_error + int"
  ListExecutions :: "int \<Rightarrow> string \<Rightarrow> service_error + execution list \<times> string"
  MultiOperation :: "string \<Rightarrow> string \<Rightarrow> WorkerDeploymentVersion \<Rightarrow> update_call \<Rightarrow> nat \<Rightarrow> service_error + multi_response list"
  UpdateExecution :: "string \<Rightarrow> update_call \<Rightarrow> nat \<Rightarrow> service_error + update_response option"
  QueryExecution :: "string \<Rightarrow> nat \<Rightarrow> service_error + query_response"
  StartExecution :: "string \<Rightarrow> ValidateWorkflowArgs \<Rightarrow> service_error option"
  HistoryPage :: "nat \<Rightarrow> service_error + close_event list"
  SignalExecution :: "string \<Rightarrow> SignalTaskAddRequest \<Rightarrow> service_error option"

section \<open>Which errors are retried\<close>

definition isRetryableQueryError :: "client_env \<Rightarrow> service_error \<Rightarrow> bool" where
  "isRetryableQueryError env err \<longleftrightarrow> ApiRetryable env err \<and> \<not> is_internal err"

definition isRetryableUpdateError :: "client_env \<Rightarrow> service_error \<Rightarrow> bool" where
  "isRetryableUpdateError env err \<longleftrightarrow>
     err = UpdateInProgress \<or> err = WorkflowHistoryTooLong \<or> error_text err \<in> set (ClosingTexts env)
     \<or> retryable_cause err
     \<or> (case err of
          WorkflowNotReadyErr msg \<Rightarrow> True
        | MultiOperationErr msg es \<Rightarrow> list_ex (\<lambda>e. case e of
              None \<Rightarrow> False
            | Some e' \<Rightarrow> retryable_cause e' \<or> error_text e' \<in> set (ClosingTexts env)) es
        | _ \<Rightarrow> False)"

section \<open>The outcome of an update\<close>

definition convertUpdateFailure :: "update_response option \<Rightarrow> service_error option" where
  "convertUpdateFailure updateRes = (case updateRes of
     None \<Rightarrow> Some (InternalErr ''failed to update worker controller instance workflow'')
   | Some r \<Rightarrow>
      (if \<not> StageCompleted r then Some UpdateInProgress
       else (case Outcome r of
          None \<Rightarrow> Some (InternalErr ''outcome missing'')
        | Some (OutcomeFailure f) \<Rightarrow>
           (case AppFailureType f of
              None \<Rightarrow> None
            | Some t \<Rightarrow>
               (if t = ''errLongHistory'' then Some WorkflowHistoryTooLong
                else if t = ''worker deployment deleted''
                then Some (NotFoundErr ''Worker Controller Instance not found'')
                else if t = ''FailedPrecondition''
                then Some (FailedPreconditionErr (FailureMessage f)) else None))
        | Some (OutcomeSuccess p) \<Rightarrow> None
        | Some OutcomeEmpty \<Rightarrow> Some (InternalErr ''outcome missing success and failure''))))"

definition outcome_of :: "update_response option \<Rightarrow> outcome option" where
  "outcome_of updateRes = (case updateRes of None \<Rightarrow> None | Some r \<Rightarrow> Outcome r)"

text \<open>Both functions that send an update: the outcome is set by the attempt that succeeds.\<close>

definition retry_update ::
    "client_env \<Rightarrow> (nat \<Rightarrow> outcome option \<times> service_error option)
      \<Rightarrow> outcome option \<times> service_error option" where
  "retry_update env attempt =
    (case Retry env (\<lambda>n. snd (attempt n)) (isRetryableUpdateError env) of
       (Some n, None) \<Rightarrow> (fst (attempt n), None)
     | (_, err) \<Rightarrow> (None, err))"

definition update_attempt ::
    "client_env \<Rightarrow> string \<Rightarrow> update_call \<Rightarrow> nat \<Rightarrow> outcome option \<times> service_error option" where
  "update_attempt env workflowID call n = (case UpdateExecution env workflowID call n of
     Inl err \<Rightarrow> (None, Some err)
   | Inr res \<Rightarrow> (case convertUpdateFailure res of
       Some err \<Rightarrow> (None, Some err)
     | None \<Rightarrow> (outcome_of res, None)))"

definition updateWorkflow ::
    "client_env \<Rightarrow> string \<Rightarrow> update_call \<Rightarrow> outcome option \<times> service_error option" where
  "updateWorkflow env workflowID call = retry_update env (update_attempt env workflowID call)"

fun collect_responses :: "multi_response list \<Rightarrow> bool \<times> update_response option
    \<Rightarrow> bool \<times> update_response option" where
  "collect_responses [] acc = acc"
| "collect_responses (StartResponse # rs) (s, u) = collect_responses rs (True, u)"
| "collect_responses (UpdateResponse (Some r) # rs) (s, u) = collect_responses rs (s, Some r)"
| "collect_responses (UpdateResponse None # rs) (s, u) = collect_responses rs (s, u)"
| "collect_responses (OtherResponse # rs) (s, u) = collect_responses rs (s, u)"

definition start_attempt ::
    "client_env \<Rightarrow> string \<Rightarrow> WorkerDeploymentVersion \<Rightarrow> update_call \<Rightarrow> nat
      \<Rightarrow> outcome option \<times> service_error option" where
  "start_attempt env workflowID version call n =
    (case MultiOperation env (controllerTaskQueueName env) workflowID version call n of
       Inl err \<Rightarrow> (None, Some err)
     | Inr responses \<Rightarrow>
        (case collect_responses responses (False, None) of (started, updateRes) \<Rightarrow>
          (if \<not> started then (None, Some (InternalErr ''failed to start deployment workflow''))
           else (case convertUpdateFailure updateRes of
              Some err \<Rightarrow> (None, Some err)
            | None \<Rightarrow> (outcome_of updateRes, None)))))"

definition updateWorkflowWithStart ::
    "client_env \<Rightarrow> string \<Rightarrow> WorkerDeploymentVersion \<Rightarrow> update_call
      \<Rightarrow> outcome option \<times> service_error option" where
  "updateWorkflowWithStart env workflowID version call = (case EncodeFails env (EncodeStart version) of
     Some err \<Rightarrow> (None, Some err)
   | None \<Rightarrow> (case EncodeFails env (EncodeUpdate call) of
       Some err \<Rightarrow> (None, Some err)
     | None \<Rightarrow> retry_update env (start_attempt env workflowID version call)))"

section \<open>The errors that a caller sees\<close>

definition isInvalidArgumentError :: "service_error \<Rightarrow> bool" where
  "isInvalidArgumentError err = (case err of InvalidArgumentErr msg \<Rightarrow> True | _ \<Rightarrow> False)"

text \<open>The texts of the \<open>Sprintf\<close> formats \<open>ErrTooManyRequests\<close> and
  \<open>ErrWorkerControllerInstanceNotFound\<close>.\<close>

definition quoted :: "string \<Rightarrow> string" where
  "quoted t = CHR 0x27 # t @ [CHR 0x27]"

definition too_many_requests :: "WorkerDeploymentVersion \<Rightarrow> string" where
  "too_many_requests v = ''too many requests issued to Worker Deployment Version '' @ quoted (DeploymentName v)
     @ '' '' @ quoted (BuildId v) @ ''. Please try again later''"

definition instance_not_found :: "WorkerDeploymentVersion \<Rightarrow> string" where
  "instance_not_found v = ''no Worker Controller Instance found for Worker Deployment with name ''
     @ quoted (DeploymentName v) @ '' '' @ BuildId v"

definition no_version :: WorkerDeploymentVersion where
  "no_version = \<lparr>DeploymentName = '''', BuildId = ''''\<rparr>"

text \<open>The deferred function of the operations: the branches that only write a log entry return
  the error as it is.\<close>

definition convertAndRecordError ::
    "client_env \<Rightarrow> WorkerDeploymentVersion option \<Rightarrow> service_error \<Rightarrow> service_error" where
  "convertAndRecordError env version err =
    (let v = (case version of None \<Rightarrow> no_version | Some v \<Rightarrow> v)
     in if isFailedPreconditionOrNotFound err then err
        else if isRetryableUpdateError env err \<or> isRetryableQueryError env err then
          (case err of
             ResourceExhaustedErr WorkerDeploymentLimits msg \<Rightarrow> err
           | _ \<Rightarrow> ResourceExhaustedErr BusyWorkflowCause (too_many_requests v))
        else err)"

fun convert_result ::
    "client_env \<Rightarrow> WorkerDeploymentVersion option \<Rightarrow> service_error + 'a \<Rightarrow> service_error + 'a" where
  "convert_result env version (Inl err) = Inl (convertAndRecordError env version err)"
| "convert_result env version (Inr x) = Inr x"

section \<open>Checks\<close>

definition check_version_fields :: "client_env \<Rightarrow> WorkerDeploymentVersion \<Rightarrow> service_error option" where
  "check_version_fields env version =
    (case ValidateField env DeploymentNameField (DeploymentName version) (MaxIDLength env) of
       Some err \<Rightarrow> Some err
     | None \<Rightarrow> ValidateField env BuildIdField (BuildId version) (MaxIDLength env))"

definition checkWorkerControllerEnabled :: "client_env \<Rightarrow> service_error option" where
  "checkWorkerControllerEnabled env =
    (if NamespaceEnabled env then None
     else Some (FailedPreconditionErr (''worker controller is disabled in namespace '' @ Namespace env)))"

definition workflowIsRunning :: "client_env \<Rightarrow> string \<Rightarrow> service_error + bool" where
  "workflowIsRunning env workflowID = (case DescribeExecution env workflowID of
     Inl (NotFoundErr msg) \<Rightarrow> Inr False
   | Inl err \<Rightarrow> Inl err
   | Inr running \<Rightarrow> Inr running)"

definition WorkerControllerInstanceExists :: "client_env \<Rightarrow> WorkerDeploymentVersion \<Rightarrow> service_error + bool" where
  "WorkerControllerInstanceExists env version =
     workflowIsRunning env (GenerateWorkerControllerInstanceWorkflowID version)"

definition countWorkerControllerInstances :: "client_env \<Rightarrow> service_error + int" where
  "countWorkerControllerInstances env = CountExecutions env"

definition limit_reached :: "int \<Rightarrow> service_error" where
  "limit_reached limit = ResourceExhaustedErr WorkerDeploymentLimits
     (''reached maximum worker controller instances in namespace ('' @ show_int limit @ '')'')"

definition checkInstanceCount :: "client_env \<Rightarrow> WorkerDeploymentVersion \<Rightarrow> service_error option" where
  "checkInstanceCount env version =
    (case workflowIsRunning env (GenerateWorkerControllerInstanceWorkflowID version) of
       Inl err \<Rightarrow> Some err
     | Inr True \<Rightarrow> None
     | Inr False \<Rightarrow> (case countWorkerControllerInstances env of
         Inl err \<Rightarrow> Some err
       | Inr count \<Rightarrow>
           (if count \<ge> MaxInstances env then Some (limit_reached (MaxInstances env)) else None)))"

section \<open>The operations\<close>

definition UpdateTaskQueueName :: "string \<Rightarrow> client_env \<Rightarrow> client_env \<times> service_error option" where
  "UpdateTaskQueueName newTaskQueueName env =
    (if newTaskQueueName = [] then (env, Some (OtherErr ''invalid task queue name''))
     else (env\<lparr>controllerTaskQueueName := newTaskQueueName\<rparr>, None))"

definition query_error :: "WorkerDeploymentVersion \<Rightarrow> service_error \<Rightarrow> service_error" where
  "query_error version err = (case err of
     NotFoundErr msg \<Rightarrow> NotFoundErr (instance_not_found version)
   | QueryFailedErr msg \<Rightarrow>
       (if msg = ''worker deployment deleted'' then NotFoundErr (instance_not_found version) else err)
   | _ \<Rightarrow> err)"

definition query_attempt :: "client_env \<Rightarrow> WorkerDeploymentVersion \<Rightarrow> nat \<Rightarrow> service_error option" where
  "query_attempt env version n =
    (case QueryExecution env (GenerateWorkerControllerInstanceWorkflowID version) n of
       Inl err \<Rightarrow> Some err | Inr res \<Rightarrow> None)"

definition queryWorkflowWithRetry :: "client_env \<Rightarrow> WorkerDeploymentVersion \<Rightarrow> service_error + Payload" where
  "queryWorkflowWithRetry env version =
    (case Retry env (query_attempt env version) (isRetryableQueryError env) of
       (_, Some err) \<Rightarrow> Inl (query_error version err)
     | (None, None) \<Rightarrow> Inl (InternalErr ''Did not receive worker controller instance info'')
     | (Some n, None) \<Rightarrow>
        (case QueryExecution env (GenerateWorkerControllerInstanceWorkflowID version) n of
           Inr (QueryRejected status) \<Rightarrow>
             Inl (InternalErr (''describe worker controller instance query rejected with status '' @ status))
         | Inr (QueryResult p) \<Rightarrow> Inr p
         | _ \<Rightarrow> Inl (InternalErr ''Did not receive worker controller instance info'')))"

definition DescribeWorkerControllerInstance ::
    "client_env \<Rightarrow> WorkerDeploymentVersion \<Rightarrow> service_error + DescribeResponse \<times> string option" where
  "DescribeWorkerControllerInstance env version = convert_result env (Some version)
    (case check_version_fields env version of
       Some err \<Rightarrow> Inl err
     | None \<Rightarrow> (case queryWorkflowWithRetry env version of
         Inl err \<Rightarrow> Inl err
       | Inr result \<Rightarrow> (case DecodeDescribe env result of
           Inl err \<Rightarrow> Inl err
         | Inr response \<Rightarrow> Inr (response, DescribedToken response))))"

text \<open>The memo is nil, or its map of fields may be; the converter gets what is stored under the
  field, nil if it is missing.\<close>

definition DecodeWorkerControllerInstanceMemo ::
    "client_env \<Rightarrow> (string, Payload) gomap option option
      \<Rightarrow> service_error + WorkerControllerInstanceMemo" where
  "DecodeWorkerControllerInstanceMemo env memo = (case memo of
     Some (Some payloads) \<Rightarrow> DecodeMemo env (map_of payloads WorkerControllerInstanceMemoField)
   | _ \<Rightarrow> Inl (OtherErr
       (''decoding WorkerControllerInstanceMemo failed: Memo or it'' @ CHR 0x27
         # ''s fields are nil'')))"

definition summary_of :: "WorkerControllerInstanceMemo \<Rightarrow> summary" where
  "summary_of info = \<lparr>SummaryVersion =
       \<lparr>DeploymentName = MemoDeploymentName info, BuildId = MemoBuildId info\<rparr>,
     SummaryCreateTime = MemoCreateTime info\<rparr>"

fun summaries :: "client_env \<Rightarrow> execution list \<Rightarrow> summary list" where
  "summaries env [] = []"
| "summaries env (ex # exs) = (case ExecutionMemo ex of
     Some memo \<Rightarrow> (case DecodeWorkerControllerInstanceMemo env (Some memo) of
         Inl err \<Rightarrow> summaries env exs
       | Inr info \<Rightarrow> summary_of info # summaries env exs)
   | None \<Rightarrow>
       \<lparr>SummaryVersion = GetDeploymentNameBuildIdFromWorkflowID (ExecutionWorkflowId ex),
        SummaryCreateTime = ExecutionStart ex\<rparr> # summaries env exs)"

definition ListWorkerControllerInstances ::
    "client_env \<Rightarrow> int \<Rightarrow> string \<Rightarrow> service_error + summary list \<times> string" where
  "ListWorkerControllerInstances env pageSize nextPageToken = convert_result env None
    (case ListExecutions env (if pageSize = 0 then VisibilityMaxPageSize env else pageSize) nextPageToken of
       Inl err \<Rightarrow> Inl err
     | Inr (executions, token) \<Rightarrow> Inr (summaries env executions, token))"

definition GetFailure :: "outcome option \<Rightarrow> failure option" where
  "GetFailure outcome = (case outcome of Some (OutcomeFailure f) \<Rightarrow> Some f | _ \<Rightarrow> None)"

definition GetSuccess :: "outcome option \<Rightarrow> Payload option" where
  "GetSuccess outcome = (case outcome of Some (OutcomeSuccess p) \<Rightarrow> Some p | _ \<Rightarrow> None)"

definition update_result ::
    "client_env \<Rightarrow> outcome option \<Rightarrow> service_error + WorkerControllerInstanceSpec option" where
  "update_result env outcome = (case GetFailure outcome of
     Some f \<Rightarrow> Inl (if AppFailureType f = Some ''InvalidArgument''
       then InvalidArgumentErr (FailureMessage f) else InternalErr (FailureMessage f))
   | None \<Rightarrow> DecodeUpdate env (GetSuccess outcome))"

definition update_instance ::
    "client_env \<Rightarrow> WorkerDeploymentVersion \<Rightarrow> UpdateWorkerControllerInstanceRequest
      \<Rightarrow> service_error + WorkerControllerInstanceSpec option" where
  "update_instance env version updateReq =
    (case check_version_fields env version of Some err \<Rightarrow> Inl err | None \<Rightarrow>
     (case checkWorkerControllerEnabled env of Some err \<Rightarrow> Inl err | None \<Rightarrow>
      (case checkInstanceCount env version of Some err \<Rightarrow> Inl err | None \<Rightarrow>
       (case updateWorkflowWithStart env (GenerateWorkerControllerInstanceWorkflowID version) version
               (UpdateCall updateReq) of
          (outcome, Some err) \<Rightarrow> Inl err
        | (outcome, None) \<Rightarrow> update_result env outcome))))"

definition UpdateWorkerControllerInstance ::
    "client_env \<Rightarrow> WorkerDeploymentVersion \<Rightarrow> string option \<Rightarrow> string
      \<Rightarrow> (string, ScalingGroupSpecUpdate) gomap \<Rightarrow> string list
      \<Rightarrow> service_error + WorkerControllerInstanceSpec option" where
  "UpdateWorkerControllerInstance env version conflictToken identity upserts removes =
    convert_result env (Some version) (update_instance env version
      \<lparr>Identity = identity, RequestConflictToken = conflictToken,
       UpsertScalingGroups = upserts, RemoveScalingGroups = removes\<rparr>)"

text \<open>The handler of the query in the workflow of the instance, and the query that dumps its state.\<close>

definition describe_query :: "runner \<Rightarrow> string + DescribeResponse" where
  "describe_query d =
    (if deleteInstance d then Inl ''worker deployment deleted''
     else Inr \<lparr>DescribedName = RequestDeploymentName (RunContext d),
       DescribedBuildID = DeploymentBuildID (RunContext d),
       DescribedCreateTime = CreateTime (RunState d), DescribedSpec = StateSpec (RunState d),
       DescribedToken = StateConflictToken (RunState d),
       DescribedValidation = ValidationStatus (RunState d)\<rparr>)"

definition dump_query :: "runner \<Rightarrow> LocalState" where
  "dump_query d = RunState d"

section \<open>The dry run of an instance that does not exist\<close>

definition failed_error :: "failure option \<Rightarrow> service_error" where
  "failed_error f = (case f of
     None \<Rightarrow> InternalErr ''workflow execution failed''
   | Some f \<Rightarrow> (if AppFailureType f = Some ''InvalidArgument''
       then InvalidArgumentErr (FailureMessage f) else InternalErr (FailureMessage f)))"

fun close_error :: "string \<Rightarrow> close_event \<Rightarrow> service_error option" where
  "close_error requestID Completed = None"
| "close_error requestID (Failed f) = Some (failed_error f)"
| "close_error requestID TimedOut =
     Some (InternalErr (''workflow execution for request '' @ requestID @ '' timed out''))"
| "close_error requestID CanceledEvent =
     Some (InternalErr (''workflow execution for request '' @ requestID @ '' was cancelled''))"
| "close_error requestID Terminated =
     Some (InternalErr (''workflow execution for request '' @ requestID @ '' was terminated''))"
| "close_error requestID (OtherClose eventType) =
     Some (InternalErr (''workflow for request '' @ requestID @ '' closed unexpectedly (event type: ''
       @ eventType @ '')''))"

text \<open>The loop over the history pages may run for ever, so its result is an option: \<open>None\<close> is a
  loop that does not return.  \<open>n\<close> counts the pages.\<close>

partial_function (option) await_close ::
    "client_env \<Rightarrow> string \<Rightarrow> nat \<Rightarrow> service_error option option" where
  "await_close env requestID n = (case HistoryPage env n of
     Inl err \<Rightarrow> Some (Some err)
   | Inr events \<Rightarrow> (if events \<noteq> [] then Some (close_error requestID (last events))
                   else await_close env requestID (Suc n)))"

definition startWorkflowAndWait ::
    "client_env \<Rightarrow> string \<Rightarrow> (string, ScalingGroupSpecUpdate) gomap \<Rightarrow> service_error option option" where
  "startWorkflowAndWait env requestID upserts = (case EncodeFails env (EncodeDryRun upserts) of
     Some err \<Rightarrow> Some (Some err)
   | None \<Rightarrow>
      (case StartExecution env (controllerTaskQueueName env) \<lparr>ValidateUpserts = Some upserts\<rparr> of
         Some err \<Rightarrow> Some (Some err)
       | None \<Rightarrow> await_close env requestID 0))"

text \<open>What the instance answers; \<open>None\<close> when the dry run has to answer instead.\<close>

definition validate_running ::
    "client_env \<Rightarrow> WorkerDeploymentVersion \<Rightarrow> update_call \<Rightarrow> service_error option option" where
  "validate_running env version call = (case EncodeFails env (EncodeUpdate call) of
     Some err \<Rightarrow> Some (Some err)
   | None \<Rightarrow> (case updateWorkflow env (GenerateWorkerControllerInstanceWorkflowID version) call of
       (outcome, Some (NotFoundErr msg)) \<Rightarrow> None
     | (outcome, Some err) \<Rightarrow> Some (Some err)
     | (None, None) \<Rightarrow> None
     | (Some oc, None) \<Rightarrow> Some (map_option (\<lambda>f. InvalidArgumentErr (FailureMessage f)) (GetFailure (Some oc)))))"

definition validate_new ::
    "client_env \<Rightarrow> string \<Rightarrow> (string, ScalingGroupSpecUpdate) gomap \<Rightarrow> string list
      \<Rightarrow> service_error option option" where
  "validate_new env requestID upserts removes =
    (if upserts = [] \<or> removes \<noteq> [] then Some (Some (InvalidArgumentErr
       ''No prior compute config found, which means nothing can be removed and something needs to be added to be valid''))
     else (case checkWorkerControllerEnabled env of
       Some err \<Rightarrow> Some (Some err)
     | None \<Rightarrow> startWorkflowAndWait env requestID upserts))"

definition ValidateWorkerControllerInstanceSpec ::
    "client_env \<Rightarrow> string \<Rightarrow> WorkerDeploymentVersion option \<Rightarrow> string
      \<Rightarrow> (string, ScalingGroupSpecUpdate) gomap \<Rightarrow> string list \<Rightarrow> service_error option option" where
  "ValidateWorkerControllerInstanceSpec env requestID version identity upserts removes =
    map_option (map_option (convertAndRecordError env None))
     (case (case version of None \<Rightarrow> None
            | Some v \<Rightarrow> validate_running env v (ValidateCall identity upserts removes)) of
        Some result \<Rightarrow> Some result
      | None \<Rightarrow> validate_new env requestID upserts removes)"

section \<open>Deletion and signals\<close>

definition delete_instance ::
    "client_env \<Rightarrow> WorkerDeploymentVersion \<Rightarrow> string \<Rightarrow> service_error option" where
  "delete_instance env version identity =
    (case check_version_fields env version of Some err \<Rightarrow> Some err | None \<Rightarrow>
     (case EncodeFails env (EncodeUpdate (DeleteCall identity)) of Some err \<Rightarrow> Some err | None \<Rightarrow>
      (case updateWorkflow env (GenerateWorkerControllerInstanceWorkflowID version) (DeleteCall identity) of
         (outcome, Some (NotFoundErr msg)) \<Rightarrow> None
       | (outcome, Some err) \<Rightarrow> Some err
       | (outcome, None) \<Rightarrow> map_option (\<lambda>f. InternalErr (FailureMessage f)) (GetFailure outcome))))"

definition DeleteWorkerControllerInstance ::
    "client_env \<Rightarrow> WorkerDeploymentVersion \<Rightarrow> string \<Rightarrow> service_error option" where
  "DeleteWorkerControllerInstance env version identity =
     map_option (convertAndRecordError env (Some version)) (delete_instance env version identity)"

definition SignalTaskAddEvent ::
    "client_env \<Rightarrow> WorkerDeploymentVersion \<Rightarrow> SignalTaskAddRequest \<Rightarrow> service_error option" where
  "SignalTaskAddEvent env version request = (case EncodeFails env (EncodeSignal request) of
     Some err \<Rightarrow> Some err
   | None \<Rightarrow> SignalExecution env (GenerateWorkerControllerInstanceWorkflowID version) request)"

section \<open>What the answers of the server amount to\<close>

text \<open>What the code relies on of \<open>backoff.ThrottleRetryContext\<close>: it returns what the last
  attempt returned, and goes on only after retryable errors; when the context ends it returns
  the context's error.\<close>

definition retries :: "retrier \<Rightarrow> bool" where
  "retries retry \<longleftrightarrow> (\<forall>op p. case retry op p of
     (Some n, r) \<Rightarrow> r = op n \<and> (\<forall>m < n. \<exists>e. op m = Some e \<and> p e)
   | (None, r) \<Rightarrow> \<exists>msg. r = Some (DeadlineExceededErr msg) \<or> r = Some (CanceledErr msg))"

definition context_error :: "service_error \<Rightarrow> bool" where
  "context_error e \<longleftrightarrow> (\<exists>msg. e = DeadlineExceededErr msg \<or> e = CanceledErr msg)"

lemma retries_cases:
  assumes "retries retry"
  obtains (ended) n where "retry op p = (Some n, op n)" "\<forall>m < n. \<exists>e. op m = Some e \<and> p e"
    | (context_ended) e where "retry op p = (None, Some e)" "context_error e"
proof -
  have "case retry op p of
     (Some n, r) \<Rightarrow> r = op n \<and> (\<forall>m < n. \<exists>e. op m = Some e \<and> p e)
   | (None, r) \<Rightarrow> \<exists>msg. r = Some (DeadlineExceededErr msg) \<or> r = Some (CanceledErr msg)"
    by (rule assms [unfolded retries_def, THEN spec, THEN spec])
  with that show ?thesis
    by (cases "retry op p") (auto simp: context_error_def split: option.splits)
qed

lemma retry_update_cases:
  assumes "retries (Retry env)"
  obtains (success) n oc where "retry_update env attempt = (oc, None)" "attempt n = (oc, None)"
      "\<forall>m < n. \<exists>e. snd (attempt m) = Some e \<and> isRetryableUpdateError env e"
    | (error) n err where "retry_update env attempt = (None, Some err)" "snd (attempt n) = Some err"
      "\<forall>m < n. \<exists>e. snd (attempt m) = Some e \<and> isRetryableUpdateError env e"
    | (context_ended) err where "retry_update env attempt = (None, Some err)" "context_error err"
proof (cases rule: retries_cases [OF assms, of "\<lambda>n. snd (attempt n)" "isRetryableUpdateError env"])
  case (1 n)
  show ?thesis
  proof (cases "snd (attempt n)")
    case None
    with 1 have "retry_update env attempt = (fst (attempt n), None)" by (simp add: retry_update_def)
    moreover from None have "attempt n = (fst (attempt n), None)" by (metis prod.collapse)
    ultimately show ?thesis using success 1(2) by blast
  next
    case (Some e)
    with 1 have "retry_update env attempt = (None, Some e)" by (simp add: retry_update_def)
    from error [OF this Some 1(2)] show ?thesis .
  qed
next
  case (2 e)
  with context_ended show ?thesis by (simp add: retry_update_def)
qed

lemma retry_update_success:
  assumes "retries (Retry env)" and "retry_update env attempt = (oc, None)"
  shows "\<exists>n. attempt n = (oc, None)"
  using assms(2) by (cases rule: retry_update_cases [OF assms(1), of attempt]) auto

lemma retry_update_error:
  assumes "retries (Retry env)" and "retry_update env attempt = (oc, Some err)"
  shows "(\<exists>n. snd (attempt n) = Some err) \<or> context_error err"
  using assms(2) by (cases rule: retry_update_cases [OF assms(1), of attempt]) auto

text \<open>The failures that are left to the caller.\<close>

definition unclassified :: "failure \<Rightarrow> bool" where
  "unclassified f \<longleftrightarrow> AppFailureType f \<notin> Some ` {''errLongHistory'', ''worker deployment deleted'',
     ''FailedPrecondition''}"

lemma convertUpdateFailure_None_iff:
  "convertUpdateFailure res = None \<longleftrightarrow>
    (\<exists>r oc. res = Some r \<and> StageCompleted r \<and> Outcome r = Some oc
      \<and> ((\<exists>p. oc = OutcomeSuccess p) \<or> (\<exists>f. oc = OutcomeFailure f \<and> unclassified f)))"
  by (auto simp: convertUpdateFailure_def unclassified_def split: option.splits outcome.splits)

lemma collect_responses_started:
  "collect_responses rs (s, u) = (True, u') \<Longrightarrow> s \<or> StartResponse \<in> set rs"
  by (induction rs "(s, u)" arbitrary: s u rule: collect_responses.induct) auto

lemma collect_responses_update:
  "collect_responses rs (s, u) = (s', Some r) \<Longrightarrow> u = Some r \<or> UpdateResponse (Some r) \<in> set rs"
  by (induction rs "(s, u)" arbitrary: s u rule: collect_responses.induct) auto

lemma start_attempt_success:
  assumes "start_attempt env w v call n = (oc, None)"
  shows "\<exists>rs r. MultiOperation env (controllerTaskQueueName env) w v call n = Inr rs
    \<and> StartResponse \<in> set rs \<and> UpdateResponse (Some r) \<in> set rs \<and> StageCompleted r \<and> Outcome r = oc
    \<and> ((\<exists>p. oc = Some (OutcomeSuccess p)) \<or> (\<exists>f. oc = Some (OutcomeFailure f) \<and> unclassified f))"
proof -
  from assms obtain rs u where rs: "MultiOperation env (controllerTaskQueueName env) w v call n = Inr rs"
    "collect_responses rs (False, None) = (True, u)" "convertUpdateFailure u = None" "oc = outcome_of u"
    by (auto simp: start_attempt_def split: sum.splits prod.splits if_splits option.splits)
  moreover from rs(3) obtain r where r: "u = Some r" "StageCompleted r"
    "(\<exists>p. Outcome r = Some (OutcomeSuccess p)) \<or> (\<exists>f. Outcome r = Some (OutcomeFailure f) \<and> unclassified f)"
    by (auto simp: convertUpdateFailure_None_iff)
  ultimately show ?thesis
    using collect_responses_started [OF rs(2)] collect_responses_update [of rs False None True r]
    by (auto simp: outcome_of_def)
qed

lemma update_attempt_success:
  assumes "update_attempt env w call n = (oc, None)"
  shows "\<exists>r. UpdateExecution env w call n = Inr (Some r) \<and> StageCompleted r \<and> Outcome r = oc
    \<and> ((\<exists>p. oc = Some (OutcomeSuccess p)) \<or> (\<exists>f. oc = Some (OutcomeFailure f) \<and> unclassified f))"
  using assms
  by (auto simp: update_attempt_def outcome_of_def convertUpdateFailure_None_iff
      split: sum.splits option.splits)

lemma checkInstanceCount_None_iff:
  "checkInstanceCount env v = None \<longleftrightarrow>
    (let w = GenerateWorkerControllerInstanceWorkflowID v
     in DescribeExecution env w = Inr True
      \<or> (DescribeExecution env w = Inr False \<or> (\<exists>msg. DescribeExecution env w = Inl (NotFoundErr msg)))
        \<and> (\<exists>count. CountExecutions env = Inr count \<and> count < MaxInstances env))"
  by (auto simp: checkInstanceCount_def workflowIsRunning_def countWorkerControllerInstances_def Let_def
      split: sum.splits bool.splits service_error.splits if_splits)

lemma convert_result_Inr_iff [simp]: "convert_result env v x = Inr y \<longleftrightarrow> x = Inr y"
  by (cases x) auto

section \<open>Properties\<close>

text \<open>C18: An update that the client reports as done has been done: the names are valid, the
  namespace is enabled, the instance was running or there was room for another one, and some
  attempt was answered with a started
  workflow and a completed update whose success is the reported specification.\<close>

theorem reported_update_is_done:
  assumes "retries (Retry env)"
    and "UpdateWorkerControllerInstance env v token identity upserts removes = Inr spec"
  shows "check_version_fields env v = None \<and> NamespaceEnabled env
    \<and> (DescribeExecution env (GenerateWorkerControllerInstanceWorkflowID v) = Inr True
       \<or> (\<exists>count. CountExecutions env = Inr count \<and> count < MaxInstances env))
    \<and> (\<exists>n responses r p. MultiOperation env (controllerTaskQueueName env)
          (GenerateWorkerControllerInstanceWorkflowID v) v
          (UpdateCall \<lparr>Identity = identity, RequestConflictToken = token,
             UpsertScalingGroups = upserts, RemoveScalingGroups = removes\<rparr>) n = Inr responses
        \<and> StartResponse \<in> set responses \<and> UpdateResponse (Some r) \<in> set responses
        \<and> StageCompleted r \<and> Outcome r = Some (OutcomeSuccess p) \<and> DecodeUpdate env (Some p) = Inr spec)"
proof -
  let ?w = "GenerateWorkerControllerInstanceWorkflowID v"
  let ?call = "UpdateCall \<lparr>Identity = identity, RequestConflictToken = token,
    UpsertScalingGroups = upserts, RemoveScalingGroups = removes\<rparr>"
  from assms(2) obtain oc where oc: "check_version_fields env v = None"
    "checkWorkerControllerEnabled env = None" "checkInstanceCount env v = None"
    "updateWorkflowWithStart env ?w v ?call = (oc, None)" "update_result env oc = Inr spec"
    by (auto simp: UpdateWorkerControllerInstance_def update_instance_def
        split: option.splits prod.splits)
  from oc(4) have "retry_update env (start_attempt env ?w v ?call) = (oc, None)"
    by (auto simp: updateWorkflowWithStart_def split: option.splits)
  from retry_update_success [OF assms(1) this] obtain n
    where "start_attempt env ?w v ?call n = (oc, None)" by blast
  from start_attempt_success [OF this] oc(5)
  have "\<exists>responses r p. MultiOperation env (controllerTaskQueueName env) ?w v ?call n = Inr responses
        \<and> StartResponse \<in> set responses \<and> UpdateResponse (Some r) \<in> set responses
        \<and> StageCompleted r \<and> Outcome r = Some (OutcomeSuccess p) \<and> DecodeUpdate env (Some p) = Inr spec"
    by (fastforce simp: update_result_def GetFailure_def GetSuccess_def)
  moreover from oc(3) have "DescribeExecution env ?w = Inr True
       \<or> (\<exists>count. CountExecutions env = Inr count \<and> count < MaxInstances env)"
    by (auto simp: checkInstanceCount_None_iff Let_def)
  ultimately show ?thesis
    using oc(1,2) by (auto simp: checkWorkerControllerEnabled_def split: if_splits)
qed

text \<open>C33: A deletion that the client reports as done finds no instance any more: the names are
  valid, and the server answered that there is no such workflow, or the workflow that it is
  deleted already, or a completed deletion with success.\<close>

theorem reported_deletion_is_done:
  assumes "retries (Retry env)" and "DeleteWorkerControllerInstance env v identity = None"
  shows "check_version_fields env v = None
    \<and> (\<exists>n. (\<exists>msg. UpdateExecution env (GenerateWorkerControllerInstanceWorkflowID v)
              (DeleteCall identity) n = Inl (NotFoundErr msg))
         \<or> (\<exists>r. UpdateExecution env (GenerateWorkerControllerInstanceWorkflowID v)
              (DeleteCall identity) n = Inr (Some r) \<and> StageCompleted r
            \<and> ((\<exists>p. Outcome r = Some (OutcomeSuccess p))
               \<or> (\<exists>f. Outcome r = Some (OutcomeFailure f)
                    \<and> AppFailureType f = Some ''worker deployment deleted''))))"
proof -
  let ?w = "GenerateWorkerControllerInstanceWorkflowID v"
  have not_found: "\<exists>m. UpdateExecution env ?w (DeleteCall identity) n = Inl (NotFoundErr m)
      \<or> (\<exists>r f. UpdateExecution env ?w (DeleteCall identity) n = Inr (Some r) \<and> StageCompleted r
          \<and> Outcome r = Some (OutcomeFailure f) \<and> AppFailureType f = Some ''worker deployment deleted'')"
    if "snd (update_attempt env ?w (DeleteCall identity) n) = Some (NotFoundErr msg)" for n msg
    using that by (auto simp: update_attempt_def convertUpdateFailure_def
        split: sum.splits option.splits if_splits outcome.splits)
  from assms(2) obtain oc err where oc: "check_version_fields env v = None"
    "updateWorkflow env ?w (DeleteCall identity) = (oc, err)"
    "(\<exists>msg. err = Some (NotFoundErr msg)) \<or> err = None \<and> GetFailure oc = None"
    by (auto simp: DeleteWorkerControllerInstance_def delete_instance_def
        split: option.splits prod.splits service_error.splits)
  show ?thesis
  proof (cases err)
    case None
    with oc(2) retry_update_success [OF assms(1)] obtain n
      where "update_attempt env ?w (DeleteCall identity) n = (oc, None)"
      unfolding updateWorkflow_def by blast
    from update_attempt_success [OF this] oc(3) None show ?thesis
      using oc(1) by (fastforce simp: GetFailure_def)
  next
    case (Some e)
    with oc(3) obtain msg where "err = Some (NotFoundErr msg)" by auto
    with oc(2) have "retry_update env (update_attempt env ?w (DeleteCall identity))
        = (oc, Some (NotFoundErr msg))" by (simp add: updateWorkflow_def)
    from retry_update_error [OF assms(1) this] obtain n
      where "snd (update_attempt env ?w (DeleteCall identity) n) = Some (NotFoundErr msg)"
      by (auto simp: context_error_def)
    from not_found [OF this] oc(1) show ?thesis by blast
  qed
qed


lemma await_close_skips:
  assumes "\<forall>j < k. HistoryPage env (n + j) = Inr []"
  shows "await_close env requestID n = await_close env requestID (n + k)"
  using assms
proof (induction k)
  case (Suc k)
  then have "await_close env requestID n = await_close env requestID (n + k)" by simp
  also have "\<dots> = await_close env requestID (n + Suc k)"
    using Suc.prems by (subst await_close.simps) simp
  finally show ?case .
qed simp

lemma await_close_returns:
  assumes "await_close env requestID n = Some r"
  shows "\<exists>k. HistoryPage env (n + k) \<noteq> Inr []"
proof (rule await_close.raw_induct [where P = "\<lambda>env requestID n r. \<exists>k. HistoryPage env (n + k) \<noteq> Inr []",
      OF _ assms])
  fix f :: "client_env \<Rightarrow> string \<Rightarrow> nat \<Rightarrow> service_error option option"
    and env :: client_env and requestID n r
  assume ih: "\<And>env requestID n r. f env requestID n = Some r \<Longrightarrow> \<exists>k. HistoryPage env (n + k) \<noteq> Inr []"
    and eq: "(case HistoryPage env n of Inl err \<Rightarrow> Some (Some err)
      | Inr events \<Rightarrow> (if events \<noteq> [] then Some (close_error requestID (last events))
                      else f env requestID (Suc n))) = Some r"
  show "\<exists>k. HistoryPage env (n + k) \<noteq> Inr []"
  proof (cases "HistoryPage env n = Inr []")
    case True
    with eq have "f env requestID (Suc n) = Some r" by simp
    from ih [OF this] show ?thesis by (metis add_Suc_shift)
  next
    case False
    then show ?thesis by (metis add_0_right)
  qed
qed

definition page_result :: "string \<Rightarrow> service_error + close_event list \<Rightarrow> service_error option" where
  "page_result requestID page = (case page of
     Inl err \<Rightarrow> Some err | Inr events \<Rightarrow> close_error requestID (last events))"

lemma await_close_first_page:
  assumes "\<forall>j < k. HistoryPage env j = Inr []" and "HistoryPage env k \<noteq> Inr []"
  shows "await_close env requestID 0 = Some (page_result requestID (HistoryPage env k))"
proof -
  have "await_close env requestID 0 = await_close env requestID k"
    using await_close_skips [of k env 0] assms(1) by simp
  also have "\<dots> = Some (page_result requestID (HistoryPage env k))"
    using assms(2) by (subst await_close.simps) (auto simp: page_result_def split: sum.splits)
  finally show ?thesis .
qed

lemma await_close_iff:
  "await_close env requestID 0 = Some r \<longleftrightarrow>
    (\<exists>k. (\<forall>j < k. HistoryPage env j = Inr []) \<and> HistoryPage env k \<noteq> Inr []
      \<and> r = page_result requestID (HistoryPage env k))" (is "?l \<longleftrightarrow> ?r")
proof
  assume ?l
  from await_close_returns [OF this] obtain k' where "HistoryPage env k' \<noteq> Inr []" by auto
  then obtain k where "HistoryPage env k \<noteq> Inr []" "\<forall>j < k. HistoryPage env j = Inr []"
    using exists_least_iff [of "\<lambda>k. HistoryPage env k \<noteq> Inr []"] by blast
  with \<open>?l\<close> await_close_first_page [of k env requestID] show ?r by auto
qed (use await_close_first_page in blast)

text \<open>C34: The client's wait for a dry run returns exactly when it could not be started, or some
  page of the history has events or is an error; it then says what the first such page says.\<close>

theorem dry_run_wait_terminates:
  "startWorkflowAndWait env requestID upserts = Some r \<longleftrightarrow>
    (let refused = first_some [EncodeFails env (EncodeDryRun upserts),
           StartExecution env (controllerTaskQueueName env) \<lparr>ValidateUpserts = Some upserts\<rparr>]
     in if refused \<noteq> None then r = refused
        else (\<exists>k. (\<forall>j < k. HistoryPage env j = Inr []) \<and> HistoryPage env k \<noteq> Inr []
          \<and> r = page_result requestID (HistoryPage env k)))"
  by (auto simp: startWorkflowAndWait_def Let_def await_close_iff split: option.splits)

text \<open>The client reports a specification as valid only when the running instance answered
  so, or, where it is not running, when the request adds groups and removes none, the namespace
  is enabled, and the dry run's workflow completed.\<close>

theorem reported_valid_is_validated:
  assumes "retries (Retry env)"
    and "ValidateWorkerControllerInstanceSpec env requestID version identity upserts removes = Some None"
  shows "(\<exists>v n r p. version = Some v
        \<and> UpdateExecution env (GenerateWorkerControllerInstanceWorkflowID v)
            (ValidateCall identity upserts removes) n = Inr (Some r)
        \<and> StageCompleted r \<and> Outcome r = Some (OutcomeSuccess p))
    \<or> (upserts \<noteq> [] \<and> removes = [] \<and> NamespaceEnabled env
        \<and> StartExecution env (controllerTaskQueueName env) \<lparr>ValidateUpserts = Some upserts\<rparr> = None
        \<and> (\<exists>k events. HistoryPage env k = Inr events \<and> events \<noteq> [] \<and> last events = Completed
            \<and> (\<forall>j < k. HistoryPage env j = Inr [])))"
proof -
  let ?call = "ValidateCall identity upserts removes"
  have completed: "close_error requestID ev = None \<longleftrightarrow> ev = Completed" for ev by (cases ev) auto
  consider (running) v where "version = Some v" "validate_running env v ?call = Some None"
    | (dry) "validate_new env requestID upserts removes = Some None"
    using assms(2) by (auto simp: ValidateWorkerControllerInstanceSpec_def split: option.splits)
  then show ?thesis
  proof cases
    case running
    then obtain oc where oc: "GetFailure (Some oc) = None"
      "retry_update env (update_attempt env (GenerateWorkerControllerInstanceWorkflowID v) ?call)
        = (Some oc, None)"
      by (auto simp: validate_running_def updateWorkflow_def
          split: option.splits prod.splits service_error.splits)
    from retry_update_success [OF assms(1) oc(2)] obtain n
      where "update_attempt env (GenerateWorkerControllerInstanceWorkflowID v) ?call n = (Some oc, None)"
      by blast
    from update_attempt_success [OF this] oc(1) running(1) show ?thesis
      by (auto simp: GetFailure_def)
  next
    case dry
    then have new: "upserts \<noteq> []" "removes = []" "NamespaceEnabled env"
      "StartExecution env (controllerTaskQueueName env) \<lparr>ValidateUpserts = Some upserts\<rparr> = None"
      "await_close env requestID 0 = Some None"
      by (auto simp: validate_new_def checkWorkerControllerEnabled_def startWorkflowAndWait_def
          split: if_splits option.splits)
    then obtain k where k: "\<forall>j < k. HistoryPage env j = Inr []" "HistoryPage env k \<noteq> Inr []"
      "page_result requestID (HistoryPage env k) = None"
      by (auto simp: await_close_iff)
    then obtain events where "HistoryPage env k = Inr events" "events \<noteq> []" "last events = Completed"
      by (cases "HistoryPage env k") (auto simp: page_result_def completed)
    with k(1) new show ?thesis by blast
  qed
qed

section \<open>What the caller sees of the workflow's errors\<close>

text \<open>The type that the workflow gives each of its errors, where it gives one: the type of an
  application error, or the name of the type of a \<open>serviceerror\<close>.\<close>

fun handler_error_type :: "handler_error \<Rightarrow> string option" where
  "handler_error_type WorkerControllerDisabled = Some ''FailedPrecondition''"
| "handler_error_type InstanceDeleted = Some ''worker deployment deleted''"
| "handler_error_type LongHistory = Some ''errLongHistory''"
| "handler_error_type NoChangeFound = Some ''FailedPrecondition''"
| "handler_error_type ConflictTokenMismatch = Some ''FailedPrecondition''"
| "handler_error_type LockFailure = Some ''DeadlineExceeded''"
| "handler_error_type (InvalidUpdate e) = Some ''InvalidArgument''"
| "handler_error_type (InvalidSpec e) = Some ''InvalidArgument''"
| "handler_error_type (InvalidArgument msg) = Some ''InvalidArgument''"
| "handler_error_type (ResourceExhausted msg) = Some ''ResourceExhausted''"
| "handler_error_type (FailedPrecondition msg) = Some ''FailedPrecondition''"
| "handler_error_type (CallFailed e) = None"

text \<open>The failure converter of the SDK is a parameter; it keeps the types.  The error of an activity
  that failed or timed out is passed on as it is, and its failure is one of an activity, not of an
  application, without a type.\<close>

definition keeps_types :: "(handler_error \<Rightarrow> failure) \<Rightarrow> bool" where
  "keeps_types conv \<longleftrightarrow> (\<forall>e. AppFailureType (conv e) = handler_error_type e)"

fun reported :: "WorkerDeploymentVersion \<Rightarrow> string \<Rightarrow> handler_error \<Rightarrow> service_error" where
  "reported v msg InstanceDeleted = NotFoundErr ''Worker Controller Instance not found''"
| "reported v msg LongHistory = ResourceExhaustedErr BusyWorkflowCause (too_many_requests v)"
| "reported v msg WorkerControllerDisabled = FailedPreconditionErr msg"
| "reported v msg NoChangeFound = FailedPreconditionErr msg"
| "reported v msg ConflictTokenMismatch = FailedPreconditionErr msg"
| "reported v msg (FailedPrecondition m) = FailedPreconditionErr msg"
| "reported v msg (InvalidUpdate e) = InvalidArgumentErr msg"
| "reported v msg (InvalidSpec e) = InvalidArgumentErr msg"
| "reported v msg (InvalidArgument m) = InvalidArgumentErr msg"
| "reported v msg (ResourceExhausted m) = InternalErr msg"
| "reported v msg LockFailure = InternalErr msg"
| "reported v msg (CallFailed e) = InternalErr msg"

text \<open>A deletion takes a deleted instance for done, and tells an invalid argument no longer from an
  internal error.\<close>

definition deletion_reported :: "WorkerDeploymentVersion \<Rightarrow> string \<Rightarrow> handler_error \<Rightarrow> service_error option"
where
  "deletion_reported v msg e =
    (if e = InstanceDeleted then None
     else if handler_error_type e = Some ''InvalidArgument'' then Some (InternalErr msg)
     else Some (reported v msg e))"

text \<open>A validation takes whatever else the running instance fails with for an invalid argument.\<close>

definition validation_reported :: "string \<Rightarrow> handler_error \<Rightarrow> service_error" where
  "validation_reported msg e =
    (if e = LongHistory then ResourceExhaustedErr BusyWorkflowCause (too_many_requests no_version)
     else if handler_error_type e = Some ''FailedPrecondition'' then FailedPreconditionErr msg
     else InvalidArgumentErr msg)"

definition rejection :: "failure \<Rightarrow> multi_response list" where
  "rejection f = [StartResponse,
     UpdateResponse (Some \<lparr>StageCompleted = True, Outcome = Some (OutcomeFailure f)\<rparr>)]"

lemma retry_update_constant:
  assumes "retries (Retry env)" and "\<forall>op p. fst (Retry env op p) \<noteq> None" and "\<forall>n. attempt n = a"
  shows "retry_update env attempt = (if snd a = None then a else (None, snd a))"
proof (cases rule: retries_cases [OF assms(1), of "\<lambda>n. snd (attempt n)" "isRetryableUpdateError env"])
  case (1 n)
  with assms(3) show ?thesis by (cases a) (auto simp: retry_update_def split: option.splits)
next
  case (2 e)
  with assms(2) show ?thesis by (metis fst_conv)
qed

lemma not_retryable:
  assumes "msg \<notin> set (ClosingTexts env)"
  shows "convertAndRecordError env v (InternalErr msg) = InternalErr msg"
    and "\<not> ApiRetryable env (InvalidArgumentErr msg)
      \<Longrightarrow> convertAndRecordError env v (InvalidArgumentErr msg) = InvalidArgumentErr msg"
  using assms by (simp_all add: convertAndRecordError_def isRetryableUpdateError_def
      isRetryableQueryError_def Let_def)

text \<open>C21: How each error of the instance's workflow reaches the caller of the client, for each of the
  operations that send it an update.  Of an update of the specification: a deleted instance is
  \<open>NotFound\<close>, the other preconditions are \<open>FailedPrecondition\<close>, an invalid request is
  \<open>InvalidArgument\<close>, a history that is too long is retried and then \<open>ResourceExhausted\<close>; and the
  \<open>ResourceExhausted\<close> of the workflow itself, a mutex that was not granted and an activity that
  failed or timed out become \<open>Internal\<close>.  Of a deletion: a deleted instance counts as deleted, and
  an invalid request too is \<open>Internal\<close>.  Of a validation: a deleted instance is validated as one that
  does not exist, and everything but the preconditions and a long history is \<open>InvalidArgument\<close>, a
  failed activity included.\<close>

theorem workflow_errors_reported:
  assumes "retries (Retry env)" and "\<forall>op p. fst (Retry env op p) \<noteq> None"
    and "keeps_types conv"
    and "check_version_fields env v = None" and "NamespaceEnabled env"
    and "checkInstanceCount env v = None" and "\<forall>x. EncodeFails env x = None"
    and "\<forall>tq w call n. MultiOperation env tq w v call n = Inr (rejection (conv e))"
    and "\<forall>w call n. UpdateExecution env w call n =
      Inr (Some \<lparr>StageCompleted = True, Outcome = Some (OutcomeFailure (conv e))\<rparr>)"
    and "FailureMessage (conv e) \<notin> set (ClosingTexts env)"
    and "\<not> ApiRetryable env (InvalidArgumentErr (FailureMessage (conv e)))"
  shows "UpdateWorkerControllerInstance env v token identity upserts removes =
      Inl (reported v (FailureMessage (conv e)) e)
    \<and> DeleteWorkerControllerInstance env v identity = deletion_reported v (FailureMessage (conv e)) e
    \<and> ValidateWorkerControllerInstanceSpec env requestID (Some v) identity upserts removes =
      (if e = InstanceDeleted
       then ValidateWorkerControllerInstanceSpec env requestID None identity upserts removes
       else Some (Some (validation_reported (FailureMessage (conv e)) e)))"
proof -
  let ?w = "GenerateWorkerControllerInstanceWorkflowID v"
  let ?r = "Some \<lparr>StageCompleted = True, Outcome = Some (OutcomeFailure (conv e))\<rparr>"
  let ?a = "case convertUpdateFailure ?r of Some err \<Rightarrow> (None, Some err) | None \<Rightarrow> (outcome_of ?r, None)"
  have type: "AppFailureType (conv e) = handler_error_type e"
    using assms(3) by (simp add: keeps_types_def)
  have "\<forall>n. start_attempt env ?w v call n = ?a" "\<forall>n. update_attempt env ?w call n = ?a" for call
    using assms(8,9) by (simp_all add: start_attempt_def update_attempt_def rejection_def)
  from retry_update_constant [OF assms(1,2) this(1)] retry_update_constant [OF assms(1,2) this(2)]
  have started: "updateWorkflowWithStart env ?w v call = (if snd ?a = None then ?a else (None, snd ?a))"
    and sent: "updateWorkflow env ?w call = (if snd ?a = None then ?a else (None, snd ?a))" for call
    using assms(7) by (simp_all add: updateWorkflowWithStart_def updateWorkflow_def)
  note defs = convertUpdateFailure_def outcome_of_def GetFailure_def
  note kept = not_retryable [OF assms(10)]
  have "UpdateWorkerControllerInstance env v token identity upserts removes =
    convert_result env (Some v) (case ?a of (oc, Some err) \<Rightarrow> Inl err | (oc, None) \<Rightarrow> update_result env oc)"
    using assms(4-6) by (simp add: UpdateWorkerControllerInstance_def update_instance_def started
        checkWorkerControllerEnabled_def split: prod.splits option.splits)
  also have "\<dots> = Inl (reported v (FailureMessage (conv e)) e)"
    using type kept assms(11)
    by (cases e) (simp_all add: defs update_result_def,
        simp_all add: convertAndRecordError_def isRetryableUpdateError_def)
  moreover have "DeleteWorkerControllerInstance env v identity = deletion_reported v (FailureMessage (conv e)) e"
    using type kept assms(4,7)
    by (cases e) (simp_all add: DeleteWorkerControllerInstance_def delete_instance_def sent defs
        deletion_reported_def, simp_all add: convertAndRecordError_def isRetryableUpdateError_def)
  moreover have "ValidateWorkerControllerInstanceSpec env requestID (Some v) identity upserts removes =
      (if e = InstanceDeleted
       then ValidateWorkerControllerInstanceSpec env requestID None identity upserts removes
       else Some (Some (validation_reported (FailureMessage (conv e)) e)))"
    using type kept assms(7,11)
    by (cases e) (simp_all add: ValidateWorkerControllerInstanceSpec_def validate_running_def sent defs
        validation_reported_def, simp_all add: convertAndRecordError_def isRetryableUpdateError_def)
  ultimately show ?thesis by simp
qed

text \<open>A deleted instance that has not ended yet is described as one that does not exist.\<close>

lemma deleted_instance_not_described:
  assumes "retries (Retry env)" and "\<forall>op p. fst (Retry env op p) \<noteq> None"
    and "check_version_fields env v = None" and "deleteInstance d"
    and "\<forall>w n. QueryExecution env w n = (case describe_query d of
       Inl msg \<Rightarrow> Inl (QueryFailedErr msg) | Inr r \<Rightarrow> Inr (QueryResult (encode r)))"
  shows "DescribeWorkerControllerInstance env v = Inl (NotFoundErr (instance_not_found v))"
proof (cases rule: retries_cases [OF assms(1), of "query_attempt env v" "isRetryableQueryError env"])
  case (1 n)
  with assms(4,5) have "queryWorkflowWithRetry env v = Inl (NotFoundErr (instance_not_found v))"
    by (auto simp: queryWorkflowWithRetry_def query_attempt_def describe_query_def query_error_def)
  with assms(3) show ?thesis
    by (simp add: DescribeWorkerControllerInstance_def convertAndRecordError_def Let_def)
next
  case (2 e)
  with assms(2) show ?thesis by (metis fst_conv)
qed

section \<open>A server and a retry utility\<close>

fun retry_from :: "nat \<Rightarrow> nat \<Rightarrow> retrier" where
  "retry_from 0 n op p = (Some n, op n)"
| "retry_from (Suc k) n op p = (case op n of
     None \<Rightarrow> (Some n, None)
   | Some e \<Rightarrow> (if p e then retry_from k (Suc n) op p else (Some n, Some e)))"

lemma retry_from_last:
  assumes "\<forall>m < n. \<exists>e. op m = Some e \<and> p e"
  shows "\<exists>n'. retry_from k n op p = (Some n', op n') \<and> (\<forall>m < n'. \<exists>e. op m = Some e \<and> p e)"
  using assms
proof (induction k arbitrary: n)
  case (Suc k)
  show ?case
  proof (cases "\<exists>e. op n = Some e \<and> p e")
    case True
    with Suc.prems have "\<forall>m < Suc n. \<exists>e. op m = Some e \<and> p e" by (auto simp: less_Suc_eq)
    from Suc.IH [OF this] True show ?thesis by auto
  next
    case False
    with Suc.prems show ?thesis by (intro exI [of _ n]) (auto split: option.splits)
  qed
qed auto

lemma retry_from_retries: "retries (retry_from k 0)"
  unfolding retries_def
proof (intro allI)
  fix op p
  from retry_from_last [of 0 op p k] obtain n where
    "retry_from k 0 op p = (Some n, op n)" "\<forall>m < n. \<exists>e. op m = Some e \<and> p e" by auto
  then show "case retry_from k 0 op p of
     (Some n, r) \<Rightarrow> r = op n \<and> (\<forall>m < n. \<exists>e. op m = Some e \<and> p e)
   | (None, r) \<Rightarrow> \<exists>msg. r = Some (DeadlineExceededErr msg) \<or> r = Some (CanceledErr msg)"
    by simp
qed

lemma retry_from_uninterrupted: "fst (retry_from k n op p) \<noteq> None"
  by (induction k arbitrary: n) (auto split: option.splits)

text \<open>A server whose answer to the first attempt is not complete yet.\<close>

definition done_response :: "nat \<Rightarrow> update_response" where
  "done_response n = \<lparr>StageCompleted = 0 < n, Outcome = Some (OutcomeSuccess (Payload ''p''))\<rparr>"

definition sample_client :: client_env where
  "sample_client = \<lparr>controllerTaskQueueName = ''tq'', Retry = retry_from 3 0,
     ClosingTexts = [''workflow closing''], ApiRetryable = (\<lambda>e. False), MaxIDLength = 1000,
     ValidateField = (\<lambda>f x limit. if x = '''' \<or> int (length x) > limit
       then Some (InvalidArgumentErr ''bad name'') else None),
     Namespace = ''ns'', NamespaceEnabled = True, MaxInstances = 10, VisibilityMaxPageSize = 100,
     EncodeFails = (\<lambda>x. None), DecodeUpdate = (\<lambda>p. Inr (Some sample_spec)),
     DecodeDescribe = (\<lambda>p. Inl (OtherErr ''no response'')),
     DecodeMemo = (\<lambda>p. Inl (OtherErr ''no memo'')),
     DescribeExecution = (\<lambda>w. Inl (NotFoundErr ''no workflow'')), CountExecutions = Inr 9,
     ListExecutions = (\<lambda>size token. Inr ([], '''')),
     MultiOperation = (\<lambda>tq w v call n. Inr [StartResponse, UpdateResponse (Some (done_response n))]),
     UpdateExecution = (\<lambda>w call n. case call of
         DeleteCall i \<Rightarrow> Inr (Some (done_response n))
       | _ \<Rightarrow> Inl (NotFoundErr ''no workflow'')),
     QueryExecution = (\<lambda>w n. Inr (QueryResult (Payload ''q''))), StartExecution = (\<lambda>tq args. None),
     HistoryPage = (\<lambda>n. if n < 2 then Inr [] else Inr [Completed]),
     SignalExecution = (\<lambda>w r. None)\<rparr>"

lemma sample_client_retries: "retries (Retry sample_client)"
  by (simp add: sample_client_def retry_from_retries)

theorem reported_update_is_done_witness:
  "\<exists>n responses r. MultiOperation sample_client ''tq''
      (GenerateWorkerControllerInstanceWorkflowID sample_version) sample_version
      (UpdateCall first_request) n = Inr responses \<and> UpdateResponse (Some r) \<in> set responses
    \<and> StageCompleted r"
proof -
  have "UpdateWorkerControllerInstance sample_client sample_version None ''me''
      (UpsertScalingGroups first_request) [] = Inr (Some sample_spec)"
    by code_simp
  from reported_update_is_done [OF sample_client_retries this] show ?thesis
    by (auto simp: first_request_def sample_client_def)
qed

theorem reported_deletion_is_done_witness:
  "\<exists>n. UpdateExecution sample_client (GenerateWorkerControllerInstanceWorkflowID sample_version)
      (DeleteCall ''me'') n = Inr (Some (done_response 1))"
proof -
  have "DeleteWorkerControllerInstance sample_client sample_version ''me'' = None" by code_simp
  from reported_deletion_is_done [OF sample_client_retries this] show ?thesis
    by (auto simp: sample_client_def done_response_def)
qed

theorem dry_run_wait_terminates_witness:
  "startWorkflowAndWait sample_client ''request'' [] = Some None"
proof -
  have "\<forall>j < (2::nat). HistoryPage sample_client j = Inr []"
    "HistoryPage sample_client 2 = Inr [Completed]"
    by (simp_all add: sample_client_def)
  moreover have "first_some [EncodeFails sample_client (EncodeDryRun []),
      StartExecution sample_client (controllerTaskQueueName sample_client) \<lparr>ValidateUpserts = Some []\<rparr>] = None"
    by (simp add: sample_client_def)
  ultimately show ?thesis
    unfolding dry_run_wait_terminates Let_def
    by (auto simp: page_result_def intro!: exI [of _ 2])
qed

theorem reported_valid_is_validated_witness:
  "ValidateWorkerControllerInstanceSpec sample_client ''request'' (Some sample_version) ''me''
      (UpsertScalingGroups first_request) [] = Some None
    \<and> (\<exists>k events. HistoryPage sample_client k = Inr events \<and> last events = Completed)"
proof
  show valid: "ValidateWorkerControllerInstanceSpec sample_client ''request'' (Some sample_version) ''me''
      (UpsertScalingGroups first_request) [] = Some None"
  proof -
    have "startWorkflowAndWait sample_client ''request'' (UpsertScalingGroups first_request) = Some None"
      unfolding startWorkflowAndWait_def
      using await_close_first_page [of 2 sample_client "''request''"]
      by (simp add: sample_client_def page_result_def)
    moreover have "validate_running sample_client sample_version
        (ValidateCall ''me'' (UpsertScalingGroups first_request) []) = None"
      "UpsertScalingGroups first_request \<noteq> []" "checkWorkerControllerEnabled sample_client = None"
      by code_simp+
    ultimately show ?thesis
      by (simp add: ValidateWorkerControllerInstanceSpec_def validate_new_def)
  qed
  from reported_valid_is_validated [OF sample_client_retries valid]
  show "\<exists>k events. HistoryPage sample_client k = Inr events \<and> last events = Completed"
    by (auto simp: sample_client_def)
qed

definition sample_failure :: "handler_error \<Rightarrow> failure" where
  "sample_failure e = \<lparr>FailureMessage = ''message'', AppFailureType = handler_error_type e\<rparr>"

theorem workflow_errors_reported_witness:
  "UpdateWorkerControllerInstance
     (sample_client\<lparr>MultiOperation := \<lambda>tq w v call n. Inr (rejection (sample_failure (CallFailed (OtherError ''timeout'')))),
        UpdateExecution := \<lambda>w call n. Inr (Some \<lparr>StageCompleted = True,
          Outcome = Some (OutcomeFailure (sample_failure (CallFailed (OtherError ''timeout''))))\<rparr>)\<rparr>)
     sample_version None ''me'' [] [''g''] = Inl (InternalErr ''message'')
   \<and> ValidateWorkerControllerInstanceSpec
     (sample_client\<lparr>MultiOperation := \<lambda>tq w v call n. Inr (rejection (sample_failure (CallFailed (OtherError ''timeout'')))),
        UpdateExecution := \<lambda>w call n. Inr (Some \<lparr>StageCompleted = True,
          Outcome = Some (OutcomeFailure (sample_failure (CallFailed (OtherError ''timeout''))))\<rparr>)\<rparr>)
     ''request'' (Some sample_version) ''me'' [] [''g''] = Some (Some (InvalidArgumentErr ''message''))"
    (is "UpdateWorkerControllerInstance ?env _ _ _ _ _ = _ \<and> _")
proof -
  have "check_version_fields ?env sample_version = None" "checkInstanceCount ?env sample_version = None"
    by code_simp+
  then have "UpdateWorkerControllerInstance ?env sample_version None ''me'' [] [''g''] =
        Inl (reported sample_version (FailureMessage (sample_failure (CallFailed (OtherError ''timeout''))))
          (CallFailed (OtherError ''timeout'')))
      \<and> DeleteWorkerControllerInstance ?env sample_version ''me'' = deletion_reported sample_version
        (FailureMessage (sample_failure (CallFailed (OtherError ''timeout'')))) (CallFailed (OtherError ''timeout''))
      \<and> ValidateWorkerControllerInstanceSpec ?env ''request'' (Some sample_version) ''me'' [] [''g''] =
        (if CallFailed (OtherError ''timeout'') = InstanceDeleted
         then ValidateWorkerControllerInstanceSpec ?env ''request'' None ''me'' [] [''g'']
         else Some (Some (validation_reported (FailureMessage (sample_failure (CallFailed (OtherError ''timeout''))))
           (CallFailed (OtherError ''timeout'')))))"
    by (intro workflow_errors_reported [where conv = sample_failure])
      (simp_all add: sample_client_def sample_failure_def keeps_types_def retry_from_retries
        retry_from_uninterrupted del: retry_from.simps)
  then show ?thesis by (simp add: sample_failure_def validation_reported_def)
qed

end
