(* ===== verification/Guarantee.thy ===== *)
theory Guarantee
  imports Runner
begin

text \<open>
  Reasoning about the coroutines of the workflow.  Between two waits a coroutine runs alone, from
  the state in which it is resumed to the one in which it waits again or ends.  A coroutine
  conforms (\<open>conforms I R G F\<close>) when, resumed in any state with the invariant \<open>I\<close>, it leaves a
  state that is related to that one by \<open>F\<close> where it ends, by \<open>R\<close>, which also speaks of the request,
  where it waits, and by \<open>G\<close> where it panics or is still running, and it goes on to conform.  The
  locales say what the relations have to allow: the few assignments of the run loop (\<open>run_loop\<close>)
  and of the update handlers (\<open>handlers\<close>), and the requests of the code (\<open>permitted\<close>, \<open>R_pop\<close>);
  their lemmas follow the code once, for all relations.
\<close>

inductive conforms ::
    "(runner \<Rightarrow> bool) \<Rightarrow> (runner \<Rightarrow> runner \<Rightarrow> wf_request \<Rightarrow> bool)
      \<Rightarrow> (runner \<Rightarrow> runner \<Rightarrow> bool)
      \<Rightarrow> (runner \<Rightarrow> runner \<Rightarrow> bool) \<Rightarrow> 'r co \<Rightarrow> bool" for I R G F where
  returns: "conforms I R G F (Return x)"
| panics: "conforms I R G F (Panic m)"
| awaits: "(\<And>r d. I d \<Longrightarrow>
      (case snd (k r d) of Return x \<Rightarrow> F d (fst (k r d)) | Panic m \<Rightarrow> G d (fst (k r d))
        | Await rq k' \<Rightarrow> R d (fst (k r d)) rq)
      \<and> conforms I R G F (snd (k r d))) \<Longrightarrow> conforms I R G F (Await rq k)"

inductive_cases conforms_AwaitE: "conforms I R G F (Await rq k)"

text \<open>A segment that began in the state \<open>d0\<close>.\<close>

definition seg_ok ::
    "(runner \<Rightarrow> bool) \<Rightarrow> (runner \<Rightarrow> runner \<Rightarrow> wf_request \<Rightarrow> bool)
      \<Rightarrow> (runner \<Rightarrow> runner \<Rightarrow> bool)
      \<Rightarrow> (runner \<Rightarrow> runner \<Rightarrow> bool) \<Rightarrow> runner \<Rightarrow> runner \<times> 'r co \<Rightarrow> bool" where
  "seg_ok I R G F d0 seg \<longleftrightarrow>
     (case snd seg of Return x \<Rightarrow> F d0 (fst seg) | Panic m \<Rightarrow> G d0 (fst seg)
       | Await rq k \<Rightarrow> R d0 (fst seg) rq)
     \<and> conforms I R G F (snd seg)"

lemma conforms_Await_iff:
  "conforms I R G F (Await rq k) \<longleftrightarrow> (\<forall>r d. I d \<longrightarrow> seg_ok I R G F d (k r d))"
  unfolding seg_ok_def by (auto intro: conforms.awaits elim: conforms_AwaitE)

lemma seg_Return [simp]: "seg_ok I R G F d0 (d, Return x) \<longleftrightarrow> F d0 d"
  by (simp add: seg_ok_def conforms.returns)

lemma seg_Panic [simp]: "seg_ok I R G F d0 (d, Panic m) \<longleftrightarrow> G d0 d"
  by (simp add: seg_ok_def conforms.panics)

lemma seg_Await:
  "R d0 d rq \<Longrightarrow> (\<And>r d. I d \<Longrightarrow> seg_ok I R G F d (k r d)) \<Longrightarrow>
    seg_ok I R G F d0 (d, Await rq k)"
  by (simp add: seg_ok_def conforms_Await_iff)

text \<open>A continuation that may be entered anywhere within a segment.\<close>

definition cont_ok ::
    "(runner \<Rightarrow> bool) \<Rightarrow> (runner \<Rightarrow> runner \<Rightarrow> wf_request \<Rightarrow> bool)
      \<Rightarrow> (runner \<Rightarrow> runner \<Rightarrow> bool)
      \<Rightarrow> (runner \<Rightarrow> runner \<Rightarrow> bool) \<Rightarrow> 'r segment \<Rightarrow> bool" where
  "cont_ok I R G F k \<longleftrightarrow> (\<forall>d0 d. I d0 \<longrightarrow> G d0 d \<longrightarrow> seg_ok I R G F d0 (k d))"

lemma cont_okI:
  "(\<And>d0 d. I d0 \<Longrightarrow> G d0 d \<Longrightarrow> seg_ok I R G F d0 (k d)) \<Longrightarrow> cont_ok I R G F k"
  by (simp add: cont_ok_def)

lemma cont_okD: "cont_ok I R G F k \<Longrightarrow> I d0 \<Longrightarrow> G d0 d \<Longrightarrow> seg_ok I R G F d0 (k d)"
  by (simp add: cont_ok_def)

section \<open>The requests of the code\<close>

text \<open>A request that code makes in the state \<open>d\<close>: it goes to the instance's own context and rests on
  the specification and the status as they are at that moment.\<close>

inductive permitted :: "runner \<Rightarrow> wf_request \<Rightarrow> bool" for d where
  validate_update: "ValidateContext r = RunContext d \<Longrightarrow> ValidateSpecOf r = Some u \<Longrightarrow>
    Validate (Some u) = None \<Longrightarrow> permitted d (CallValidateSpec r)"
| validate_stored: "ValidateContext r = RunContext d \<Longrightarrow> ValidateSpecOf r = StateSpec (RunState d) \<Longrightarrow>
    has_groups d \<Longrightarrow> ensureEnabled d = None \<Longrightarrow> permitted d (CallValidateSpec r)"
| register: "RegisterContext r = RunContext d \<Longrightarrow> Validate (Some (RegisterSpec r)) = None \<Longrightarrow>
    RegisterScalingStatus r = ScalingStatus (RunState d) \<Longrightarrow> permitted d (CallRegister r)"
| pull: "PullContext r = RunContext d \<Longrightarrow> PullSpec r = StateSpec (RunState d) \<Longrightarrow>
    PullScalingStatus r = ScalingStatus (RunState d) \<Longrightarrow> has_groups d \<Longrightarrow>
    ensureEnabled d = None \<Longrightarrow> permitted d (CallPullStats r)"
| deferred: "DeferredContext r = RunContext d \<Longrightarrow>
    group_spec d (DeferredGroupKey r) = Some (DeferredGroupSpec r) \<Longrightarrow>
    DeferredStatus r = status_at (ScalingStatus (RunState d)) (DeferredGroupKey r) \<Longrightarrow>
    permitted d (CallDeferred r)"
| invoke: "InvokeContext r = RunContext d \<Longrightarrow> group_spec d key = Some spec \<Longrightarrow>
    InvokeComputeConfig r = Some (Compute spec) \<Longrightarrow> permitted d (CallInvoke r)"
| resize: "ResizeContext r = RunContext d \<Longrightarrow> group_spec d key = Some spec \<Longrightarrow>
    ResizeComputeConfig r = Some (Compute spec) \<Longrightarrow> 0 \<le> UpdatedSize r \<Longrightarrow>
    permitted d (CallResize r)"
| signal_version: "ValidationStatus (RunState d) = Some v \<Longrightarrow>
    hasMinVersion d SignalVersionWorkflowVersion \<Longrightarrow> permitted d (CallSignalVersion v)"

inductive_simps permitted_simps [simp]:
  "permitted d (CallValidateSpec r)" "permitted d (CallRegister r)" "permitted d (CallPullStats r)"
  "permitted d (CallDeferred r)" "permitted d (CallInvoke r)" "permitted d (CallResize r)"
  "permitted d (CallSignalVersion v)" "permitted d (CallTaskAdd r)" "permitted d CallLock"

definition task_add_call :: "SignalTaskAddRequest \<Rightarrow> runner \<Rightarrow> wf_request" where
  "task_add_call req d = CallTaskAdd
     \<lparr>TaskAddContext = RunContext d, TaskAddRequestOf = req, TaskAddSpec = StateSpec (RunState d),
      TaskAddScalingStatus = ScalingStatus (RunState d)\<rparr>"

lemma ensureEnabled_pop: "ensureEnabled (pop_signal rest d) = ensureEnabled d"
  by (simp add: ensureEnabled_def workerControllerEnabled_def hasMinVersion_def pop_signal_def
      on_state_def)

locale guarantee =
  fixes I :: "runner \<Rightarrow> bool" and R :: "runner \<Rightarrow> runner \<Rightarrow> wf_request \<Rightarrow> bool"
    and G :: "runner \<Rightarrow> runner \<Rightarrow> bool" and F :: "runner \<Rightarrow> runner \<Rightarrow> bool"
  assumes G_refl: "I d \<Longrightarrow> G d d"
    and G_trans: "G d d' \<Longrightarrow> G d' d'' \<Longrightarrow> G d d''"
    and G_inv: "I d \<Longrightarrow> G d d' \<Longrightarrow> I d'"
    and request: "I d0 \<Longrightarrow> G d0 d \<Longrightarrow> permitted d rq \<Longrightarrow> R d0 d rq"
    and G_status: "I d \<Longrightarrow> G d (set_scaling_status m d)"
    and G_validation: "I d \<Longrightarrow> G d (set_validation v d)"
begin

lemma seg_request:
  "I d0 \<Longrightarrow> G d0 d \<Longrightarrow> permitted d rq \<Longrightarrow> (\<And>r d. I d \<Longrightarrow> seg_ok I R G F d (k r d)) \<Longrightarrow>
    seg_ok I R G F d0 (d, Await rq k)"
  by (rule seg_Await [OF request])

lemma cont_start: "cont_ok I R G F k \<Longrightarrow> I d \<Longrightarrow> seg_ok I R G F d (k d)"
  by (rule cont_okD) (simp_all add: G_refl)

lemma cont_after:
  assumes "cont_ok I R G F k" and "\<And>d. I d \<Longrightarrow> G d (f d)"
  shows "cont_ok I R G F (\<lambda>d. k (f d))"
  using assms by (auto intro!: cont_okI intro: cont_okD G_trans G_inv)

lemma after_step:
  "cont_ok I R G F k \<Longrightarrow> I d0 \<Longrightarrow> G d0 d \<Longrightarrow> G d d' \<Longrightarrow> seg_ok I R G F d0 (k d')"
  by (rule cont_okD) (auto intro: G_trans)

lemma signalVersion_ok: "cont_ok I R G F k \<Longrightarrow> cont_ok I R G F (signalVersionWorkflow k)"
  by (auto intro!: cont_okI seg_request simp: signalVersionWorkflow_def
      dest: cont_okD cont_start split: option.split)

lemma validation_then:
  "cont_ok I R G F k \<Longrightarrow> I d0 \<Longrightarrow> G d0 d \<Longrightarrow> seg_ok I R G F d0 (k (set_validation v d))"
  by (rule after_step) (auto intro: G_validation G_inv)

lemma validation_signal:
  "cont_ok I R G F k \<Longrightarrow> I d0 \<Longrightarrow> G d0 d \<Longrightarrow>
    seg_ok I R G F d0 (signalVersionWorkflow k (set_validation v d))"
  by (rule validation_then [OF signalVersion_ok])

end

section \<open>Actions, polls and validations\<close>

text \<open>They go on with a continuation, and keep to what it keeps to.\<close>

context guarantee
begin

lemma action_done_ok:
  "cont_ok I R G F next \<Longrightarrow> I d \<Longrightarrow> seg_ok I R G F d (action_done now next r d)"
  by (auto simp: action_done_def G_refl intro: cont_start validation_signal
      split: wf_response.split call_error.split)

lemma dispatch_invoke_ok:
  assumes "cont_ok I R G F next" and "I d0" and "G d0 d" and "group_spec d key = Some spec"
  shows "seg_ok I R G F d0 (dispatch_invoke spec next d)"
  using assms by (auto simp: dispatch_invoke_def intro!: seg_request action_done_ok) blast

lemma dispatch_resize_ok:
  assumes "cont_ok I R G F next" and "I d0" and "G d0 d" and "group_spec d key = Some spec"
  shows "seg_ok I R G F d0 (dispatch_resize spec action next d)"
  using assms by (auto simp: dispatch_resize_def intro!: seg_request action_done_ok
      intro: cont_okD split: option.split) blast+

lemma handle_actions_loop_ok:
  assumes "\<And>spec action next d0 d. cont_ok I R G F next \<Longrightarrow> I d0 \<Longrightarrow> G d0 d \<Longrightarrow>
      group_spec d (ScalingGroupKey action) = Some spec \<Longrightarrow>
      seg_ok I R G F d0 (deferred spec action next d)"
    and "cont_ok I R G F k"
  shows "cont_ok I R G F (handle_actions_loop deferred actions k)"
proof (induction actions)
  case Nil
  then show ?case using assms(2) by simp
next
  case (Cons action actions)
  note steps = dispatch_invoke_ok [OF Cons.IH] dispatch_resize_ok [OF Cons.IH] assms(1) [OF Cons.IH]
  show ?case
    by (auto intro!: cont_okI steps intro: cont_okD [OF Cons.IH] simp: Let_def
        split: option.split ActionType.split)
qed

lemma handleActionsWithoutRequest_ok:
  assumes "cont_ok I R G F k"
  shows "cont_ok I R G F (handleActionsWithoutRequest actions k)"
proof -
  have "cont_ok I R G F (handle_actions_loop (\<lambda>spec action next. next) actions k)"
    by (rule handle_actions_loop_ok) (simp_all add: assms cont_okD)
  with assms show ?thesis by (auto simp: handleActionsWithoutRequest_def cont_ok_def)
qed

lemma deferred_done_ok:
  assumes "cont_ok I R G F next" and "I d"
  shows "seg_ok I R G F d (deferred_done key next r d)"
proof -
  note nested = handleActionsWithoutRequest_ok [OF assms(1)]
  show ?thesis
    using cont_start [OF assms] cont_start [OF nested assms(2)]
      after_step [OF nested assms(2) G_refl [OF assms(2)] G_status [OF assms(2)]] G_refl [OF assms(2)]
    by (auto simp: deferred_done_def set_group_status_def split: wf_response.split option.split)
qed

lemma dispatch_deferred_ok:
  assumes "cont_ok I R G F next" and "I d0" and "G d0 d"
    and "group_spec d (ScalingGroupKey action) = Some spec"
  shows "seg_ok I R G F d0 (dispatch_deferred req spec action next d)"
  using assms by (auto simp: dispatch_deferred_def intro!: seg_request deferred_done_ok
      intro: cont_okD)

lemma handleActions_ok:
  assumes "cont_ok I R G F k"
  shows "cont_ok I R G F (handleActions actions req k)"
proof -
  have "cont_ok I R G F (handle_actions_loop (dispatch_deferred r) actions k)" for r
    by (rule handle_actions_loop_ok) (simp_all add: assms dispatch_deferred_ok)
  then show ?thesis
    using assms handleActionsWithoutRequest_ok [OF assms]
    by (auto simp: handleActions_def cont_ok_def split: option.split)
qed

lemma apply_status_then:
  assumes "cont_ok I R G F k" and "I d"
  shows "seg_ok I R G F d (k (apply_status m d))"
  using after_step [OF assms G_refl [OF assms(2)] G_status [OF assms(2)]] cont_start [OF assms]
  by (simp add: apply_status_def)

lemma task_add_done_ok:
  "cont_ok I R G F k \<Longrightarrow> I d \<Longrightarrow> seg_ok I R G F d (task_add_done req k r d)"
  by (auto simp: task_add_done_def intro: cont_start apply_status_then [OF handleActions_ok]
      split: wf_response.split)

lemma pull_done_ok:
  "(\<And>n. cont_ok I R G F (k n)) \<Longrightarrow> I d \<Longrightarrow> seg_ok I R G F d (pull_done k r d)"
  by (auto simp: pull_done_def intro: cont_start apply_status_then [OF handleActions_ok]
      split: wf_response.split)

lemma pullStats_ok:
  assumes "\<And>n. cont_ok I R G F (k n)"
  shows "cont_ok I R G F (pullStatsAndUpdate k)"
proof -
  have "seg_ok I R G F d (pull_done k r d)" if "I d" for r d
    using assms that by (rule pull_done_ok)
  with assms show ?thesis
    by (auto simp: pullStatsAndUpdate_def cont_ok_def intro!: seg_request)
qed

lemma periodicValidateSpec_ok:
  assumes "cont_ok I R G F k"
  shows "cont_ok I R G F (periodicValidateSpec k)"
proof -
  have "seg_ok I R G F d (validation_done now k r d)" if "I d" for now r d
    using cont_start [OF assms that] validation_signal [OF assms that G_refl [OF that]]
    by (auto simp: validation_done_def split: wf_response.split call_error.split)
  with assms show ?thesis
    by (auto simp: periodicValidateSpec_def cont_ok_def intro!: seg_request)
qed

end

section \<open>Dry runs\<close>

text \<open>Code that takes no mutex ends as it goes on, with the same guarantee.\<close>

locale lock_free = guarantee I R G G for I R G
begin

lemma return_ok: "cont_ok I R G G (\<lambda>d. (d, Return x))"
  by (simp add: cont_ok_def)

lemma validate_done_ok:
  assumes "I d"
  shows "seg_ok I R G G d (validate_done b r d)"
  using validation_signal [OF return_ok assms G_refl [OF assms]] G_refl [OF assms]
  by (auto simp: validate_done_def split: wf_response.split call_error.split)

lemma handleValidateSpec_ok:
  assumes "I d"
  shows "seg_ok I R G G d (handleValidateSpec dk args d)"
  using assms G_refl [OF assms]
  by (auto simp: handleValidateSpec_def split: option.split sum.split
      intro!: seg_request validate_done_ok)

end

section \<open>The run loop\<close>

locale task_adds = lock_free I R G for I R G +
  assumes G_pop: "I d \<Longrightarrow> PendingTaskAddSignals (RunState d) = req # rest \<Longrightarrow>
      ensureEnabled d \<noteq> None \<Longrightarrow> G d (pop_signal rest d)"
    and R_pop: "I d0 \<Longrightarrow> G d0 d \<Longrightarrow> PendingTaskAddSignals (RunState d) = req # rest \<Longrightarrow>
      ensureEnabled d = None \<Longrightarrow> R d0 (pop_signal rest d) (task_add_call req (pop_signal rest d))"
    and G_select: "I d \<Longrightarrow> G d (select_signal d)"
begin

text \<open>A signal that is taken from the queue is handed to the activity, unless the controller is
  disabled.\<close>

lemma handle_popped_ok:
  assumes "cont_ok I R G G k" and "I d0" and "G d0 d"
    and "PendingTaskAddSignals (RunState d) = req # rest"
  shows "seg_ok I R G G d0 (handleNoSyncMatchSignal (Some req) k (pop_signal rest d))"
proof (cases "ensureEnabled d = None")
  case True
  from R_pop [OF assms(2-4) True]
  have "seg_ok I R G G d0 (pop_signal rest d, Await (task_add_call req (pop_signal rest d))
      (task_add_done req k))"
    by (rule seg_Await) (rule task_add_done_ok [OF assms(1)])
  with True show ?thesis by (simp add: handleNoSyncMatchSignal_def task_add_call_def ensureEnabled_pop)
next
  case False
  with G_inv [OF assms(2,3)] assms(4) have "G d (pop_signal rest d)" by (rule G_pop)
  with False show ?thesis using after_step [OF assms(1-3)]
    by (simp add: handleNoSyncMatchSignal_def ensureEnabled_pop)
qed

lemma processNext_ok:
  assumes "\<And>b. cont_ok I R G G (k b)"
  shows "cont_ok I R G G (processNextQueuedTaskAddSignal k)"
  by (auto intro!: cont_okI handle_popped_ok intro: assms cont_okD [OF assms]
      simp: processNextQueuedTaskAddSignal_def split: list.split)

lemma processTaskAddBatch_ok:
  assumes "cont_ok I R G G k"
  shows "cont_ok I R G G (processTaskAddBatch n k)"
proof (induction n)
  case 0
  then show ?case using assms by simp
next
  case (Suc n)
  have "cont_ok I R G G (\<lambda>d. if taskAddSignalChannel d \<noteq> [] then processTaskAddBatch n k (select_signal d)
      else if \<not> processed then k d else processTaskAddBatch n k d)" for processed
    using cont_after [OF Suc.IH G_select] Suc.IH assms by (auto simp: cont_ok_def)
  from processNext_ok [of "\<lambda>processed d. if taskAddSignalChannel d \<noteq> []
      then processTaskAddBatch n k (select_signal d)
      else if \<not> processed then k d else processTaskAddBatch n k d", OF this] assms
  show ?case by (auto simp: cont_ok_def)
qed

lemma task_add_batch_ok:
  "I d \<Longrightarrow> seg_ok I R G G d (processTaskAddBatch n (\<lambda>d. (d, Return ())) d)"
  by (rule cont_start [OF processTaskAddBatch_ok [OF return_ok]])

end

text \<open>The callbacks of the timers change the timers too.\<close>

locale validations = lock_free I R G for I R G +
  assumes G_validate: "I d \<Longrightarrow> G d (addPeriodicValidationTimer n d)"
    and G_validate_clear: "I d \<Longrightarrow> G d (d\<lparr>validationTimer := None\<rparr>)"
begin

lemma validation_timer_ok:
  assumes "I d"
  shows "seg_ok I R G G d (validation_timer_fired n d)"
proof -
  have "cont_ok I R G G (periodicValidateSpec (\<lambda>d. (addPeriodicValidationTimer n d, Return ())))"
    by (rule periodicValidateSpec_ok) (rule cont_after [OF return_ok G_validate])
  from after_step [OF this assms G_refl [OF assms] G_validate_clear [OF assms]]
    G_validate_clear [OF assms]
  show ?thesis by (simp add: validation_timer_fired_def Let_def)
qed

end

locale run_loop = task_adds I R G + validations I R G for I R G +
  assumes G_poll: "I d \<Longrightarrow> G d (addStatsPullTimer n d)"
    and G_poll_clear: "I d \<Longrightarrow> G d (d\<lparr>pollTimer := None\<rparr>)"
begin

lemma poll_timer_ok:
  assumes "I d"
  shows "seg_ok I R G G d (poll_timer_fired d)"
proof -
  have "cont_ok I R G G (pullStatsAndUpdate (\<lambda>next d. (addStatsPullTimer next d, Return ())))"
    by (rule pullStats_ok) (rule cont_after [OF return_ok G_poll])
  from after_step [OF this assms G_refl [OF assms] G_poll_clear [OF assms]] G_poll_clear [OF assms]
  show ?thesis by (simp add: poll_timer_fired_def Let_def)
qed

end

section \<open>Update handlers\<close>

text \<open>\<open>A\<close> is what a handler knows of the specification that it is about to set, from the
  validation at the beginning of its critical section.  The assignments that end a critical
  section come with the release of the mutex (\<open>released\<close>), so \<open>F\<close> covers them and \<open>G\<close> does not
  have to.\<close>

definition released :: "runner \<Rightarrow> runner" where
  "released d = d\<lparr>stateChanged := True, lockHeld := False\<rparr>"

lemma unlock_and_return_released: "unlock_and_return x d = (released d, Return x)"
  by (simp add: unlock_and_return_def released_def)

locale handlers = guarantee I R G F for I R G F +
  fixes dk :: "string list \<Rightarrow> string list"
    and A :: "UpdateWorkerControllerInstanceRequest \<Rightarrow> WorkerControllerInstanceSpec \<Rightarrow> bool"
  assumes accepted: "I d \<Longrightarrow> distinct (keys (UpsertScalingGroups args)) \<Longrightarrow>
      BuildUpdatedSpec dk (StateSpec (RunState d)) args = Inr (u, unchanged) \<Longrightarrow>
      ScalingGroupSpecs u \<noteq> [] \<Longrightarrow> Validate (Some u) = None \<Longrightarrow> A args u"
    and F_unlock: "I d0 \<Longrightarrow> G d0 d \<Longrightarrow> F d0 (released d)"
    and F_commit: "I d0 \<Longrightarrow> G d0 d \<Longrightarrow> A args u \<Longrightarrow> F d0 (released (set_token_and_spec args u d))"
    and F_remove: "I d \<Longrightarrow> BuildUpdatedSpec dk (StateSpec (RunState d)) args = Inr (u, unchanged) \<Longrightarrow>
      ScalingGroupSpecs u = [] \<Longrightarrow> F d (released (set_token_and_spec args u (markDeleted d)))"
    and F_delete: "I d \<Longrightarrow> F d (released (markDeleted d))"
begin

lemma unlock_ok: "I d0 \<Longrightarrow> G d0 d \<Longrightarrow> seg_ok I R G F d0 (unlock_and_return x d)"
  by (simp add: unlock_and_return_released F_unlock)

lemma commit_ok:
  assumes "A args u"
  shows "cont_ok I R G F (\<lambda>d. let d' = set_token_and_spec args u d
    in unlock_and_return (Inr (Updated (StateSpec (RunState d')))) d')"
  using assms by (auto simp: Let_def unlock_and_return_released intro!: cont_okI F_commit)

lemma update_registered_ok:
  assumes "A args u" and "I d"
  shows "seg_ok I R G F d (update_registered args u t r d)"
  using validation_signal [OF commit_ok [OF assms(1)] assms(2) G_status [OF assms(2)]]
    unlock_ok [OF assms(2) G_refl [OF assms(2)]]
  by (auto simp: update_registered_def split: wf_response.split)

lemma update_validated_ok:
  assumes "A args u" and "Validate (Some u) = None" and "I d"
  shows "seg_ok I R G F d (update_validated args u t r d)"
  using update_registered_ok [OF assms(1)] unlock_ok [OF assms(3) G_refl [OF assms(3)]] assms(2,3)
  by (auto simp: update_validated_def G_refl intro!: seg_request
      split: wf_response.split call_error.split)

lemma update_locked_ok:
  assumes "I d" and "distinct (keys (UpsertScalingGroups args))"
  shows "seg_ok I R G F d (update_locked dk args d)"
proof (cases "BuildUpdatedSpec dk (StateSpec (RunState d)) args")
  case (Inl e)
  then show ?thesis using unlock_ok [OF assms(1) G_refl [OF assms(1)]] by (simp add: update_locked_def)
next
  case (Inr uu)
  obtain u unchanged where uu: "uu = (u, unchanged)" by fastforce
  note built = Inr [unfolded uu]
  have "seg_ok I R G F d (d, Await (CallValidateSpec \<lparr>ValidateContext = RunContext d,
      ValidateSpecOf = Some u, ScalingGroupsToSkipProviderValidation = unchanged\<rparr>)
      (update_validated args u t))"
    if "ScalingGroupSpecs u \<noteq> []" "Validate (Some u) = None" for t
    using accepted [OF assms built that] assms(1) that
    by (intro seg_request update_validated_ok) (auto simp: G_refl)
  then show ?thesis
    using unlock_ok [OF assms(1) G_refl [OF assms(1)]] F_remove [OF assms(1) built]
    by (auto simp: update_locked_def built unlock_and_return_released split: option.split)
qed

lemma delete_locked_ok:
  "I d \<Longrightarrow> seg_ok I R G F d (unlock_and_return (Inr Deleted) (markDeleted d))"
  by (simp add: unlock_and_return_released F_delete)

end

end
