(* ===== verification/Instance.thy ===== *)
theory Instance
  imports Guarantee
begin

text \<open>
  The workflow of an instance as a whole: the run loop and the update handlers of one run over
  the runner they share, interleaved as the workflow runtime may interleave them, and the chain
  of runs that continue as new.  A step starts a handler, resumes the loop or one handler with a
  response that the activities of theory \<open>Activities\<close> can give (or with an error), grants the
  mutex, delivers a signal, or lets time pass; \<open>reachable\<close> collects what can come of it.

  The loop is the one of runs with the timer selector, the current version.  Its program points
  are \<open>main_state\<close>: a batch of signals, then at most one ready timer, then the wait.  When the
  loop ends, the run closes if the instance is deleted at that moment; otherwise it waits for the
  handlers (\<open>Finishing\<close>) and continues as new, without looking at the flag again.
\<close>

section \<open>What a request may be answered with\<close>

text \<open>The result of an activity is encoded as JSON: an empty map under \<open>omitempty\<close>, which the
  response of the registration uses, arrives as the nil map.\<close>

definition omit_empty :: "status_map \<Rightarrow> status_map option" where
  "omit_empty m = (if m = [] then None else Some m)"

inductive answers :: "wf_request \<Rightarrow> wf_response \<Rightarrow> bool" where
  any_error: "answers rq (ErrorResponse e)"
| spec_validated: "ValidateSpec env (Some r) = None \<Longrightarrow> envAlgorithms env = builtin_algorithms \<Longrightarrow>
    answers (CallValidateSpec r) DoneResponse"
| registered: "InvokeWorkersToRegisterTaskQueues env (Some r) = (calls, Inr m) \<Longrightarrow>
    envAlgorithms env = builtin_algorithms \<Longrightarrow>
    answers (CallRegister r) (RegisterResponse (omit_empty m))"
| stats_pulled: "PullStats env (Some r) = Inr resp \<Longrightarrow> envAlgorithms env = builtin_algorithms \<Longrightarrow>
    answers (CallPullStats r) (PullResponse resp)"
| task_added: "envAlgorithms env = builtin_algorithms \<Longrightarrow>
    answers (CallTaskAdd r) (TaskAddedResponse (HandleTaskAddSignal env r))"
| decided: "HandleDeferredScalingDecision env r = Inr resp \<Longrightarrow>
    envAlgorithms env = builtin_algorithms \<Longrightarrow>
    answers (CallDeferred r) (DeferredResponse resp)"
| invoked: "InvokeWorker env (Some r) = (calls, None) \<Longrightarrow> answers (CallInvoke r) DoneResponse"
| resized: "UpdateWorkerSetSize env (Some r) = (calls, None) \<Longrightarrow>
    answers (CallResize r) DoneResponse"
| signalled: "answers (CallSignalVersion v) DoneResponse"

section \<open>The system\<close>

datatype main_state =
    AtTop
  | Batch "unit co"
  | AtTimers
  | TimerRuns "unit co"
  | Waiting
  | Finishing

record handler =
  InCritical :: bool
  HandlerCo :: "handler_result co"

record system =
  sysRunner :: runner
  sysMain :: main_state
  sysHandlers :: "(nat, handler) gomap"
  sysReplies :: "(nat \<times> handler_result) list"
  sysPanic :: "string option"
  sysClosed :: bool

definition settle_handler ::
    "nat \<Rightarrow> bool \<Rightarrow> runner \<times> handler_result co \<Rightarrow> system \<Rightarrow> system" where
  "settle_handler i critical seg s = (case seg of
     (d, Return x) \<Rightarrow> s\<lparr>sysRunner := d, sysHandlers := AList.delete i (sysHandlers s),
        sysReplies := sysReplies s @ [(i, x)]\<rparr>
   | (d, Panic m) \<Rightarrow> s\<lparr>sysRunner := d, sysPanic := Some m\<rparr>
   | (d, Await rq k) \<Rightarrow> s\<lparr>sysRunner := d, sysHandlers :=
        AList.update i \<lparr>InCritical = critical, HandlerCo = Await rq k\<rparr> (sysHandlers s)\<rparr>)"

definition settle_main ::
    "(unit co \<Rightarrow> main_state) \<Rightarrow> main_state \<Rightarrow> runner \<times> unit co \<Rightarrow> system \<Rightarrow> system" where
  "settle_main running next seg s = (case seg of
     (d, Return x) \<Rightarrow> s\<lparr>sysRunner := d, sysMain := next\<rparr>
   | (d, Panic m) \<Rightarrow> s\<lparr>sysRunner := d, sysPanic := Some m\<rparr>
   | (d, Await rq k) \<Rightarrow> s\<lparr>sysRunner := d, sysMain := running (Await rq k)\<rparr>)"

definition task_add_batch :: "unit segment" where
  "task_add_batch =
     processTaskAddBatch taskAddSignalBatchSizePerRunLoopIteration (\<lambda>d. (d, Return ()))"

text \<open>The next run: everything but the local state starts over; the version of the logic is read
  again.  The state travels as JSON, where \<open>omitempty\<close> drops an empty conflict token.\<close>

definition carried_state :: "LocalState \<Rightarrow> LocalState" where
  "carried_state st = st\<lparr>StateConflictToken :=
     (if StateConflictToken st = Some [] then None else StateConflictToken st)\<rparr>"

definition next_run :: "string \<Rightarrow> int \<Rightarrow> int \<Rightarrow> runner \<Rightarrow> runner" where
  "next_run timestamp validationInterval version d =
    start_run timestamp validationInterval
      ((on_state carried_state (drainTaskAddSignalChannelToQueue d))\<lparr>deleteInstance := False, stateChanged := False,
         forceCAN := False, timersCancelled := False, pollTimer := None, validationTimer := None,
         lockHeld := False, continueAsNewSuggested := False, workflowVersion := version\<rparr>)"

abbreviation idle_main :: "system \<Rightarrow> bool" where
  "idle_main s \<equiv> sysPanic s = None \<and> \<not> sysClosed s"

inductive sys_step :: "(string list \<Rightarrow> string list) \<Rightarrow> system \<Rightarrow> system \<Rightarrow> bool" for dk where
  environment: "idle_main s \<Longrightarrow> currentTime (sysRunner s) \<le> t \<Longrightarrow>
    sys_step dk s (s\<lparr>sysRunner := (sysRunner s)\<lparr>currentTime := t, enabledFlag := b,
      continueAsNewSuggested := (continueAsNewSuggested (sysRunner s) \<or> c)\<rparr>\<rparr>)"
| signal: "idle_main s \<Longrightarrow>
    sys_step dk s (s\<lparr>sysRunner := (sysRunner s)\<lparr>taskAddSignalChannel :=
      taskAddSignalChannel (sysRunner s) @ [req]\<rparr>\<rparr>)"
| update: "idle_main s \<Longrightarrow> i \<notin> set (keys (sysHandlers s)) \<Longrightarrow>
    distinct (keys (UpsertScalingGroups args)) \<Longrightarrow>
    validateUpdateInstance args (sysRunner s) = None \<Longrightarrow>
    sys_step dk s (settle_handler i False (handleUpdateInstance dk args (sysRunner s)) s)"
| delete: "idle_main s \<Longrightarrow> i \<notin> set (keys (sysHandlers s)) \<Longrightarrow>
    validateDeleteInstance (sysRunner s) = None \<Longrightarrow>
    sys_step dk s (settle_handler i False (handleDeleteInstance (sysRunner s)) s)"
| dry_run: "idle_main s \<Longrightarrow> i \<notin> set (keys (sysHandlers s)) \<Longrightarrow>
    distinct (keys (UpsertScalingGroups args)) \<Longrightarrow>
    validateValidateSpec (sysRunner s) = None \<Longrightarrow>
    sys_step dk s (settle_handler i False (handleValidateSpec dk args (sysRunner s)) s)"
| grant: "idle_main s \<Longrightarrow> map_of (sysHandlers s) i = Some \<lparr>InCritical = c, HandlerCo = Await CallLock k\<rparr> \<Longrightarrow>
    \<not> lockHeld (sysRunner s) \<Longrightarrow>
    sys_step dk s (settle_handler i True (k DoneResponse ((sysRunner s)\<lparr>lockHeld := True\<rparr>)) s)"
| resume: "idle_main s \<Longrightarrow> map_of (sysHandlers s) i = Some \<lparr>InCritical = c, HandlerCo = Await rq k\<rparr> \<Longrightarrow>
    answers rq r \<Longrightarrow> sys_step dk s (settle_handler i c (k r (sysRunner s)) s)"
| exit: "idle_main s \<Longrightarrow> sysMain s = AtTop \<Longrightarrow> shouldContinueAsNew (sysRunner s) \<Longrightarrow>
    \<not> deleteInstance (sysRunner s) \<Longrightarrow> sys_step dk s (s\<lparr>sysMain := Finishing\<rparr>)"
| close: "idle_main s \<Longrightarrow> sysMain s = AtTop \<Longrightarrow> deleteInstance (sysRunner s) \<Longrightarrow>
    sys_step dk s (s\<lparr>sysClosed := True\<rparr>)"
| batch: "idle_main s \<Longrightarrow> sysMain s = AtTop \<Longrightarrow> \<not> shouldContinueAsNew (sysRunner s) \<Longrightarrow>
    sys_step dk s (settle_main Batch AtTimers (task_add_batch (sysRunner s)) s)"
| resume_batch: "idle_main s \<Longrightarrow> sysMain s = Batch (Await rq k) \<Longrightarrow> answers rq r \<Longrightarrow>
    sys_step dk s (settle_main Batch AtTimers (k r (sysRunner s)) s)"
| no_timer: "idle_main s \<Longrightarrow> sysMain s = AtTimers \<Longrightarrow>
    shouldContinueAsNew (sysRunner s) \<or> \<not> timers_pending (sysRunner s) \<Longrightarrow>
    sys_step dk s (s\<lparr>sysMain := Waiting\<rparr>)"
| poll_timer: "idle_main s \<Longrightarrow> sysMain s = AtTimers \<Longrightarrow> \<not> shouldContinueAsNew (sysRunner s) \<Longrightarrow>
    timer_ready (sysRunner s) (pollTimer (sysRunner s)) \<Longrightarrow>
    sys_step dk s (settle_main TimerRuns Waiting (poll_timer_fired (sysRunner s)) s)"
| validation_timer: "idle_main s \<Longrightarrow> sysMain s = AtTimers \<Longrightarrow> \<not> shouldContinueAsNew (sysRunner s) \<Longrightarrow>
    timer_ready (sysRunner s) (validationTimer (sysRunner s)) \<Longrightarrow>
    sys_step dk s (settle_main TimerRuns Waiting (validation_timer_fired n (sysRunner s)) s)"
| resume_timer: "idle_main s \<Longrightarrow> sysMain s = TimerRuns (Await rq k) \<Longrightarrow> answers rq r \<Longrightarrow>
    sys_step dk s (settle_main TimerRuns Waiting (k r (sysRunner s)) s)"
| wake: "idle_main s \<Longrightarrow> sysMain s = Waiting \<Longrightarrow> loop_wakes (sysRunner s) \<Longrightarrow>
    sys_step dk s (s\<lparr>sysMain := AtTop\<rparr>)"
| continue_as_new: "idle_main s \<Longrightarrow> sysMain s = Finishing \<Longrightarrow> sysHandlers s = [] \<Longrightarrow>
    sys_step dk s (s\<lparr>sysRunner := next_run timestamp interval version (sysRunner s), sysMain := AtTop\<rparr>)"

section \<open>Reachable systems\<close>

text \<open>The first run of a new instance: no state yet, at the given time.\<close>

definition first_runner :: "RequestContext \<Rightarrow> string \<Rightarrow> int \<Rightarrow> int \<Rightarrow> int \<Rightarrow> runner" where
  "first_runner ctx timestamp interval version t = start_run timestamp interval
    \<lparr>RunContext = ctx,
     RunState = \<lparr>StateSpec = None, ScalingStatus = None, PendingTaskAddSignals = [],
       NextPollTime = None, StateConflictToken = None, CreateTime = None, ValidationStatus = None\<rparr>,
     deleteInstance = False, stateChanged = False, forceCAN = False,
     limitPendingTaskAddSignals = True, useTimerSelector = True, workflowVersion = version,
     timersCancelled = False, pollTimer = None, validationTimer = None, lockHeld = False,
     taskAddSignalChannel = [], currentTime = t, enabledFlag = True,
     continueAsNewSuggested = False\<rparr>"

definition initial_system :: "runner \<Rightarrow> system" where
  "initial_system d = \<lparr>sysRunner = d, sysMain = AtTop, sysHandlers = [], sysReplies = [],
     sysPanic = None, sysClosed = False\<rparr>"

inductive reachable :: "(string list \<Rightarrow> string list) \<Rightarrow> system \<Rightarrow> bool" for dk where
  start: "reachable dk (initial_system (first_runner ctx timestamp interval version t))"
| step: "reachable dk s \<Longrightarrow> sys_step dk s s' \<Longrightarrow> reachable dk s'"

section \<open>Invariants of reachable systems\<close>

fun main_conforms ::
    "(runner \<Rightarrow> bool) \<Rightarrow> (runner \<Rightarrow> runner \<Rightarrow> wf_request \<Rightarrow> bool) \<Rightarrow> (runner \<Rightarrow> runner \<Rightarrow> bool)
      \<Rightarrow> main_state \<Rightarrow> bool" where
  "main_conforms I R G (Batch co) = conforms I R G G co"
| "main_conforms I R G (TimerRuns co) = conforms I R G G co"
| "main_conforms I R G _ = True"

text \<open>Any request is allowed where the guarantee holds.\<close>

abbreviation (input) any_request ::
    "(runner \<Rightarrow> runner \<Rightarrow> bool) \<Rightarrow> runner \<Rightarrow> runner \<Rightarrow> wf_request \<Rightarrow> bool" where
  "any_request G \<equiv> \<lambda>d0 d rq. G d0 d"

definition sys_ok ::
    "(runner \<Rightarrow> bool) \<Rightarrow> (runner \<Rightarrow> runner \<Rightarrow> wf_request \<Rightarrow> bool) \<Rightarrow> (runner \<Rightarrow> runner \<Rightarrow> bool)
      \<Rightarrow> system \<Rightarrow> bool" where
  "sys_ok I R G s \<longleftrightarrow> I (sysRunner s) \<and> main_conforms I R G (sysMain s)
     \<and> (\<forall>(i, h) \<in> set (sysHandlers s). conforms I R G G (HandlerCo h))"

lemma set_AList_update: "x \<in> set (AList.update k v m) \<Longrightarrow> x = (k, v) \<or> x \<in> set m"
  by (induction m) (auto split: if_splits)

lemma set_AList_delete: "x \<in> set (AList.delete k m) \<Longrightarrow> x \<in> set m"
  by (simp add: AList.delete_eq)

locale update_handlers = lock_free I R G + handlers I R G G dk A
  for I R G dk A +
  assumes R_lock: "I d0 \<Longrightarrow> G d0 d \<Longrightarrow> R d0 d CallLock"
begin

lemma lock_handler_ok:
  assumes "\<And>d. I d \<Longrightarrow> seg_ok I R G G d (critical d)" and "I d"
  shows "seg_ok I R G G d (with_lock critical d)"
  using assms G_refl by (auto simp: with_lock_def intro!: seg_Await R_lock split: wf_response.split)

lemma handler_starts_ok:
  assumes "I d"
  shows "distinct (keys (UpsertScalingGroups args)) \<Longrightarrow>
      seg_ok I R G G d (handleUpdateInstance dk args d)"
    and "seg_ok I R G G d (handleDeleteInstance d)"
  using assms update_locked_ok delete_locked_ok
  by (auto simp: handleUpdateInstance_def handleDeleteInstance_def G_refl intro!: lock_handler_ok
      split: option.split)

lemma handler_continues_ok:
  assumes "\<forall>(i, h) \<in> set hs. conforms I R G G (HandlerCo h)"
    and "map_of hs i = Some \<lparr>InCritical = c, HandlerCo = Await rq k\<rparr>" and "I d"
  shows "seg_ok I R G G d (k r d)"
  using assms(1,3) map_of_SomeD [OF assms(2)] by (fastforce simp: conforms_Await_iff)

end

locale instance_invariant = run_loop I R G + update_handlers I R G dk A
  for I R G dk A +
  assumes I_start: "I (first_runner ctx timestamp interval version t)"
    and I_environment: "I d \<Longrightarrow> I (d\<lparr>currentTime := t, enabledFlag := b, continueAsNewSuggested := c\<rparr>)"
    and I_signal: "I d \<Longrightarrow> I (d\<lparr>taskAddSignalChannel := c'\<rparr>)"
    and I_lock: "I d \<Longrightarrow> I (d\<lparr>lockHeld := True\<rparr>)"
    and I_next: "I d \<Longrightarrow> I (next_run timestamp interval version d)"
    and R_inv: "I d0 \<Longrightarrow> R d0 d rq \<Longrightarrow> I d"
begin

lemma seg_invariant:
  assumes "seg_ok I R G G d seg" and "I d"
  shows "I (fst seg)"
  using assms(1) G_inv [OF assms(2)] R_inv [OF assms(2)]
  by (cases "snd seg") (auto simp: seg_ok_def)

lemma settle_handler_ok:
  assumes "sys_ok I R G s" and "I d" and "seg_ok I R G G d seg"
  shows "sys_ok I R G (settle_handler i c seg s)"
proof -
  obtain d' co where seg: "seg = (d', co)" by fastforce
  have "I d'" using seg_invariant [OF assms(3,2)] by (simp add: seg)
  with assms(1,3) show ?thesis
    by (auto simp: settle_handler_def sys_ok_def seg seg_ok_def split: co.split
        dest!: set_AList_update set_AList_delete)
qed

lemma settle_main_ok:
  assumes "sys_ok I R G s" and "I d" and "seg_ok I R G G d seg"
    and "\<And>co. main_conforms I R G (running co) = conforms I R G G co"
    and "main_conforms I R G next"
  shows "sys_ok I R G (settle_main running next seg s)"
proof -
  obtain d' co where seg: "seg = (d', co)" by fastforce
  have "I d'" using seg_invariant [OF assms(3,2)] by (simp add: seg)
  with assms show ?thesis
    by (auto simp: settle_main_def sys_ok_def seg seg_ok_def split: co.split)
qed

lemma handler_resumes_ok:
  "sys_ok I R G s \<Longrightarrow> map_of (sysHandlers s) i = Some \<lparr>InCritical = c, HandlerCo = Await rq k\<rparr> \<Longrightarrow>
    I d \<Longrightarrow> seg_ok I R G G d (k r d)"
  by (rule handler_continues_ok) (simp_all add: sys_ok_def)

lemma step_ok: "sys_step dk s s' \<Longrightarrow> sys_ok I R G s \<Longrightarrow> sys_ok I R G s'"
proof (induction rule: sys_step.induct)
  case (environment s t b c)
  then show ?case using I_environment by (simp add: sys_ok_def)
next
  case (signal s req)
  then show ?case using I_signal by (simp add: sys_ok_def)
next
  case (update s i args)
  then show ?case
    by (intro settle_handler_ok [where d = "sysRunner s"] handler_starts_ok) (simp_all add: sys_ok_def)
next
  case (delete s i)
  then show ?case
    by (intro settle_handler_ok [where d = "sysRunner s"] handler_starts_ok) (simp_all add: sys_ok_def)
next
  case (dry_run s i args)
  then show ?case
    by (intro settle_handler_ok [where d = "sysRunner s"] handleValidateSpec_ok) (simp_all add: sys_ok_def)
next
  case (grant s i c k)
  then have "I ((sysRunner s)\<lparr>lockHeld := True\<rparr>)" by (simp add: sys_ok_def I_lock)
  with grant show ?case
    by (intro settle_handler_ok [where d = "(sysRunner s)\<lparr>lockHeld := True\<rparr>"] handler_resumes_ok)
next
  case (resume s i c rq k r)
  then have "I (sysRunner s)" by (simp add: sys_ok_def)
  with resume show ?case
    by (intro settle_handler_ok [where d = "sysRunner s"] handler_resumes_ok)
next
  case (batch s)
  then have I: "I (sysRunner s)" by (simp add: sys_ok_def)
  then have "seg_ok I R G G (sysRunner s) (task_add_batch (sysRunner s))"
    by (simp add: task_add_batch_def task_add_batch_ok)
  from settle_main_ok [OF batch.prems I this] show ?case by simp
next
  case (resume_batch s rq k r)
  then have I: "I (sysRunner s)" and "seg_ok I R G G (sysRunner s) (k r (sysRunner s))"
    by (simp_all add: sys_ok_def conforms_Await_iff)
  from settle_main_ok [OF resume_batch.prems this] show ?case by simp
next
  case (poll_timer s)
  then have I: "I (sysRunner s)" by (simp add: sys_ok_def)
  from settle_main_ok [OF poll_timer.prems I poll_timer_ok [OF I]] show ?case by simp
next
  case (validation_timer s n)
  then have I: "I (sysRunner s)" by (simp add: sys_ok_def)
  from settle_main_ok [OF validation_timer.prems I validation_timer_ok [OF I]] show ?case by simp
next
  case (resume_timer s rq k r)
  then have I: "I (sysRunner s)" and "seg_ok I R G G (sysRunner s) (k r (sysRunner s))"
    by (simp_all add: sys_ok_def conforms_Await_iff)
  from settle_main_ok [OF resume_timer.prems this] show ?case by simp
next
  case (continue_as_new s timestamp interval version)
  then show ?case using I_next by (simp add: sys_ok_def)
qed (simp_all add: sys_ok_def)

lemma reachable_ok: "reachable dk s \<Longrightarrow> sys_ok I R G s"
proof (induction rule: reachable.induct)
  case (start ctx timestamp interval version t)
  then show ?case using I_start by (simp add: sys_ok_def initial_system_def)
next
  case (step s s')
  then show ?case using step_ok by blast
qed

lemma reachable_invariant: "reachable dk s \<Longrightarrow> I (sysRunner s)"
  using reachable_ok by (simp add: sys_ok_def)

end

section \<open>The queue of signals is bounded\<close>

definition queue_bounded :: "runner \<Rightarrow> bool" where
  "queue_bounded d \<longleftrightarrow> limitPendingTaskAddSignals d
     \<and> length (PendingTaskAddSignals (RunState d)) \<le> maxPendingTaskAddSignals"

definition keeps :: "(runner \<Rightarrow> bool) \<Rightarrow> runner \<Rightarrow> runner \<Rightarrow> bool" where
  "keeps I d d' \<longleftrightarrow> (I d \<longrightarrow> I d')"

lemma queue_bounded_frame [simp]:
  "queue_bounded (d\<lparr>pollTimer := t\<rparr>) = queue_bounded d"
  "queue_bounded (d\<lparr>validationTimer := t\<rparr>) = queue_bounded d"
  "queue_bounded (d\<lparr>taskAddSignalChannel := c\<rparr>) = queue_bounded d"
  "queue_bounded (d\<lparr>lockHeld := b\<rparr>) = queue_bounded d"
  "queue_bounded (d\<lparr>stateChanged := b\<rparr>) = queue_bounded d"
  "queue_bounded (d\<lparr>forceCAN := b\<rparr>) = queue_bounded d"
  "queue_bounded (d\<lparr>deleteInstance := b\<rparr>) = queue_bounded d"
  "queue_bounded (d\<lparr>timersCancelled := b\<rparr>) = queue_bounded d"
  "queue_bounded (d\<lparr>currentTime := n\<rparr>) = queue_bounded d"
  "queue_bounded (d\<lparr>enabledFlag := b\<rparr>) = queue_bounded d"
  "queue_bounded (d\<lparr>continueAsNewSuggested := b\<rparr>) = queue_bounded d"
  "queue_bounded (d\<lparr>workflowVersion := n\<rparr>) = queue_bounded d"
  by (simp_all add: queue_bounded_def)

lemma queue_bounded_on_state [simp]:
  "(\<And>s. PendingTaskAddSignals (f s) = PendingTaskAddSignals s) \<Longrightarrow>
    queue_bounded (on_state f d) = queue_bounded d"
  by (simp add: queue_bounded_def on_state_def)

lemma queueTaskAddSignal_bounded: "queue_bounded d \<Longrightarrow> queue_bounded (queueTaskAddSignal req d)"
  by (auto simp: queue_bounded_def queueTaskAddSignal_def on_state_def split: option.split)

lemma fold_queue_bounded: "queue_bounded d \<Longrightarrow> queue_bounded (fold queueTaskAddSignal reqs d)"
  by (induction reqs arbitrary: d) (auto intro: queueTaskAddSignal_bounded)

lemma drain_bounded: "queue_bounded d \<Longrightarrow> queue_bounded (drainTaskAddSignalChannelToQueue d)"
  unfolding drainTaskAddSignalChannelToQueue_def by (rule fold_queue_bounded) simp

lemma stats_timer_bounded [simp]: "queue_bounded (addStatsPullTimer n d) = queue_bounded d"
  by (simp add: addStatsPullTimer_def)

lemma start_run_bounded: "queue_bounded d \<Longrightarrow> queue_bounded (start_run timestamp interval d)"
  by (auto simp: start_run_def Let_def arm_poll_timer_def addPeriodicValidationTimer_def init_state_def
      intro!: drain_bounded split: option.split)

lemma next_run_bounded: "queue_bounded d \<Longrightarrow> queue_bounded (next_run timestamp interval version d)"
  unfolding next_run_def by (rule start_run_bounded) (simp add: drain_bounded carried_state_def)

lemma pop_bounded:
  "queue_bounded d \<Longrightarrow> PendingTaskAddSignals (RunState d) = req # rest \<Longrightarrow>
    queue_bounded (pop_signal rest d)"
  by (simp add: queue_bounded_def pop_signal_def on_state_def)

interpretation queue: instance_invariant queue_bounded "any_request (keeps queue_bounded)"
  "keeps queue_bounded" dk "\<lambda>args u. True" for dk
proof unfold_locales
  fix ctx timestamp interval version t
  show "queue_bounded (first_runner ctx timestamp interval version t)"
    unfolding first_runner_def by (rule start_run_bounded) (simp add: queue_bounded_def)
next
  fix d
  show "queue_bounded d \<Longrightarrow> keeps queue_bounded d (select_signal d)"
    by (auto simp: keeps_def select_signal_def intro!: queueTaskAddSignal_bounded split: list.split)
qed (auto simp: keeps_def set_scaling_status_def set_validation_def addPeriodicValidationTimer_def
      markDeleted_def set_token_and_spec_def released_def intro: next_run_bounded pop_bounded)

section \<open>The specification stays valid\<close>

definition spec_valid :: "WorkerControllerInstanceSpec option \<Rightarrow> bool" where
  "spec_valid spec \<longleftrightarrow> (case spec of None \<Rightarrow> True
     | Some u \<Rightarrow> distinct (keys (ScalingGroupSpecs u))
         \<and> (ScalingGroupSpecs u = [] \<or> Validate (Some u) = None))"

definition state_valid :: "runner \<Rightarrow> bool" where
  "state_valid d \<longleftrightarrow> spec_valid (StateSpec (RunState d))"

definition accepted_spec ::
    "UpdateWorkerControllerInstanceRequest \<Rightarrow> WorkerControllerInstanceSpec \<Rightarrow> bool" where
  "accepted_spec args u \<longleftrightarrow> spec_valid (Some u)"

lemma state_valid_frame [simp]:
  "state_valid (d\<lparr>pollTimer := t\<rparr>) = state_valid d"
  "state_valid (d\<lparr>validationTimer := t\<rparr>) = state_valid d"
  "state_valid (d\<lparr>taskAddSignalChannel := c\<rparr>) = state_valid d"
  "state_valid (d\<lparr>lockHeld := b\<rparr>) = state_valid d"
  "state_valid (d\<lparr>stateChanged := b\<rparr>) = state_valid d"
  "state_valid (d\<lparr>forceCAN := b\<rparr>) = state_valid d"
  "state_valid (d\<lparr>deleteInstance := b\<rparr>) = state_valid d"
  "state_valid (d\<lparr>timersCancelled := b\<rparr>) = state_valid d"
  "state_valid (d\<lparr>currentTime := n\<rparr>) = state_valid d"
  "state_valid (d\<lparr>enabledFlag := b\<rparr>) = state_valid d"
  "state_valid (d\<lparr>continueAsNewSuggested := b\<rparr>) = state_valid d"
  "state_valid (d\<lparr>workflowVersion := n\<rparr>) = state_valid d"
  by (simp_all add: state_valid_def)

lemma state_valid_on_state [simp]:
  "(\<And>s. StateSpec (f s) = StateSpec s) \<Longrightarrow> state_valid (on_state f d) = state_valid d"
  by (simp add: state_valid_def on_state_def)

lemma queueTaskAddSignal_valid [simp]: "state_valid (queueTaskAddSignal req d) = state_valid d"
  by (auto simp: queueTaskAddSignal_def split: option.split)

lemma fold_queue_valid: "state_valid (fold queueTaskAddSignal reqs d) = state_valid d"
  by (induction reqs arbitrary: d) simp_all

lemma drain_valid [simp]: "state_valid (drainTaskAddSignalChannelToQueue d) = state_valid d"
  by (simp add: drainTaskAddSignalChannelToQueue_def fold_queue_valid)

lemma stats_timer_valid [simp]: "state_valid (addStatsPullTimer n d) = state_valid d"
  by (simp add: addStatsPullTimer_def)

lemma start_run_valid [simp]: "state_valid (start_run timestamp interval d) = state_valid d"
  by (auto simp: start_run_def Let_def arm_poll_timer_def addPeriodicValidationTimer_def init_state_def
      split: option.split)

lemma next_run_valid [simp]: "state_valid (next_run timestamp interval version d) = state_valid d"
  by (simp add: next_run_def carried_state_def)

lemma set_token_and_spec_valid [simp]:
  "state_valid (set_token_and_spec args u d) = spec_valid (Some u)"
  by (simp add: state_valid_def set_token_and_spec_def on_state_def)

lemma no_groups_valid [simp]: "ScalingGroupSpecs u = [] \<Longrightarrow> spec_valid (Some u)"
  by (simp add: spec_valid_def)

text \<open>What a validated update sets is again a specification with the invariant, because
  \<open>BuildUpdatedSpec\<close> keeps the keys distinct.\<close>

lemma built_spec_accepted:
  assumes "deterministic_keys dk" and "distinct (keys (UpsertScalingGroups args))"
    and "spec_valid current" and "BuildUpdatedSpec dk current args = Inr (u, unchanged)"
    and "ScalingGroupSpecs u = [] \<or> Validate (Some u) = None"
  shows "spec_valid (Some u)"
proof -
  have "\<forall>c. current = Some c \<longrightarrow> distinct (keys (ScalingGroupSpecs c))"
    using assms(3) by (auto simp: spec_valid_def)
  from deterministic_keys.upserts_result [OF assms(1,2) this] assms(4,5)
  show ?thesis by (simp add: spec_valid_def)
qed

sublocale deterministic_keys \<subseteq>
  state: instance_invariant state_valid "any_request (keeps state_valid)" "keeps state_valid"
    det_keys accepted_spec
proof unfold_locales
  fix d args u unchanged
  assume "state_valid d" and "distinct (keys (UpsertScalingGroups args))"
    and "BuildUpdatedSpec det_keys (StateSpec (RunState d)) args = Inr (u, unchanged)"
    and "Validate (Some u) = None"
  then show "accepted_spec args u"
    unfolding accepted_spec_def state_valid_def
    by (intro built_spec_accepted [OF deterministic_keys_axioms, where args = args]) simp_all
next
  fix ctx timestamp interval version t
  show "state_valid (first_runner ctx timestamp interval version t)"
    unfolding first_runner_def start_run_valid by (simp add: state_valid_def spec_valid_def)
qed (auto simp: keeps_def set_scaling_status_def set_validation_def addPeriodicValidationTimer_def
      markDeleted_def accepted_spec_def released_def pop_signal_def select_signal_def split: list.split)

context deterministic_keys
begin

lemma stored_spec_valid: "reachable det_keys s \<Longrightarrow> state_valid (sysRunner s)"
  by (rule state.reachable_invariant)

end

section \<open>What a step does to the state\<close>

text \<open>The request that the loop or a handler makes in a step.\<close>

definition requests :: "system \<Rightarrow> system \<Rightarrow> wf_request \<Rightarrow> bool" where
  "requests s s' rq \<longleftrightarrow>
     (\<exists>k. sysMain s' \<noteq> sysMain s
        \<and> (sysMain s' = Batch (Await rq k) \<or> sysMain s' = TimerRuns (Await rq k)))
     \<or> (\<exists>i c k. map_of (sysHandlers s') i = Some \<lparr>InCritical = c, HandlerCo = Await rq k\<rparr>
        \<and> map_of (sysHandlers s) i \<noteq> map_of (sysHandlers s') i)"

definition effect ::
    "(runner \<Rightarrow> runner \<Rightarrow> wf_request \<Rightarrow> bool) \<Rightarrow> (runner \<Rightarrow> runner \<Rightarrow> bool) \<Rightarrow> system \<Rightarrow> system
      \<Rightarrow> bool" where
  "effect R G s s' \<longleftrightarrow>
     G (sysRunner s) (sysRunner s') \<and> (\<forall>rq. \<not> requests s s' rq)
     \<or> (\<exists>rq. (\<forall>rq'. requests s s' rq' \<longleftrightarrow> rq' = rq) \<and> R (sysRunner s) (sysRunner s') rq)"

lemma effect_request:
  "R (sysRunner s) (sysRunner s') rq \<Longrightarrow> (\<And>rq'. requests s s' rq' \<longleftrightarrow> rq' = rq) \<Longrightarrow> effect R G s s'"
  by (auto simp: effect_def)

lemma effect_silent:
  "G (sysRunner s) (sysRunner s') \<Longrightarrow> (\<And>rq. \<not> requests s s' rq) \<Longrightarrow> effect R G s s'"
  by (simp add: effect_def)

text \<open>The environment lets time pass, or changes what the code reads of it.\<close>

definition passes :: "system \<Rightarrow> system \<Rightarrow> bool" where
  "passes s s' \<longleftrightarrow> (\<exists>t b c. currentTime (sysRunner s) \<le> t
     \<and> s' = s\<lparr>sysRunner := (sysRunner s)\<lparr>currentTime := t, enabledFlag := b,
         continueAsNewSuggested := (continueAsNewSuggested (sysRunner s) \<or> c)\<rparr>\<rparr>)"

text \<open>The next run takes over.\<close>

definition continues :: "system \<Rightarrow> system \<Rightarrow> bool" where
  "continues s s' \<longleftrightarrow> sysMain s = Finishing \<and> (\<exists>timestamp interval version.
     s' = s\<lparr>sysRunner := next_run timestamp interval version (sysRunner s), sysMain := AtTop\<rparr>)"

text \<open>The arrival of a signal, nil if its payload is null.\<close>

definition delivered :: "SignalTaskAddRequest option \<Rightarrow> system \<Rightarrow> system \<Rightarrow> bool" where
  "delivered req s s' \<longleftrightarrow> s' = s\<lparr>sysRunner := (sysRunner s)\<lparr>taskAddSignalChannel :=
     taskAddSignalChannel (sysRunner s) @ [req]\<rparr>\<rparr>"

lemma delivered_no_request: "delivered req s s' \<Longrightarrow> \<not> requests s s' rq"
  by (auto simp: delivered_def requests_def)

lemma passes_no_request: "passes s s' \<Longrightarrow> \<not> requests s s' rq"
  by (auto simp: passes_def requests_def)

lemma continues_no_request: "continues s s' \<Longrightarrow> \<not> requests s s' rq"
  by (auto simp: continues_def requests_def)

locale instance_steps = instance_invariant I R G dk A for I R G dk A +
  assumes G_lock: "I d \<Longrightarrow> G d (d\<lparr>lockHeld := True\<rparr>)"
    and R_after: "I d0 \<Longrightarrow> G d0 d \<Longrightarrow> R d d' rq \<Longrightarrow> R d0 d' rq"
begin

lemma requests_handler:
  "requests s (s\<lparr>sysRunner := d, sysHandlers :=
      AList.update i \<lparr>InCritical = c, HandlerCo = Await rq k\<rparr> (sysHandlers s)\<rparr>) rq' \<longleftrightarrow>
    rq' = rq \<and> map_of (sysHandlers s) i \<noteq> Some \<lparr>InCritical = c, HandlerCo = Await rq k\<rparr>"
  unfolding requests_def by (auto simp: update_Some_unfold update_conv split: if_splits)

lemma requests_ended:
  "\<not> requests s (s\<lparr>sysRunner := d, sysHandlers := AList.delete i (sysHandlers s), sysReplies := rs\<rparr>) rq"
  unfolding requests_def by (auto simp: delete_conv split: if_splits)

lemma handler_effect:
  assumes "seg_ok I R G G d seg" and "I (sysRunner s)" and "G (sysRunner s) d"
    and "\<And>rq k. snd seg = Await rq k \<Longrightarrow>
      map_of (sysHandlers s) i \<noteq> Some \<lparr>InCritical = c, HandlerCo = Await rq k\<rparr>"
  shows "effect R G s (settle_handler i c seg s)"
proof -
  obtain d' co where seg: "seg = (d', co)" by fastforce
  have G: "G (sysRunner s) d'" if "G d d'" using assms(3) that by (rule G_trans)
  have R: "R (sysRunner s) d' rq" if "R d d' rq" for rq using R_after [OF assms(2,3) that] .
  show ?thesis
  proof (cases co)
    case (Return x)
    with G assms(1) show ?thesis
      by (intro effect_silent) (simp_all add: settle_handler_def seg requests_ended)
  next
    case (Panic m)
    with G assms(1) show ?thesis
      by (intro effect_silent) (simp_all add: settle_handler_def seg requests_def)
  next
    case (Await rq k)
    with R assms(1,4) show ?thesis
      by (intro effect_request [of _ _ _ rq]) (simp_all add: settle_handler_def seg seg_ok_def
          requests_handler)
  qed
qed

lemma main_effect:
  assumes "seg_ok I R G G (sysRunner s) seg"
    and "running = Batch \<and> after = AtTimers \<or> running = TimerRuns \<and> after = Waiting"
    and "\<And>rq k. snd seg = Await rq k \<Longrightarrow> sysMain s \<noteq> running (Await rq k)"
  shows "effect R G s (settle_main running after seg s)"
proof -
  obtain d' co where seg: "seg = (d', co)" by fastforce
  show ?thesis
  proof (cases co)
    case (Return x)
    with assms show ?thesis
      by (intro effect_silent) (auto simp: settle_main_def seg requests_def)
  next
    case (Panic m)
    with assms show ?thesis
      by (intro effect_silent) (auto simp: settle_main_def seg requests_def)
  next
    case (Await rq k)
    with assms show ?thesis
      by (intro effect_request [of _ _ _ rq]) (auto simp: settle_main_def seg seg_ok_def requests_def)
  qed
qed

text \<open>A step has the effect of a segment, or delivers a signal, or continues as new.\<close>

lemma step_effect:
  assumes "sys_step dk s s'" and "sys_ok I R G s"
  shows "effect R G s s' \<or> passes s s' \<or> (\<exists>req. delivered req s s')
    \<or> continues s s'"
proof -
  from assms(2) have I: "I (sysRunner s)" and main: "main_conforms I R G (sysMain s)"
    by (simp_all add: sys_ok_def)
  have loop: "seg_ok I R G G (sysRunner s) (task_add_batch (sysRunner s))"
    using task_add_batch_ok [OF I] by (simp add: task_add_batch_def)
  note here = G_refl [OF I]
  note handler = handler_effect [OF _ I here] and resumed = handler_resumes_ok [OF assms(2)]
  from assms(1) show ?thesis
  proof (cases rule: sys_step.cases)
    case (environment t b c)
    then have "passes s s'" unfolding passes_def by blast
    then show ?thesis by simp
  next
    case (signal req)
    then show ?thesis by (auto simp: delivered_def)
  next
    case (update i args)
    then show ?thesis using handler [OF handler_starts_ok(1) [OF I update(4)], where i = i and c = False]
      by (simp add: map_of_eq_None_iff [THEN iffD2])
  next
    case (delete i)
    then show ?thesis using handler [OF handler_starts_ok(2) [OF I], where i = i and c = False]
      by (simp add: map_of_eq_None_iff [THEN iffD2])
  next
    case (dry_run i args)
    then show ?thesis using handler [OF handleValidateSpec_ok [OF I], where i = i and c = False]
      by (simp add: map_of_eq_None_iff [THEN iffD2])
  next
    case (grant i c k)
    have "I ((sysRunner s)\<lparr>lockHeld := True\<rparr>)" by (rule I_lock [OF I])
    from handler_effect [OF resumed [OF grant(3) this] I G_lock [OF I], where i = i and c = True] grant(1,3)
    show ?thesis using co_progress by fastforce
  next
    case (resume i c rq k r)
    from handler [OF resumed [OF resume(3) I], where i = i and c = c] resume(1,3) show ?thesis
      using co_progress by fastforce
  next
    case batch
    then show ?thesis using main_effect [OF loop, where running = Batch and after = AtTimers] by simp
  next
    case (resume_batch rq k r)
    then have "seg_ok I R G G (sysRunner s) (k r (sysRunner s))"
      using main I by (simp add: conforms_Await_iff)
    from main_effect [OF this, where running = Batch and after = AtTimers] resume_batch(1,3) show ?thesis
      using co_progress by fastforce
  next
    case poll_timer
    then show ?thesis using main_effect [OF poll_timer_ok [OF I], where running = TimerRuns and after = Waiting] by simp
  next
    case (validation_timer n)
    then show ?thesis using main_effect [OF validation_timer_ok [OF I], where running = TimerRuns and after = Waiting] by simp
  next
    case (resume_timer rq k r)
    then have "seg_ok I R G G (sysRunner s) (k r (sysRunner s))"
      using main I by (simp add: conforms_Await_iff)
    from main_effect [OF this, where running = TimerRuns and after = Waiting] resume_timer(1,3) show ?thesis
      using co_progress by fastforce
  next
    case (continue_as_new timestamp interval version)
    then have "continues s s'" unfolding continues_def by blast
    then show ?thesis by simp
  qed (auto simp: effect_def here requests_def)
qed

lemma request_effect:
  assumes "sys_step dk s s'" and "sys_ok I R G s" and "requests s s' rq"
  shows "R (sysRunner s) (sysRunner s') rq"
proof -
  have "effect R G s s'"
    using step_effect [OF assms(1,2)] assms(3) delivered_no_request passes_no_request
      continues_no_request by blast
  with assms(3) show ?thesis by (auto simp: effect_def)
qed

end

locale instance_guarantee = instance_steps I "any_request G" G dk A for I G dk A +
  assumes G_environment:
      "I d \<Longrightarrow> G d (d\<lparr>currentTime := t, enabledFlag := b, continueAsNewSuggested := c\<rparr>)"
    and G_signal: "I d \<Longrightarrow> G d (d\<lparr>taskAddSignalChannel := c'\<rparr>)"
begin

lemma step_guarantee:
  assumes "sys_step dk s s'" and "sys_ok I (any_request G) G s"
  shows "G (sysRunner s) (sysRunner s') \<or> sysMain s = Finishing \<and> sysMain s' = AtTop"
proof -
  have "I (sysRunner s)" using assms(2) by (simp add: sys_ok_def)
  then show ?thesis using step_effect [OF assms] G_signal G_environment
    by (auto simp: delivered_def passes_def effect_def continues_def)
qed

end

section \<open>Deletion\<close>

text \<open>While a run lasts, the mark of a deletion stays.\<close>

definition keeps_deleted :: "runner \<Rightarrow> runner \<Rightarrow> bool" where
  "keeps_deleted d d' \<longleftrightarrow> (deleteInstance d \<longrightarrow> deleteInstance d')"

lemma deleteInstance_on_state [simp]: "deleteInstance (on_state f d) = deleteInstance d"
  by (simp add: on_state_def)

lemma deleteInstance_queue [simp]: "deleteInstance (queueTaskAddSignal req d) = deleteInstance d"
  by (simp add: queueTaskAddSignal_def split: option.split)

interpretation deletion: instance_guarantee "\<lambda>d. True" keeps_deleted dk "\<lambda>args u. True" for dk
  by unfold_locales (auto simp: keeps_deleted_def set_scaling_status_def set_validation_def
      pop_signal_def select_signal_def addStatsPullTimer_def addPeriodicValidationTimer_def
      set_token_and_spec_def markDeleted_def released_def split: list.split)

end
