(* ===== verification/Atomic.thy ===== *)
theory Atomic
  imports Instance
begin

text \<open>
  Mutual exclusion and atomicity of the mutations of an instance.  What a client of the instance
  can change is its core: the specification, the conflict token and the mark of deletion.  An
  update reads the specification at the beginning of its critical section and sets the new one at
  its end, with two activities and a signal to another workflow in between, while the run loop,
  dry runs and other handlers go on.  The theory shows that at most one handler is in its critical
  section, exactly when the mutex is held, and that the interleaved system refines an object whose
  core changes in single atomic steps (\<open>core_step\<close>): an update applied to the core as it is at
  that moment, or a deletion.
\<close>

section \<open>The atomic object\<close>

record instance_core =
  coreSpec :: "WorkerControllerInstanceSpec option"
  coreToken :: "string option"
  coreDeleted :: bool

definition core_of :: "runner \<Rightarrow> instance_core" where
  "core_of d = \<lparr>coreSpec = StateSpec (RunState d), coreToken = StateConflictToken (RunState d),
     coreDeleted = deleteInstance d\<rparr>"

inductive core_step :: "(string list \<Rightarrow> string list) \<Rightarrow> instance_core \<Rightarrow> instance_core \<Rightarrow> bool"
  for dk where
  update: "BuildUpdatedSpec dk (coreSpec b) args = Inr (u, unchanged) \<Longrightarrow>
    ScalingGroupSpecs u \<noteq> [] \<Longrightarrow> Validate (Some u) = None \<Longrightarrow>
    core_step dk b (b\<lparr>coreSpec := Some u, coreToken := RequestConflictToken args\<rparr>)"
| remove_last: "BuildUpdatedSpec dk (coreSpec b) args = Inr (u, unchanged) \<Longrightarrow>
    ScalingGroupSpecs u = [] \<Longrightarrow>
    core_step dk b (b\<lparr>coreDeleted := True, coreSpec := Some u,
      coreToken := RequestConflictToken args\<rparr>)"
| delete: "core_step dk b (b\<lparr>coreDeleted := True\<rparr>)"

section \<open>What the parts of a run guarantee\<close>

definition same_core :: "runner \<Rightarrow> runner \<Rightarrow> bool" where
  "same_core d d' \<longleftrightarrow> core_of d' = core_of d \<and> lockHeld d' = lockHeld d"

text \<open>Requests of code that runs without, or already with, the mutex.\<close>

definition no_lock_request :: "runner \<Rightarrow> runner \<Rightarrow> wf_request \<Rightarrow> bool" where
  "no_lock_request d0 d rq \<longleftrightarrow> same_core d0 d \<and> rq \<noteq> CallLock"

lemma permitted_no_lock: "permitted d rq \<Longrightarrow> rq \<noteq> CallLock"
  by (auto elim: permitted.cases)

definition ends_critical :: "(string list \<Rightarrow> string list) \<Rightarrow> runner \<Rightarrow> runner \<Rightarrow> bool" where
  "ends_critical dk d d' \<longleftrightarrow> \<not> lockHeld d'
     \<and> (core_of d' = core_of d \<or> core_step dk (core_of d) (core_of d'))"

definition has_core :: "instance_core \<Rightarrow> runner \<Rightarrow> bool" where
  "has_core b d \<longleftrightarrow> core_of d = b"

definition built_from ::
    "(string list \<Rightarrow> string list) \<Rightarrow> instance_core \<Rightarrow> UpdateWorkerControllerInstanceRequest
      \<Rightarrow> WorkerControllerInstanceSpec \<Rightarrow> bool" where
  "built_from dk b args u \<longleftrightarrow> (\<exists>unchanged. BuildUpdatedSpec dk (coreSpec b) args = Inr (u, unchanged))
     \<and> ScalingGroupSpecs u \<noteq> [] \<and> Validate (Some u) = None"

lemma core_of_on_state:
  "(\<And>s. StateSpec (f s) = StateSpec s \<and> StateConflictToken (f s) = StateConflictToken s) \<Longrightarrow>
    core_of (on_state f d) = core_of d"
  by (simp add: core_of_def on_state_def)

lemma lockHeld_on_state [simp]: "lockHeld (on_state f d) = lockHeld d"
  by (simp add: on_state_def)

lemma core_of_frame [simp]:
  "core_of (d\<lparr>pollTimer := t\<rparr>) = core_of d" "core_of (d\<lparr>validationTimer := t\<rparr>) = core_of d"
  "core_of (d\<lparr>taskAddSignalChannel := c\<rparr>) = core_of d" "core_of (d\<lparr>lockHeld := b\<rparr>) = core_of d"
  "core_of (d\<lparr>stateChanged := b\<rparr>) = core_of d" "core_of (d\<lparr>currentTime := n\<rparr>) = core_of d"
  "core_of (d\<lparr>enabledFlag := b\<rparr>) = core_of d"
  "core_of (d\<lparr>continueAsNewSuggested := b\<rparr>) = core_of d"
  "core_of (d\<lparr>forceCAN := b\<rparr>) = core_of d" "core_of (d\<lparr>timersCancelled := b\<rparr>) = core_of d"
  "core_of (d\<lparr>workflowVersion := n\<rparr>) = core_of d"
  "core_of (d\<lparr>deleteInstance := b\<rparr>) = (core_of d)\<lparr>coreDeleted := b\<rparr>"
  by (simp_all add: core_of_def)

lemma same_core_refl [simp]: "same_core d d"
  by (simp add: same_core_def)

lemma same_core_updates [simp]:
  "same_core d (set_scaling_status m d)" "same_core d (set_validation v d)"
  "same_core d (pop_signal rest d)" "same_core d (addStatsPullTimer n d)"
  "same_core d (d\<lparr>pollTimer := t\<rparr>)" "same_core d (d\<lparr>validationTimer := t\<rparr>)"
  "same_core d (addPeriodicValidationTimer n d)" "same_core d (select_signal d)"
  by (auto simp: same_core_def set_scaling_status_def set_validation_def pop_signal_def
      addStatsPullTimer_def addPeriodicValidationTimer_def select_signal_def queueTaskAddSignal_def
      core_of_on_state split: list.split option.split)

lemma same_core_trans: "same_core d d' \<Longrightarrow> same_core d' d'' \<Longrightarrow> same_core d d''"
  by (simp add: same_core_def)

lemma core_of_released [simp]: "core_of (released d) = core_of d" "\<not> lockHeld (released d)"
  by (simp_all add: released_def)

lemma core_of_commit:
  "core_of (set_token_and_spec args u d) =
    (core_of d)\<lparr>coreSpec := Some u, coreToken := RequestConflictToken args\<rparr>"
  by (simp add: core_of_def set_token_and_spec_def on_state_def)

lemma core_of_deleted: "core_of (markDeleted d) = (core_of d)\<lparr>coreDeleted := True\<rparr>"
  by (simp add: core_of_def markDeleted_def)

interpretation outside: run_loop "\<lambda>d. True" no_lock_request same_core
  by unfold_locales (auto simp: no_lock_request_def task_add_call_def intro: same_core_trans
      dest: permitted_no_lock)

text \<open>A critical section that began with the core \<open>b\<close>.\<close>

interpretation critical: handlers "has_core b" no_lock_request same_core "ends_critical dk" dk
  "built_from dk b" for b dk
proof unfold_locales
  fix d0 d args u
  assume "has_core b d0" "same_core d0 d" "built_from dk b args u"
  then show "ends_critical dk d0 (released (set_token_and_spec args u d))"
    by (auto simp: ends_critical_def core_of_commit same_core_def has_core_def built_from_def
        intro: core_step.update)
next
  fix d :: runner and args u unchanged
  assume "BuildUpdatedSpec dk (StateSpec (RunState d)) args = Inr (u, unchanged)"
    "ScalingGroupSpecs u = []"
  then show "ends_critical dk d (released (set_token_and_spec args u (markDeleted d)))"
    by (auto simp: ends_critical_def core_of_commit core_of_deleted
        intro!: core_step.remove_last [where unchanged = unchanged]) (simp add: core_of_def)
qed (auto simp: no_lock_request_def has_core_def same_core_def ends_critical_def built_from_def
    core_of_deleted set_scaling_status_def set_validation_def core_of_on_state intro: core_step.delete,
    auto simp: core_of_def)

section \<open>The invariant of the mutex\<close>

definition critical_count :: "(nat, handler) gomap \<Rightarrow> nat" where
  "critical_count hs = length (filter (InCritical \<circ> snd) hs)"

definition critical_at :: "(nat, handler) gomap \<Rightarrow> nat \<Rightarrow> nat" where
  "critical_at hs i = (case map_of hs i of Some h \<Rightarrow> if InCritical h then 1 else 0 | None \<Rightarrow> 0)"

lemma critical_count_delete:
  "distinct (keys hs) \<Longrightarrow>
    critical_count (AList.delete i hs) + critical_at hs i = critical_count hs"
proof (induction hs)
  case (Cons x hs)
  then show ?case
    by (cases x) (auto simp: critical_count_def critical_at_def delete_idem dest: map_of_eq_None_iff [THEN iffD2]
        split: option.splits)
qed (simp add: critical_count_def critical_at_def)

lemma critical_count_update:
  "distinct (keys hs) \<Longrightarrow>
    critical_count (AList.update i h hs) + critical_at hs i =
    critical_count hs + (if InCritical h then 1 else 0)"
proof (induction hs)
  case (Cons x hs)
  then show ?case
    by (cases x) (auto simp: critical_count_def critical_at_def split: option.splits)
qed (simp add: critical_count_def critical_at_def)

lemma critical_count_0: "critical_count hs = 0 \<Longrightarrow> (i, h) \<in> set hs \<Longrightarrow> \<not> InCritical h"
  by (auto simp: critical_count_def filter_empty_conv)

text \<open>A handler that waits for the mutex, and what it does with it.\<close>

definition critical_seg ::
    "(string list \<Rightarrow> string list) \<Rightarrow> runner \<Rightarrow> runner \<times> handler_result co \<Rightarrow> bool" where
  "critical_seg dk d seg \<longleftrightarrow>
    seg_ok (has_core (core_of d)) no_lock_request same_core (ends_critical dk) d seg"

definition waits_for_lock :: "(string list \<Rightarrow> string list) \<Rightarrow> handler_result co \<Rightarrow> bool" where
  "waits_for_lock dk co \<longleftrightarrow> (\<exists>k. co = Await CallLock k \<and> (\<forall>d. critical_seg dk d (k DoneResponse d))
     \<and> (\<forall>e d. k (ErrorResponse e) d = (d, Return (Inl LockFailure))))"

definition runs_outside :: "handler_result co \<Rightarrow> bool" where
  "runs_outside co \<longleftrightarrow> (\<exists>rq k. co = Await rq k \<and> rq \<noteq> CallLock
     \<and> conforms (\<lambda>d. True) no_lock_request same_core same_core co)"

definition runs_critical ::
    "(string list \<Rightarrow> string list) \<Rightarrow> instance_core \<Rightarrow> handler_result co \<Rightarrow> bool" where
  "runs_critical dk b co \<longleftrightarrow> (\<exists>rq k. co = Await rq k \<and> rq \<noteq> CallLock
     \<and> conforms (has_core b) no_lock_request same_core (ends_critical dk) co)"

definition handler_ok :: "(string list \<Rightarrow> string list) \<Rightarrow> instance_core \<Rightarrow> handler \<Rightarrow> bool" where
  "handler_ok dk b h \<longleftrightarrow> (if InCritical h then runs_critical dk b (HandlerCo h)
     else waits_for_lock dk (HandlerCo h) \<or> runs_outside (HandlerCo h))"

definition locked_ok :: "(string list \<Rightarrow> string list) \<Rightarrow> system \<Rightarrow> bool" where
  "locked_ok dk s \<longleftrightarrow> sysPanic s = None \<longrightarrow>
     main_conforms (\<lambda>d. True) no_lock_request same_core (sysMain s)
     \<and> (\<forall>(i, h) \<in> set (sysHandlers s). handler_ok dk (core_of (sysRunner s)) h)
     \<and> distinct (keys (sysHandlers s))
     \<and> critical_count (sysHandlers s) = (if lockHeld (sysRunner s) then 1 else 0)"

lemma locked_okD:
  assumes "locked_ok dk s" and "sysPanic s = None"
  shows "main_conforms (\<lambda>d. True) no_lock_request same_core (sysMain s)"
    and "\<And>i h. map_of (sysHandlers s) i = Some h \<Longrightarrow> handler_ok dk (core_of (sysRunner s)) h"
    and "distinct (keys (sysHandlers s))"
    and "critical_count (sysHandlers s) = (if lockHeld (sysRunner s) then 1 else 0)"
  using assms by (auto simp: locked_ok_def dest: map_of_SomeD)

lemma other_handlers:
  "\<forall>(i, h) \<in> set hs. handler_ok dk b h \<Longrightarrow> critical_count hs = 0 \<Longrightarrow>
    \<forall>(i, h) \<in> set hs. handler_ok dk b' h"
  by (auto simp: handler_ok_def dest: critical_count_0)

section \<open>Steps keep the invariant\<close>

lemma settle_outside:
  assumes "locked_ok dk s" and "sysPanic s = None" and "critical_at (sysHandlers s) i = 0"
    and "same_core (sysRunner s) (fst seg)"
    and "\<And>rq k. snd seg = Await rq k \<Longrightarrow>
      waits_for_lock dk (Await rq k) \<or> runs_outside (Await rq k)"
  shows "locked_ok dk (settle_handler i False seg s)"
    and "core_of (sysRunner (settle_handler i False seg s)) = core_of (sysRunner s)"
proof -
  obtain d co where seg: "seg = (d, co)" by fastforce
  note ok = locked_okD [OF assms(1,2)]
  have all: "\<forall>(i, h) \<in> set (sysHandlers s). handler_ok dk (core_of (sysRunner s)) h"
    using assms(1,2) by (simp add: locked_ok_def)
  have same: "core_of d = core_of (sysRunner s)" "lockHeld d = lockHeld (sysRunner s)"
    using assms(4) by (simp_all add: seg same_core_def)
  show "locked_ok dk (settle_handler i False seg s)"
    using all same ok(1,3,4) assms(3,5) critical_count_delete [OF ok(3), of i]
      critical_count_update [OF ok(3), of i]
    by (fastforce simp: settle_handler_def seg locked_ok_def handler_ok_def distinct_update
        distinct_delete split: co.split dest: set_AList_delete set_AList_update)
  show "core_of (sysRunner (settle_handler i False seg s)) = core_of (sysRunner s)"
    using same by (simp add: settle_handler_def seg split: co.split)
qed

lemma settle_main_locked:
  assumes "locked_ok dk s" and "sysPanic s = None"
    and "seg_ok (\<lambda>d. True) no_lock_request same_core same_core (sysRunner s) seg"
    and "\<And>co. main_conforms (\<lambda>d. True) no_lock_request same_core (running co)
      = conforms (\<lambda>d. True) no_lock_request same_core same_core co"
    and "main_conforms (\<lambda>d. True) no_lock_request same_core next"
  shows "locked_ok dk (settle_main running next seg s)"
    and "core_of (sysRunner (settle_main running next seg s)) = core_of (sysRunner s)"
proof -
  obtain d co where seg: "seg = (d, co)" by fastforce
  have same: "same_core (sysRunner s) d"
    using assms(3) by (auto simp: seg seg_ok_def no_lock_request_def split: co.splits)
  show "locked_ok dk (settle_main running next seg s)"
    using assms same
    by (auto simp: settle_main_def seg locked_ok_def seg_ok_def same_core_def split: co.split)
  show "core_of (sysRunner (settle_main running next seg s)) = core_of (sysRunner s)"
    using same by (simp add: settle_main_def seg same_core_def split: co.split)
qed

lemma settle_critical:
  assumes "locked_ok dk s" and "sysPanic s = None" and "core_of d0 = core_of (sysRunner s)"
    and "lockHeld d0" and "critical_at (sysHandlers s) i = (if lockHeld (sysRunner s) then 1 else 0)"
    and "critical_seg dk d0 seg"
  shows "locked_ok dk (settle_handler i True seg s)"
    and "core_of (sysRunner (settle_handler i True seg s)) = core_of (sysRunner s)
      \<or> core_step dk (core_of (sysRunner s)) (core_of (sysRunner (settle_handler i True seg s)))"
proof -
  obtain d co where seg: "seg = (d, co)" by fastforce
  note ok = locked_okD [OF assms(1,2)]
  have all: "\<forall>(i, h) \<in> set (sysHandlers s). handler_ok dk (core_of (sysRunner s)) h"
    using assms(1,2) by (simp add: locked_ok_def)
  have free: "critical_count (AList.delete i (sysHandlers s)) = 0"
    using critical_count_delete [OF ok(3), of i] ok(4) assms(5) by simp
  from all have others: "\<forall>(i', h') \<in> set (AList.delete i (sysHandlers s)).
      handler_ok dk (core_of (sysRunner s)) h'"
    by (auto dest: set_AList_delete)
  note crit = assms(6) [unfolded critical_seg_def seg_ok_def assms(3) seg fst_conv snd_conv]
  show "locked_ok dk (settle_handler i True seg s)"
  proof (cases co)
    case (Return x)
    with crit have "\<not> lockHeld d" by (simp add: ends_critical_def)
    with ok(1,3) free other_handlers [OF others free, of "core_of d"] Return show ?thesis
      by (simp add: settle_handler_def seg locked_ok_def distinct_delete)
  next
    case (Panic m)
    then show ?thesis by (simp add: settle_handler_def seg locked_ok_def)
  next
    case (Await rq k)
    with crit have same: "core_of d = core_of (sysRunner s)" "lockHeld d"
      and "runs_critical dk (core_of (sysRunner s)) (Await rq k)"
      using assms(3,4) by (auto simp: same_core_def no_lock_request_def runs_critical_def)
    then have "handler_ok dk (core_of (sysRunner s)) \<lparr>InCritical = True, HandlerCo = Await rq k\<rparr>"
      by (simp add: handler_ok_def)
    with all same ok(1,3,4) Await assms(5) critical_count_update [OF ok(3), of i
        "\<lparr>InCritical = True, HandlerCo = Await rq k\<rparr>"] show ?thesis
      by (auto simp: settle_handler_def seg locked_ok_def distinct_update dest!: set_AList_update)
  qed
  show "core_of (sysRunner (settle_handler i True seg s)) = core_of (sysRunner s)
      \<or> core_step dk (core_of (sysRunner s)) (core_of (sysRunner (settle_handler i True seg s)))"
    using crit assms(3)
    by (auto simp: settle_handler_def seg same_core_def ends_critical_def no_lock_request_def
        split: co.splits)
qed

section \<open>Handlers start and runs continue\<close>

lemma same_core_drain [simp]: "same_core d (fold queueTaskAddSignal reqs d)"
proof (induction reqs arbitrary: d)
  case (Cons r reqs)
  have "same_core d (queueTaskAddSignal r d)"
    by (auto simp: same_core_def queueTaskAddSignal_def core_of_on_state split: option.split)
  from same_core_trans [OF this Cons.IH] show ?case by simp
qed simp

lemma core_of_drain [simp]:
  "core_of (drainTaskAddSignalChannelToQueue d) = core_of d"
  "lockHeld (drainTaskAddSignalChannelToQueue d) = lockHeld d"
  using same_core_drain [of "d\<lparr>taskAddSignalChannel := []\<rparr>" "taskAddSignalChannel d"]
  by (simp_all add: drainTaskAddSignalChannelToQueue_def same_core_def)

text \<open>What a new run makes of the core: it is not deleted, and a token that is missing, or was lost
  as JSON, is the time of the start.\<close>

definition continued :: "string \<Rightarrow> instance_core \<Rightarrow> instance_core" where
  "continued timestamp b = b\<lparr>coreDeleted := False,
     coreToken := (if token_bytes (coreToken b) = [] then Some timestamp else coreToken b)\<rparr>"

lemma core_of_timers [simp]:
  "core_of (addStatsPullTimer n d) = core_of d"
  "lockHeld (addStatsPullTimer n d) = lockHeld d"
  "core_of (addPeriodicValidationTimer n d) = core_of d"
  "lockHeld (addPeriodicValidationTimer n d) = lockHeld d"
  using same_core_updates(4) [of d n] same_core_updates(7) [of d n] by (simp_all add: same_core_def)

lemma core_of_arm [simp]:
  "core_of (arm_poll_timer d) = core_of d" "lockHeld (arm_poll_timer d) = lockHeld d"
  by (simp_all add: arm_poll_timer_def split: option.split)

lemma core_of_init [simp]:
  "core_of (on_state (init_state timestamp now) d) = (core_of d)\<lparr>coreToken :=
     (case coreToken (core_of d) of None \<Rightarrow> Some timestamp | Some t \<Rightarrow> Some t)\<rparr>"
  by (simp add: core_of_def on_state_def init_state_def)

lemma core_of_start_run [simp]:
  "core_of (start_run timestamp interval d) = (core_of d)\<lparr>coreToken :=
     (case coreToken (core_of d) of None \<Rightarrow> Some timestamp | Some t \<Rightarrow> Some t)\<rparr>"
  "lockHeld (start_run timestamp interval d) = lockHeld d"
  by (simp_all add: start_run_def Let_def)

lemma core_of_carried [simp]:
  "core_of (on_state carried_state d) = (core_of d)\<lparr>coreToken :=
     (if coreToken (core_of d) = Some [] then None else coreToken (core_of d))\<rparr>"
  by (simp add: core_of_def on_state_def carried_state_def)

lemma core_of_next_run [simp]:
  "core_of (next_run timestamp interval version d) = continued timestamp (core_of d)"
  "\<not> lockHeld (next_run timestamp interval version d)"
  by (auto simp: next_run_def continued_def token_bytes_def split: option.split)

lemma with_lock_waits:
  assumes "\<And>d. critical_seg dk d (critical d)"
  shows "fst (with_lock critical d) = d" and "snd (with_lock critical d) = Await rq k \<Longrightarrow>
      waits_for_lock dk (Await rq k)"
  using assms by (auto simp: with_lock_def waits_for_lock_def)

lemma critical_starts:
  "distinct (keys (UpsertScalingGroups args)) \<Longrightarrow> critical_seg dk d (update_locked dk args d)"
  "critical_seg dk d (unlock_and_return (Inr Deleted) (markDeleted d))"
  unfolding critical_seg_def
  by (rule critical.update_locked_ok, simp_all add: has_core_def)
    (rule critical.delete_locked_ok, simp add: has_core_def)

lemma update_starts:
  assumes "distinct (keys (UpsertScalingGroups args))"
  shows "same_core d (fst (handleUpdateInstance dk args d))"
    and "snd (handleUpdateInstance dk args d) = Await rq k \<Longrightarrow> waits_for_lock dk (Await rq k)"
  using with_lock_waits [where critical = "update_locked dk args", OF critical_starts(1) [OF assms]]
  by (auto simp: handleUpdateInstance_def split: option.splits)

lemma delete_starts:
  "same_core d (fst (handleDeleteInstance d))"
  "snd (handleDeleteInstance d) = Await rq k \<Longrightarrow> waits_for_lock dk (Await rq k)"
  using with_lock_waits [where critical = "\<lambda>d. unlock_and_return (Inr Deleted) (markDeleted d)",
      OF critical_starts(2)]
  by (auto simp: handleDeleteInstance_def split: option.splits)

lemma outside_seg:
  assumes "seg_ok (\<lambda>d. True) no_lock_request same_core same_core d seg"
  shows "same_core d (fst seg)" and "snd seg = Await rq k \<Longrightarrow> runs_outside (Await rq k)"
  using assms by (auto simp: seg_ok_def runs_outside_def no_lock_request_def split: co.splits)

section \<open>The refinement\<close>

lemma answers_lock: "answers CallLock r \<Longrightarrow> \<exists>e. r = ErrorResponse e"
  by (auto elim: answers.cases)

lemma idle_settle: "critical_at (sysHandlers s) i = 0 \<longleftrightarrow>
    (\<forall>h. map_of (sysHandlers s) i = Some h \<longrightarrow> \<not> InCritical h)"
  by (auto simp: critical_at_def split: option.split)

text \<open>A step of the core, between two states of the system.\<close>

definition core_moves :: "(string list \<Rightarrow> string list) \<Rightarrow> system \<Rightarrow> system \<Rightarrow> bool" where
  "core_moves dk s s' \<longleftrightarrow> core_of (sysRunner s') = core_of (sysRunner s)
     \<or> core_step dk (core_of (sysRunner s)) (core_of (sysRunner s'))
     \<or> sysMain s = Finishing \<and> sysMain s' = AtTop
         \<and> (\<exists>timestamp. core_of (sysRunner s') = continued timestamp (core_of (sysRunner s)))"

lemma resumed_handler:
  assumes "locked_ok dk s" and "idle_main s" and "answers rq r"
    and at: "map_of (sysHandlers s) i = Some \<lparr>InCritical = c, HandlerCo = Await rq k\<rparr>"
  shows "locked_ok dk (settle_handler i c (k r (sysRunner s)) s)
    \<and> core_moves dk s (settle_handler i c (k r (sysRunner s)) s)"
proof -
  have idle: "sysPanic s = None" using assms(2) by simp
  note ok = locked_okD [OF assms(1) idle]
  note h = ok(2) [OF at, unfolded handler_ok_def]
  show ?thesis
  proof (cases c)
    case True
    have "critical_at (sysHandlers s) i \<le> critical_count (sysHandlers s)"
      using critical_count_delete [OF ok(3), of i] by simp
    with ok(4) have held: "lockHeld (sysRunner s)"
      by (simp add: critical_at_def at True split: if_splits)
    from h True have "conforms (has_core (core_of (sysRunner s))) no_lock_request same_core
        (ends_critical dk) (Await rq k)"
      by (simp add: runs_critical_def)
    then have "critical_seg dk (sysRunner s) (k r (sysRunner s))"
      by (simp add: critical_seg_def conforms_Await_iff has_core_def)
    from settle_critical [OF assms(1) idle refl held _ this, of i] held True show ?thesis
      by (auto simp: critical_at_def at core_moves_def)
  next
    case False
    then have free: "critical_at (sysHandlers s) i = 0" by (simp add: critical_at_def at)
    have seg: "same_core (sysRunner s) (fst (k r (sysRunner s)))
      \<and> (\<forall>rq' k'. snd (k r (sysRunner s)) = Await rq' k' \<longrightarrow>
           waits_for_lock dk (Await rq' k') \<or> runs_outside (Await rq' k'))"
    proof (cases "waits_for_lock dk (Await rq k)")
      case True
      with assms(3) show ?thesis by (auto simp: waits_for_lock_def dest!: answers_lock)
    next
      case False
      with h \<open>\<not> c\<close> have "seg_ok (\<lambda>d. True) no_lock_request same_core same_core (sysRunner s)
          (k r (sysRunner s))"
        by (auto simp: runs_outside_def conforms_Await_iff)
      from outside_seg [OF this] show ?thesis by blast
    qed
    from settle_outside [OF assms(1) idle free] seg False show ?thesis
      by (auto simp: core_moves_def)
  qed
qed

lemma granted_handler:
  assumes "locked_ok dk s" and "idle_main s" and free: "\<not> lockHeld (sysRunner s)"
    and at: "map_of (sysHandlers s) i = Some \<lparr>InCritical = c, HandlerCo = Await CallLock k\<rparr>"
  defines "d \<equiv> (sysRunner s)\<lparr>lockHeld := True\<rparr>"
  shows "locked_ok dk (settle_handler i True (k DoneResponse d) s)
    \<and> core_moves dk s (settle_handler i True (k DoneResponse d) s)"
proof -
  have idle: "sysPanic s = None" using assms(2) by simp
  note ok = locked_okD [OF assms(1) idle]
  have none: "critical_at (sysHandlers s) i = 0"
    using critical_count_delete [OF ok(3), of i] ok(4) free by simp
  then have "\<not> c" by (simp add: critical_at_def at split: if_splits)
  with ok(2) [OF at] have "critical_seg dk d (k DoneResponse d)"
    by (auto simp: handler_ok_def waits_for_lock_def runs_outside_def)
  from settle_critical [OF assms(1) idle _ _ _ this, of i] none free show ?thesis
    by (auto simp: d_def core_moves_def)
qed

lemma started_handler:
  assumes "locked_ok dk s" and "idle_main s" and "i \<notin> set (keys (sysHandlers s))"
    and "same_core (sysRunner s) (fst seg)"
    and "\<And>rq k. snd seg = Await rq k \<Longrightarrow>
      waits_for_lock dk (Await rq k) \<or> runs_outside (Await rq k)"
  shows "locked_ok dk (settle_handler i False seg s)
    \<and> core_moves dk s (settle_handler i False seg s)"
proof -
  have "critical_at (sysHandlers s) i = 0"
    using assms(3) by (simp add: critical_at_def map_of_eq_None_iff [THEN iffD2])
  from settle_outside [OF assms(1) _ this assms(4,5)] assms(2) show ?thesis
    by (auto simp: core_moves_def)
qed

lemma settled_main:
  assumes "locked_ok dk s" and "idle_main s"
    and "seg_ok (\<lambda>d. True) no_lock_request same_core same_core (sysRunner s) seg"
    and "running = Batch \<and> next = AtTimers \<or> running = TimerRuns \<and> next = Waiting"
  shows "locked_ok dk (settle_main running next seg s)
    \<and> core_moves dk s (settle_main running next seg s)"
  using settle_main_locked [OF assms(1) _ assms(3), of running "next"] assms(2,4)
  by (auto simp: core_moves_def)

lemma step_locked:
  assumes "locked_ok dk s" and "sys_step dk s s'"
  shows "locked_ok dk s' \<and> core_moves dk s s'"
proof -
  have batch: "seg_ok (\<lambda>d. True) no_lock_request same_core same_core d (task_add_batch d)" for d
    using outside.task_add_batch_ok
    by (simp add: task_add_batch_def)
  have main: "main_conforms (\<lambda>d. True) no_lock_request same_core (sysMain s)" if "idle_main s"
    using locked_okD(1) [OF assms(1)] that by simp
  have silent: "locked_ok dk s' \<and> core_moves dk s s'"
    if "idle_main s" "same_core (sysRunner s) (sysRunner s')" "sysPanic s' = None"
      "sysHandlers s' = sysHandlers s" "main_conforms (\<lambda>d. True) no_lock_request same_core (sysMain s')"
    using assms(1) that by (simp add: locked_ok_def core_moves_def same_core_def)
  from assms(2) show ?thesis
  proof (cases rule: sys_step.cases)
    case (update i args)
    with started_handler [OF assms(1) update(2,3) update_starts(1) [OF update(4)]]
      update_starts(2) [OF update(4)] show ?thesis by blast
  next
    case (delete i)
    with started_handler [OF assms(1) delete(2,3) delete_starts(1)] delete_starts(2) show ?thesis
      by blast
  next
    case (dry_run i args)
    note seg = outside.handleValidateSpec_ok [of "sysRunner s" dk args, OF TrueI]
    from started_handler [OF assms(1) dry_run(2,3) outside_seg(1) [OF seg]] outside_seg(2) [OF seg]
      dry_run(1) show ?thesis by blast
  next
    case (grant i c k)
    with granted_handler [OF assms(1) grant(2,4,3)] show ?thesis by simp
  next
    case (resume i c rq k r)
    with resumed_handler [OF assms(1) resume(2,4,3)] show ?thesis by simp
  next
    case batch
    with settled_main [OF assms(1) batch(2) \<open>\<And>d. seg_ok _ _ _ _ d (task_add_batch d)\<close>] show ?thesis
      by blast
  next
    case (resume_batch rq k r)
    with main have "seg_ok (\<lambda>d. True) no_lock_request same_core same_core (sysRunner s)
        (k r (sysRunner s))" by (simp add: conforms_Await_iff)
    from settled_main [OF assms(1) resume_batch(2) this] resume_batch(1) show ?thesis by blast
  next
    case poll_timer
    with settled_main [OF assms(1) poll_timer(2) outside.poll_timer_ok [OF TrueI]] show ?thesis
      by blast
  next
    case (validation_timer n)
    with settled_main [OF assms(1) validation_timer(2) outside.validation_timer_ok [OF TrueI]]
    show ?thesis by blast
  next
    case (resume_timer rq k r)
    with main have "seg_ok (\<lambda>d. True) no_lock_request same_core same_core (sysRunner s)
        (k r (sysRunner s))" by (simp add: conforms_Await_iff)
    from settled_main [OF assms(1) resume_timer(2) this] resume_timer(1) show ?thesis by blast
  next
    case (continue_as_new timestamp interval version)
    then show ?thesis
      by (auto simp: locked_ok_def core_moves_def critical_count_def)
  qed (rule silent; use main in \<open>simp add: same_core_def\<close>)+
qed

lemma reachable_locked: "reachable dk s \<Longrightarrow> locked_ok dk s"
proof (induction rule: reachable.induct)
  case (start ctx timestamp interval version t)
  then show ?case
    by (simp add: locked_ok_def initial_system_def critical_count_def first_runner_def)
next
  case (step s s')
  then show ?case using step_locked by blast
qed

end
