(* ===== verification/Legacy.thy ===== *)
theory Legacy
  imports Instance
begin

text \<open>
  Runs from before the timer selector.  A run keeps the version of the logic it began with, so a
  worker still executes the loop of runs that began before \<open>timerSelectorPatch\<close>: one selector for
  the signals and the timers.  Runs from before \<open>taskAddSignalQueueLimitPatch\<close> have no queue either:
  they handle a signal when they receive it, hand over the ones they did not receive to the next
  run, and begin with the ones handed over to them.  What continues such a run is a run of the
  current version.

  The handlers and the environment do what they do in every version; a step of theirs is a step of
  \<open>sys_step\<close> in which the loop rests (at \<open>Finishing\<close>, where it takes part only when no handler is
  open).  \<open>Batch\<close> is the handling of a signal.
\<close>

section \<open>The loop with one selector\<close>

text \<open>The local state is passed on as in \<open>next_run\<close>; the new run is of the current version.\<close>

definition upgraded_run :: "string \<Rightarrow> int \<Rightarrow> int \<Rightarrow> runner \<Rightarrow> runner" where
  "upgraded_run stamp validationInterval version d =
    start_run stamp validationInterval
      ((on_state carried_state (if limitPendingTaskAddSignals d then drainTaskAddSignalChannelToQueue d
          else drainPendingTaskAddSignals d))
       \<lparr>deleteInstance := False, stateChanged := False, forceCAN := False, timersCancelled := False,
        pollTimer := None, validationTimer := None, lockHeld := False, continueAsNewSuggested := False,
        limitPendingTaskAddSignals := True, useTimerSelector := True, workflowVersion := version\<rparr>)"

text \<open>What is queued is handled before anything is selected.\<close>

definition selects :: "system \<Rightarrow> bool" where
  "selects s \<longleftrightarrow> sysMain s = AtTop \<and> \<not> shouldContinueAsNew (sysRunner s)
     \<and> (limitPendingTaskAddSignals (sysRunner s) \<longrightarrow> PendingTaskAddSignals (RunState (sysRunner s)) = [])"

inductive legacy_step :: "(string list \<Rightarrow> string list) \<Rightarrow> system \<Rightarrow> system \<Rightarrow> bool" for dk where
  outside: "sys_step dk (s\<lparr>sysMain := Finishing\<rparr>) s' \<Longrightarrow> sysMain s' = Finishing \<Longrightarrow>
    legacy_step dk s (s'\<lparr>sysMain := sysMain s\<rparr>)"
| leave: "idle_main s \<Longrightarrow> sysMain s = AtTop \<Longrightarrow> shouldContinueAsNew (sysRunner s) \<Longrightarrow>
    \<not> deleteInstance (sysRunner s) \<Longrightarrow> legacy_step dk s (s\<lparr>sysMain := Finishing\<rparr>)"
| finish: "idle_main s \<Longrightarrow> sysMain s = AtTop \<Longrightarrow> deleteInstance (sysRunner s) \<Longrightarrow>
    legacy_step dk s (s\<lparr>sysClosed := True\<rparr>)"
| queued: "idle_main s \<Longrightarrow> sysMain s = AtTop \<Longrightarrow> \<not> shouldContinueAsNew (sysRunner s) \<Longrightarrow>
    limitPendingTaskAddSignals (sysRunner s) \<Longrightarrow> PendingTaskAddSignals (RunState (sysRunner s)) \<noteq> [] \<Longrightarrow>
    legacy_step dk s (settle_main Batch AtTop
      (processNextQueuedTaskAddSignal (\<lambda>processed d. (d, Return ())) (sysRunner s)) s)"
| received: "idle_main s \<Longrightarrow> selects s \<Longrightarrow> taskAddSignalChannel (sysRunner s) = req # rest \<Longrightarrow>
    limitPendingTaskAddSignals (sysRunner s) \<Longrightarrow>
    legacy_step dk s (s\<lparr>sysRunner := select_signal (sysRunner s)\<rparr>)"
| handled: "idle_main s \<Longrightarrow> selects s \<Longrightarrow> taskAddSignalChannel (sysRunner s) = req # rest \<Longrightarrow>
    \<not> limitPendingTaskAddSignals (sysRunner s) \<Longrightarrow>
    legacy_step dk s (settle_main Batch AtTop (handleNoSyncMatchSignal req (\<lambda>d. (d, Return ()))
      ((sysRunner s)\<lparr>taskAddSignalChannel := rest\<rparr>)) s)"
| polled: "idle_main s \<Longrightarrow> selects s \<Longrightarrow> timer_ready (sysRunner s) (pollTimer (sysRunner s)) \<Longrightarrow>
    legacy_step dk s (settle_main TimerRuns AtTop (poll_timer_fired (sysRunner s)) s)"
| validated: "idle_main s \<Longrightarrow> selects s \<Longrightarrow> timer_ready (sysRunner s) (validationTimer (sysRunner s)) \<Longrightarrow>
    legacy_step dk s (settle_main TimerRuns AtTop (validation_timer_fired n (sysRunner s)) s)"
| resumed: "idle_main s \<Longrightarrow> sysMain s = Batch (Await rq k) \<Longrightarrow> answers rq r \<Longrightarrow>
    legacy_step dk s (settle_main Batch AtTop (k r (sysRunner s)) s)"
| timer_resumed: "idle_main s \<Longrightarrow> sysMain s = TimerRuns (Await rq k) \<Longrightarrow> answers rq r \<Longrightarrow>
    legacy_step dk s (settle_main TimerRuns AtTop (k r (sysRunner s)) s)"
| upgrade: "idle_main s \<Longrightarrow> sysMain s = Finishing \<Longrightarrow> sysHandlers s = [] \<Longrightarrow>
    legacy_step dk s (s\<lparr>sysRunner := upgraded_run stamp interval version (sysRunner s), sysMain := AtTop\<rparr>)"

text \<open>The beginning of such a run, with the state it inherits.\<close>

definition legacy_begin :: "string \<Rightarrow> int \<Rightarrow> unit segment" where
  "legacy_begin stamp interval d =
    (let d' = on_state (init_state stamp (currentTime d)) d
     in if limitPendingTaskAddSignals d then (start_run stamp interval d', Return ())
        else processPendingTaskAddSignals (\<lambda>d. (start_run stamp interval d, Return ())) d')"

text \<open>An instance that began with such a run, up to now.\<close>

inductive legacy_reachable :: "(string list \<Rightarrow> string list) \<Rightarrow> runner \<Rightarrow> system \<Rightarrow> bool" for dk d where
  start: "\<not> useTimerSelector d \<Longrightarrow>
    legacy_reachable dk d (settle_main Batch AtTop (legacy_begin stamp interval d) (initial_system d))"
| legacy: "legacy_reachable dk d s \<Longrightarrow> \<not> useTimerSelector (sysRunner s) \<Longrightarrow> legacy_step dk s s' \<Longrightarrow>
    legacy_reachable dk d s'"
| current: "legacy_reachable dk d s \<Longrightarrow> useTimerSelector (sysRunner s) \<Longrightarrow> sys_step dk s s' \<Longrightarrow>
    legacy_reachable dk d s'"

section \<open>Invariants of both kinds of runs\<close>

locale legacy_invariant = instance_invariant I R G dk A for I R G dk A +
  assumes R_receive: "I d0 \<Longrightarrow> G d0 d \<Longrightarrow> ensureEnabled d = None \<Longrightarrow> R d0 d (task_add_call req d)"
    and G_channel: "I d \<Longrightarrow> taskAddSignalChannel d = received # rest \<Longrightarrow>
      G d (d\<lparr>taskAddSignalChannel := rest\<rparr>)"
    and G_take_all: "I d \<Longrightarrow> G d (pop_signal [] d)"
    and G_init: "I d \<Longrightarrow> G d (on_state (init_state stamp t) d)"
    and G_start: "I d \<Longrightarrow> G d (start_run stamp interval d)"
    and I_upgrade: "I d \<Longrightarrow> I (upgraded_run stamp interval version d)"
begin

lemma handleNoSyncMatchSignal_ok:
  assumes "cont_ok I R G G k" and "I d0" and "G d0 d"
  shows "seg_ok I R G G d0 (handleNoSyncMatchSignal req k d)"
proof (cases "ensureEnabled d = None \<and> req \<noteq> None")
  case True
  then obtain r where r: "req = Some r" by blast
  from R_receive [OF assms(2,3)] True
  have "seg_ok I R G G d0 (d, Await (task_add_call r d) (task_add_done r k))"
    by (intro seg_Await task_add_done_ok [OF assms(1)]) simp
  with True r show ?thesis by (simp add: handleNoSyncMatchSignal_def task_add_call_def)
next
  case False
  then show ?thesis using cont_okD [OF assms] by (auto simp: handleNoSyncMatchSignal_def)
qed

lemma handle_all_ok: "cont_ok I R G G k \<Longrightarrow> cont_ok I R G G (handle_all reqs k)"
  by (induction reqs) (auto intro!: cont_okI handleNoSyncMatchSignal_ok)

lemma legacy_begin_ok:
  assumes "I d"
  shows "seg_ok I R G G d (legacy_begin stamp interval d)"
proof -
  have start: "cont_ok I R G G (\<lambda>d. (start_run stamp interval d, Return ()))"
    using G_trans G_start G_inv by (auto intro!: cont_okI)
  have "cont_ok I R G G (processPendingTaskAddSignals (\<lambda>d. (start_run stamp interval d, Return ())))"
    using start cont_after [OF handle_all_ok [OF start] G_take_all]
    by (auto simp: processPendingTaskAddSignals_def cont_ok_def)
  from after_step [OF start assms G_refl [OF assms] G_init [OF assms]]
    after_step [OF this assms G_refl [OF assms] G_init [OF assms]] show ?thesis
    by (simp add: legacy_begin_def Let_def)
qed

lemma received_ok:
  assumes "sys_ok I R G s" and "I d" and "seg_ok I R G G d seg"
    and "running = Batch \<or> running = TimerRuns"
  shows "sys_ok I R G (settle_main running AtTop seg s)"
  using assms(4) by (intro settle_main_ok [OF assms(1-3)]) auto

lemma outside_ok:
  assumes "sys_step dk (s\<lparr>sysMain := Finishing\<rparr>) s'" and "sys_ok I R G s"
  shows "sys_ok I R G (s'\<lparr>sysMain := sysMain s\<rparr>)"
proof -
  have "sys_ok I R G (s\<lparr>sysMain := Finishing\<rparr>)" using assms(2) by (simp add: sys_ok_def)
  from step_ok [OF assms(1) this] assms(2) show ?thesis by (simp add: sys_ok_def)
qed

lemma legacy_step_ok:
  assumes "legacy_step dk s s'" and "sys_ok I R G s"
  shows "sys_ok I R G s'"
proof -
  have I: "I (sysRunner s)" using assms(2) by (simp add: sys_ok_def)
  note settled = received_ok [OF assms(2) I]
  from assms(1) show ?thesis
  proof (cases rule: legacy_step.cases)
    case (outside s'')
    then show ?thesis using outside_ok [OF _ assms(2)] by simp
  next
    case queued
    have "seg_ok I R G G (sysRunner s)
        (processNextQueuedTaskAddSignal (\<lambda>processed d. (d, Return ())) (sysRunner s))"
      by (rule cont_start [OF processNext_ok I]) (rule return_ok)
    with queued(1) settled show ?thesis by simp
  next
    case (received req rest)
    then show ?thesis using assms(2) G_inv [OF I G_select [OF I]] by (simp add: sys_ok_def)
  next
    case (handled req rest)
    have "seg_ok I R G G (sysRunner s) (handleNoSyncMatchSignal req (\<lambda>d. (d, Return ()))
        ((sysRunner s)\<lparr>taskAddSignalChannel := rest\<rparr>))"
      by (rule handleNoSyncMatchSignal_ok [OF return_ok I G_channel [OF I handled(4)]])
    with handled(1) settled show ?thesis by simp
  next
    case polled
    with poll_timer_ok [OF I] settled show ?thesis by simp
  next
    case (validated n)
    with validation_timer_ok [OF I] settled show ?thesis by simp
  next
    case (resumed rq k r)
    then have "seg_ok I R G G (sysRunner s) (k r (sysRunner s))"
      using assms(2) I by (simp add: sys_ok_def conforms_Await_iff)
    with resumed(1) settled show ?thesis by simp
  next
    case (timer_resumed rq k r)
    then have "seg_ok I R G G (sysRunner s) (k r (sysRunner s))"
      using assms(2) I by (simp add: sys_ok_def conforms_Await_iff)
    with timer_resumed(1) settled show ?thesis by simp
  next
    case (upgrade stamp interval version)
    then show ?thesis using assms(2) I_upgrade by (simp add: sys_ok_def)
  qed (use assms(2) in \<open>simp_all add: sys_ok_def\<close>)
qed

lemma legacy_reachable_ok: "legacy_reachable dk d s \<Longrightarrow> I d \<Longrightarrow> sys_ok I R G s"
proof (induction rule: legacy_reachable.induct)
  case (start stamp interval)
  have "sys_ok I R G (initial_system d)" using start by (simp add: sys_ok_def initial_system_def)
  from received_ok [OF this start.prems legacy_begin_ok [OF start.prems]] show ?case by simp
next
  case (legacy s s')
  then show ?case using legacy_step_ok by blast
next
  case (current s s')
  then show ?case using step_ok by blast
qed

end

section \<open>What an old run hands over\<close>

text \<open>It hands over the signals of its channel behind the ones it has already, whatever their number,
  and continues as new for them.\<close>

lemma hand_over_all:
  "PendingTaskAddSignals (RunState (drainPendingTaskAddSignals d)) =
     PendingTaskAddSignals (RunState d) @ List.map_filter id (taskAddSignalChannel d)
   \<and> taskAddSignalChannel (drainPendingTaskAddSignals d) = []
   \<and> (stateChanged (drainPendingTaskAddSignals d) \<longleftrightarrow>
       stateChanged d \<or> List.map_filter id (taskAddSignalChannel d) \<noteq> [])"
proof -
  have "PendingTaskAddSignals (RunState (fold hand_over reqs d')) =
      PendingTaskAddSignals (RunState d') @ List.map_filter id reqs
    \<and> taskAddSignalChannel (fold hand_over reqs d') = taskAddSignalChannel d'
    \<and> (stateChanged (fold hand_over reqs d') \<longleftrightarrow> stateChanged d' \<or> List.map_filter id reqs \<noteq> [])"
    for reqs d'
    by (induction reqs arbitrary: d')
      (auto simp: hand_over_def on_state_def map_filter_def split: option.split)
  then show ?thesis by (simp add: drainPendingTaskAddSignals_def)
qed

text \<open>So the first run of the current version starts with all of them, and the bound on the queue
  does not hold for it: only what arrives from then on is dropped.\<close>

lemma upgrade_keeps_all:
  assumes "\<not> limitPendingTaskAddSignals d"
  shows "PendingTaskAddSignals (RunState (upgraded_run stamp interval version d)) =
    PendingTaskAddSignals (RunState d) @ List.map_filter id (taskAddSignalChannel d)"
  using assms hand_over_all [of d]
  by (auto simp: upgraded_run_def start_run_def Let_def arm_poll_timer_def addStatsPullTimer_def
      addPeriodicValidationTimer_def on_state_def init_state_def carried_state_def
      drainTaskAddSignalChannelToQueue_def split: option.split)

section \<open>The specification stays valid\<close>

lemma state_valid_legacy [simp]:
  "state_valid (d\<lparr>limitPendingTaskAddSignals := b\<rparr>) = state_valid d"
  "state_valid (d\<lparr>useTimerSelector := b\<rparr>) = state_valid d"
  "state_valid (drainPendingTaskAddSignals d) = state_valid d"
proof -
  have "state_valid (fold hand_over reqs d') = state_valid d'" for reqs d'
    by (induction reqs arbitrary: d') (simp_all add: hand_over_def split: option.split)
  then show "state_valid (drainPendingTaskAddSignals d) = state_valid d"
    by (simp add: drainPendingTaskAddSignals_def)
qed (simp_all add: state_valid_def)

sublocale deterministic_keys \<subseteq>
  legacy: legacy_invariant state_valid "any_request (keeps state_valid)" "keeps state_valid"
    det_keys accepted_spec
  by unfold_locales (simp_all add: keeps_def upgraded_run_def carried_state_def init_state_def
      pop_signal_def)

context deterministic_keys
begin

lemma legacy_spec_kept:
  "legacy_reachable det_keys d s \<Longrightarrow> state_valid d \<Longrightarrow> state_valid (sysRunner s)"
  using legacy.legacy_reachable_ok by (auto simp: sys_ok_def)

end

text \<open>Also an instance whose first run began before the timer selector, or before the queue limit,
  stores valid specifications only, in that run and in the ones that follow.\<close>

theorem legacy_spec_valid:
  assumes "legacy_reachable dk d s" and "deterministic_keys dk" and "state_valid d"
  shows "state_valid (sysRunner s)"
  using deterministic_keys.legacy_spec_kept [OF assms(2,1,3)] .

end
