(* ===== verification/Scenarios.thy ===== *)
theory Scenarios
  imports Atomic Legacy
begin

text \<open>
  Runs of an instance, step by step: an instance that is created and continues as new with its
  specification, an acknowledged deletion that is lost, and a write to a nil map that blocks the
  workflow.  They are reachable systems of theory \<open>Instance\<close>, and they are the witnesses of the
  properties of reachable systems.
\<close>

section \<open>An instance is created\<close>

text \<open>All task queues of the version are registered already, so the registration invokes no worker
  and leaves no status.\<close>

definition live_env :: activity_env where
  "live_env = sample_env\<lparr>envDescribeQueues := Inr (Some (List.map
     (\<lambda>t. Some \<lparr>QueueType = t, QueueStats = None\<rparr>)
     [TASK_QUEUE_TYPE_WORKFLOW, TASK_QUEUE_TYPE_ACTIVITY, TASK_QUEUE_TYPE_NEXUS]))\<rparr>"

definition live_spec :: WorkerControllerInstanceSpec where
  "live_spec = \<lparr>ScalingGroupSpecs = [(''rest'', scaled_group [] ''k8s'' ''rate-based'')]\<rparr>"

definition create_request :: UpdateWorkerControllerInstanceRequest where
  "create_request = \<lparr>Identity = '''', RequestConflictToken = None,
     UpsertScalingGroups =
       [(''rest'', \<lparr>UpdateSpec = scaled_group [] ''k8s'' ''rate-based'', UpdateMask = []\<rparr>)],
     RemoveScalingGroups = []\<rparr>"

lemma live_facts:
  "BuildUpdatedSpec sort None create_request = Inr (live_spec, [])"
  "BuildUpdatedSpec sort (Some live_spec) create_request = Inr (live_spec, [''rest''])"
  "Validate (Some live_spec) = None"
  by code_simp+

lemma live_validated:
  "answers (CallValidateSpec \<lparr>ValidateContext = sample_context, ValidateSpecOf = Some live_spec,
     ScalingGroupsToSkipProviderValidation = []\<rparr>) DoneResponse"
  "answers (CallValidateSpec \<lparr>ValidateContext = sample_context, ValidateSpecOf = Some live_spec,
     ScalingGroupsToSkipProviderValidation = [''rest'']\<rparr>) DoneResponse"
  by (rule answers.spec_validated [where env = live_env], code_simp, simp add: live_env_def sample_env_def)+

lemma live_registered:
  "answers (CallRegister \<lparr>RegisterContext = sample_context, RegisterSpec = live_spec,
     RegisterScalingStatus = None\<rparr>) (RegisterResponse None)"
proof -
  have "InvokeWorkersToRegisterTaskQueues live_env (Some \<lparr>RegisterContext = sample_context,
      RegisterSpec = live_spec, RegisterScalingStatus = None\<rparr>) = ([], Inr [])"
    by code_simp
  from answers.registered [OF this] show ?thesis
    by (simp add: live_env_def sample_env_def omit_empty_def)
qed

text \<open>The runner of the first run after one update, and of the run that continues it.\<close>

definition new_runner :: runner where
  "new_runner = first_runner sample_context ''t0'' minute CheckWorkerControllerEnabledVersion 0"

definition live_runner :: runner where
  "live_runner = \<lparr>RunContext = sample_context,
     RunState = \<lparr>StateSpec = Some live_spec, ScalingStatus = None, PendingTaskAddSignals = [],
       NextPollTime = Some maxPollInterval, StateConflictToken = Some ''t1'', CreateTime = Some 0,
       ValidationStatus = Some (NewValidationStatusSuccess 0)\<rparr>,
     deleteInstance = False, stateChanged = False, forceCAN = False,
     limitPendingTaskAddSignals = True, useTimerSelector = True,
     workflowVersion = CheckWorkerControllerEnabledVersion,
     timersCancelled = False, pollTimer = Some maxPollInterval, validationTimer = Some minute,
     lockHeld = False, taskAddSignalChannel = [], currentTime = 0, enabledFlag = True,
     continueAsNewSuggested = False\<rparr>"

definition live_system :: system where
  "live_system = \<lparr>sysRunner = live_runner, sysMain = AtTop, sysHandlers = [],
     sysReplies = [(0, Inr (Updated (Some live_spec)))], sysPanic = None, sysClosed = False\<rparr>"

lemma new_runner_eq: "new_runner = \<lparr>RunContext = sample_context,
     RunState = \<lparr>StateSpec = None, ScalingStatus = None, PendingTaskAddSignals = [],
       NextPollTime = Some maxPollInterval, StateConflictToken = Some ''t0'', CreateTime = Some 0,
       ValidationStatus = None\<rparr>,
     deleteInstance = False, stateChanged = False, forceCAN = False,
     limitPendingTaskAddSignals = True, useTimerSelector = True,
     workflowVersion = CheckWorkerControllerEnabledVersion,
     timersCancelled = False, pollTimer = Some maxPollInterval, validationTimer = Some minute,
     lockHeld = False, taskAddSignalChannel = [], currentTime = 0, enabledFlag = True,
     continueAsNewSuggested = False\<rparr>"
  by (simp add: new_runner_def first_runner_def start_run_def Let_def on_state_def init_state_def
      arm_poll_timer_def addStatsPullTimer_def hasMinVersion_def addPeriodicValidationTimer_def
      drainTaskAddSignalChannelToQueue_def)

text \<open>Handlers that may start.\<close>

definition accepts :: "runner \<Rightarrow> bool" where
  "accepts d \<longleftrightarrow> ensureEnabled d = None \<and> preUpdateChecks d = None \<and> ensureNotDeleted d = None"

lemma handlers_wait:
  assumes "accepts d"
  shows "handleUpdateInstance dk args d = with_lock (update_locked dk args) d"
    and "handleDeleteInstance d =
      with_lock (\<lambda>d. unlock_and_return (Inr Deleted) (markDeleted d)) d"
  using assms by (simp_all add: accepts_def handleUpdateInstance_def handleDeleteInstance_def)

lemma reach_update:
  assumes "reachable dk s" and "idle_main s" and "accepts (sysRunner s)"
    and "i \<notin> set (keys (sysHandlers s))" and "distinct (keys (UpsertScalingGroups args))"
    and "validateUpdateInstance args (sysRunner s) = None"
  shows "reachable dk (settle_handler i False (with_lock (update_locked dk args) (sysRunner s)) s)"
  using reachable.step [OF assms(1) sys_step.update [OF assms(2,4-6)]]
  by (simp add: handlers_wait [OF assms(3)])

lemma reach_delete:
  assumes "reachable dk s" and "idle_main s" and "accepts (sysRunner s)"
    and "i \<notin> set (keys (sysHandlers s))"
  shows "reachable dk (settle_handler i False
    (with_lock (\<lambda>d. unlock_and_return (Inr Deleted) (markDeleted d)) (sysRunner s)) s)"
  using reachable.step [OF assms(1) sys_step.delete [OF assms(2,4)]] assms(3)
  by (simp add: handlers_wait [OF assms(3)] accepts_def validateDeleteInstance_def)

lemmas state_simps = on_state_def set_scaling_status_def set_validation_def set_token_and_spec_def
  unlock_and_return_def pop_signal_def

lemma update_locked_live:
  assumes "BuildUpdatedSpec sort (StateSpec (RunState d)) args = Inr (u, unchanged)"
    and "ScalingGroupSpecs u \<noteq> []" and "Validate (Some u) = None"
  shows "update_locked sort args d = (d, Await (CallValidateSpec
     \<lparr>ValidateContext = RunContext d, ValidateSpecOf = Some u,
      ScalingGroupsToSkipProviderValidation = unchanged\<rparr>)
    (update_validated args u (currentTime d)))"
  using assms by (simp add: update_locked_def)

lemma reach_grant:
  assumes "reachable dk s" and "idle_main s"
    and "map_of (sysHandlers s) i = Some \<lparr>InCritical = c, HandlerCo = Await CallLock k\<rparr>"
    and "\<not> lockHeld (sysRunner s)"
  shows "reachable dk (settle_handler i True (k DoneResponse ((sysRunner s)\<lparr>lockHeld := True\<rparr>)) s)"
  using reachable.step [OF assms(1) sys_step.grant [OF assms(2-4)]] .

lemma reach_resume:
  assumes "reachable dk s" and "idle_main s"
    and "map_of (sysHandlers s) i = Some \<lparr>InCritical = c, HandlerCo = Await rq k\<rparr>"
    and "answers rq r"
  shows "reachable dk (settle_handler i c (k r (sysRunner s)) s)"
  using reachable.step [OF assms(1) sys_step.resume [OF assms(2-4)]] .

text \<open>An update that a system without other handlers applies from its start to its end.\<close>

definition updating :: "system \<Rightarrow> nat \<Rightarrow> runner \<Rightarrow> wf_request
    \<Rightarrow> (wf_response \<Rightarrow> runner \<Rightarrow> runner \<times> handler_result co) \<Rightarrow> system" where
  "updating s i d rq k =
    s\<lparr>sysRunner := d, sysHandlers := [(i, \<lparr>InCritical = True, HandlerCo = Await rq k\<rparr>)]\<rparr>"

lemma reach_validating:
  assumes "reachable sort s" and "idle_main s" and "sysHandlers s = []" and "accepts (sysRunner s)"
    and "\<not> lockHeld (sysRunner s)" and "distinct (keys (UpsertScalingGroups args))"
    and "validateUpdateInstance args (sysRunner s) = None"
    and "BuildUpdatedSpec sort (StateSpec (RunState (sysRunner s))) args = Inr (u, unchanged)"
    and "ScalingGroupSpecs u \<noteq> []" and "Validate (Some u) = None"
  shows "reachable sort (updating s i ((sysRunner s)\<lparr>lockHeld := True\<rparr>) (CallValidateSpec
     \<lparr>ValidateContext = RunContext (sysRunner s), ValidateSpecOf = Some u,
      ScalingGroupsToSkipProviderValidation = unchanged\<rparr>)
    (update_validated args u (currentTime (sysRunner s))))"
proof -
  from reach_update [OF assms(1,2,4) _ assms(6,7), of i] assms(3)
  have "reachable sort (settle_handler i False (with_lock (update_locked sort args) (sysRunner s)) s)"
    by simp
  moreover have "map_of (sysHandlers (settle_handler i False
      (with_lock (update_locked sort args) (sysRunner s)) s)) i = Some \<lparr>InCritical = False,
      HandlerCo = snd (with_lock (update_locked sort args) (sysRunner s))\<rparr>"
    using assms(3) by (simp add: with_lock_def settle_handler_def)
  ultimately show ?thesis
    using assms(2-10) reach_grant [of sort _ i False]
    by (fastforce simp add: with_lock_def settle_handler_def update_locked_live updating_def)
qed

lemma reach_registering:
  assumes "reachable sort (updating s i d (CallValidateSpec req) (update_validated args u t))"
    and "idle_main s" and "answers (CallValidateSpec req) DoneResponse"
  shows "reachable sort (updating s i d
    (CallRegister \<lparr>RegisterContext = RunContext d, RegisterSpec = u,
       RegisterScalingStatus = ScalingStatus (RunState d)\<rparr>) (update_registered args u t))"
  using reach_resume [OF assms(1), of i True, OF _ _ assms(3)] assms(2)
  by (simp add: updating_def update_validated_def settle_handler_def)

lemma new_runner_simps [simp]:
  "RunContext new_runner = sample_context" "StateSpec (RunState new_runner) = None"
  "ScalingStatus (RunState new_runner) = None" "\<not> lockHeld new_runner" "currentTime new_runner = 0"
  "accepts new_runner" "validateUpdateInstance create_request new_runner = None"
  "workflowVersion new_runner = CheckWorkerControllerEnabledVersion"
  by (simp_all add: new_runner_eq accepts_def ensureEnabled_def preUpdateChecks_def ensureNotDeleted_def
      workerControllerEnabled_def hasMinVersion_def validateUpdateInstance_def create_request_def)

lemma live_spec_groups [simp]: "ScalingGroupSpecs live_spec \<noteq> []"
  and create_request_keys [simp]: "distinct (keys (UpsertScalingGroups create_request))"
  and create_request_token [simp]: "RequestConflictToken create_request = None"
  by (simp_all add: live_spec_def create_request_def)

lemma live_registering:
  "reachable sort (updating (initial_system new_runner) 0 (new_runner\<lparr>lockHeld := True\<rparr>)
    (CallRegister \<lparr>RegisterContext = sample_context, RegisterSpec = live_spec,
       RegisterScalingStatus = None\<rparr>) (update_registered create_request live_spec 0))"
proof -
  have idle: "idle_main (initial_system new_runner)" by (simp add: initial_system_def)
  have "reachable sort (initial_system new_runner)"
    unfolding new_runner_def by (rule reachable.start)
  from reach_validating [OF this idle, where args = create_request and i = 0] live_facts
  have "reachable sort (updating (initial_system new_runner) 0 (new_runner\<lparr>lockHeld := True\<rparr>)
      (CallValidateSpec \<lparr>ValidateContext = sample_context, ValidateSpecOf = Some live_spec,
        ScalingGroupsToSkipProviderValidation = []\<rparr>) (update_validated create_request live_spec 0))"
    by (simp add: initial_system_def)
  from reach_registering [OF this idle live_validated(1)] show ?thesis by simp
qed

definition created_runner :: runner where
  "created_runner = released (set_token_and_spec create_request live_spec
     (set_validation (NewValidationStatusSuccess 0) (new_runner\<lparr>lockHeld := True\<rparr>)))"

definition created_system :: system where
  "created_system = \<lparr>sysRunner = created_runner, sysMain = AtTop, sysHandlers = [],
     sysReplies = [(0, Inr (Updated (Some live_spec)))], sysPanic = None, sysClosed = False\<rparr>"

definition creating_system :: system where
  "creating_system = updating (initial_system new_runner) 0
     (set_validation (NewValidationStatusSuccess 0) (new_runner\<lparr>lockHeld := True\<rparr>))
     (CallSignalVersion (NewValidationStatusSuccess 0))
     (\<lambda>_ d. let d' = set_token_and_spec create_request live_spec d
        in unlock_and_return (Inr (Updated (StateSpec (RunState d')))) d')"

lemma creating_reachable: "reachable sort creating_system"
proof -
  have "set_scaling_status None (new_runner\<lparr>lockHeld := True\<rparr>) = new_runner\<lparr>lockHeld := True\<rparr>"
    by (simp add: new_runner_eq state_simps)
  then show ?thesis
    using reach_resume [OF live_registering, of 0 True, OF _ _ live_registered]
    by (simp add: updating_def update_registered_def settle_handler_def initial_system_def
        signalVersionWorkflow_def hasMinVersion_def set_validation_def on_state_def creating_system_def)
qed

lemma creating_step: "sys_step sort creating_system created_system"
proof -
  have idle: "idle_main creating_system"
    by (simp add: creating_system_def updating_def initial_system_def)
  have "map_of (sysHandlers creating_system) 0 = Some \<lparr>InCritical = True, HandlerCo = Await
      (CallSignalVersion (NewValidationStatusSuccess 0))
      (\<lambda>_ d. let d' = set_token_and_spec create_request live_spec d
         in unlock_and_return (Inr (Updated (StateSpec (RunState d')))) d')\<rparr>"
    by (simp add: creating_system_def updating_def)
  from sys_step.resume [OF idle this answers.signalled, of sort] show ?thesis
    by (simp add: creating_system_def created_system_def updating_def settle_handler_def
        initial_system_def created_runner_def unlock_and_return_released Let_def)
      (simp add: set_token_and_spec_def on_state_def)
qed

lemmas created_reachable = reachable.step [OF creating_reachable creating_step]

text \<open>The version workflow was signalled; the run continues as new.\<close>

lemma live_reachable: "reachable sort live_system"
proof -
  have d: "\<not> deleteInstance created_runner" "shouldContinueAsNew created_runner"
    by (simp_all add: created_runner_def released_def set_token_and_spec_def set_validation_def
        on_state_def new_runner_eq shouldContinueAsNew_def)
  have "reachable sort (created_system\<lparr>sysMain := Finishing\<rparr>)"
    using d by (intro reachable.step [OF created_reachable sys_step.exit])
      (simp_all add: created_system_def)
  from reachable.step [OF this sys_step.continue_as_new [where timestamp = "''t1''"
      and interval = minute and version = CheckWorkerControllerEnabledVersion]]
  show ?thesis
    by (simp add: live_system_def created_system_def next_run_def created_runner_def released_def set_token_and_spec_def
        set_validation_def on_state_def new_runner_eq live_runner_def carried_state_def
        drainTaskAddSignalChannelToQueue_def start_run_def Let_def init_state_def arm_poll_timer_def
        addStatsPullTimer_def hasMinVersion_def addPeriodicValidationTimer_def maxPollInterval_def)
qed

section \<open>A deletion that is lost\<close>

definition rejected_request :: UpdateWorkerControllerInstanceRequest where
  "rejected_request = \<lparr>Identity = '''', RequestConflictToken = None,
     UpsertScalingGroups =
       [(''rest'', \<lparr>UpdateSpec = scaled_group [] ''k8s'' ''rate-based'', UpdateMask = [''size'']\<rparr>)],
     RemoveScalingGroups = []\<rparr>"

lemma rejected_facts:
  "distinct (keys (UpsertScalingGroups rejected_request))"
  "validateUpdateInstance rejected_request live_runner = None"
  "\<exists>e. BuildUpdatedSpec sort (Some live_spec) rejected_request = Inl e"
proof -
  show "distinct (keys (UpsertScalingGroups rejected_request))"
    "validateUpdateInstance rejected_request live_runner = None"
    by (simp_all add: rejected_request_def validateUpdateInstance_def ensureNotDeleted_def
        live_runner_def)
  have "\<not> (case BuildUpdatedSpec sort (Some live_spec) rejected_request of
      Inl e \<Rightarrow> False | Inr u \<Rightarrow> True)" by code_simp
  then show "\<exists>e. BuildUpdatedSpec sort (Some live_spec) rejected_request = Inl e"
    by (auto split: sum.splits)
qed

lemma live_runner_simps [simp]:
  "RunContext live_runner = sample_context" "StateSpec (RunState live_runner) = Some live_spec"
  "ScalingStatus (RunState live_runner) = None" "\<not> lockHeld live_runner"
  "currentTime live_runner = 0" "accepts live_runner" "\<not> deleteInstance live_runner"
  "\<not> stateChanged live_runner" "\<not> forceCAN live_runner"
  "\<not> continueAsNewSuggested live_runner"
  "workflowVersion live_runner = CheckWorkerControllerEnabledVersion"
  by (simp_all add: live_runner_def accepts_def ensureEnabled_def preUpdateChecks_def
      ensureNotDeleted_def workerControllerEnabled_def hasMinVersion_def)

text \<open>A dry run awaits its activity, a rejected update has ended, and the loop has ended with it.\<close>

definition waiting_run :: "runner \<Rightarrow> main_state \<Rightarrow> (nat \<times> handler_result) list \<Rightarrow> system" where
  "waiting_run d main replies = \<lparr>sysRunner = d, sysMain = main,
     sysHandlers = [(1, \<lparr>InCritical = False, HandlerCo = Await (CallValidateSpec
       \<lparr>ValidateContext = sample_context, ValidateSpecOf = Some live_spec,
        ScalingGroupsToSkipProviderValidation = [''rest'']\<rparr>) (validate_done False)\<rparr>)],
     sysReplies = replies, sysPanic = None, sysClosed = False\<rparr>"

lemma idle_waiting [simp]: "idle_main (waiting_run d main replies)"
  by (simp add: waiting_run_def)

lemma live_dry_run: "reachable sort (waiting_run live_runner AtTop (sysReplies live_system))"
proof -
  have "handleValidateSpec sort create_request live_runner = (live_runner, Await (CallValidateSpec
       \<lparr>ValidateContext = sample_context, ValidateSpecOf = Some live_spec,
        ScalingGroupsToSkipProviderValidation = [''rest'']\<rparr>) (validate_done False))"
    using live_runner_simps(6)
    by (simp add: handleValidateSpec_def accepts_def live_facts del: live_runner_simps(6))
      (simp add: create_request_def)
  with reachable.step [OF live_reachable sys_step.dry_run [where i = 1 and args = create_request]]
  show ?thesis
    by (simp add: live_system_def settle_handler_def waiting_run_def validateValidateSpec_def
        ensureNotDeleted_def)
qed

lemma live_finishing:
  "\<exists>replies. reachable sort (waiting_run (released live_runner) Finishing replies)"
proof -
  let ?s = "waiting_run live_runner AtTop (sysReplies live_system)"
  obtain e where e: "BuildUpdatedSpec sort (Some live_spec) rejected_request = Inl e"
    using rejected_facts(3) by blast
  let ?w = "settle_handler 2 False (with_lock (update_locked sort rejected_request) live_runner) ?s"
  have "reachable sort ?w"
    using reach_update [OF live_dry_run, of 2 rejected_request] rejected_facts
    by (simp add: waiting_run_def)
  from reach_grant [OF this, of 2 False]
  have "reachable sort (waiting_run (released live_runner) AtTop
      (sysReplies live_system @ [(2, Inl (InvalidUpdate e))]))"
    by (simp add: waiting_run_def with_lock_def settle_handler_def update_locked_def e
        unlock_and_return_released released_def)
  from reachable.step [OF this sys_step.exit] show ?thesis
    by (auto simp: waiting_run_def shouldContinueAsNew_def released_def)
qed

lemma live_deleted:
  "\<exists>replies. (3, Inr Deleted) \<in> set replies
    \<and> reachable sort (waiting_run (released (markDeleted (released live_runner))) Finishing replies)"
proof -
  obtain replies where s: "reachable sort (waiting_run (released live_runner) Finishing replies)"
    using live_finishing by blast
  let ?d = "released live_runner"
  let ?crit = "\<lambda>d. unlock_and_return (Inr Deleted :: handler_result) (markDeleted d)"
  have accepts: "accepts ?d"
    by (simp add: accepts_def released_def ensureEnabled_def preUpdateChecks_def
        ensureNotDeleted_def workerControllerEnabled_def hasMinVersion_def live_runner_def)
  from reach_delete [OF s, of 3]
  have "reachable sort (settle_handler 3 False (with_lock ?crit ?d) (waiting_run ?d Finishing replies))"
    by (simp add: waiting_run_def accepts)
  from reach_grant [OF this, of 3 False]
  have "reachable sort (waiting_run (released (markDeleted ?d)) Finishing (replies @ [(3, Inr Deleted)]))"
    by (simp add: waiting_run_def with_lock_def settle_handler_def unlock_and_return_released)
      (simp add: released_def markDeleted_def hasMinVersion_def)
  then show ?thesis by (intro exI [of _ "replies @ [(3, Inr Deleted)]"]) simp
qed

text \<open>C15: A deletion can be acknowledged and lost.  The run loop looks at the mark of deletion once,
  before it waits for the handlers that are still running; a deletion that is handled in that
  time is answered with success, and the next run starts without it: there is a reachable system
  in which a deletion was acknowledged and the instance runs, with its specification and without
  the mark.\<close>

theorem deletion_lost:
  "\<exists>s i. reachable sort s \<and> (i, Inr Deleted) \<in> set (sysReplies s) \<and> sysMain s = AtTop
    \<and> sysPanic s = None \<and> \<not> sysClosed s \<and> sysHandlers s = [] \<and> \<not> deleteInstance (sysRunner s)
    \<and> StateSpec (RunState (sysRunner s)) = Some live_spec"
proof -
  obtain replies where replies: "(3, Inr Deleted) \<in> set replies"
    and s: "reachable sort (waiting_run (released (markDeleted (released live_runner))) Finishing replies)"
      (is "reachable sort (waiting_run ?d Finishing replies)")
    using live_deleted by blast
  let ?r = "replies @ [(1, Inl (CallFailed (OtherError ''timeout'')))]"
  have "reachable sort \<lparr>sysRunner = ?d, sysMain = Finishing, sysHandlers = [], sysReplies = ?r,
      sysPanic = None, sysClosed = False\<rparr>"
    using reach_resume [OF s, of 1 False, OF _ _ answers.any_error [where e = "OtherError ''timeout''"]]
    by (simp add: waiting_run_def settle_handler_def validate_done_def)
  from reachable.step [OF this sys_step.continue_as_new [where timestamp = "''t2''"
      and interval = minute and version = CheckWorkerControllerEnabledVersion]]
  have "reachable sort \<lparr>sysRunner = next_run ''t2'' minute CheckWorkerControllerEnabledVersion ?d,
      sysMain = AtTop, sysHandlers = [], sysReplies = ?r, sysPanic = None, sysClosed = False\<rparr>"
      (is "reachable sort ?s")
    by simp
  moreover have "core_of (sysRunner ?s) = continued ''t2'' (core_of ?d)" by simp
  then have "\<not> deleteInstance (sysRunner ?s)"
    "StateSpec (RunState (sysRunner ?s)) = Some live_spec"
    by (auto simp: continued_def core_of_def released_def markDeleted_def)
  ultimately show ?thesis using replies by (intro exI [of _ ?s] exI [of _ 3]) simp
qed

section \<open>A write to a nil map\<close>

definition live_task_add :: HandleTaskAddSignalActivityRequest where
  "live_task_add = \<lparr>TaskAddContext = sample_context, TaskAddRequestOf = sample_signal,
     TaskAddSpec = Some live_spec, TaskAddScalingStatus = None\<rparr>"

definition live_resize :: ScalingAction where
  "live_resize = \<lparr>ScalingGroupKey = ''rest'', Action = ActionTypeUpdateWorkerSetSize, Count = Some 1,
     EffectiveTaskTypes = []\<rparr>"

definition live_deferral :: ScalingAction where
  "live_deferral = \<lparr>ScalingGroupKey = ''rest'', Action = ActionTypeDeferredScalingDecision,
     Count = None, EffectiveTaskTypes =
       [TASK_QUEUE_TYPE_ACTIVITY, TASK_QUEUE_TYPE_NEXUS, TASK_QUEUE_TYPE_WORKFLOW]\<rparr>"

lemma live_task_add_response:
  "SignalActions (HandleTaskAddSignal live_env live_task_add) = [live_resize, live_deferral]"
  "SignalUpdatedStatus (HandleTaskAddSignal live_env live_task_add) \<noteq> None"
  by code_simp+

definition live_decision :: HandleDeferredScalingDecisionActivityRequest where
  "live_decision = \<lparr>DeferredContext = sample_context, DeferredRequest = sample_signal,
     DeferredGroupKey = ''rest'', DeferredGroupSpec = scaled_group [] ''k8s'' ''rate-based'',
     DeferredTaskTypes = EffectiveTaskTypes live_deferral, DeferredStatus = None\<rparr>"

lemma live_decision_response:
  "\<exists>resp. answers (CallDeferred live_decision) (DeferredResponse resp)
    \<and> DeferredUpdatedStatus resp \<noteq> None"
proof -
  have "case HandleDeferredScalingDecision live_env live_decision of
      Inl e \<Rightarrow> False | Inr resp \<Rightarrow> DeferredUpdatedStatus resp \<noteq> None"
    by code_simp
  then show ?thesis
    by (auto split: sum.splits simp: live_env_def sample_env_def intro!: answers.decided)
qed

text \<open>The loop takes a signal from the channel and awaits the activity that handles it.\<close>

lemma batch_handles_signal:
  assumes "taskAddSignalChannel d = [Some req]" and "PendingTaskAddSignals (RunState d) = []"
    and "limitPendingTaskAddSignals d" and "ensureEnabled d = None" and "\<not> shouldContinueAsNew d"
  shows "\<exists>k. processTaskAddBatch (Suc (Suc n)) k0 d = (d\<lparr>taskAddSignalChannel := []\<rparr>, Await (CallTaskAdd
    \<lparr>TaskAddContext = RunContext d, TaskAddRequestOf = req, TaskAddSpec = StateSpec (RunState d),
     TaskAddScalingStatus = ScalingStatus (RunState d)\<rparr>) (task_add_done req k))"
proof -
  let ?d = "d\<lparr>taskAddSignalChannel := [],
    RunState := RunState d\<lparr>PendingTaskAddSignals := [req]\<rparr>\<rparr>"
  have sel: "select_signal d = ?d"
    using assms by (simp add: select_signal_def queueTaskAddSignal_def on_state_def)
  have pop: "pop_signal [] ?d = d\<lparr>taskAddSignalChannel := []\<rparr>"
    using assms by (simp add: pop_signal_def on_state_def)
  have "ensureEnabled (d\<lparr>taskAddSignalChannel := []\<rparr>) = None" "\<not> shouldContinueAsNew ?d"
    using assms by (simp_all add: ensureEnabled_def workerControllerEnabled_def hasMinVersion_def
        shouldContinueAsNew_def split: if_splits)
  with assms sel pop show ?thesis
    by (simp add: processNextQueuedTaskAddSignal_def handleNoSyncMatchSignal_def) blast
qed

lemma task_add_batch_signal:
  assumes "taskAddSignalChannel d = [Some req]" and "PendingTaskAddSignals (RunState d) = []"
    and "limitPendingTaskAddSignals d" and "ensureEnabled d = None" and "\<not> shouldContinueAsNew d"
  obtains k where "task_add_batch d = (d\<lparr>taskAddSignalChannel := []\<rparr>, Await (CallTaskAdd
    \<lparr>TaskAddContext = RunContext d, TaskAddRequestOf = req, TaskAddSpec = StateSpec (RunState d),
     TaskAddScalingStatus = ScalingStatus (RunState d)\<rparr>) (task_add_done req k))"
proof -
  have "(100 :: nat) = Suc (Suc 98)" by simp
  with batch_handles_signal [OF assms, of 98] that show ?thesis
    unfolding task_add_batch_def by metis
qed

text \<open>The response asks for a resize and a deferred decision; the resize comes first.\<close>

lemma group_of_live:
  "StateSpec (RunState d) = Some live_spec \<Longrightarrow>
    group_spec d ''rest'' = Some (scaled_group [] ''k8s'' ''rate-based'')"
  by (simp add: group_spec_def live_spec_def)

lemma live_actions:
  assumes "StateSpec (RunState d) = Some live_spec"
  shows "\<exists>req. handleActions [live_resize, live_deferral] (Some sample_signal) k0 d =
      (d, Await (CallResize req) (action_done (currentTime d)
        (handle_actions_loop (dispatch_deferred sample_signal) [live_deferral] k0)))"
  using group_of_live [OF assms] assms
  by (simp add: handleActions_def live_resize_def dispatch_resize_def Let_def)

lemma live_deferred:
  assumes "StateSpec (RunState d) = Some live_spec" and "ScalingStatus (RunState d) = None"
    and "RunContext d = sample_context"
  shows "handle_actions_loop (dispatch_deferred sample_signal) [live_deferral] k0 d =
    (d, Await (CallDeferred live_decision) (deferred_done ''rest'' k0))"
  using group_of_live [OF assms(1)] assms
  by (simp add: live_deferral_def dispatch_deferred_def Let_def live_decision_def status_at_def)

text \<open>While a second update of the instance awaits the registration, the loop awaits the resize.\<close>

definition updating_run :: "runner \<Rightarrow> main_state \<Rightarrow> system" where
  "updating_run d main = updating (live_system\<lparr>sysMain := main\<rparr>) 1 d
    (CallRegister \<lparr>RegisterContext = sample_context, RegisterSpec = live_spec,
       RegisterScalingStatus = None\<rparr>) (update_registered create_request live_spec 0)"

lemma updating_run_simps [simp]:
  "idle_main (updating_run d main)" "sysRunner (updating_run d main) = d"
  "sysMain (updating_run d main) = main"
  "(updating_run d main)\<lparr>sysRunner := d'\<rparr> = updating_run d' main"
  "(updating_run d main)\<lparr>sysMain := main'\<rparr> = updating_run d main'"
  "map_of (sysHandlers (updating_run d main)) 1 = Some \<lparr>InCritical = True, HandlerCo = Await
    (CallRegister \<lparr>RegisterContext = sample_context, RegisterSpec = live_spec,
       RegisterScalingStatus = None\<rparr>) (update_registered create_request live_spec 0)\<rparr>"
  by (simp_all add: updating_run_def updating_def live_system_def)

lemma live_updating: "reachable sort (updating_run (live_runner\<lparr>lockHeld := True\<rparr>) AtTop)"
proof -
  have idle: "idle_main live_system" by (simp add: live_system_def)
  have "validateUpdateInstance create_request live_runner = None"
    by (simp add: validateUpdateInstance_def ensureNotDeleted_def create_request_def)
  with reach_validating [OF live_reachable idle, where args = create_request and i = 1] live_facts
  have "reachable sort (updating live_system 1 (live_runner\<lparr>lockHeld := True\<rparr>)
      (CallValidateSpec \<lparr>ValidateContext = sample_context, ValidateSpecOf = Some live_spec,
        ScalingGroupsToSkipProviderValidation = [''rest'']\<rparr>)
      (update_validated create_request live_spec 0))"
    by (simp add: live_system_def)
  from reach_registering [OF this idle live_validated(2)] show ?thesis
    by (simp add: updating_run_def live_system_def)
qed

text \<open>A signal arrives and is handed over, while another update of the instance is in progress.\<close>

lemma live_signal_steps:
  "\<exists>k. sys_step sort (updating_run (live_runner\<lparr>lockHeld := True\<rparr>) AtTop)
      (updating_run (live_runner\<lparr>lockHeld := True, taskAddSignalChannel := [Some sample_signal]\<rparr>) AtTop)
    \<and> sys_step sort
      (updating_run (live_runner\<lparr>lockHeld := True, taskAddSignalChannel := [Some sample_signal]\<rparr>) AtTop)
      (updating_run (live_runner\<lparr>lockHeld := True\<rparr>)
        (Batch (Await (CallTaskAdd live_task_add) (task_add_done sample_signal k))))"
proof -
  let ?d = "live_runner\<lparr>lockHeld := True\<rparr>"
  let ?e = "?d\<lparr>taskAddSignalChannel := [Some sample_signal]\<rparr>"
  have signal: "sys_step sort (updating_run ?d AtTop) (updating_run ?e AtTop)"
    using sys_step.signal [of "updating_run ?d AtTop" sort "Some sample_signal"]
    by (simp add: live_runner_def)
  have e: "taskAddSignalChannel ?e = [Some sample_signal]" "PendingTaskAddSignals (RunState ?e) = []"
    "limitPendingTaskAddSignals ?e" "ensureEnabled ?e = None" "\<not> shouldContinueAsNew ?e"
    by (simp_all add: live_runner_def ensureEnabled_def workerControllerEnabled_def hasMinVersion_def
        shouldContinueAsNew_def)
  obtain k where "task_add_batch ?e = (?e\<lparr>taskAddSignalChannel := []\<rparr>, Await (CallTaskAdd
      \<lparr>TaskAddContext = RunContext ?e, TaskAddRequestOf = sample_signal,
       TaskAddSpec = StateSpec (RunState ?e), TaskAddScalingStatus = ScalingStatus (RunState ?e)\<rparr>)
      (task_add_done sample_signal k))"
    using task_add_batch_signal [OF e] by blast
  moreover have "?e\<lparr>taskAddSignalChannel := []\<rparr> = ?d" by (simp add: live_runner_def)
  ultimately have "sys_step sort (updating_run ?e AtTop) (updating_run ?d
      (Batch (Await (CallTaskAdd live_task_add) (task_add_done sample_signal k))))"
    using sys_step.batch [of "updating_run ?e AtTop" sort] e(5)
    by (simp add: settle_main_def live_task_add_def)
  with signal show ?thesis by auto
qed

lemma live_handling:
  "\<exists>k. reachable sort (updating_run (live_runner\<lparr>lockHeld := True\<rparr>)
    (Batch (Await (CallTaskAdd live_task_add) (task_add_done sample_signal k))))"
  using live_signal_steps reachable.step live_updating by blast

lemma live_resizing:
  "\<exists>d m req k. reachable sort (updating_run d (Batch (Await (CallResize req)
      (action_done 0 (handle_actions_loop (dispatch_deferred sample_signal) [live_deferral] k)))))
    \<and> d = set_scaling_status (Some m) (live_runner\<lparr>lockHeld := True\<rparr>)"
proof -
  obtain k where "reachable sort (updating_run (live_runner\<lparr>lockHeld := True\<rparr>)
      (Batch (Await (CallTaskAdd live_task_add) (task_add_done sample_signal k))))"
    (is "reachable sort ?s") using live_handling by blast
  note step = reachable.step [OF this sys_step.resume_batch [OF updating_run_simps(1,3)]]
  have answer: "answers (CallTaskAdd live_task_add)
      (TaskAddedResponse (HandleTaskAddSignal live_env live_task_add))"
    by (rule answers.task_added) (simp add: live_env_def sample_env_def)
  obtain m where m: "SignalUpdatedStatus (HandleTaskAddSignal live_env live_task_add) = Some m"
    using live_task_add_response(2) by blast
  let ?d = "set_scaling_status (Some m) (live_runner\<lparr>lockHeld := True\<rparr>)"
  have "StateSpec (RunState ?d) = Some live_spec" "currentTime ?d = 0"
    by (simp_all add: set_scaling_status_def on_state_def)
  with live_actions [OF this(1), of k] obtain req where
    "handleActions [live_resize, live_deferral] (Some sample_signal) k ?d = (?d, Await (CallResize req)
      (action_done 0 (handle_actions_loop (dispatch_deferred sample_signal) [live_deferral] k)))"
    by auto
  with step [OF answer] have "reachable sort (updating_run ?d (Batch (Await (CallResize req)
      (action_done 0 (handle_actions_loop (dispatch_deferred sample_signal) [live_deferral] k)))))"
    by (simp add: task_add_done_def live_task_add_response(1) m apply_status_def settle_main_def)
  then show ?thesis by blast
qed

text \<open>The registration left no status, so its response arrives as a nil map, and is assigned.\<close>

definition signalling_run :: "runner \<Rightarrow> main_state \<Rightarrow> system" where
  "signalling_run d main = updating (live_system\<lparr>sysMain := main\<rparr>) 1 d
    (CallSignalVersion (NewValidationStatusSuccess 0))
    (\<lambda>_ d. let d' = set_token_and_spec create_request live_spec d
      in unlock_and_return (Inr (Updated (StateSpec (RunState d')))) d')"

lemma live_unset:
  "\<exists>d req k. reachable sort (signalling_run d (Batch (Await (CallResize req)
      (action_done 0 (handle_actions_loop (dispatch_deferred sample_signal) [live_deferral] k)))))
    \<and> StateSpec (RunState d) = Some live_spec \<and> ScalingStatus (RunState d) = None
    \<and> RunContext d = sample_context \<and> deleteInstance d = False"
proof -
  obtain m req k where "reachable sort (updating_run
      (set_scaling_status (Some m) (live_runner\<lparr>lockHeld := True\<rparr>)) (Batch (Await (CallResize req)
        (action_done 0 (handle_actions_loop (dispatch_deferred sample_signal) [live_deferral] k)))))"
    (is "reachable sort (updating_run ?d ?main)") using live_resizing by blast
  from reach_resume [OF this updating_run_simps(1,6) live_registered]
  have "reachable sort (signalling_run
      (set_validation (NewValidationStatusSuccess 0) (set_scaling_status None ?d)) ?main)"
    by (simp add: signalling_run_def updating_run_def updating_def update_registered_def
        settle_handler_def signalVersionWorkflow_def hasMinVersion_def set_validation_def
        set_scaling_status_def on_state_def)
  then show ?thesis
    by (intro exI conjI, assumption) (simp_all add: set_validation_def set_scaling_status_def on_state_def)
qed

lemma signalling_run_simps [simp]:
  "idle_main (signalling_run d main)" "sysRunner (signalling_run d main) = d"
  "sysMain (signalling_run d main) = main"
  "(signalling_run d main)\<lparr>sysRunner := d'\<rparr> = signalling_run d' main"
  "(signalling_run d main)\<lparr>sysMain := main'\<rparr> = signalling_run d main'"
  "\<not> sysClosed (signalling_run d main)"
  by (simp_all add: signalling_run_def updating_def live_system_def)

text \<open>C16: The workflow can write to a nil map, which blocks it: there is a reachable system that has
  panicked with this message.  The response of the registration is encoded with \<open>omitempty\<close>, so an
  empty map arrives as nil and is assigned to the scaling status, and when a deferred scaling
  decision of the run loop comes back after that, its status is written into the nil map.\<close>

theorem nil_status_panics:
  "\<exists>s. reachable sort s \<and> sysPanic s = Some ''assignment to entry in nil map''
    \<and> \<not> deleteInstance (sysRunner s) \<and> StateSpec (RunState (sysRunner s)) = Some live_spec"
proof -
  obtain d req k where s: "reachable sort (signalling_run d (Batch (Await (CallResize req)
      (action_done 0 (handle_actions_loop (dispatch_deferred sample_signal) [live_deferral] k)))))"
    and d: "StateSpec (RunState d) = Some live_spec" "ScalingStatus (RunState d) = None"
      "RunContext d = sample_context" "deleteInstance d = False"
    using live_unset by blast
  from reachable.step [OF s sys_step.resume_batch [OF signalling_run_simps(1,3)
      answers.any_error [where e = "OtherError ''timeout''"]]]
  have "reachable sort (signalling_run d (Batch (Await (CallDeferred live_decision)
      (deferred_done ''rest'' k))))"
    by (simp add: action_done_def live_deferred [OF d(1-3)] settle_main_def
        del: handle_actions_loop.simps)
  note step = reachable.step [OF this sys_step.resume_batch [OF signalling_run_simps(1,3)]]
  obtain resp where "answers (CallDeferred live_decision) (DeferredResponse resp)"
    and "DeferredUpdatedStatus resp \<noteq> None"
    using live_decision_response by blast
  with step [of "DeferredResponse resp"] d have "reachable sort
      ((signalling_run d (Batch (Await (CallDeferred live_decision) (deferred_done ''rest'' k))))
        \<lparr>sysPanic := Some ''assignment to entry in nil map''\<rparr>)" (is "reachable sort ?s")
    by (simp add: deferred_done_def set_group_status_def settle_main_def)
  moreover have "sysPanic ?s = Some ''assignment to entry in nil map''" "sysRunner ?s = d" by simp_all
  ultimately show ?thesis using d(1,4) by (intro exI [of _ ?s]) simp
qed

section \<open>Properties\<close>

text \<open>C1: The interleaved workflow refines an object whose core changes atomically.  Whatever handlers
  run and however the runtime interleaves them, a step leaves the specification, the token and the
  mark of deletion alone, or does what one update (applied to the specification of that moment,
  and valid) or one deletion does; and a new run keeps the specification and a token that is not
  empty.\<close>

theorem mutations_atomic:
  assumes "reachable dk s" and "sys_step dk s s'"
  shows "core_of (sysRunner s') = core_of (sysRunner s)
    \<or> core_step dk (core_of (sysRunner s)) (core_of (sysRunner s'))
    \<or> sysMain s = Finishing \<and> sysMain s' = AtTop
        \<and> (\<exists>timestamp. core_of (sysRunner s') = continued timestamp (core_of (sysRunner s)))"
  using step_locked [OF reachable_locked [OF assms(1)] assms(2)] by (simp add: core_moves_def)

theorem mutations_atomic_witness:
  "core_step sort (core_of (sysRunner creating_system)) (core_of (sysRunner created_system))
    \<and> coreSpec (core_of (sysRunner created_system)) = Some live_spec"
proof -
  have "sysMain creating_system \<noteq> Finishing"
    by (simp add: creating_system_def updating_def initial_system_def)
  moreover have "coreSpec (core_of (sysRunner created_system)) = Some live_spec"
    by (simp add: created_system_def created_runner_def core_of_commit)
  moreover have "coreSpec (core_of (sysRunner creating_system)) = None"
    by (simp add: creating_system_def updating_def core_of_def set_validation_def on_state_def)
  ultimately show ?thesis
    using mutations_atomic [OF creating_reachable creating_step] by auto
qed

text \<open>At most one handler is in its critical section, and it is exactly when the mutex is held;
  so a mutex is never lost, and every error path releases it.\<close>

theorem mutex_excludes:
  assumes "reachable dk s" and "sysPanic s = None"
  shows "critical_count (sysHandlers s) = (if lockHeld (sysRunner s) then 1 else 0)"
  using locked_okD(4) [OF reachable_locked [OF assms(1)] assms(2)] .

theorem mutex_excludes_witness:
  "critical_count (sysHandlers creating_system) = 1 \<and> critical_count (sysHandlers created_system) = 0"
proof -
  have "sysPanic creating_system = None" "lockHeld (sysRunner creating_system)"
    "sysPanic created_system = None" "\<not> lockHeld (sysRunner created_system)"
    by (simp_all add: creating_system_def created_system_def updating_def initial_system_def
        set_validation_def created_runner_def)
  with mutex_excludes [OF creating_reachable] mutex_excludes [OF created_reachable]
  show ?thesis by simp
qed

text \<open>In every reachable state the queue of signals holds at most 4,000, also after the signals
  that the channel held when a run started or ended were added.\<close>

theorem pending_signals_bounded:
  assumes "reachable dk s"
  shows "length (PendingTaskAddSignals (RunState (sysRunner s))) \<le> maxPendingTaskAddSignals"
  using queue.reachable_invariant [OF assms] by (simp add: queue_bounded_def)

theorem pending_signals_bounded_witness:
  "length (PendingTaskAddSignals (RunState live_runner)) \<le> maxPendingTaskAddSignals"
  using pending_signals_bounded [OF live_reachable] by (simp add: live_system_def)

text \<open>C13: Whatever updates are applied in whatever order, the specification that an instance stores
  has distinct keys and is either empty, after the removal of the last group, or meets the
  contract \<open>wf_spec\<close>; so are the specifications of all later runs.  The same holds for an instance
  whose first run began before the timer selector or before the queue limit, with a valid
  specification, in that run and in the ones of the current version that follow it.\<close>

theorem stored_spec_wellformed:
  assumes "reachable dk s \<or> legacy_reachable dk d s \<and> state_valid d" and "deterministic_keys dk"
    and "StateSpec (RunState (sysRunner s)) = Some c"
  shows "distinct (keys (ScalingGroupSpecs c)) \<and> (ScalingGroupSpecs c \<noteq> [] \<longrightarrow> wf_spec c)"
proof -
  have "state_valid (sysRunner s)"
    using deterministic_keys.stored_spec_valid [OF assms(2), of s] legacy_spec_valid [OF _ assms(2), of d s]
      assms(1) by blast
  with assms(3) have "spec_valid (Some c)" by (simp add: state_valid_def)
  then show ?thesis using Validate_decides [of c] by (auto simp: spec_valid_def)
qed

theorem stored_spec_wellformed_witness: "wf_spec live_spec"
proof -
  have "StateSpec (RunState (sysRunner live_system)) = Some live_spec" by (simp add: live_system_def)
  from stored_spec_wellformed [OF disjI1 [OF live_reachable] sorted_keys.deterministic_keys_axioms this]
  show ?thesis by simp
qed

text \<open>An instance that is deleted while its loop runs.\<close>

definition deleted_system :: system where
  "deleted_system = live_system\<lparr>sysRunner := released (markDeleted live_runner),
     sysReplies := sysReplies live_system @ [(1, Inr Deleted)]\<rparr>"

lemma deleted_reachable: "reachable sort deleted_system"
proof -
  let ?crit = "\<lambda>d. unlock_and_return (Inr Deleted :: handler_result) (markDeleted d)"
  have "reachable sort (settle_handler 1 False (with_lock ?crit live_runner) live_system)"
    using reach_delete [OF live_reachable, of 1] by (simp add: live_system_def)
  from reach_grant [OF this, of 1 False]
  have "reachable sort (live_system\<lparr>sysRunner := released (markDeleted (live_runner\<lparr>lockHeld := True\<rparr>)),
      sysReplies := sysReplies live_system @ [(1, Inr Deleted)]\<rparr>)"
    by (simp add: live_system_def with_lock_def settle_handler_def unlock_and_return_released)
  then show ?thesis
    by (simp add: deleted_system_def released_def markDeleted_def hasMinVersion_def)
qed

lemma loop_end_undeleted:
  assumes "sys_step dk s s'" and "sysMain s' = Finishing" and "sysMain s \<noteq> Finishing"
  shows "\<not> deleteInstance (sysRunner s)"
  using assms
  by (cases rule: sys_step.cases)
    (auto simp: settle_main_def settle_handler_def split: prod.splits co.splits)

text \<open>C14: A deletion that is handled while the loop runs is final: the mark stays and the loop never
  goes on to continue as new, whatever else happens, so the only end of the instance is that the
  run closes.\<close>

theorem deletion_is_final:
  assumes "reachable dk s" and "deleteInstance (sysRunner s)" and "sysMain s \<noteq> Finishing"
    and "rtranclp (sys_step dk) s s'"
  shows "deleteInstance (sysRunner s') \<and> sysMain s' \<noteq> Finishing"
proof -
  from assms(4) have "reachable dk s' \<and> deleteInstance (sysRunner s') \<and> sysMain s' \<noteq> Finishing"
  proof (induction rule: rtranclp_induct)
    case base
    then show ?case using assms(1-3) by simp
  next
    case (step t t')
    then have "keeps_deleted (sysRunner t) (sysRunner t')"
      using deletion.step_guarantee [OF step(2) deletion.reachable_ok] by auto
    with step loop_end_undeleted [OF step(2)] show ?case
      by (auto simp: keeps_deleted_def intro: reachable.step)
  qed
  then show ?thesis by simp
qed

theorem deletion_is_final_witness:
  "sys_step sort deleted_system (deleted_system\<lparr>sysClosed := True\<rparr>)
    \<and> deleteInstance (sysRunner (deleted_system\<lparr>sysClosed := True\<rparr>))"
proof -
  have d: "deleteInstance (sysRunner deleted_system)" "sysMain deleted_system \<noteq> Finishing"
    by (simp_all add: deleted_system_def live_system_def released_def markDeleted_def)
  have step: "sys_step sort deleted_system (deleted_system\<lparr>sysClosed := True\<rparr>)"
    using d(1) by (intro sys_step.close) (simp_all add: deleted_system_def live_system_def)
  with deletion_is_final [OF deleted_reachable d r_into_rtranclp [of "sys_step sort", OF step]]
  show ?thesis by simp
qed

text \<open>The conflict token is not renewed by an update: it becomes the token of the request, so that
  what the last update carried is accepted again, from any number of clients.\<close>

lemma token_not_renewed:
  assumes "deleteInstance d = False" and "RequestConflictToken args' = RequestConflictToken args"
    and "UpsertScalingGroups args' \<noteq> []"
  shows "validateUpdateInstance args' (released (set_token_and_spec args u d)) = None"
  using assms by (simp add: validateUpdateInstance_def ensureNotDeleted_def released_def
      set_token_and_spec_def on_state_def)

end
