(* ===== verification/Signals.thy ===== *)
theory Signals
  imports Scenarios "HOL-Library.Sublist"
begin

text \<open>
  What becomes of the task-add signals of an instance.  They arrive in the channel of the run, are
  received into a queue in its state, and are taken from there one by one; the end of a run moves
  what is left in the channel into the queue, which the next run inherits.  The theory shows that
  this is a queue: whatever else the workflow does, signals are taken in the order in which they
  arrived, none is taken twice or made up, and none is lost while at most 4,000 are waiting.  The same
  holds from a run of an earlier version on, whose signals the upgrade keeps all.
\<close>

section \<open>The waiting signals\<close>

definition waiting_signals :: "runner \<Rightarrow> SignalTaskAddRequest list" where
  "waiting_signals d =
     PendingTaskAddSignals (RunState d) @ List.map_filter id (taskAddSignalChannel d)"

text \<open>\<open>w'\<close> is \<open>w\<close> but for signals that the queue had no room for.\<close>

definition kept :: "SignalTaskAddRequest list \<Rightarrow> SignalTaskAddRequest list \<Rightarrow> bool" where
  "kept w w' \<longleftrightarrow> subseq w' w \<and> (length w \<le> maxPendingTaskAddSignals \<longrightarrow> w' = w)"

lemma kept_refl [simp]: "kept w w"
  by (simp add: kept_def)

lemma kept_trans: "kept w w' \<Longrightarrow> kept w' w'' \<Longrightarrow> kept w w''"
  unfolding kept_def using subseq_order.order_trans by blast

lemma kept_subseq: "kept w w' \<Longrightarrow> subseq w' w"
  by (simp add: kept_def)

text \<open>Without one of the signals of a list that is too long.\<close>

lemma kept_skip: "maxPendingTaskAddSignals \<le> length u \<Longrightarrow> kept (u @ x # w) (u @ w)"
  by (auto simp: kept_def subseq_append')

definition keeps_signals :: "runner \<Rightarrow> runner \<Rightarrow> bool" where
  "keeps_signals d d' \<longleftrightarrow> kept (waiting_signals d) (waiting_signals d')
     \<and> limitPendingTaskAddSignals d' = limitPendingTaskAddSignals d
     \<and> ensureEnabled d' = ensureEnabled d"

lemma keeps_refl [simp]: "keeps_signals d d"
  by (simp add: keeps_signals_def)

lemma keeps_trans: "keeps_signals d d' \<Longrightarrow> keeps_signals d' d'' \<Longrightarrow> keeps_signals d d''"
  unfolding keeps_signals_def by (metis kept_trans)

lemma waiting_frame [simp]:
  "waiting_signals (d\<lparr>pollTimer := t\<rparr>) = waiting_signals d"
  "waiting_signals (d\<lparr>validationTimer := t\<rparr>) = waiting_signals d"
  "waiting_signals (d\<lparr>lockHeld := b\<rparr>) = waiting_signals d"
  "waiting_signals (d\<lparr>stateChanged := b\<rparr>) = waiting_signals d"
  "waiting_signals (d\<lparr>forceCAN := b\<rparr>) = waiting_signals d"
  "waiting_signals (d\<lparr>deleteInstance := b\<rparr>) = waiting_signals d"
  "waiting_signals (d\<lparr>timersCancelled := b\<rparr>) = waiting_signals d"
  "waiting_signals (d\<lparr>currentTime := n\<rparr>) = waiting_signals d"
  "waiting_signals (d\<lparr>enabledFlag := b\<rparr>) = waiting_signals d"
  "waiting_signals (d\<lparr>continueAsNewSuggested := b\<rparr>) = waiting_signals d"
  "waiting_signals (d\<lparr>workflowVersion := n\<rparr>) = waiting_signals d"
  by (simp_all add: waiting_signals_def)

lemma waiting_on_state [simp]:
  "(\<And>s. PendingTaskAddSignals (f s) = PendingTaskAddSignals s) \<Longrightarrow>
    waiting_signals (on_state f d) = waiting_signals d"
  by (simp add: waiting_signals_def on_state_def)

lemma limit_on_state [simp]:
  "limitPendingTaskAddSignals (on_state f d) = limitPendingTaskAddSignals d"
  by (simp add: on_state_def)

lemma limit_queue [simp]:
  "limitPendingTaskAddSignals (queueTaskAddSignal req d) = limitPendingTaskAddSignals d"
  by (simp add: queueTaskAddSignal_def split: option.split)

lemma enabled_frame [simp]:
  "ensureEnabled (on_state f d) = ensureEnabled d"
  "ensureEnabled (d\<lparr>RunState := st\<rparr>) = ensureEnabled d"
  "ensureEnabled (d\<lparr>pollTimer := t\<rparr>) = ensureEnabled d"
  "ensureEnabled (d\<lparr>validationTimer := t\<rparr>) = ensureEnabled d"
  "ensureEnabled (d\<lparr>taskAddSignalChannel := c\<rparr>) = ensureEnabled d"
  "ensureEnabled (d\<lparr>lockHeld := b\<rparr>) = ensureEnabled d"
  "ensureEnabled (d\<lparr>stateChanged := b\<rparr>) = ensureEnabled d"
  "ensureEnabled (d\<lparr>deleteInstance := b\<rparr>) = ensureEnabled d"
  "ensureEnabled (d\<lparr>timersCancelled := b\<rparr>) = ensureEnabled d"
  by (simp_all add: ensureEnabled_def workerControllerEnabled_def hasMinVersion_def on_state_def)

lemma enabled_queue [simp]: "ensureEnabled (queueTaskAddSignal req d) = ensureEnabled d"
  by (simp add: queueTaskAddSignal_def split: option.split)

section \<open>Receiving and draining\<close>

text \<open>Receiving the first signal of the channel.\<close>

lemma queue_keeps:
  assumes "limitPendingTaskAddSignals d"
  shows "keeps_signals (d\<lparr>taskAddSignalChannel := req # rest\<rparr>)
    (queueTaskAddSignal req (d\<lparr>taskAddSignalChannel := rest\<rparr>))"
  using assms
  by (cases req) (auto simp: keeps_signals_def queueTaskAddSignal_def waiting_signals_def on_state_def
      kept_skip)

lemma select_keeps:
  assumes "limitPendingTaskAddSignals d"
  shows "keeps_signals d (select_signal d)"
proof (cases "taskAddSignalChannel d")
  case (Cons req rest)
  then have "d = d\<lparr>taskAddSignalChannel := req # rest\<rparr>" by (cases d) simp
  with queue_keeps [OF assms, of req rest] Cons show ?thesis by (simp add: select_signal_def)
qed (simp add: select_signal_def)

lemma channel_queue [simp]:
  "queueTaskAddSignal req (d\<lparr>taskAddSignalChannel := c\<rparr>)
    = (queueTaskAddSignal req d)\<lparr>taskAddSignalChannel := c\<rparr>"
  by (simp add: queueTaskAddSignal_def on_state_def split: option.split)

lemma fold_queue_keeps:
  "limitPendingTaskAddSignals d \<Longrightarrow> keeps_signals (d\<lparr>taskAddSignalChannel := reqs\<rparr>)
    (fold queueTaskAddSignal reqs (d\<lparr>taskAddSignalChannel := []\<rparr>))"
proof (induction reqs arbitrary: d)
  case (Cons req reqs)
  have "keeps_signals (d\<lparr>taskAddSignalChannel := req # reqs\<rparr>)
      ((queueTaskAddSignal req d)\<lparr>taskAddSignalChannel := reqs\<rparr>)"
    using queue_keeps [OF Cons.prems] by simp
  moreover have "keeps_signals ((queueTaskAddSignal req d)\<lparr>taskAddSignalChannel := reqs\<rparr>)
      (fold queueTaskAddSignal reqs ((queueTaskAddSignal req d)\<lparr>taskAddSignalChannel := []\<rparr>))"
    using Cons.IH [of "queueTaskAddSignal req d"] Cons.prems by simp
  ultimately show ?case by (auto intro: keeps_trans)
qed simp

lemma drain_keeps:
  assumes "limitPendingTaskAddSignals d"
  shows "keeps_signals d (drainTaskAddSignalChannelToQueue d)"
  using fold_queue_keeps [OF assms, of "taskAddSignalChannel d"]
  by (simp add: drainTaskAddSignalChannelToQueue_def)

section \<open>The runs of an instance\<close>

lemma keeps_frame [simp]:
  "keeps_signals d0 (set_scaling_status m d) = keeps_signals d0 d"
  "keeps_signals d0 (set_validation v d) = keeps_signals d0 d"
  "keeps_signals d0 (addStatsPullTimer n d) = keeps_signals d0 d"
  "keeps_signals d0 (addPeriodicValidationTimer n d) = keeps_signals d0 d"
  "keeps_signals d0 (d\<lparr>pollTimer := t\<rparr>) = keeps_signals d0 d"
  "keeps_signals d0 (d\<lparr>validationTimer := t\<rparr>) = keeps_signals d0 d"
  "keeps_signals d0 (markDeleted d) = keeps_signals d0 d"
  "keeps_signals d0 (released d) = keeps_signals d0 d"
  "keeps_signals d0 (set_token_and_spec args u d) = keeps_signals d0 d"
  "keeps_signals d0 (arm_poll_timer d) = keeps_signals d0 d"
  "keeps_signals d0 (on_state (init_state timestamp now) d) = keeps_signals d0 d"
  by (simp_all add: keeps_signals_def set_scaling_status_def set_validation_def addStatsPullTimer_def
      addPeriodicValidationTimer_def markDeleted_def released_def set_token_and_spec_def
      arm_poll_timer_def init_state_def split: option.split)

lemma limit_frame [simp]:
  "limitPendingTaskAddSignals (addStatsPullTimer n d) = limitPendingTaskAddSignals d"
  "limitPendingTaskAddSignals (arm_poll_timer d) = limitPendingTaskAddSignals d"
  "limitPendingTaskAddSignals (addPeriodicValidationTimer n d) = limitPendingTaskAddSignals d"
  by (simp_all add: addStatsPullTimer_def arm_poll_timer_def addPeriodicValidationTimer_def
      split: option.split)

lemma start_run_keeps:
  assumes "limitPendingTaskAddSignals d"
  shows "keeps_signals d (start_run timestamp interval d)"
proof -
  have "keeps_signals d (drainTaskAddSignalChannelToQueue d')"
    if "keeps_signals d d'" "limitPendingTaskAddSignals d'" for d'
    using keeps_trans [OF that(1) drain_keeps [OF that(2)]] .
  with assms show ?thesis by (simp add: start_run_def Let_def)
qed

lemma next_run_keeps:
  assumes "limitPendingTaskAddSignals d"
  shows "kept (waiting_signals d) (waiting_signals (next_run timestamp interval version d))"
    and "limitPendingTaskAddSignals (next_run timestamp interval version d)"
proof -
  note drained = drain_keeps [OF assms, unfolded keeps_signals_def]
  then have "limitPendingTaskAddSignals (drainTaskAddSignalChannelToQueue d)" using assms by simp
  then have "kept (waiting_signals (drainTaskAddSignalChannelToQueue d))
      (waiting_signals (next_run timestamp interval version d))
    \<and> limitPendingTaskAddSignals (next_run timestamp interval version d)"
    using start_run_keeps [of "(on_state carried_state (drainTaskAddSignalChannelToQueue d))
        \<lparr>deleteInstance := False, stateChanged := False, forceCAN := False, timersCancelled := False,
         pollTimer := None, validationTimer := None, lockHeld := False,
         continueAsNewSuggested := False, workflowVersion := version\<rparr>" timestamp interval]
    by (simp add: next_run_def keeps_signals_def carried_state_def)
  with drained show "kept (waiting_signals d) (waiting_signals (next_run timestamp interval version d))"
    and "limitPendingTaskAddSignals (next_run timestamp interval version d)"
    by (auto intro: kept_trans)
qed

text \<open>What the code guarantees: while the controller is enabled it only takes the oldest signal, and
  hands it to the activity at once.\<close>

definition signals_guarantee :: "runner \<Rightarrow> runner \<Rightarrow> bool" where
  "signals_guarantee d d' \<longleftrightarrow> limitPendingTaskAddSignals d' = limitPendingTaskAddSignals d
     \<and> ensureEnabled d' = ensureEnabled d
     \<and> subseq (waiting_signals d') (waiting_signals d)
     \<and> (ensureEnabled d = None \<longrightarrow> kept (waiting_signals d) (waiting_signals d'))"

fun signals_request :: "runner \<Rightarrow> runner \<Rightarrow> wf_request \<Rightarrow> bool" where
  "signals_request d d' (CallTaskAdd r) \<longleftrightarrow>
     limitPendingTaskAddSignals d' = limitPendingTaskAddSignals d \<and> ensureEnabled d = None
     \<and> kept (waiting_signals d) (TaskAddRequestOf r # waiting_signals d')"
| "signals_request d d' _ \<longleftrightarrow> signals_guarantee d d'"

lemma guarantee_keeps: "keeps_signals d d' \<Longrightarrow> signals_guarantee d d'"
  by (simp add: keeps_signals_def signals_guarantee_def kept_subseq)

lemma guarantee_trans:
  "signals_guarantee d d' \<Longrightarrow> signals_guarantee d' d'' \<Longrightarrow> signals_guarantee d d''"
  unfolding signals_guarantee_def using kept_trans subseq_order.order_trans by metis

lemma guarantee_frame [simp]:
  "signals_guarantee d0 (released d) = signals_guarantee d0 d"
  "signals_guarantee d0 (set_token_and_spec args u d) = signals_guarantee d0 d"
  "signals_guarantee d0 (markDeleted d) = signals_guarantee d0 d"
  by (simp_all add: signals_guarantee_def released_def set_token_and_spec_def markDeleted_def)

lemma guarantee_refl [simp]: "signals_guarantee d d"
  by (simp add: guarantee_keeps)

lemma request_after:
  "signals_guarantee d0 d \<Longrightarrow> signals_request d d' rq \<Longrightarrow> signals_request d0 d' rq"
  by (cases rq) (auto simp: signals_guarantee_def intro: kept_trans subseq_order.order_trans)

lemma pop_waiting:
  "PendingTaskAddSignals (RunState d) = req # rest \<Longrightarrow>
    waiting_signals d = req # waiting_signals (pop_signal rest d)"
  by (simp add: waiting_signals_def pop_signal_def on_state_def)

lemma pop_limit [simp]:
  "limitPendingTaskAddSignals (pop_signal rest d) = limitPendingTaskAddSignals d"
  by (simp add: pop_signal_def)

interpretation signals: instance_steps limitPendingTaskAddSignals signals_request signals_guarantee
  dk "\<lambda>args u. True" for dk
proof unfold_locales
  show "limitPendingTaskAddSignals (first_runner ctx timestamp interval version t)"
    for ctx timestamp interval version t
    using start_run_keeps by (auto simp: first_runner_def keeps_signals_def)
next
  show "limitPendingTaskAddSignals (next_run timestamp interval version d)"
    if "limitPendingTaskAddSignals d" for timestamp interval version d
    using that by (rule next_run_keeps)
next
  show "signals_guarantee d d''" if "signals_guarantee d d'" "signals_guarantee d' d''" for d d' d''
    using that by (rule guarantee_trans)
next
  show "signals_request d0 d rq" if "signals_guarantee d0 d" "permitted d rq" for d0 d rq
    using that by (cases rq) simp_all
next
  show "signals_request d0 d' rq" if "signals_guarantee d0 d" "signals_request d d' rq" for d0 d d' rq
    using that by (rule request_after)
next
  show "limitPendingTaskAddSignals d"
    if "limitPendingTaskAddSignals d0" "signals_request d0 d rq" for d0 d rq
    using that by (cases rq) (simp_all add: signals_guarantee_def)
next
  show "signals_guarantee d (pop_signal rest d)"
    if "PendingTaskAddSignals (RunState d) = req # rest" "ensureEnabled d \<noteq> None" for d req rest
    using that by (auto simp: signals_guarantee_def pop_waiting ensureEnabled_pop)
next
  show "signals_request d0 (pop_signal rest d) (task_add_call req (pop_signal rest d))"
    if "signals_guarantee d0 d" "PendingTaskAddSignals (RunState d) = req # rest" "ensureEnabled d = None"
    for d0 d req rest
    using that by (simp add: signals_guarantee_def pop_waiting task_add_call_def)
next
  show "signals_guarantee d (d\<lparr>lockHeld := True\<rparr>)" for d
    by (simp add: signals_guarantee_def)
next
  show "signals_guarantee d (select_signal d)" if "limitPendingTaskAddSignals d" for d
    using select_keeps [OF that] by (rule guarantee_keeps)
qed (simp_all add: guarantee_keeps, simp_all add: signals_guarantee_def)

section \<open>Signals are handed over in order\<close>

definition waiting_in :: "system \<Rightarrow> SignalTaskAddRequest list" where
  "waiting_in s = waiting_signals (sysRunner s)"

text \<open>A run of the system whose states satisfy \<open>P\<close>, with the signals that arrived and those that
  were handed to the activity.\<close>

inductive signal_run ::
    "(string list \<Rightarrow> string list) \<Rightarrow> (system \<Rightarrow> bool) \<Rightarrow> system \<Rightarrow> SignalTaskAddRequest list
      \<Rightarrow> SignalTaskAddRequest list \<Rightarrow> system \<Rightarrow> bool" for dk P s where
  start: "P s \<Longrightarrow> signal_run dk P s [] [] s"
| arrival: "signal_run dk P s arrived handed s1 \<Longrightarrow> sys_step dk s1 s2 \<Longrightarrow> P s2 \<Longrightarrow>
    delivered req s1 s2 \<Longrightarrow> signal_run dk P s (arrived @ (case req of None \<Rightarrow> [] | Some r \<Rightarrow> [r])) handed s2"
| handing: "signal_run dk P s arrived handed s1 \<Longrightarrow> sys_step dk s1 s2 \<Longrightarrow> P s2 \<Longrightarrow>
    requests s1 s2 (CallTaskAdd r) \<Longrightarrow> signal_run dk P s arrived (handed @ [TaskAddRequestOf r]) s2"
| other: "signal_run dk P s arrived handed s1 \<Longrightarrow> sys_step dk s1 s2 \<Longrightarrow> P s2 \<Longrightarrow>
    (\<And>req. \<not> delivered req s1 s2) \<Longrightarrow> (\<And>r. \<not> requests s1 s2 (CallTaskAdd r)) \<Longrightarrow>
    signal_run dk P s arrived handed s2"

text \<open>The queue has room for all signals that wait, and the controller is enabled.\<close>

definition calm :: "system \<Rightarrow> bool" where
  "calm s \<longleftrightarrow> length (waiting_in s) \<le> maxPendingTaskAddSignals \<and> ensureEnabled (sysRunner s) = None"

lemma delivered_waiting:
  "delivered req s s' \<Longrightarrow> waiting_in s' = waiting_in s @ (case req of None \<Rightarrow> [] | Some r \<Rightarrow> [r])"
  by (auto simp: delivered_def waiting_in_def waiting_signals_def map_filter_def
      split: option.split)

lemma passes_waiting: "passes s s' \<Longrightarrow> waiting_in s' = waiting_in s"
  by (auto simp: passes_def waiting_in_def)

text \<open>A step that hands over the signals \<open>hs\<close> (at most one).\<close>

definition hands_over :: "SignalTaskAddRequest list \<Rightarrow> system \<Rightarrow> system \<Rightarrow> bool" where
  "hands_over hs s s' \<longleftrightarrow> subseq (hs @ waiting_in s') (waiting_in s)
     \<and> (calm s \<longrightarrow> waiting_in s = hs @ waiting_in s')"

lemma kept_hands_over: "kept (waiting_in s) (hs @ waiting_in s') \<Longrightarrow> hands_over hs s s'"
  by (auto simp: kept_def hands_over_def calm_def)

lemma guarantee_hands_over:
  "signals_guarantee (sysRunner s) (sysRunner s') \<Longrightarrow> hands_over [] s s'"
  by (auto simp: signals_guarantee_def hands_over_def calm_def waiting_in_def kept_def)

lemma request_hands_over:
  "signals_request (sysRunner s) (sysRunner s') (CallTaskAdd r) \<Longrightarrow> hands_over [TaskAddRequestOf r] s s'"
  by (intro kept_hands_over) (simp add: waiting_in_def)

lemma reachable_signals:
  "reachable dk s \<Longrightarrow> sys_ok limitPendingTaskAddSignals signals_request signals_guarantee s"
  by (rule signals.reachable_ok)

lemma plain_request: "signals_request d d' rq \<Longrightarrow> (\<And>r. rq \<noteq> CallTaskAdd r) \<Longrightarrow> signals_guarantee d d'"
  by (cases rq) auto

lemma effect_hands_over:
  assumes "effect signals_request signals_guarantee s s'" and "\<And>r. \<not> requests s s' (CallTaskAdd r)"
  shows "hands_over [] s s'"
proof -
  from assms(1) consider "signals_guarantee (sysRunner s) (sysRunner s')"
    | rq where "requests s s' rq" "signals_request (sysRunner s) (sysRunner s') rq"
    by (auto simp: effect_def)
  then have "signals_guarantee (sysRunner s) (sysRunner s')"
  proof cases
    case 2
    with assms(2) show ?thesis by (intro plain_request) auto
  qed
  then show ?thesis by (rule guarantee_hands_over)
qed

lemma continues_hands_over:
  assumes "limitPendingTaskAddSignals (sysRunner s)" and "continues s s'"
  shows "hands_over [] s s'"
  using assms(2) next_run_keeps [OF assms(1)]
  by (auto simp: continues_def waiting_in_def intro!: kept_hands_over)

lemma step_hands_over:
  assumes "reachable dk s" and "sys_step dk s s'"
  shows "requests s s' (CallTaskAdd r) \<Longrightarrow> hands_over [TaskAddRequestOf r] s s'"
    and "(\<And>req. \<not> delivered req s s') \<Longrightarrow> (\<And>r. \<not> requests s s' (CallTaskAdd r)) \<Longrightarrow>
      hands_over [] s s'"
proof -
  note ok = reachable_signals [OF assms(1)]
  then have limit: "limitPendingTaskAddSignals (sysRunner s)" by (simp add: sys_ok_def)
  show "hands_over [TaskAddRequestOf r] s s'" if "requests s s' (CallTaskAdd r)"
    using signals.request_effect [OF assms(2) ok that] by (rule request_hands_over)
  from signals.step_effect [OF assms(2) ok]
  consider "effect signals_request signals_guarantee s s'" | "passes s s'"
    | req where "delivered req s s'" | "continues s s'" by blast
  then show "hands_over [] s s'"
    if "\<And>req. \<not> delivered req s s'" "\<And>r. \<not> requests s s' (CallTaskAdd r)"
  proof cases
    case 1
    then show ?thesis using that(2) by (rule effect_hands_over)
  next
    case 2
    then show ?thesis by (simp add: hands_over_def passes_waiting)
  next
    case 3
    with that(1) show ?thesis by blast
  next
    case 4
    then show ?thesis by (rule continues_hands_over [OF limit])
  qed
qed

lemma signal_run_reachable:
  "signal_run dk P s arrived handed s' \<Longrightarrow> reachable dk s \<Longrightarrow> reachable dk s' \<and> P s'"
  by (induction rule: signal_run.induct) (auto intro: reachable.step)

lemma hands_over_extend:
  assumes "subseq (handed @ waiting_in s1) w" and "hands_over hs s1 s2"
  shows "subseq ((handed @ hs) @ waiting_in s2) w"
proof -
  have "subseq (handed @ hs @ waiting_in s2) (handed @ waiting_in s1)"
    using assms(2) by (simp add: hands_over_def subseq_append')
  from subseq_order.order_trans [OF this assms(1)] show ?thesis by simp
qed

lemma signals_in_order:
  assumes "reachable dk s" and "signal_run dk P s arrived handed s'"
  shows "subseq (handed @ waiting_in s') (waiting_in s @ arrived)
    \<and> ((\<forall>x. P x \<longrightarrow> calm x) \<longrightarrow> waiting_in s @ arrived = handed @ waiting_in s')"
  using assms(2)
proof (induction rule: signal_run.induct)
  case (arrival arrived handed s1 s2 req)
  from arrival.IH show ?case
    by (auto simp: delivered_waiting [OF arrival.hyps(4)] simp flip: append_assoc
        intro: list_emb_append_mono)
next
  case (handing arrived handed s1 s2 r)
  note s1 = signal_run_reachable [OF handing.hyps(1) assms(1)]
  from s1 handing.hyps(2,4) have "hands_over [TaskAddRequestOf r] s1 s2"
    using step_hands_over(1) by blast
  with handing.IH s1 hands_over_extend [of handed s1 _ "[TaskAddRequestOf r]" s2] show ?case
    by (auto simp: hands_over_def)
next
  case (other arrived handed s1 s2)
  note s1 = signal_run_reachable [OF other.hyps(1) assms(1)]
  from s1 other.hyps(2,4,5) have "hands_over [] s1 s2"
    using step_hands_over(2) by blast
  with other.IH s1 hands_over_extend [of handed s1 _ "[]" s2] show ?case
    by (auto simp: hands_over_def)
qed simp

text \<open>The first run of the current version after a run from before the queue limit.\<close>

lemma upgrade_waiting:
  assumes "\<not> limitPendingTaskAddSignals d"
  shows "waiting_signals (upgraded_run stamp interval version d) = waiting_signals d"
proof -
  have "taskAddSignalChannel (upgraded_run stamp interval version d) = []"
    using assms hand_over_all [of d]
    by (auto simp: upgraded_run_def start_run_def Let_def arm_poll_timer_def addStatsPullTimer_def
        addPeriodicValidationTimer_def on_state_def init_state_def carried_state_def
        drainTaskAddSignalChannelToQueue_def split: option.split)
  with upgrade_keeps_all [OF assms] show ?thesis by (simp add: waiting_signals_def)
qed

text \<open>C8: The task-add signals of an instance form a queue, over all its runs of the current version of
  the loop and whatever its handlers, timers and clients do in between: what is handed to the
  activity, followed by what still waits, is in the order of arrival, with nothing made up and
  nothing repeated.  While the controller is enabled and at most 4,000 signals wait, none is lost:
  the signals that waited at first and the ones that arrived are exactly the ones handed over and
  the ones that still wait.  In an instance that began with the current version the part of them
  that the state carries from run to run never exceeds 4,000.  A run from before that limit hands
  all the signals it has, the queued and the received, in their order to the first run of the
  current version, without a limit.\<close>

theorem signals_conserved:
  assumes "reachable dk s" and "signal_run dk P s arrived handed s'"
  shows "subseq (handed @ waiting_in s') (waiting_in s @ arrived)
    \<and> ((\<forall>x. P x \<longrightarrow> calm x) \<longrightarrow> waiting_in s @ arrived = handed @ waiting_in s')
    \<and> length (PendingTaskAddSignals (RunState (sysRunner s'))) \<le> maxPendingTaskAddSignals
    \<and> (\<not> limitPendingTaskAddSignals d \<longrightarrow>
        waiting_signals (upgraded_run stamp interval version d) = waiting_signals d)"
proof -
  have "queue_bounded (sysRunner s')"
    by (rule queue.reachable_invariant [OF signal_run_reachable [OF assms(2,1), THEN conjunct1]])
  with signals_in_order [OF assms] upgrade_waiting show ?thesis by (simp add: queue_bounded_def)
qed

theorem signals_conserved_witness:
  "\<exists>s'. signal_run sort calm (updating_run (live_runner\<lparr>lockHeld := True\<rparr>) AtTop)
      [sample_signal] [sample_signal] s'
    \<and> [sample_signal] = [sample_signal] @ waiting_in s'"
proof -
  let ?s = "updating_run (live_runner\<lparr>lockHeld := True\<rparr>) AtTop"
  let ?s1 = "updating_run
    (live_runner\<lparr>lockHeld := True, taskAddSignalChannel := [Some sample_signal]\<rparr>) AtTop"
  obtain k where step1: "sys_step sort ?s ?s1" and step2: "sys_step sort ?s1
      (updating_run (live_runner\<lparr>lockHeld := True\<rparr>)
        (Batch (Await (CallTaskAdd live_task_add) (task_add_done sample_signal k))))"
      (is "sys_step sort ?s1 ?s2")
    using live_signal_steps by blast
  have calm: "calm ?s" "calm ?s1" "calm ?s2" and none: "waiting_in ?s = []"
    by (simp_all add: calm_def waiting_in_def waiting_signals_def live_runner_def ensureEnabled_def
        workerControllerEnabled_def hasMinVersion_def map_filter_def)
  have "delivered (Some sample_signal) ?s ?s1"
    by (simp add: delivered_def live_runner_def)
  from signal_run.arrival [OF signal_run.start [of calm, OF calm(1)] step1 calm(2) this]
  have "signal_run sort calm ?s [sample_signal] [] ?s1" by simp
  moreover have "requests ?s1 ?s2 (CallTaskAdd live_task_add)"
    by (simp add: requests_def)
  ultimately have run: "signal_run sort calm ?s [sample_signal] [sample_signal] ?s2"
    using signal_run.handing [where P = calm, OF _ step2 calm(3)] by (fastforce simp: live_task_add_def)
  from signals_conserved [OF live_updating run] none run show ?thesis by auto
qed

end
