(* ===== verification/Requests.thy ===== *)
theory Requests
  imports Signals
begin

text \<open>
  What the workflow of an instance asks of its activities.  Coroutines are resumed long after they
  were written down, and the specification changes in between; the theory shows that a request
  still rests on the state at the moment it is made: workers are started and resized for a group
  of the specification that is stored then, with that group's configuration, for the instance's
  own version, and the stored specification is valid.
\<close>

definition sound_request :: "runner \<Rightarrow> wf_request \<Rightarrow> bool" where
  "sound_request d rq \<longleftrightarrow> permitted d rq \<or> rq = CallLock
     \<or> (\<exists>req. rq = task_add_call req d \<and> ensureEnabled d = None)"

interpretation requesting: instance_steps "\<lambda>d. True" "\<lambda>d0 d rq. sound_request d rq" "\<lambda>d d'. True"
  dk "\<lambda>args u. True" for dk
  by unfold_locales (auto simp: sound_request_def ensureEnabled_pop)

lemma step_requests:
  assumes "reachable dk s" and "sys_step dk s s'" and "requests s s' rq"
  shows "sound_request (sysRunner s') rq"
  using requesting.request_effect [OF assms(2) requesting.reachable_ok [OF assms(1)] assms(3)] .

text \<open>A group of the specification as it is stored.\<close>

definition stored_group :: "runner \<Rightarrow> ScalingGroupSpec \<Rightarrow> bool" where
  "stored_group d g \<longleftrightarrow> (\<exists>u key. StateSpec (RunState d) = Some u \<and> Validate (Some u) = None
     \<and> map_of (ScalingGroupSpecs u) key = Some g)"

lemma group_spec_stored:
  "state_valid d \<Longrightarrow> group_spec d key = Some g \<Longrightarrow> stored_group d g"
  by (force simp: state_valid_def spec_valid_def group_spec_def stored_group_def split: option.splits)

fun request_for_stored :: "runner \<Rightarrow> wf_request \<Rightarrow> bool" where
  "request_for_stored d (CallInvoke r) \<longleftrightarrow> InvokeContext r = RunContext d
     \<and> (\<exists>g. stored_group d g \<and> InvokeComputeConfig r = Some (Compute g))"
| "request_for_stored d (CallResize r) \<longleftrightarrow> ResizeContext r = RunContext d \<and> 0 \<le> UpdatedSize r
     \<and> (\<exists>g. stored_group d g \<and> ResizeComputeConfig r = Some (Compute g))"
| "request_for_stored d (CallDeferred r) \<longleftrightarrow> DeferredContext r = RunContext d
     \<and> stored_group d (DeferredGroupSpec r)"
| "request_for_stored d (CallPullStats r) \<longleftrightarrow> PullContext r = RunContext d \<and> ensureEnabled d = None
     \<and> PullSpec r = StateSpec (RunState d) \<and> PullScalingStatus r = ScalingStatus (RunState d)
     \<and> Validate (PullSpec r) = None"
| "request_for_stored d (CallTaskAdd r) \<longleftrightarrow> TaskAddContext r = RunContext d \<and> ensureEnabled d = None
     \<and> TaskAddSpec r = StateSpec (RunState d) \<and> TaskAddScalingStatus r = ScalingStatus (RunState d)"
| "request_for_stored d (CallValidateSpec r) \<longleftrightarrow> ValidateContext r = RunContext d
     \<and> Validate (ValidateSpecOf r) = None"
| "request_for_stored d (CallRegister r) \<longleftrightarrow> RegisterContext r = RunContext d
     \<and> RegisterScalingStatus r = ScalingStatus (RunState d) \<and> Validate (Some (RegisterSpec r)) = None"
| "request_for_stored d (CallSignalVersion v) \<longleftrightarrow> ValidationStatus (RunState d) = Some v"
| "request_for_stored d CallLock \<longleftrightarrow> True"

lemma stored_nonempty_valid:
  "state_valid d \<Longrightarrow> has_groups d \<Longrightarrow> Validate (StateSpec (RunState d)) = None"
  by (auto simp: state_valid_def spec_valid_def has_groups_def split: option.splits)

lemma sound_request_stored:
  assumes "state_valid d" and "sound_request d rq"
  shows "request_for_stored d rq"
  using assms group_spec_stored [OF assms(1)] stored_nonempty_valid [OF assms(1)]
  by (cases rq) (auto simp: sound_request_def task_add_call_def)

text \<open>C9: Whatever is interleaved, every request the workflow makes is for the instance's own
  version and rests on its state at that moment: workers are started, resized and decided on only
  for a group of the specification that is stored then, which passes \<open>Validate\<close>, with the
  configuration of that group and never for a negative size; polls and task-adds see the stored
  specification and status, and are made only while the controller is enabled; and nothing is
  validated by a provider or registered that does not pass \<open>Validate\<close> itself.\<close>

theorem requests_rest_on_state:
  assumes "deterministic_keys dk" and "reachable dk s" and "sys_step dk s s'"
    and "requests s s' rq"
  shows "request_for_stored (sysRunner s') rq"
  using deterministic_keys.stored_spec_valid [OF assms(1) reachable.step [OF assms(2,3)]]
    step_requests [OF assms(2-4)] by (rule sound_request_stored)

theorem requests_rest_on_state_witness:
  "request_for_stored (live_runner\<lparr>lockHeld := True\<rparr>) (CallTaskAdd live_task_add)"
proof -
  obtain k where steps: "sys_step sort (updating_run (live_runner\<lparr>lockHeld := True\<rparr>) AtTop)
      (updating_run (live_runner\<lparr>lockHeld := True, taskAddSignalChannel := [Some sample_signal]\<rparr>) AtTop)"
    "sys_step sort
      (updating_run (live_runner\<lparr>lockHeld := True, taskAddSignalChannel := [Some sample_signal]\<rparr>) AtTop)
      (updating_run (live_runner\<lparr>lockHeld := True\<rparr>)
        (Batch (Await (CallTaskAdd live_task_add) (task_add_done sample_signal k))))"
    using live_signal_steps by blast
  from requests_rest_on_state [OF sorted_keys.deterministic_keys_axioms reachable.step [OF live_updating steps(1)] steps(2),
      of "CallTaskAdd live_task_add"]
  show ?thesis by (simp add: requests_def)
qed

end
