(* ===== verification/Progress.thy ===== *)
theory Progress
  imports Requests
begin

text \<open>
  That the workflow of an instance makes progress: no handler holds the mutex for more than three
  answers, a run whose end is due ends however its events are interleaved, and the instance is
  never stuck, with work left and nothing to wait for.
\<close>

section \<open>Handlers end\<close>

text \<open>The number of answers after which a coroutine has ended at the latest.\<close>

fun ends_within :: "nat \<Rightarrow> 'r co \<Rightarrow> bool" where
  "ends_within 0 (Await rq k) \<longleftrightarrow> False"
| "ends_within (Suc n) (Await rq k) \<longleftrightarrow> (\<forall>r d. ends_within n (snd (k r d)))"
| "ends_within n (Return x) \<longleftrightarrow> True"
| "ends_within n (Panic m) \<longleftrightarrow> True"

lemma ends_within_Await:
  "n = Suc m \<Longrightarrow> ends_within n (Await rq k) \<Longrightarrow> ends_within m (snd (k r d))"
  by simp

lemma ends_within_mono: "ends_within m co \<Longrightarrow> m \<le> n \<Longrightarrow> ends_within n co"
proof (induction m co arbitrary: n rule: ends_within.induct)
  case (2 m rq k)
  then show ?case by (cases n) auto
qed (auto elim: ends_within.elims)

lemma ends_now [simp]: "ends_within n (snd (unlock_and_return x d))"
  by (simp add: unlock_and_return_def)

lemma signalVersion_ends:
  "(\<And>d. ends_within n (snd (k d))) \<Longrightarrow> ends_within (Suc n) (snd (signalVersionWorkflow k d))"
  using ends_within_mono [of n _ "Suc n"] by (auto simp: signalVersionWorkflow_def split: option.split)

lemma update_registered_ends: "ends_within 1 (snd (update_registered args u t r d))"
  unfolding One_nat_def update_registered_def
  by (auto simp: Let_def intro!: signalVersion_ends split: wf_response.split)

lemma update_validated_ends: "ends_within 2 (snd (update_validated args u t r d))"
  using update_registered_ends
  by (auto simp: update_validated_def numeral_2_eq_2 split: wf_response.split call_error.split)

lemma update_locked_ends: "ends_within 3 (snd (update_locked dk args d))"
  using update_validated_ends
  by (auto simp: update_locked_def numeral_3_eq_3 numeral_2_eq_2 split: sum.split option.split)

lemma with_lock_ends:
  "(\<And>d. ends_within n (snd (critical d))) \<Longrightarrow> ends_within (Suc n) (snd (with_lock critical d))"
  by (auto simp: with_lock_def split: wf_response.split)

lemma validate_done_ends: "ends_within 1 (snd (validate_done b r d))"
  unfolding One_nat_def validate_done_def
  by (auto intro!: signalVersion_ends split: wf_response.split call_error.split)

lemma handlers_end:
  "ends_within 4 (snd (handleUpdateInstance dk args d))"
  "ends_within 4 (snd (handleDeleteInstance d))"
  "ends_within 4 (snd (handleValidateSpec dk args d))"
proof -
  have four: "4 = Suc 3" by simp
  have "ends_within 4 (snd (with_lock (update_locked dk args) d))"
    unfolding four by (rule with_lock_ends) (rule update_locked_ends)
  then show "ends_within 4 (snd (handleUpdateInstance dk args d))"
    by (simp add: handleUpdateInstance_def split: option.split)
  have "ends_within 4 (snd (with_lock (\<lambda>d. unlock_and_return (Inr Deleted) (markDeleted d)) d))"
    unfolding four by (rule with_lock_ends) (rule ends_now)
  then show "ends_within 4 (snd (handleDeleteInstance d))"
    by (simp add: handleDeleteInstance_def split: option.split)
  have "ends_within 2 (snd (handleValidateSpec dk args d))"
    using validate_done_ends
    by (auto simp: handleValidateSpec_def numeral_2_eq_2 split: option.split sum.split)
  then show "ends_within 4 (snd (handleValidateSpec dk args d))"
    by (rule ends_within_mono) simp
qed

definition handler_ends :: "handler \<Rightarrow> bool" where
  "handler_ends h \<longleftrightarrow> ends_within (if InCritical h then 3 else 4) (HandlerCo h)"

definition handlers_end_in :: "system \<Rightarrow> bool" where
  "handlers_end_in s \<longleftrightarrow> (\<forall>(i, h) \<in> set (sysHandlers s). handler_ends h)"

lemma settle_handler_ends:
  assumes "handlers_end_in s" and "ends_within (if c then 3 else 4) (snd seg)"
  shows "handlers_end_in (settle_handler i c seg s)"
  using assms
  by (auto simp: handlers_end_in_def settle_handler_def handler_ends_def split: prod.splits co.splits
      dest!: set_AList_update set_AList_delete)

lemma handler_resumes_ends:
  assumes "handlers_end_in s" and "map_of (sysHandlers s) i = Some \<lparr>InCritical = c, HandlerCo = Await rq k\<rparr>"
  shows "ends_within 3 (snd (k r d))" and "c \<Longrightarrow> ends_within 2 (snd (k r d))"
proof -
  have "handler_ends \<lparr>InCritical = c, HandlerCo = Await rq k\<rparr>"
    using assms(1) map_of_SomeD [OF assms(2)] by (auto simp: handlers_end_in_def)
  then have "ends_within (if c then 3 else 4) (Await rq k)" by (simp add: handler_ends_def)
  then have "if c then ends_within 2 (snd (k r d)) else ends_within 3 (snd (k r d))"
    using ends_within_Await [of 3 2 rq k] ends_within_Await [of 4 3 rq k] by (auto split: if_splits)
  then show "ends_within 3 (snd (k r d))" "c \<Longrightarrow> ends_within 2 (snd (k r d))"
    by (auto split: if_splits intro: ends_within_mono [of 2])
qed

lemma step_ends:
  assumes "sys_step dk s s'" and "handlers_end_in s"
  shows "handlers_end_in s'"
  using assms
proof (cases rule: sys_step.cases)
  case (grant i c k)
  with handler_resumes_ends(1) [OF assms(2) grant(3)] assms(2) show ?thesis
    by (simp add: settle_handler_ends)
next
  case (resume i c rq k r)
  have "ends_within (if c then 3 else 4) (snd (k r (sysRunner s)))"
    using handler_resumes_ends(1) [OF assms(2) resume(3)] by (auto intro: ends_within_mono [of 3])
  with resume assms(2) show ?thesis by (simp add: settle_handler_ends)
qed (auto intro!: settle_handler_ends handlers_end,
    auto simp: handlers_end_in_def settle_main_def split: prod.splits co.splits)

lemma reachable_ends: "reachable dk s \<Longrightarrow> handlers_end_in s"
proof (induction rule: reachable.induct)
  case (step s s')
  then show ?case using step_ends by blast
qed (simp add: handlers_end_in_def initial_system_def)

section \<open>The steps of the loop\<close>

text \<open>The loop and the handlers only ever stop at a request.\<close>

definition stopped_at_requests :: "system \<Rightarrow> bool" where
  "stopped_at_requests s \<longleftrightarrow>
     (\<forall>co. sysMain s = Batch co \<or> sysMain s = TimerRuns co \<longrightarrow> (\<exists>rq k. co = Await rq k))"

lemma step_stopped: "sys_step dk s s' \<Longrightarrow> stopped_at_requests s \<Longrightarrow> stopped_at_requests s'"
  by (cases rule: sys_step.cases)
    (auto simp: stopped_at_requests_def settle_handler_def settle_main_def split: prod.splits co.splits)

lemma reachable_stopped: "reachable dk s \<Longrightarrow> stopped_at_requests s"
proof (induction rule: reachable.induct)
  case (step s s')
  then show ?case using step_stopped by blast
qed (simp add: stopped_at_requests_def initial_system_def)

text \<open>A step of the loop: it goes on to another program point, closes the workflow or panics.\<close>

definition loop_step :: "(string list \<Rightarrow> string list) \<Rightarrow> system \<Rightarrow> system \<Rightarrow> bool" where
  "loop_step dk s s' \<longleftrightarrow> sys_step dk s s'
     \<and> (sysMain s' \<noteq> sysMain s \<or> sysClosed s' \<or> sysPanic s' \<noteq> None)"

lemma settle_main_handlers [simp]: "sysHandlers (settle_main running after seg s) = sysHandlers s"
  by (simp add: settle_main_def split: prod.split co.split)

lemma settle_main_moves:
  assumes "sysMain s \<noteq> after"
    and "\<And>rq k. snd seg = Await rq k \<Longrightarrow> sysMain s \<noteq> running (Await rq k)"
  shows "sysMain (settle_main running after seg s) \<noteq> sysMain s
    \<or> sysClosed (settle_main running after seg s) \<or> sysPanic (settle_main running after seg s) \<noteq> None"
  using assms by (cases seg) (auto simp: settle_main_def split: co.split)

lemma loop_stepI:
  "sys_step dk s s' \<Longrightarrow> sysMain s' \<noteq> sysMain s \<or> sysClosed s' \<or> sysPanic s' \<noteq> None \<Longrightarrow>
    sysHandlers s' = sysHandlers s \<Longrightarrow> \<exists>s'. loop_step dk s s' \<and> sysHandlers s' = sysHandlers s"
  unfolding loop_step_def by blast

text \<open>The loop can take a step wherever it is, but at its wait, where it depends on what it waits for.\<close>

lemma loop_moves:
  assumes "idle_main s" and "stopped_at_requests s"
    and "sysMain s \<noteq> Finishing" and "sysMain s = Waiting \<Longrightarrow> loop_wakes (sysRunner s)"
  shows "\<exists>s'. loop_step dk s s' \<and> sysHandlers s' = sysHandlers s"
proof (cases "sysMain s")
  case AtTop
  consider "\<not> shouldContinueAsNew (sysRunner s)" | "deleteInstance (sysRunner s)"
    | "shouldContinueAsNew (sysRunner s)" "\<not> deleteInstance (sysRunner s)" by blast
  then show ?thesis
  proof cases
    case 1
    from sys_step.batch [OF assms(1) AtTop 1] show ?thesis
      by (rule loop_stepI) (rule settle_main_moves, use AtTop in simp_all)
  next
    case 2
    from sys_step.close [OF assms(1) AtTop 2] show ?thesis
      by (rule loop_stepI) (use assms(1) in \<open>simp_all\<close>)
  next
    case 3
    from sys_step.exit [OF assms(1) AtTop 3] show ?thesis
      by (rule loop_stepI) (use AtTop in \<open>simp_all\<close>)
  qed
next
  case (Batch co)
  with assms(2) obtain rq k where co: "co = Await rq k" by (auto simp: stopped_at_requests_def)
  from sys_step.resume_batch [OF assms(1) Batch [unfolded co] answers.any_error] show ?thesis
    by (rule loop_stepI)
      (rule settle_main_moves, use Batch co co_progress in \<open>fastforce+\<close>)
next
  case AtTimers
  consider "shouldContinueAsNew (sysRunner s) \<or> \<not> timers_pending (sysRunner s)"
    | "\<not> shouldContinueAsNew (sysRunner s)" "timer_ready (sysRunner s) (pollTimer (sysRunner s))"
    | "\<not> shouldContinueAsNew (sysRunner s)" "timer_ready (sysRunner s) (validationTimer (sysRunner s))"
    by (auto simp: timers_pending_def)
  then show ?thesis
  proof cases
    case 1
    from sys_step.no_timer [OF assms(1) AtTimers 1] show ?thesis
      by (rule loop_stepI) (use AtTimers in \<open>simp_all\<close>)
  next
    case 2
    from sys_step.poll_timer [OF assms(1) AtTimers 2] show ?thesis
      by (rule loop_stepI) (rule settle_main_moves, use AtTimers in simp_all)
  next
    case 3
    from sys_step.validation_timer [OF assms(1) AtTimers 3] show ?thesis
      by (rule loop_stepI) (rule settle_main_moves, use AtTimers in simp_all)
  qed
next
  case (TimerRuns co)
  with assms(2) obtain rq k where co: "co = Await rq k" by (auto simp: stopped_at_requests_def)
  from sys_step.resume_timer [OF assms(1) TimerRuns [unfolded co] answers.any_error] show ?thesis
    by (rule loop_stepI)
      (rule settle_main_moves, use TimerRuns co co_progress in \<open>fastforce+\<close>)
next
  case Waiting
  from sys_step.wake [OF assms(1) Waiting assms(4) [OF Waiting]] show ?thesis
    by (rule loop_stepI) (use Waiting in \<open>simp_all\<close>)
qed (use assms(3) in simp)

text \<open>An execution of an instance, step by step; it may stop (by repeating its last state), and one that
  is closed or has panicked cannot but stop.  It is fair to the loop if the loop is not kept from a
  step for ever: where from some time on a step of the loop is possible all the time, the loop takes
  one.  So the environment answers the loop's requests and the runtime schedules the loop; that the
  loop can step at all (that its wait is over, that its guards let it pass) is to be proved.\<close>

definition execution :: "(string list \<Rightarrow> string list) \<Rightarrow> (nat \<Rightarrow> system) \<Rightarrow> bool" where
  "execution dk run \<longleftrightarrow> reachable dk (run 0)
     \<and> (\<forall>i. sys_step dk (run i) (run (Suc i)) \<or> run (Suc i) = run i)"

definition fair_to_loop :: "(string list \<Rightarrow> string list) \<Rightarrow> (nat \<Rightarrow> system) \<Rightarrow> bool" where
  "fair_to_loop dk run \<longleftrightarrow> (\<forall>i. (\<forall>k\<ge>i. \<exists>s'. loop_step dk (run k) s')
     \<longrightarrow> (\<exists>j\<ge>i. loop_step dk (run j) (run (Suc j))))"

definition stopped :: "system \<Rightarrow> bool" where
  "stopped s \<longleftrightarrow> sysClosed s \<or> sysPanic s \<noteq> None"

lemma execution_reachable: "execution dk run \<Longrightarrow> reachable dk (run n)"
proof (induction n)
  case (Suc n)
  then have "reachable dk (run n)" "sys_step dk (run n) (run (Suc n)) \<or> run (Suc n) = run n"
    by (simp_all add: execution_def)
  then show ?case by (auto intro: reachable.step)
qed (simp add: execution_def)

lemma execution_step: "execution dk run \<Longrightarrow> sys_step dk (run i) (run (Suc i)) \<or> run (Suc i) = run i"
  by (simp add: execution_def)

lemma execution_from: "execution dk run \<Longrightarrow> execution dk (\<lambda>i. run (n + i))"
  using execution_reachable [of dk run n] by (simp add: execution_def)

lemma fair_from:
  assumes "fair_to_loop dk run"
  shows "fair_to_loop dk (\<lambda>i. run (n + i))"
  unfolding fair_to_loop_def
proof (intro allI impI)
  fix i
  assume can: "\<forall>k\<ge>i. \<exists>s'. loop_step dk (run (n + k)) s'"
  have "\<exists>s'. loop_step dk (run k) s'" if "n + i \<le> k" for k
    using can [rule_format, of "k - n"] that by simp
  with assms obtain j where "n + i \<le> j" "loop_step dk (run j) (run (Suc j))"
    unfolding fair_to_loop_def by blast
  then show "\<exists>j\<ge>i. loop_step dk (run (n + j)) (run (n + Suc j))"
    by (intro exI [of _ "j - n"]) (simp add: Suc_diff_le)
qed

text \<open>A loop that can always step moves for ever.\<close>

lemma fair_moves:
  assumes "execution dk run" and "fair_to_loop dk run" and "\<And>i. \<not> stopped (run i)"
    and "\<And>i. sysMain (run i) \<noteq> Finishing"
    and "\<And>i. sysMain (run i) = Waiting \<Longrightarrow> loop_wakes (sysRunner (run i))"
  shows "\<exists>j\<ge>i. sysMain (run (Suc j)) \<noteq> sysMain (run j)"
proof -
  have idle: "idle_main (run k)" for k using assms(3) [of k] by (simp add: stopped_def)
  have "\<exists>s'. loop_step dk (run k) s'" for k
    using loop_moves [OF idle reachable_stopped [OF execution_reachable [OF assms(1)]] assms(4,5)] by blast
  with assms(2) obtain j where j: "i \<le> j" "loop_step dk (run j) (run (Suc j))"
    unfolding fair_to_loop_def by blast
  with idle [of "Suc j"] show ?thesis by (auto simp: loop_step_def)
qed

lemma moving_is_fair:
  assumes "\<And>i. sys_step dk (run i) (run (Suc i))"
    and "\<And>i. \<exists>j\<ge>i. sysMain (run (Suc j)) \<noteq> sysMain (run j)"
  shows "fair_to_loop dk run"
  using assms unfolding fair_to_loop_def loop_step_def by meson

section \<open>The loop ends when its end is due\<close>

text \<open>A run that is to continue as new, or to close, stays so.\<close>

definition keeps_ending :: "runner \<Rightarrow> runner \<Rightarrow> bool" where
  "keeps_ending d d' \<longleftrightarrow> (shouldContinueAsNew d \<longrightarrow> shouldContinueAsNew d')"

lemma ending_on_state [simp]: "shouldContinueAsNew (on_state f d) = shouldContinueAsNew d"
  by (simp add: shouldContinueAsNew_def on_state_def)

lemma ending_frame [simp]:
  "shouldContinueAsNew (d\<lparr>pollTimer := t\<rparr>) = shouldContinueAsNew d"
  "shouldContinueAsNew (d\<lparr>validationTimer := t\<rparr>) = shouldContinueAsNew d"
  "shouldContinueAsNew (d\<lparr>taskAddSignalChannel := c\<rparr>) = shouldContinueAsNew d"
  "shouldContinueAsNew (d\<lparr>lockHeld := b\<rparr>) = shouldContinueAsNew d"
  "shouldContinueAsNew (released d)" "shouldContinueAsNew (markDeleted d)"
  by (simp_all add: shouldContinueAsNew_def released_def markDeleted_def)

lemma ending_queue [simp]: "shouldContinueAsNew (queueTaskAddSignal req d) = shouldContinueAsNew d"
  by (simp add: queueTaskAddSignal_def split: option.split)

interpretation ending: instance_steps "\<lambda>d. True" "any_request keeps_ending" keeps_ending
  dk "\<lambda>args u. True" for dk
  by unfold_locales (auto simp: keeps_ending_def set_scaling_status_def set_validation_def
      pop_signal_def select_signal_def addStatsPullTimer_def addPeriodicValidationTimer_def
      set_token_and_spec_def split: list.split)

lemma ending_stays:
  assumes "sys_step dk s s'" and "reachable dk s" and "shouldContinueAsNew (sysRunner s)"
    and "sysMain s \<noteq> Finishing"
  shows "shouldContinueAsNew (sysRunner s')"
  using ending.step_effect [OF assms(1) ending.reachable_ok [OF assms(2)]] assms(3,4)
  by (auto simp: effect_def keeps_ending_def passes_def delivered_def continues_def shouldContinueAsNew_def)

text \<open>The program points that the loop can still pass through then.  Every coroutine ends, so there
  are finitely many on every path.\<close>

inductive winds_down :: "main_state \<Rightarrow> main_state \<Rightarrow> bool" where
  batch_goes: "winds_down (Batch (Await rq k)) (Batch (snd (k r d)))"
| batch_ends: "winds_down (Batch co) AtTimers"
| timers_skipped: "winds_down AtTimers Waiting"
| timer_goes: "winds_down (TimerRuns (Await rq k)) (TimerRuns (snd (k r d)))"
| timer_ends: "winds_down (TimerRuns co) Waiting"
| wakes: "winds_down Waiting AtTop"

inductive_simps winds_down_simps [simp]:
  "winds_down AtTop m" "winds_down (Batch (Await rq k)) m" "winds_down (Batch (Return x)) m"
  "winds_down (Batch (Panic e)) m" "winds_down AtTimers m" "winds_down (TimerRuns (Await rq k)) m"
  "winds_down (TimerRuns (Return x)) m" "winds_down (TimerRuns (Panic e)) m" "winds_down Waiting m"
  "winds_down Finishing m"

lemma winds_down_terminates: "Wellfounded.accp (\<lambda>m' m. winds_down m m') m"
proof -
  have top: "Wellfounded.accp (\<lambda>m' m. winds_down m m') AtTop"
    by (rule accpI) auto
  have waiting: "Wellfounded.accp (\<lambda>m' m. winds_down m m') Waiting"
    by (rule accpI) (auto intro: top)
  have timers: "Wellfounded.accp (\<lambda>m' m. winds_down m m') AtTimers"
    by (rule accpI) (auto intro: waiting)
  have batch: "Wellfounded.accp (\<lambda>m' m. winds_down m m') (Batch co)" for co
  proof (induction co rule: co_induct)
    case (Await rq k)
    show ?case by (rule accpI) (auto intro: timers Await)
  qed (rule accpI, auto intro: timers)+
  have timer: "Wellfounded.accp (\<lambda>m' m. winds_down m m') (TimerRuns co)" for co
  proof (induction co rule: co_induct)
    case (Await rq k)
    show ?case by (rule accpI) (auto intro: waiting Await)
  qed (rule accpI, auto intro: waiting)+
  have "Wellfounded.accp (\<lambda>m' m. winds_down m m') Finishing"
    by (rule accpI) auto
  with top waiting timers batch timer show ?thesis by (cases m) auto
qed

lemma settle_handler_main: "sysMain (settle_handler i c seg s) = sysMain s"
  by (simp add: settle_handler_def split: prod.split co.split)

lemma ending_step:
  assumes "sys_step dk s s'" and "shouldContinueAsNew (sysRunner s)" and "sysMain s \<noteq> Finishing"
  shows "sysMain s' = sysMain s \<or> sysMain s' = Finishing \<or> winds_down (sysMain s) (sysMain s')"
  using assms
proof (cases rule: sys_step.cases)
  case (resume_batch rq k r)
  have "sysMain s' = sysMain s \<or> sysMain s' = Batch (snd (k r (sysRunner s))) \<or> sysMain s' = AtTimers"
    unfolding resume_batch(1) by (simp add: settle_main_def split: prod.split co.split)
  with resume_batch(3) winds_down.batch_goes [of rq k r] winds_down.batch_ends show ?thesis by metis
next
  case (resume_timer rq k r)
  have "sysMain s' = sysMain s \<or> sysMain s' = TimerRuns (snd (k r (sysRunner s))) \<or> sysMain s' = Waiting"
    unfolding resume_timer(1) by (simp add: settle_main_def split: prod.split co.split)
  with resume_timer(3) winds_down.timer_goes [of rq k r] winds_down.timer_ends show ?thesis by metis
qed (simp_all add: settle_handler_main winds_down.intros)

text \<open>What moves again and again only along a relation that ends cannot move for ever.\<close>

lemma moves_for_ever:
  assumes step: "\<And>i. f (Suc i) = f i \<or> W (f i) (f (Suc i))" and fair: "\<And>i. \<exists>j\<ge>i. f (Suc j) \<noteq> f j"
    and "\<And>m. Wellfounded.accp (\<lambda>m' m. W m m') m"
  shows False
proof -
  have "\<forall>i. f i \<noteq> m" for m
    using assms(3) [of m]
  proof (induction m rule: accp.induct)
    case (accI m)
    show ?case
    proof (intro allI notI)
      fix i assume start: "f i = m"
      define j where "j = (LEAST j. j \<ge> i \<and> f (Suc j) \<noteq> f j)"
      from fair [of i] have j: "j \<ge> i" "f (Suc j) \<noteq> f j"
        unfolding j_def by (metis (mono_tags, lifting) LeastI)+
      have same: "i \<le> n \<Longrightarrow> n \<le> j \<Longrightarrow> f n = m" for n
      proof (induction n rule: dec_induct)
        case (step n)
        then have "n < j" by simp
        with step show ?case unfolding j_def by (metis (mono_tags, lifting) not_less_Least Suc_leD)
      qed (rule start)
      from step [of j] j same [of j] have "W m (f (Suc j))" by auto
      with accI.IH show False by auto
    qed
  qed
  then show False by blast
qed

lemma ending_goes_on:
  "execution dk run \<Longrightarrow> shouldContinueAsNew (sysRunner (run 0)) \<Longrightarrow>
    (\<And>i. sysMain (run i) \<noteq> Finishing) \<Longrightarrow> shouldContinueAsNew (sysRunner (run i))"
proof (induction i)
  case (Suc i)
  then show ?case
    using execution_step [OF Suc.prems(1), of i] ending_stays [OF _ execution_reachable [OF Suc.prems(1)]]
    by metis
qed

lemma due_loop_finishes:
  assumes "execution dk run" and "fair_to_loop dk run" and "shouldContinueAsNew (sysRunner (run 0))"
  shows "\<exists>i. sysMain (run i) = Finishing \<or> stopped (run i)"
proof (rule ccontr)
  assume never: "\<not> ?thesis"
  then have going: "sysMain (run i) \<noteq> Finishing" "\<not> stopped (run i)" for i by auto
  have due: "shouldContinueAsNew (sysRunner (run i))" for i
    using ending_goes_on [OF assms(1,3) going(1)] .
  then have "loop_wakes (sysRunner (run i))" for i by (simp add: loop_wakes_def)
  with fair_moves [OF assms(1,2) going(2,1)]
  have moves: "\<exists>j\<ge>i. sysMain (run (Suc j)) \<noteq> sysMain (run j)" for i by blast
  have "sysMain (run (Suc i)) = sysMain (run i) \<or> winds_down (sysMain (run i)) (sysMain (run (Suc i)))"
    for i using execution_step [OF assms(1), of i] ending_step [OF _ due going(1)] going(1) by metis
  from moves_for_ever [of "\<lambda>i. sysMain (run i)", OF this moves winds_down_terminates] show False .
qed

text \<open>C17: A run whose end is due ends.  However handlers, signals, timers and the environment are
  interleaved, once an instance is to continue as new its run leaves the loop, or the workflow is
  closed or has panicked: from then on the loop can step wherever it is, its wait being over, and it
  takes finitely many steps to its end.  The execution is only to be fair to the loop: a step that
  the loop could take all the time is taken.\<close>

theorem due_run_ends:
  assumes "execution dk run" and "fair_to_loop dk run" and "shouldContinueAsNew (sysRunner (run 0))"
  shows "\<exists>i. sysMain (run i) = Finishing \<or> sysClosed (run i) \<or> sysPanic (run i) \<noteq> None"
  using due_loop_finishes [OF assms] by (simp add: stopped_def)

text \<open>An instance that the server keeps asking to continue as new.\<close>

definition asked_run :: "nat \<Rightarrow> system" where
  "asked_run i =
    [initial_system (new_runner\<lparr>continueAsNewSuggested := True\<rparr>),
     (initial_system (new_runner\<lparr>continueAsNewSuggested := True\<rparr>))\<lparr>sysMain := Finishing\<rparr>,
     initial_system new_runner] ! (i mod 3)"

lemma asked_run_start: "reachable sort (asked_run 0)" "shouldContinueAsNew (sysRunner (asked_run 0))"
proof -
  have "reachable sort (initial_system new_runner)"
    unfolding new_runner_def by (rule reachable.start)
  from reachable.step [OF this sys_step.environment [where t = 0 and b = True and c = True]]
  show "reachable sort (asked_run 0)"
    by (simp add: asked_run_def initial_system_def new_runner_eq)
  show "shouldContinueAsNew (sysRunner (asked_run 0))"
    by (simp add: asked_run_def initial_system_def shouldContinueAsNew_def)
qed

lemma asked_run_again:
  "next_run ''t0'' minute CheckWorkerControllerEnabledVersion
    (new_runner\<lparr>continueAsNewSuggested := True\<rparr>) = new_runner"
  by code_simp

lemma asked_run_steps: "sys_step sort (asked_run i) (asked_run (Suc i))"
proof -
  consider "i mod 3 = 0" "Suc i mod 3 = 1" | "i mod 3 = 1" "Suc i mod 3 = 2" | "i mod 3 = 2" "Suc i mod 3 = 0"
    using mod_less_divisor [of 3 i] by (simp add: mod_Suc) linarith
  then show ?thesis
  proof cases
    case 1
    with sys_step.exit [of "asked_run i" sort] show ?thesis
      by (simp add: asked_run_def initial_system_def shouldContinueAsNew_def new_runner_eq)
  next
    case 2
    with sys_step.continue_as_new [of "asked_run i" sort "''t0''" minute
        CheckWorkerControllerEnabledVersion] show ?thesis
      by (simp add: asked_run_def initial_system_def asked_run_again)
  next
    case 3
    with sys_step.environment [of "asked_run i" 0 sort True True] show ?thesis
      by (simp add: asked_run_def initial_system_def new_runner_eq)
  qed
qed

theorem due_run_ends_witness:
  "\<exists>i. sysMain (asked_run i) = Finishing \<or> sysClosed (asked_run i) \<or> sysPanic (asked_run i) \<noteq> None"
proof (rule due_run_ends [of sort asked_run])
  have "\<exists>j\<ge>i. sysMain (asked_run (Suc j)) \<noteq> sysMain (asked_run j)" for i
    by (rule exI [of _ "3 * i"]) (simp add: asked_run_def initial_system_def)
  with asked_run_steps show "fair_to_loop sort asked_run" by (rule moving_is_fair)
  show "execution sort asked_run"
    using asked_run_start(1) asked_run_steps by (simp add: execution_def)
qed (rule asked_run_start(2))

section \<open>The instance is never stuck\<close>

text \<open>Nothing is left to do but to wait for the outside.\<close>

definition resting :: "system \<Rightarrow> bool" where
  "resting s \<longleftrightarrow> sysMain s = Waiting \<and> sysHandlers s = [] \<and> \<not> shouldContinueAsNew (sysRunner s)
     \<and> \<not> timers_pending (sysRunner s) \<and> taskAddSignalChannel (sysRunner s) = []
     \<and> PendingTaskAddSignals (RunState (sysRunner s)) = []"

text \<open>A step of the instance itself.\<close>

definition works :: "system \<Rightarrow> system \<Rightarrow> bool" where
  "works s s' \<longleftrightarrow> sysMain s' \<noteq> sysMain s \<or> sysHandlers s' \<noteq> sysHandlers s
     \<or> sysPanic s' \<noteq> sysPanic s \<or> sysClosed s' \<noteq> sysClosed s"

lemma handler_moves:
  assumes "idle_main s" and "map_of (sysHandlers s) i = Some h"
    and "\<And>rq k. snd seg = Await rq k \<Longrightarrow> h \<noteq> \<lparr>InCritical = c, HandlerCo = Await rq k\<rparr>"
  shows "works s (settle_handler i c seg s)"
proof -
  obtain d co where seg: "seg = (d, co)" by fastforce
  show ?thesis
  proof (cases co)
    case (Return x)
    have "map_of (AList.delete i (sysHandlers s)) i = None" by (simp add: delete_conv)
    with assms(2) have "AList.delete i (sysHandlers s) \<noteq> sysHandlers s" by auto
    with Return show ?thesis by (simp add: seg settle_handler_def works_def)
  next
    case (Panic m)
    with assms(1) show ?thesis by (simp add: seg settle_handler_def works_def)
  next
    case (Await rq k)
    let ?h = "\<lparr>InCritical = c, HandlerCo = Await rq k\<rparr>"
    have "map_of (AList.update i ?h (sysHandlers s)) i = Some ?h" by (simp add: update_conv)
    with assms(2,3) Await have "AList.update i ?h (sysHandlers s) \<noteq> sysHandlers s"
      by (auto simp: seg)
    with Await show ?thesis by (simp add: seg settle_handler_def works_def)
  qed
qed

lemma pending_handler:
  assumes "locked_ok dk s" and "idle_main s" and "map_of (sysHandlers s) i = Some h"
  obtains rq k where "HandlerCo h = Await rq k" and "InCritical h \<Longrightarrow> rq \<noteq> CallLock"
proof -
  have "handler_ok dk (core_of (sysRunner s)) h"
    using locked_okD(2) [OF assms(1) _ assms(3)] assms(2) by simp
  then show ?thesis
    using that by (auto simp: handler_ok_def runs_critical_def waits_for_lock_def runs_outside_def
        split: if_splits)
qed

text \<open>No handler that waits for the mutex gives up in the step: it waits on, or it is granted.\<close>

definition waiters_kept :: "system \<Rightarrow> system \<Rightarrow> bool" where
  "waiters_kept s s' \<longleftrightarrow> (\<forall>i c k. map_of (sysHandlers s) i = Some \<lparr>InCritical = c, HandlerCo = Await CallLock k\<rparr> \<longrightarrow>
     map_of (sysHandlers s') i = map_of (sysHandlers s) i
     \<or> \<not> lockHeld (sysRunner s)
       \<and> s' = settle_handler i True (k DoneResponse ((sysRunner s)\<lparr>lockHeld := True\<rparr>)) s)"

definition can_work :: "(string list \<Rightarrow> string list) \<Rightarrow> system \<Rightarrow> bool" where
  "can_work dk s \<longleftrightarrow> (\<exists>s'. sys_step dk s s' \<and> works s s' \<and> waiters_kept s s')"

lemma loop_waiters: "sysHandlers s' = sysHandlers s \<Longrightarrow> waiters_kept s s'"
  by (simp add: waiters_kept_def)

lemma can_workI: "sys_step dk s s' \<Longrightarrow> works s s' \<Longrightarrow> sysHandlers s' = sysHandlers s \<Longrightarrow> can_work dk s"
  using loop_waiters unfolding can_work_def by blast

lemma settle_handler_other:
  "j \<noteq> i \<Longrightarrow> map_of (sysHandlers (settle_handler i c seg s)) j = map_of (sysHandlers s) j"
  by (auto simp: settle_handler_def update_conv delete_conv split: prod.split co.split)

lemma answered_handler_works:
  assumes "idle_main s" and "map_of (sysHandlers s) i = Some \<lparr>InCritical = c, HandlerCo = Await rq k\<rparr>"
    and "rq \<noteq> CallLock"
  shows "can_work dk s"
proof -
  let ?s = "settle_handler i c (k (ErrorResponse (OtherError [])) (sysRunner s)) s"
  from sys_step.resume [OF assms(1,2) answers.any_error] have "sys_step dk s ?s" .
  moreover have "works s ?s"
    using assms co_progress by (intro handler_moves) fastforce+
  moreover have "waiters_kept s ?s"
    unfolding waiters_kept_def
  proof (intro allI impI)
    fix j c' k'
    assume "map_of (sysHandlers s) j = Some \<lparr>InCritical = c', HandlerCo = Await CallLock k'\<rparr>"
    then show "map_of (sysHandlers ?s) j = map_of (sysHandlers s) j \<or> \<not> lockHeld (sysRunner s)
        \<and> ?s = settle_handler j True (k' DoneResponse ((sysRunner s)\<lparr>lockHeld := True\<rparr>)) s"
      using assms(2,3) by (cases "j = i") (simp_all add: settle_handler_other)
  qed
  ultimately show ?thesis unfolding can_work_def by blast
qed

lemma granted_handler_works:
  assumes "idle_main s" and "map_of (sysHandlers s) i = Some \<lparr>InCritical = c, HandlerCo = Await CallLock k\<rparr>"
    and "\<not> lockHeld (sysRunner s)"
  shows "can_work dk s"
proof -
  let ?s = "settle_handler i True (k DoneResponse ((sysRunner s)\<lparr>lockHeld := True\<rparr>)) s"
  from sys_step.grant [OF assms] have "sys_step dk s ?s" .
  moreover have "works s ?s"
    using assms co_progress by (intro handler_moves) fastforce+
  moreover have "waiters_kept s ?s"
    unfolding waiters_kept_def
  proof (intro allI impI)
    fix j c' k'
    assume "map_of (sysHandlers s) j = Some \<lparr>InCritical = c', HandlerCo = Await CallLock k'\<rparr>"
    then show "map_of (sysHandlers ?s) j = map_of (sysHandlers s) j \<or> \<not> lockHeld (sysRunner s)
        \<and> ?s = settle_handler j True (k' DoneResponse ((sysRunner s)\<lparr>lockHeld := True\<rparr>)) s"
      using assms(2,3) by (cases "j = i") (simp_all add: settle_handler_other)
  qed
  ultimately show ?thesis unfolding can_work_def by blast
qed

lemma lock_holder:
  assumes "locked_ok dk s" and "idle_main s" and "lockHeld (sysRunner s)"
  obtains i rq k where "map_of (sysHandlers s) i = Some \<lparr>InCritical = True, HandlerCo = Await rq k\<rparr>"
    and "rq \<noteq> CallLock"
proof -
  have "critical_count (sysHandlers s) \<noteq> 0"
    using locked_okD(4) [OF assms(1)] assms(2,3) by simp
  then obtain i h where at: "(i, h) \<in> set (sysHandlers s)" "InCritical h"
    by (auto simp: critical_count_def filter_empty_conv)
  with assms(2) have "map_of (sysHandlers s) i = Some h"
    using locked_okD(3) [OF assms(1)] by simp
  moreover from pending_handler [OF assms(1,2) this] at(2) obtain rq k
    where "HandlerCo h = Await rq k" "rq \<noteq> CallLock" by metis
  ultimately show ?thesis using at(2) by (intro that [of i rq k]) (cases h, simp_all)
qed

lemma handler_works:
  assumes "idle_main s" and "sysHandlers s \<noteq> []" and "locked_ok dk s"
  shows "can_work dk s"
proof -
  obtain i h where "(i, h) \<in> set (sysHandlers s)" using assms(2) by (cases "sysHandlers s") auto
  with assms(1,3) have at: "map_of (sysHandlers s) i = Some h"
    using locked_okD(3) [OF assms(3)] by simp
  obtain rq k where "HandlerCo h = Await rq k" using pending_handler [OF assms(3,1) at] by blast
  with at have here: "map_of (sysHandlers s) i = Some \<lparr>InCritical = InCritical h, HandlerCo = Await rq k\<rparr>"
    by (cases h) simp
  consider "rq \<noteq> CallLock" | "rq = CallLock" "\<not> lockHeld (sysRunner s)" | "lockHeld (sysRunner s)" by blast
  then show ?thesis
  proof cases
    case 1
    with here show ?thesis by (rule answered_handler_works [OF assms(1)])
  next
    case 2
    with here show ?thesis using granted_handler_works [OF assms(1)] by blast
  next
    case 3
    then show ?thesis
      using lock_holder [OF assms(3,1)] answered_handler_works [OF assms(1)] by metis
  qed
qed

lemma loop_works:
  assumes "idle_main s" and "stopped_at_requests s"
    and "sysMain s \<noteq> Finishing" and "sysMain s = Waiting \<Longrightarrow> loop_wakes (sysRunner s)"
  shows "can_work dk s"
proof -
  from loop_moves [OF assms] obtain s'
    where "loop_step dk s s'" "sysHandlers s' = sysHandlers s" by blast
  then show ?thesis using assms(1) by (intro can_workI [of dk s s']) (auto simp: loop_step_def works_def)
qed

text \<open>C10: The instance is never stuck: in every reachable state that is neither closed nor stopped by
  a panic, the loop or a handler can take a step in which no handler that waits for the mutex gives
  up, unless the loop rests (it waits, with nothing due, queued or received) and no handler is
  open.  And the mutex is held for a bounded time: its holder, of which there is one exactly when
  the mutex is held, waits for an activity or a signal and ends within three answers, whatever they
  are and whatever happens before they arrive.\<close>

theorem never_stuck:
  assumes "reachable dk s" and "idle_main s"
  shows "(resting s \<or> can_work dk s)
    \<and> (lockHeld (sysRunner s) \<longleftrightarrow> (\<exists>i h. map_of (sysHandlers s) i = Some h \<and> InCritical h))
    \<and> (\<forall>i h. map_of (sysHandlers s) i = Some h \<and> InCritical h \<longrightarrow>
         ends_within 3 (HandlerCo h) \<and> (\<forall>k. HandlerCo h \<noteq> Await CallLock k))"
proof (intro conjI)
  note locked = reachable_locked [OF assms(1)]
  show "resting s \<or> can_work dk s"
  proof (cases "sysHandlers s = []")
    case True
    show ?thesis
    proof (cases "sysMain s = Finishing")
      case fin: True
      from sys_step.continue_as_new [OF assms(2) fin True] have "can_work dk s"
        by (rule can_workI) (use fin in \<open>simp_all add: works_def\<close>)
      then show ?thesis ..
    next
      case False
      with loop_works [OF assms(2) reachable_stopped [OF assms(1)]] True show ?thesis
        by (auto simp: resting_def loop_wakes_def hasQueuedTaskAdds_def)
    qed
  next
    case False
    with handler_works [OF assms(2) _ locked] show ?thesis by blast
  qed
  have "ends_within 3 (HandlerCo h)" if "map_of (sysHandlers s) i = Some h" "InCritical h" for i h
    using reachable_ends [OF assms(1)] map_of_SomeD [OF that(1)] that(2)
    by (auto simp: handlers_end_in_def handler_ends_def)
  moreover have "HandlerCo h \<noteq> Await CallLock k"
    if "map_of (sysHandlers s) i = Some h" "InCritical h" for i h k
    by (rule pending_handler [OF locked assms(2) that(1)]) (use that(2) in simp)
  ultimately show "\<forall>i h. map_of (sysHandlers s) i = Some h \<and> InCritical h \<longrightarrow>
      ends_within 3 (HandlerCo h) \<and> (\<forall>k. HandlerCo h \<noteq> Await CallLock k)" by blast
  show "lockHeld (sysRunner s) \<longleftrightarrow> (\<exists>i h. map_of (sysHandlers s) i = Some h \<and> InCritical h)"
  proof
    assume "lockHeld (sysRunner s)"
    then obtain i rq k where
      "map_of (sysHandlers s) i = Some \<lparr>InCritical = True, HandlerCo = Await rq k\<rparr>"
      by (rule lock_holder [OF locked assms(2)])
    then show "\<exists>i h. map_of (sysHandlers s) i = Some h \<and> InCritical h"
      by (intro exI [of _ i] exI [of _ "\<lparr>InCritical = True, HandlerCo = Await rq k\<rparr>"]) simp
  next
    assume "\<exists>i h. map_of (sysHandlers s) i = Some h \<and> InCritical h"
    then have "critical_count (sysHandlers s) \<noteq> 0"
      using map_of_SomeD critical_count_0 by metis
    then show "lockHeld (sysRunner s)" using locked_okD(4) [OF locked] assms(2) by (auto split: if_splits)
  qed
qed

text \<open>While an update of the live instance is registered, the loop has nothing else to wait for.\<close>

theorem never_stuck_witness:
  "lockHeld (sysRunner (updating_run (live_runner\<lparr>lockHeld := True\<rparr>) AtTop))
    \<and> (\<exists>s'. sys_step sort (updating_run (live_runner\<lparr>lockHeld := True\<rparr>) AtTop) s')"
  using never_stuck [OF live_updating updating_run_simps(1)] by (auto simp: resting_def can_work_def)

end
