(* ===== verification/Listing.thy ===== *)
theory Listing
  imports Client Progress "HOL-Library.Countable"
begin

text \<open>
  The list of instances that the client returns.  A run of an instance writes a memo with its
  version and its time of creation when it begins; the client decodes the memos that the
  visibility store returns, and falls back to the workflow id for an instance that has not
  written one yet.  What an instance was created as never changes over its runs, so the list is
  right however old the memo is.
\<close>

section \<open>What an instance was created as\<close>

text \<open>The version and the time of creation are kept from the first run on.\<close>

definition keeps_origin :: "runner \<Rightarrow> runner \<Rightarrow> bool" where
  "keeps_origin d d' \<longleftrightarrow> RunContext d' = RunContext d
     \<and> CreateTime (RunState d') = CreateTime (RunState d)"

definition created :: "runner \<Rightarrow> bool" where
  "created d \<longleftrightarrow> CreateTime (RunState d) \<noteq> None"

lemma origin_refl [simp]: "keeps_origin d d"
  by (simp add: keeps_origin_def)

lemma origin_trans: "keeps_origin d d' \<Longrightarrow> keeps_origin d' d'' \<Longrightarrow> keeps_origin d d''"
  by (simp add: keeps_origin_def)

lemma origin_on_state [simp]:
  "(\<And>s. CreateTime (f s) = CreateTime s) \<Longrightarrow> keeps_origin d0 (on_state f d) = keeps_origin d0 d"
  by (simp add: keeps_origin_def on_state_def)

lemma origin_frame [simp]:
  "keeps_origin d0 (d\<lparr>pollTimer := t\<rparr>) = keeps_origin d0 d"
  "keeps_origin d0 (d\<lparr>validationTimer := t\<rparr>) = keeps_origin d0 d"
  "keeps_origin d0 (d\<lparr>taskAddSignalChannel := c\<rparr>) = keeps_origin d0 d"
  "keeps_origin d0 (d\<lparr>lockHeld := b\<rparr>) = keeps_origin d0 d"
  "keeps_origin d0 (d\<lparr>stateChanged := b\<rparr>) = keeps_origin d0 d"
  "keeps_origin d0 (d\<lparr>forceCAN := b\<rparr>) = keeps_origin d0 d"
  "keeps_origin d0 (d\<lparr>deleteInstance := b\<rparr>) = keeps_origin d0 d"
  "keeps_origin d0 (d\<lparr>timersCancelled := b\<rparr>) = keeps_origin d0 d"
  "keeps_origin d0 (d\<lparr>currentTime := n\<rparr>) = keeps_origin d0 d"
  "keeps_origin d0 (d\<lparr>enabledFlag := b\<rparr>) = keeps_origin d0 d"
  "keeps_origin d0 (d\<lparr>continueAsNewSuggested := b\<rparr>) = keeps_origin d0 d"
  "keeps_origin d0 (d\<lparr>workflowVersion := n\<rparr>) = keeps_origin d0 d"
  by (simp_all add: keeps_origin_def)

lemma origin_queue [simp]: "keeps_origin d0 (queueTaskAddSignal req d) = keeps_origin d0 d"
  by (simp add: queueTaskAddSignal_def split: option.split)

lemma origin_drain [simp]:
  "keeps_origin d0 (drainTaskAddSignalChannelToQueue d) = keeps_origin d0 d"
proof -
  have "keeps_origin d0 (fold queueTaskAddSignal reqs d) = keeps_origin d0 d" for reqs d
    by (induction reqs arbitrary: d) simp_all
  then show ?thesis by (simp add: drainTaskAddSignalChannelToQueue_def)
qed

lemma origin_updates [simp]:
  "keeps_origin d0 (set_scaling_status m d) = keeps_origin d0 d"
  "keeps_origin d0 (set_validation v d) = keeps_origin d0 d"
  "keeps_origin d0 (pop_signal rest d) = keeps_origin d0 d"
  "keeps_origin d0 (addStatsPullTimer n d) = keeps_origin d0 d"
  "keeps_origin d0 (addPeriodicValidationTimer n d) = keeps_origin d0 d"
  "keeps_origin d0 (arm_poll_timer d) = keeps_origin d0 d"
  "keeps_origin d0 (select_signal d) = keeps_origin d0 d"
  "keeps_origin d0 (released d) = keeps_origin d0 d"
  "keeps_origin d0 (markDeleted d) = keeps_origin d0 d"
  "keeps_origin d0 (set_token_and_spec args u d) = keeps_origin d0 d"
  by (simp_all add: set_scaling_status_def set_validation_def pop_signal_def addStatsPullTimer_def
      addPeriodicValidationTimer_def arm_poll_timer_def select_signal_def released_def markDeleted_def
      set_token_and_spec_def split: option.split list.split)

lemma origin_start_run:
  "keeps_origin d0 (start_run stamp interval d)
    = keeps_origin d0 (on_state (init_state stamp (currentTime d)) d)"
  by (simp add: start_run_def Let_def)

lemma created_kept: "keeps_origin d d' \<Longrightarrow> created d \<Longrightarrow> created d'"
  by (simp add: keeps_origin_def created_def)

lemma origin_init: "created d \<Longrightarrow> keeps_origin d0 (on_state (init_state stamp now) d) = keeps_origin d0 d"
  by (auto simp: keeps_origin_def created_def on_state_def init_state_def)

lemma origin_next_run:
  assumes "created d"
  shows "keeps_origin d (next_run stamp interval version d)"
proof -
  have carried: "keeps_origin d0 (on_state carried_state d1) = keeps_origin d0 d1" for d0 d1
    by (simp add: carried_state_def)
  let ?d = "(on_state carried_state (drainTaskAddSignalChannelToQueue d))\<lparr>deleteInstance := False,
    stateChanged := False, forceCAN := False, timersCancelled := False, pollTimer := None,
    validationTimer := None, lockHeld := False, continueAsNewSuggested := False,
    workflowVersion := version\<rparr>"
  have "keeps_origin d ?d" by (simp add: carried)
  with created_kept [OF this assms] show ?thesis
    unfolding next_run_def by (simp add: origin_start_run origin_init)
qed

lemma created_first: "created (first_runner ctx stamp interval version t)"
proof -
  have "created d'" if "keeps_origin (on_state (init_state stamp now) d) d'" for d' d now
    using created_kept [OF that] by (simp add: created_def on_state_def init_state_def split: option.split)
  moreover have "keeps_origin (on_state (init_state stamp (currentTime d)) d) (start_run stamp interval d)"
    for d by (simp add: origin_start_run)
  ultimately show ?thesis unfolding first_runner_def by blast
qed

interpretation origin: instance_guarantee created keeps_origin dk "\<lambda>args u. True" for dk
proof unfold_locales
  show "created (next_run stamp interval version d)" if "created d" for stamp interval version d
    using created_kept [OF origin_next_run [OF that] that] .
next
  show "created (first_runner ctx stamp interval version t)" for ctx stamp interval version t
    by (rule created_first)
qed (auto intro: origin_trans created_kept, auto simp: created_def)

lemma step_origin:
  assumes "sys_step dk s s'" and "reachable dk s"
  shows "keeps_origin (sysRunner s) (sysRunner s')"
proof -
  note ok = origin.reachable_ok [OF assms(2)]
  then have "created (sysRunner s)" by (simp add: sys_ok_def)
  then show ?thesis
    using origin.step_effect [OF assms(1) ok] origin_next_run
    by (auto simp: effect_def passes_def delivered_def continues_def)
qed

lemma steps_origin:
  assumes "reachable dk s" and "(sys_step dk)\<^sup>*\<^sup>* s s'"
  shows "keeps_origin (sysRunner s) (sysRunner s')"
  using assms(2)
proof (induction rule: rtranclp_induct)
  case (step s1 s2)
  from step.hyps(1) have "reachable dk s1"
    using assms(1) by (induction rule: rtranclp_induct) (auto intro: reachable.step)
  with step show ?case using step_origin origin_trans by blast
qed simp

section \<open>The list\<close>

definition version_of :: "runner \<Rightarrow> WorkerDeploymentVersion" where
  "version_of d = \<lparr>DeploymentName = RequestDeploymentName (RunContext d),
     BuildId = DeploymentBuildID (RunContext d)\<rparr>"

text \<open>An entry of the visibility store for an instance whose present state is \<open>d\<close>: with the memo
  that this or an earlier run of it wrote, or without one yet; the id of its workflow is the one
  that the client started it with.\<close>

inductive listed ::
    "(string list \<Rightarrow> string list) \<Rightarrow> (WorkerControllerInstanceMemo \<Rightarrow> Payload) \<Rightarrow> execution \<Rightarrow> runner \<Rightarrow> bool"
  for dk encode where
  with_memo: "reachable dk s \<Longrightarrow> (sys_step dk)\<^sup>*\<^sup>* s s' \<Longrightarrow>
    ExecutionMemo ex = Some (Some (map_ran (\<lambda>_. encode) (updateMemo (sysRunner s)))) \<Longrightarrow>
    listed dk encode ex (sysRunner s')"
| without_memo: "ExecutionMemo ex = None \<Longrightarrow>
    ExecutionWorkflowId ex = GenerateWorkerControllerInstanceWorkflowID (version_of d) \<Longrightarrow>
    listed dk encode ex d"

lemma memo_stored:
  "map_of (map_ran (\<lambda>_. encode) (updateMemo d)) WorkerControllerInstanceMemoField
    = Some (encode \<lparr>MemoDeploymentName = RequestDeploymentName (RunContext d),
        MemoBuildId = DeploymentBuildID (RunContext d), MemoCreateTime = CreateTime (RunState d)\<rparr>)"
  by (simp add: updateMemo_def map_ran_def)

definition instance_summary :: "runner \<Rightarrow> summary" where
  "instance_summary d = \<lparr>SummaryVersion = version_of d, SummaryCreateTime = CreateTime (RunState d)\<rparr>"

text \<open>What the entry of the page says of the instance: with a memo, its version and the time it was
  created; without one, the start of the execution stands for that time, and the version is read
  from the id, which gives it back exactly when no name has the delimiter.\<close>

definition describes :: "summary \<Rightarrow> execution \<times> runner \<Rightarrow> bool" where
  "describes sm entry \<longleftrightarrow> (case entry of (ex, d) \<Rightarrow>
     (if ExecutionMemo ex \<noteq> None then sm = instance_summary d
      else SummaryCreateTime sm = ExecutionStart ex
        \<and> (SummaryVersion sm = version_of d \<longleftrightarrow>
             WorkerControllerInstanceDelimiter \<notin> set (DeploymentName (version_of d))
             \<and> WorkerControllerInstanceDelimiter \<notin> set (BuildId (version_of d)))))"

lemma listed_summary:
  assumes "\<And>m. DecodeMemo env (Some (encode m)) = Inr m" and "listed dk encode ex d"
  shows "\<exists>sm. describes sm (ex, d) \<and> summaries env (ex # exs) = sm # summaries env exs"
  using assms(2)
proof (cases rule: listed.cases)
  case (with_memo s s')
  with steps_origin [OF with_memo(2,3)] show ?thesis
    by (simp add: DecodeWorkerControllerInstanceMemo_def memo_stored assms(1) summary_of_def
        instance_summary_def version_of_def keeps_origin_def describes_def)
next
  case without_memo
  then show ?thesis using parsed_id [of "version_of d"] by (simp add: describes_def)
qed

text \<open>C37: The client lists the instances in the order of the store, one entry for each.  If the
  converter decodes what it encoded, an instance that has written a memo is listed with its version
  and the time it was created, whichever of its runs wrote the memo.  One that has not is listed
  with the start of its execution as that time, and with its own version exactly when neither the
  name of the deployment nor the build id has a colon.\<close>

theorem list_names_instances:
  assumes "\<And>m. DecodeMemo env (Some (encode m)) = Inr m"
    and "ListExecutions env (if pageSize = 0 then VisibilityMaxPageSize env else pageSize) token
      = Inr (executions, nextToken)"
    and "list_all2 (listed dk encode) executions instances"
  shows "\<exists>page. ListWorkerControllerInstances env pageSize token = Inr (page, nextToken)
    \<and> list_all2 describes page (zip executions instances)"
proof -
  have "list_all2 describes (summaries env executions) (zip executions instances)"
    using assms(3)
  proof (induction rule: list_all2_induct)
    case (Cons ex exs d ds)
    from listed_summary [where env = env, OF assms(1) Cons.hyps(1), of exs] obtain sm
      where "describes sm (ex, d)" "summaries env (ex # exs) = sm # summaries env exs" by blast
    with Cons.IH show ?case by (simp del: summaries.simps)
  qed simp
  with assms(2) show ?thesis by (simp add: ListWorkerControllerInstances_def)
qed

text \<open>A converter: the lengths of the names and the time in unary, and then the names.\<close>

definition unary :: "nat \<Rightarrow> string" where
  "unary n = replicate n (CHR ''1'') @ [CHR ''0'']"

definition read_unary :: "string \<Rightarrow> nat \<times> string" where
  "read_unary s = (let ones = takeWhile (\<lambda>c. c = CHR ''1'') s in (length ones, drop (Suc (length ones)) s))"

lemma takeWhile_unary: "takeWhile (\<lambda>c. c = CHR ''1'') (replicate n (CHR ''1'') @ CHR ''0'' # s)
    = replicate n (CHR ''1'')"
  by (induction n) simp_all

lemma read_unary_unary [simp]: "read_unary (unary n @ s) = (n, s)"
  by (simp add: read_unary_def unary_def takeWhile_unary)

definition memo_payload :: "WorkerControllerInstanceMemo \<Rightarrow> Payload" where
  "memo_payload m = Payload (unary (length (MemoDeploymentName m)) @ unary (length (MemoBuildId m))
     @ unary (case MemoCreateTime m of None \<Rightarrow> 0 | Some t \<Rightarrow> Suc (int_encode t))
     @ MemoDeploymentName m @ MemoBuildId m)"

definition payload_memo :: "Payload option \<Rightarrow> service_error + WorkerControllerInstanceMemo" where
  "payload_memo p = (case p of
     None \<Rightarrow> Inr \<lparr>MemoDeploymentName = [], MemoBuildId = [], MemoCreateTime = None\<rparr>
   | Some (Payload s) \<Rightarrow>
      (let (n, s) = read_unary s; (b, s) = read_unary s; (t, s) = read_unary s
       in Inr \<lparr>MemoDeploymentName = take n s, MemoBuildId = take b (drop n s),
            MemoCreateTime = (case t of 0 \<Rightarrow> None | Suc t \<Rightarrow> Some (int_decode t))\<rparr>))"

lemma payload_memo_payload: "payload_memo (Some (memo_payload m)) = Inr m"
  by (simp add: payload_memo_def memo_payload_def split: option.split)

text \<open>An instance that has continued as new since it wrote its memo, and one that has not written
  its memo yet.\<close>

definition listed_executions :: "execution list" where
  "listed_executions =
    [\<lparr>ExecutionWorkflowId = ''w'',
      ExecutionMemo = Some (Some (map_ran (\<lambda>_. memo_payload) (updateMemo new_runner))),
      ExecutionStart = Some 5\<rparr>,
     \<lparr>ExecutionWorkflowId = GenerateWorkerControllerInstanceWorkflowID (version_of new_runner),
      ExecutionMemo = None, ExecutionStart = Some 0\<rparr>]"

definition listing_client :: client_env where
  "listing_client = sample_client\<lparr>DecodeMemo := payload_memo,
     ListExecutions := (\<lambda>size token. Inr (listed_executions, ''next''))\<rparr>"

lemma listed_samples: "list_all2 (listed sort memo_payload) listed_executions [new_runner, new_runner]"
proof -
  have "sysRunner (asked_run 2) = new_runner" "updateMemo (sysRunner (asked_run 0)) = updateMemo new_runner"
    by (simp_all add: asked_run_def initial_system_def updateMemo_def)
  moreover have "(sys_step sort)\<^sup>*\<^sup>* (asked_run 0) (asked_run 2)"
    using asked_run_steps [of 0] asked_run_steps [of 1]
    by (auto simp: eval_nat_numeral intro: converse_rtranclp_into_rtranclp)
  ultimately have "listed sort memo_payload (hd listed_executions) new_runner"
    using listed.with_memo [OF asked_run_start(1)] by (fastforce simp: listed_executions_def)
  moreover have "listed sort memo_payload (hd (tl listed_executions)) new_runner"
    by (rule listed.without_memo; code_simp)
  ultimately show ?thesis by (simp add: listed_executions_def)
qed

theorem list_names_instances_witness:
  "\<exists>page. ListWorkerControllerInstances listing_client 10 '''' = Inr (page, ''next'')
    \<and> page ! 0 = instance_summary new_runner \<and> SummaryVersion (page ! 1) = version_of new_runner"
proof -
  have "ListExecutions listing_client (if 10 = 0 then VisibilityMaxPageSize listing_client else 10) ''''
      = Inr (listed_executions, ''next'')"
    by (simp add: listing_client_def)
  from list_names_instances [OF _ this listed_samples] obtain page
    where page: "ListWorkerControllerInstances listing_client 10 '''' = Inr (page, ''next'')"
      "list_all2 describes page (zip listed_executions [new_runner, new_runner])"
    by (auto simp: listing_client_def payload_memo_payload)
  have "WorkerControllerInstanceDelimiter \<notin> set (DeploymentName (version_of new_runner))"
    "WorkerControllerInstanceDelimiter \<notin> set (BuildId (version_of new_runner))" by code_simp+
  with page show ?thesis
    by (auto simp: listed_executions_def list_all2_Cons2 describes_def intro!: exI [of _ page])
qed

end
