(* ===== verification/Providers.thy ===== *)
theory Providers
  imports Activities
begin

text \<open>
  What the compute providers share: the errors they build from the errors of the cloud SDKs, the
  access to their configuration, and the contract of the \<open>ComputeProvider\<close> interface
  (\<open>compute_provider/registry.go\<close>), with the providers that serve tests
  (\<open>compute_provider/test_invoke.go\<close>, \<open>test_worker_set.go\<close>, \<open>test_compute.go\<close>).

  An error is a \<open>raw_error\<close>: its text and what the program asks of it with \<open>errors.Is\<close>,
  \<open>errors.As\<close> and the predicates of the SDKs.  Wrapping by \<open>%w\<close> changes the text only.  A value
  printed by \<open>%q\<close> is put in double quotes.
\<close>

section \<open>Errors\<close>

datatype grpc_code =
    GrpcOK | GrpcCanceled | GrpcUnknown | GrpcInvalidArgument | GrpcDeadlineExceeded | GrpcNotFound
  | GrpcAlreadyExists | GrpcPermissionDenied | GrpcResourceExhausted | GrpcFailedPrecondition
  | GrpcAborted | GrpcOutOfRange | GrpcUnimplemented | GrpcInternal | GrpcUnavailable
  | GrpcDataLoss | GrpcUnauthenticated

record api_error =
  ServerFault :: bool
  ApiErrorCode :: string

record raw_error =
  RawText :: string
  WCIOwned :: bool
  IsCanceled :: bool
  IsDeadlineExceeded :: bool
  IsThrottle :: bool
  IsRetryableConnection :: bool
  ApiError :: "api_error option"
  GrpcStatus :: "(grpc_code \<times> string) option"

definition errorf :: "string \<Rightarrow> raw_error" where
  "errorf msg = \<lparr>RawText = msg, WCIOwned = False, IsCanceled = False, IsDeadlineExceeded = False,
     IsThrottle = False, IsRetryableConnection = False, ApiError = None, GrpcStatus = None\<rparr>"

text \<open>The status that \<open>status.FromError\<close> finds in a wrapped error has the whole text as its message.\<close>

definition with_text :: "string \<Rightarrow> raw_error \<Rightarrow> raw_error" where
  "with_text msg e = e\<lparr>RawText := msg, GrpcStatus := map_option (\<lambda>(c, m). (c, msg)) (GrpcStatus e)\<rparr>"

definition wrapf :: "string \<Rightarrow> raw_error \<Rightarrow> raw_error" where
  "wrapf prefix e = with_text (prefix @ RawText e) e"

definition errWCIOwned :: string where
  "errWCIOwned = ''worker-controller configuration error''"

definition wci_owned :: "string \<Rightarrow> raw_error \<Rightarrow> raw_error" where
  "wci_owned prefix e = (with_text (errWCIOwned @ '': '' @ prefix @ RawText e) e)\<lparr>WCIOwned := True\<rparr>"

definition double_quoted :: "string \<Rightarrow> string" where
  "double_quoted s = CHR 0x22 # s @ [CHR 0x22]"

definition ErrUnsupported :: raw_error where
  "ErrUnsupported = errorf ''unsupported operation''"

text \<open>An error as the activities see it, without and with a class.\<close>

definition unclassed :: "raw_error option \<Rightarrow> provider_error option" where
  "unclassed err = map_option (\<lambda>e. \<lparr>ErrorClass = None, ErrorText = RawText e\<rparr>) err"

definition classed :: "(raw_error option \<Rightarrow> FailureClass) \<Rightarrow> raw_error option \<Rightarrow> provider_error option" where
  "classed classify err = NewProviderError (classify err) (unclassed err)"

lemma wrapf_simps [simp]:
  "WCIOwned (wrapf msg e) = WCIOwned e" "WCIOwned (errorf msg) = False" "WCIOwned (wci_owned msg e)"
  "RawText (errorf msg) = msg"
  by (simp_all add: wrapf_def with_text_def errorf_def wci_owned_def)

lemma unclassed_simps [simp]:
  "unclassed err = None \<longleftrightarrow> err = None" "classed classify err = None \<longleftrightarrow> err = None"
  by (simp_all add: unclassed_def classed_def NewProviderError_def split: option.splits)

lemma class_of_classed:
  "classed classify err = Some pe \<Longrightarrow> ErrorClass pe = Some (classify err)"
  by (auto simp: classed_def NewProviderError_def split: option.splits)

text \<open>\<open>strings.Contains\<close>.\<close>

fun contains :: "string \<Rightarrow> string \<Rightarrow> bool" where
  "contains [] p = (p = [])"
| "contains (c # cs) p = (HasPrefix (c # cs) p \<or> contains cs p)"

section \<open>Configuration\<close>

text \<open>The two forms of a type assertion to a string: with its success, and without.\<close>

definition cfg_string :: "anymap option \<Rightarrow> string \<Rightarrow> string option" where
  "cfg_string cfg key = (case any_at cfg key of Some (VString s) \<Rightarrow> Some s | _ \<Rightarrow> None)"

definition cfg_text :: "anymap option \<Rightarrow> string \<Rightarrow> string" where
  "cfg_text cfg key = (case cfg_string cfg key of Some s \<Rightarrow> s | None \<Rightarrow> '''')"

text \<open>The value of a required key: present, a string and not empty.\<close>

definition cfg_required :: "anymap option \<Rightarrow> string \<Rightarrow> string \<Rightarrow> raw_error + string" where
  "cfg_required cfg key msg = (case cfg_string cfg key of
     None \<Rightarrow> Inl (errorf msg)
   | Some s \<Rightarrow> (if s = '''' then Inl (errorf msg) else Inr s))"

lemma cfg_required_Inr [simp]:
  "cfg_required cfg key msg = Inr s \<longleftrightarrow> cfg_string cfg key = Some s \<and> s \<noteq> ''''"
  by (auto simp: cfg_required_def split: option.splits)

lemma cfg_required_Inl: "cfg_required cfg key msg = Inl e \<Longrightarrow> \<not> WCIOwned e"
  by (auto simp: cfg_required_def split: option.splits if_splits)

section \<open>The contract of the interface\<close>

text \<open>What the interface promises: each of the two operations returns an error under the other
  launch strategy.\<close>

locale provider_contract =
  fixes p :: compute_provider
  assumes invoke_unsupported: "providerLaunchStrategy p = LaunchStrategyWorkerSet \<Longrightarrow>
      providerInvokeWorker p rc cfg \<noteq> None"
    and resize_unsupported: "providerLaunchStrategy p = LaunchStrategyInvoke \<Longrightarrow>
      providerUpdateWorkerSetSize p rc cfg n \<noteq> None"
begin

lemma invoked_by_strategy:
  "providerInvokeWorker p rc cfg = None \<Longrightarrow> providerLaunchStrategy p = LaunchStrategyInvoke"
  using invoke_unsupported by (cases "providerLaunchStrategy p") auto

lemma resized_by_strategy:
  "providerUpdateWorkerSetSize p rc cfg n = None \<Longrightarrow> providerLaunchStrategy p = LaunchStrategyWorkerSet"
  using resize_unsupported by (cases "providerLaunchStrategy p") auto

end

section \<open>Providers for tests\<close>

definition test_validate :: "anymap option \<Rightarrow> raw_error option" where
  "test_validate cfg = (if cfg_string cfg ''illegal_field'' \<noteq> None
     then Some (errorf ''illegal_field found in config'') else None)"

definition test_invoke_provider :: compute_provider where
  "test_invoke_provider = \<lparr>providerLaunchStrategy = LaunchStrategyInvoke,
     providerValidateConfig = (\<lambda>rc cfg. unclassed (test_validate cfg)),
     providerInvokeWorker = (\<lambda>rc cfg. None),
     providerUpdateWorkerSetSize = (\<lambda>rc cfg n. unclassed (Some ErrUnsupported))\<rparr>"

definition test_worker_set_provider :: compute_provider where
  "test_worker_set_provider = \<lparr>providerLaunchStrategy = LaunchStrategyWorkerSet,
     providerValidateConfig = (\<lambda>rc cfg. unclassed (test_validate cfg)),
     providerInvokeWorker = (\<lambda>rc cfg. unclassed (Some ErrUnsupported)),
     providerUpdateWorkerSetSize = (\<lambda>rc cfg n. None)\<rparr>"

interpretation test_invoke: provider_contract test_invoke_provider
  by unfold_locales (simp_all add: test_invoke_provider_def)

interpretation test_worker_set: provider_contract test_worker_set_provider
  by unfold_locales (simp_all add: test_worker_set_provider_def)

section \<open>Observers of the providers for tests\<close>

text \<open>What the observer of each build has seen.  A second observer for a build is a panic.\<close>

type_synonym observers = "(string, (RequestContext \<times> string) list) gomap"

definition SetComputeObserver :: "string \<Rightarrow> observers \<Rightarrow> observers option" where
  "SetComputeObserver buildID obs =
     (if has_key obs buildID then None else Some (AList.update buildID [] obs))"

definition remove_observer :: "string \<Rightarrow> observers \<Rightarrow> observers" where
  "remove_observer buildID obs = AList.delete buildID obs"

definition emitProviderEvent :: "RequestContext \<Rightarrow> string \<Rightarrow> observers \<Rightarrow> observers" where
  "emitProviderEvent rc action obs = (case map_of obs (DeploymentBuildID rc) of
     None \<Rightarrow> obs
   | Some events \<Rightarrow> AList.update (DeploymentBuildID rc) (events @ [(rc, action)]) obs)"

definition observed_validate :: "RequestContext \<Rightarrow> anymap option \<Rightarrow> observers \<Rightarrow> observers" where
  "observed_validate rc cfg obs =
     (if test_validate cfg = None then emitProviderEvent rc ''validate'' obs else obs)"

definition observed_invoke :: "RequestContext \<Rightarrow> observers \<Rightarrow> observers" where
  "observed_invoke rc obs = emitProviderEvent rc ''invoke'' obs"

definition observed_resize :: "RequestContext \<Rightarrow> int \<Rightarrow> observers \<Rightarrow> observers" where
  "observed_resize rc count obs = emitProviderEvent rc (''update-worker-set-size-'' @ show_int count) obs"

text \<open>Each observer sees the actions for its own build, in their order, and no others.\<close>

lemma observed_events:
  "map_of (fold (\<lambda>(rc, action). emitProviderEvent rc action) events obs) b =
    map_option (\<lambda>before. before @ filter (\<lambda>(rc, action). DeploymentBuildID rc = b) events) (map_of obs b)"
proof (induction events arbitrary: obs)
  case (Cons e events)
  then show ?case
    by (cases e) (auto simp: emitProviderEvent_def map_of_update split: option.split)
qed (simp add: option.map_ident)

lemma observer_removed:
  "SetComputeObserver b obs = Some obs' \<Longrightarrow> map_of (remove_observer b obs') c = map_of obs c"
  by (auto simp: SetComputeObserver_def remove_observer_def has_key_iff map_of_update map_of_delete
      split: if_splits)

end
