(* ===== verification/Aws.thy ===== *)
theory Aws
  imports Providers Hook
begin

text \<open>
  The AWS compute providers (\<open>compute_provider/aws.go\<close>, \<open>aws_lambda.go\<close>, \<open>aws_ecs.go\<close>,
  \<open>aws_agentcore.go\<close>): the chain of roles, the check of the external id, the classification of
  failures, and the operations of the three providers.

  The AWS SDK is the record \<open>aws_sdk\<close>; so are \<open>math/rand\<close> and the marshalling of the payload.
  A client is the configuration it is made from.  \<open>Intn\<close> gets the number of the chain that is
  being built (one for the operation, one for the check of the external id), the number of the
  step and its argument.
\<close>

section \<open>The SDK\<close>

record iam_role_request =
  RoleARN :: string
  RoleSessionName :: string
  RoleExternalID :: "string option"

record parsed_arn =
  ArnService :: string
  ArnRegion :: string
  ArnAccountID :: string
  ArnResource :: string

datatype aws_credentials = DefaultCredentials | StaticCredentials string string string

record aws_config =
  ConfigRegion :: string
  ConfigCredentials :: aws_credentials

record assume_role_input =
  InputRoleArn :: string
  InputSessionName :: string
  InputExternalId :: "string option"

record sts_credentials =
  AccessKeyId :: "string option"
  SecretAccessKey :: "string option"
  SessionToken :: "string option"

datatype trace_event = GetConn | WroteRequest bool

record agent_answer =
  AgentTrace :: "trace_event list"
  AgentCallerEnded :: bool
  AgentResult :: "raw_error + int option"

record agent_request =
  AgentRuntimeArn :: string
  AgentAccountId :: string
  AgentPayload :: string
  AgentQualifier :: string

record ecs_services =
  ServiceStatuses :: "string option list"
  FailureReasons :: "string option list"

record aws_sdk =
  Intn :: "nat \<Rightarrow> nat \<Rightarrow> nat \<Rightarrow> nat"
  MarshalPayload :: "string \<Rightarrow> string \<Rightarrow> raw_error + string"
  ParseARN :: "string \<Rightarrow> raw_error + parsed_arn"
  LoadDefaultConfig :: "string \<Rightarrow> raw_error + aws_config"
  AssumeRole :: "aws_config \<Rightarrow> assume_role_input \<Rightarrow> raw_error + sts_credentials option"
  LambdaGetFunction :: "aws_config \<Rightarrow> string \<Rightarrow> raw_error option"
  LambdaInvoke :: "aws_config \<Rightarrow> string \<Rightarrow> raw_error + string option"
  EcsDescribeServices :: "aws_config \<Rightarrow> string \<Rightarrow> string \<Rightarrow> raw_error + ecs_services"
  EcsUpdateService :: "aws_config \<Rightarrow> string \<Rightarrow> string \<Rightarrow> int \<Rightarrow> raw_error option"
  AgentGetEndpoint :: "aws_config \<Rightarrow> string \<Rightarrow> string \<Rightarrow> raw_error option"
  AgentInvoke :: "aws_config \<Rightarrow> agent_request \<Rightarrow> agent_answer"

section \<open>Classification of failures\<close>

definition classifyAWSRejection :: "string \<Rightarrow> FailureClass" where
  "classifyAWSRejection code =
    (if contains code ''NotFound'' then FailureNotFound
     else if contains code ''AccessDenied'' then FailureAccessDenied
     else FailureRejected)"

definition classifyAWSFailure :: "raw_error option \<Rightarrow> FailureClass" where
  "classifyAWSFailure err = (case err of None \<Rightarrow> FailureUnclassified | Some e \<Rightarrow>
     (if IsCanceled e then FailureUnclassified
      else let ownerFault = (if WCIOwned e then FailureInternal else FailureRejected)
       in if IsThrottle e then FailureThrottled
          else (case ApiError e of
            Some a \<Rightarrow>
              (if ServerFault a then FailureUnavailable
               else if WCIOwned e then FailureInternal
               else classifyAWSRejection (ApiErrorCode a))
          | None \<Rightarrow>
              (if IsRetryableConnection e \<or> IsDeadlineExceeded e then FailureUnavailable
               else ownerFault))))"

section \<open>Roles\<close>

definition extractRegionFromARN :: "aws_sdk \<Rightarrow> string \<Rightarrow> raw_error + string" where
  "extractRegionFromARN sdk arn = (case ParseARN sdk arn of
     Inl err \<Rightarrow> Inl err
   | Inr a \<Rightarrow> (if ArnRegion a = '''' then Inl (errorf (''region not found in ARN: '' @ arn))
       else Inr (ArnRegion a)))"

definition validateRoleARN :: "aws_sdk \<Rightarrow> string \<Rightarrow> raw_error option" where
  "validateRoleARN sdk roleARN = (case ParseARN sdk roleARN of
     Inl err \<Rightarrow> Some err
   | Inr a \<Rightarrow>
       (if ArnService a \<noteq> ''iam'' then Some (errorf (''role ARN must be an IAM resource: '' @ roleARN))
        else if \<not> HasPrefix (ArnResource a) ''role/''
        then Some (errorf (''role ARN must reference a role: '' @ roleARN))
        else None))"

definition external_id_input :: "string option \<Rightarrow> string option" where
  "external_id_input eid = (if eid = Some '''' then None else eid)"

definition static_credentials :: "sts_credentials option \<Rightarrow> aws_credentials option" where
  "static_credentials creds = (case creds of None \<Rightarrow> None | Some c \<Rightarrow>
     (case (AccessKeyId c, SecretAccessKey c, SessionToken c) of
        (Some k, Some s, Some t) \<Rightarrow> Some (StaticCredentials k s t)
      | _ \<Rightarrow> None))"

definition assumeRoleWithRequest ::
    "aws_sdk \<Rightarrow> aws_config \<Rightarrow> iam_role_request \<Rightarrow> raw_error + aws_config" where
  "assumeRoleWithRequest sdk cfg req =
    (case AssumeRole sdk cfg \<lparr>InputRoleArn = RoleARN req, InputSessionName = RoleSessionName req,
        InputExternalId = external_id_input (RoleExternalID req)\<rparr> of
       Inl err \<Rightarrow> Inl (wrapf (''failed to assume role '' @ RoleARN req @ '': '') err)
     | Inr creds \<Rightarrow> (case static_credentials creds of
         Some c \<Rightarrow> Inr (cfg\<lparr>ConfigCredentials := c\<rparr>)
       | None \<Rightarrow> Inl (errorf (''AssumeRole for '' @ RoleARN req @ '' returned incomplete credentials''))))"

definition intermediary_step ::
    "aws_sdk \<Rightarrow> iam_role_request \<Rightarrow> aws_config \<Rightarrow> raw_error + aws_config" where
  "intermediary_step sdk req cfg = (case validateRoleARN sdk (RoleARN req) of
     Some err \<Rightarrow> Inl (wci_owned ''invalid intermediary role: '' err)
   | None \<Rightarrow>
      (if RoleSessionName req = ''''
       then Inl (wci_owned '''' (errorf ''empty role session name for intermediary role''))
       else (case assumeRoleWithRequest sdk cfg req of
          Inl err \<Rightarrow> Inl (wci_owned ''error assuming intermediary role: '' err)
        | Inr cfg' \<Rightarrow> Inr cfg')))"

fun intermediary_chain ::
    "aws_sdk \<Rightarrow> nat \<Rightarrow> nat \<Rightarrow> iam_role_request list list \<Rightarrow> aws_config \<Rightarrow> raw_error + aws_config" where
  "intermediary_chain sdk chain i [] cfg = Inr cfg"
| "intermediary_chain sdk chain i (step # steps) cfg =
    (if step = [] then intermediary_chain sdk chain (Suc i) steps cfg
     else (case intermediary_step sdk (step ! Intn sdk chain i (length step)) cfg of
        Inl err \<Rightarrow> Inl err
      | Inr cfg' \<Rightarrow> intermediary_chain sdk chain (Suc i) steps cfg'))"

definition buildBaseAWSConfig ::
    "aws_sdk \<Rightarrow> nat \<Rightarrow> string \<Rightarrow> iam_role_request list list \<Rightarrow> raw_error + aws_config" where
  "buildBaseAWSConfig sdk chain region intermediaryRoles = (case LoadDefaultConfig sdk region of
     Inl err \<Rightarrow> Inl (wci_owned ''failed to load AWS config: '' err)
   | Inr cfg \<Rightarrow> intermediary_chain sdk chain 0 intermediaryRoles cfg)"

abbreviation "managed_workers_session \<equiv> ''managed-workers-aws''"

definition buildAWSConfig ::
    "aws_sdk \<Rightarrow> string \<Rightarrow> string \<Rightarrow> string option \<Rightarrow> iam_role_request list list
      \<Rightarrow> raw_error + aws_config" where
  "buildAWSConfig sdk region roleARN externalID intermediaryRoles =
    (case buildBaseAWSConfig sdk 0 region intermediaryRoles of
       Inl err \<Rightarrow> Inl err
     | Inr cfg \<Rightarrow>
        (if roleARN = '''' then Inr cfg
         else assumeRoleWithRequest sdk cfg \<lparr>RoleARN = roleARN, RoleSessionName = managed_workers_session,
                RoleExternalID = externalID\<rparr>))"

definition bare_assume_input :: "string \<Rightarrow> assume_role_input" where
  "bare_assume_input roleARN = \<lparr>InputRoleArn = roleARN, InputSessionName = managed_workers_session,
     InputExternalId = None\<rparr>"

definition checkExternalIDEnforced :: "aws_sdk \<Rightarrow> aws_config \<Rightarrow> string \<Rightarrow> raw_error option" where
  "checkExternalIDEnforced sdk cfg roleARN = (case AssumeRole sdk cfg (bare_assume_input roleARN) of
     Inr _ \<Rightarrow> Some (errorf (''role '' @ roleARN @ '' does not require the configured external ID; ''
       @ ''update the role'' @ [CHR 0x27] @ ''s trust policy to enforce the aws:ExternalId condition''))
   | Inl err \<Rightarrow>
      (case ApiError err of
         Some a \<Rightarrow> if ApiErrorCode a = ''AccessDenied'' then None
           else Some (wrapf (''unable to verify external ID enforcement for role '' @ roleARN @ '': '') err)
       | None \<Rightarrow> Some (wrapf (''unable to verify external ID enforcement for role '' @ roleARN @ '': '') err)))"

definition verifyExternalIDEnforced ::
    "aws_sdk \<Rightarrow> string \<Rightarrow> string \<Rightarrow> iam_role_request list list \<Rightarrow> raw_error option" where
  "verifyExternalIDEnforced sdk region roleARN intermediaryRoles =
    (case buildBaseAWSConfig sdk 1 region intermediaryRoles of
       Inl err \<Rightarrow> Some err
     | Inr cfg \<Rightarrow> checkExternalIDEnforced sdk cfg roleARN)"

section \<open>What the three providers share\<close>

record aws_settings =
  intermediaryRoles :: "iam_role_request list list"
  requireRoleAndExternalID :: bool

text \<open>The constructors read the dynamic configuration, where there is one.\<close>

definition new_aws_settings :: "(iam_role_request list list \<times> bool) option \<Rightarrow> aws_settings" where
  "new_aws_settings dc = (case dc of
     None \<Rightarrow> \<lparr>intermediaryRoles = [], requireRoleAndExternalID = True\<rparr>
   | Some (roles, required) \<Rightarrow> \<lparr>intermediaryRoles = roles, requireRoleAndExternalID = required\<rparr>)"

definition require_role :: "aws_settings \<Rightarrow> string \<Rightarrow> anymap option \<Rightarrow> raw_error option" where
  "require_role s name cfg =
    (if \<not> requireRoleAndExternalID s then None
     else if cfg_text cfg ''role'' = ''''
     then Some (errorf (name @ '' compute provider requires '' @ double_quoted ''role'' @ '' to be configured''))
     else if cfg_text cfg ''role_external_id'' = ''''
     then Some (errorf (name @ '' compute provider requires '' @ double_quoted ''role_external_id''
            @ '' to be configured''))
     else None)"

definition validate_optional_role :: "aws_sdk \<Rightarrow> anymap option \<Rightarrow> raw_error + string" where
  "validate_optional_role sdk cfg =
    (if cfg_text cfg ''role'' = '''' then Inr ''''
     else (case validateRoleARN sdk (cfg_text cfg ''role'') of
        Some err \<Rightarrow> Inl err
      | None \<Rightarrow> Inr (cfg_text cfg ''role'')))"

definition optional_external_id :: "anymap option \<Rightarrow> string option" where
  "optional_external_id cfg = (case cfg_string cfg ''role_external_id'' of
     None \<Rightarrow> None | Some eid \<Rightarrow> (if eid = '''' then None else Some eid))"

text \<open>The end of the functions that make a client: the role, the external id, the chain.\<close>

definition customer_config ::
    "aws_sdk \<Rightarrow> aws_settings \<Rightarrow> anymap option \<Rightarrow> string \<Rightarrow> raw_error + aws_config" where
  "customer_config sdk s cfg region = (case validate_optional_role sdk cfg of
     Inl err \<Rightarrow> Inl err
   | Inr roleARN \<Rightarrow>
       buildAWSConfig sdk region roleARN (optional_external_id cfg) (intermediaryRoles s))"

section \<open>Lambda\<close>

definition getLambdaClientAndARN ::
    "aws_sdk \<Rightarrow> aws_settings \<Rightarrow> anymap option \<Rightarrow> raw_error + aws_config \<times> string" where
  "getLambdaClientAndARN sdk s cfg =
    (case cfg_required cfg ''arn'' ''AWS Lambda Function ARN not found or invalid'' of
       Inl err \<Rightarrow> Inl err
     | Inr arn \<Rightarrow> (case extractRegionFromARN sdk arn of
         Inl err \<Rightarrow> Inl err
       | Inr region \<Rightarrow> (case customer_config sdk s cfg region of
           Inl err \<Rightarrow> Inl err
         | Inr c \<Rightarrow> Inr (c, arn))))"

definition lambda_checkExternalID :: "aws_sdk \<Rightarrow> aws_settings \<Rightarrow> anymap option \<Rightarrow> string \<Rightarrow> raw_error option" where
  "lambda_checkExternalID sdk s cfg arn =
    (if cfg_text cfg ''role'' = '''' \<or> cfg_text cfg ''role_external_id'' = '''' then None
     else (case extractRegionFromARN sdk arn of
        Inl err \<Rightarrow> Some (wrapf (''cannot verify external ID enforcement: failed to extract region from Lambda ARN ''
          @ double_quoted arn @ '': '') err)
      | Inr region \<Rightarrow> verifyExternalIDEnforced sdk region (cfg_text cfg ''role'') (intermediaryRoles s)))"

definition lambda_validate :: "aws_sdk \<Rightarrow> aws_settings \<Rightarrow> anymap option \<Rightarrow> raw_error option" where
  "lambda_validate sdk s cfg = (case require_role s ''AWS Lambda'' cfg of
     Some err \<Rightarrow> Some err
   | None \<Rightarrow> (case getLambdaClientAndARN sdk s cfg of
       Inl err \<Rightarrow> Some (wrapf ''cannot connect to the compute provider: '' err)
     | Inr (c, arn) \<Rightarrow> (case LambdaGetFunction sdk c arn of
         Some err \<Rightarrow> Some (wrapf ''cannot access the compute resource: '' err)
       | None \<Rightarrow>
           map_option (wrapf ''IAM role trust policy does not enforce ExternalID condition: '')
             (lambda_checkExternalID sdk s cfg arn))))"

definition lambda_invokeWorker :: "aws_sdk \<Rightarrow> aws_settings \<Rightarrow> anymap option \<Rightarrow> raw_error option" where
  "lambda_invokeWorker sdk s cfg = (case getLambdaClientAndARN sdk s cfg of
     Inl err \<Rightarrow> Some err
   | Inr (c, arn) \<Rightarrow> (case LambdaInvoke sdk c arn of
       Inl err \<Rightarrow> Some (wrapf ''failed to invoke lambda: '' err)
     | Inr (Some functionError) \<Rightarrow> Some (errorf (''failed to invoke lambda: '' @ functionError))
     | Inr None \<Rightarrow> None))"

definition lambda_provider :: "aws_sdk \<Rightarrow> aws_settings \<Rightarrow> compute_provider" where
  "lambda_provider sdk s = \<lparr>providerLaunchStrategy = LaunchStrategyInvoke,
     providerValidateConfig = (\<lambda>rc cfg. unclassed (lambda_validate sdk s cfg)),
     providerInvokeWorker = (\<lambda>rc cfg. classed classifyAWSFailure (lambda_invokeWorker sdk s cfg)),
     providerUpdateWorkerSetSize = (\<lambda>rc cfg n. unclassed (Some ErrUnsupported))\<rparr>"

section \<open>ECS\<close>

definition ecs_region :: "aws_sdk \<Rightarrow> anymap option \<Rightarrow> string \<Rightarrow> raw_error + string" where
  "ecs_region sdk cfg cluster =
    (if HasPrefix cluster ''arn:'' then (case extractRegionFromARN sdk cluster of
        Inl err \<Rightarrow> Inl (wrapf ''failed to extract region from cluster ARN: '' err)
      | Inr region \<Rightarrow> Inr region)
     else cfg_required cfg ''region'' ''region must be specified when cluster is not an ARN'')"

definition getECSClientAndParams ::
    "aws_sdk \<Rightarrow> aws_settings \<Rightarrow> anymap option \<Rightarrow> raw_error + aws_config \<times> string \<times> string" where
  "getECSClientAndParams sdk s cfg =
    (case cfg_required cfg ''cluster'' ''ECS cluster ARN or name not found or invalid'' of
       Inl err \<Rightarrow> Inl err
     | Inr cluster \<Rightarrow>
        (case cfg_required cfg ''service'' ''ECS service name or ARN not found or invalid'' of
           Inl err \<Rightarrow> Inl err
         | Inr service \<Rightarrow> (case ecs_region sdk cfg cluster of
             Inl err \<Rightarrow> Inl err
           | Inr region \<Rightarrow> (case customer_config sdk s cfg region of
               Inl err \<Rightarrow> Inl err
             | Inr c \<Rightarrow> Inr (c, cluster, service)))))"

definition ecs_check_service :: "string \<Rightarrow> string \<Rightarrow> ecs_services \<Rightarrow> raw_error option" where
  "ecs_check_service service cluster out = (case ServiceStatuses out of
     [] \<Rightarrow>
       (let msg = ''ECS service '' @ double_quoted service @ '' not found in cluster '' @ double_quoted cluster
        in case FailureReasons out of
             Some reason # rest \<Rightarrow> Some (errorf (msg @ '': '' @ reason))
           | _ \<Rightarrow> Some (errorf msg))
   | status # rest \<Rightarrow>
       (if status = Some ''ACTIVE'' then None
        else Some (errorf (''ECS service '' @ double_quoted service @ '' is not ACTIVE''))))"

definition ecs_check_region :: "aws_sdk \<Rightarrow> anymap option \<Rightarrow> string \<Rightarrow> raw_error + string" where
  "ecs_check_region sdk cfg cluster =
    (if HasPrefix cluster ''arn:'' then (case extractRegionFromARN sdk cluster of
        Inl err \<Rightarrow> Inl (wrapf (''cannot verify external ID enforcement: failed to extract region from cluster ARN ''
          @ double_quoted cluster @ '': '') err)
      | Inr region \<Rightarrow> Inr region)
     else Inr (cfg_text cfg ''region''))"

definition ecs_checkExternalID ::
    "aws_sdk \<Rightarrow> aws_settings \<Rightarrow> anymap option \<Rightarrow> string \<Rightarrow> raw_error option" where
  "ecs_checkExternalID sdk s cfg cluster =
    (if cfg_text cfg ''role'' = '''' \<or> cfg_text cfg ''role_external_id'' = '''' then None
     else (case ecs_check_region sdk cfg cluster of
        Inl err \<Rightarrow> Some err
      | Inr region \<Rightarrow>
         (if region = '''' then Some (errorf (''cannot verify external ID enforcement for role ''
             @ double_quoted (cfg_text cfg ''role'') @ '': region is required but could not be determined; ''
             @ ''provide a region in the config or use a cluster ARN that contains a region''))
          else verifyExternalIDEnforced sdk region (cfg_text cfg ''role'') (intermediaryRoles s))))"

definition ecs_validate :: "aws_sdk \<Rightarrow> aws_settings \<Rightarrow> anymap option \<Rightarrow> raw_error option" where
  "ecs_validate sdk s cfg = (case require_role s ''ECS'' cfg of
     Some err \<Rightarrow> Some err
   | None \<Rightarrow> (case getECSClientAndParams sdk s cfg of
       Inl err \<Rightarrow> Some err
     | Inr (c, cluster, service) \<Rightarrow> (case EcsDescribeServices sdk c cluster service of
         Inl err \<Rightarrow> Some (wrapf ''ECS DescribeServices failed: '' err)
       | Inr out \<Rightarrow> (case ecs_check_service service cluster out of
           Some err \<Rightarrow> Some err
         | None \<Rightarrow> ecs_checkExternalID sdk s cfg cluster))))"

definition ecs_updateWorkerSetSize ::
    "aws_sdk \<Rightarrow> aws_settings \<Rightarrow> anymap option \<Rightarrow> int \<Rightarrow> raw_error option" where
  "ecs_updateWorkerSetSize sdk s cfg workers = (case getECSClientAndParams sdk s cfg of
     Inl err \<Rightarrow> Some err
   | Inr (c, cluster, service) \<Rightarrow>
       map_option (wrapf ''ECS UpdateService failed: '') (EcsUpdateService sdk c cluster service workers))"

definition ecs_provider :: "aws_sdk \<Rightarrow> aws_settings \<Rightarrow> compute_provider" where
  "ecs_provider sdk s = \<lparr>providerLaunchStrategy = LaunchStrategyWorkerSet,
     providerValidateConfig = (\<lambda>rc cfg. unclassed (ecs_validate sdk s cfg)),
     providerInvokeWorker = (\<lambda>rc cfg. unclassed (Some ErrUnsupported)),
     providerUpdateWorkerSetSize = (\<lambda>rc cfg n.
       classed classifyAWSFailure (ecs_updateWorkerSetSize sdk s cfg n))\<rparr>"

section \<open>AgentCore\<close>

record AgentCoreParams =
  AgentRole :: string
  AgentExternalID :: "string option"
  RuntimeID :: string
  EndpointName :: string
  AccountID :: string
  AgentRegion :: string

definition parseAgentCoreEndpointARN ::
    "aws_sdk \<Rightarrow> string \<Rightarrow> raw_error + string \<times> string \<times> string \<times> string" where
  "parseAgentCoreEndpointARN sdk endpointARN = (case ParseARN sdk endpointARN of
     Inl err \<Rightarrow> Inl (wrapf (''failed to parse AgentCore endpoint ARN '' @ double_quoted endpointARN @ '': '') err)
   | Inr parsed \<Rightarrow>
      (if ArnRegion parsed = '''' then Inl (errorf (''AgentCore endpoint ARN '' @ double_quoted endpointARN
          @ '' does not contain a region''))
       else if ArnAccountID parsed = '''' then Inl (errorf (''AgentCore endpoint ARN ''
          @ double_quoted endpointARN @ '' does not contain an account id''))
       else (case split_on (CHR ''/'') (ArnResource parsed) of
          [p0, p1, p2, p3] \<Rightarrow>
            (if p0 \<noteq> ''runtime'' \<or> p2 \<noteq> ''runtime-endpoint'' \<or> p1 = '''' \<or> p3 = ''''
             then Inl (errorf (''AgentCore Endpoint ARN '' @ double_quoted endpointARN
                @ '' does not have correct pattern''))
             else Inr (p1, p3, ArnAccountID parsed, ArnRegion parsed))
        | _ \<Rightarrow> Inl (errorf (''AgentCore Endpoint ARN '' @ double_quoted endpointARN
                @ '' does not have correct pattern'')))))"

definition resolveParams :: "aws_sdk \<Rightarrow> anymap option \<Rightarrow> raw_error + AgentCoreParams" where
  "resolveParams sdk cfg =
    (case cfg_required cfg ''endpoint_arn'' ''AWS AgentCore endpoint ARN not found or invalid'' of
       Inl err \<Rightarrow> Inl err
     | Inr endpointARN \<Rightarrow> (case parseAgentCoreEndpointARN sdk endpointARN of
         Inl err \<Rightarrow> Inl err
       | Inr (runtimeID, endpointName, accountID, region) \<Rightarrow>
          (case validate_optional_role sdk cfg of
             Inl err \<Rightarrow> Inl err
           | Inr roleARN \<Rightarrow> Inr \<lparr>AgentRole = roleARN, AgentExternalID = optional_external_id cfg,
               RuntimeID = runtimeID, EndpointName = endpointName, AccountID = accountID,
               AgentRegion = region\<rparr>)))"

definition getAgentClientAndParams ::
    "aws_sdk \<Rightarrow> aws_settings \<Rightarrow> anymap option \<Rightarrow> raw_error + aws_config \<times> AgentCoreParams" where
  "getAgentClientAndParams sdk s cfg = (case resolveParams sdk cfg of
     Inl err \<Rightarrow> Inl err
   | Inr params \<Rightarrow>
      (case buildAWSConfig sdk (AgentRegion params) (AgentRole params) (AgentExternalID params)
              (intermediaryRoles s) of
         Inl err \<Rightarrow> Inl err
       | Inr c \<Rightarrow> Inr (c, params)))"

definition agent_checkExternalID ::
    "aws_sdk \<Rightarrow> aws_settings \<Rightarrow> anymap option \<Rightarrow> string \<Rightarrow> raw_error option" where
  "agent_checkExternalID sdk s cfg region =
    (if cfg_text cfg ''role'' = '''' \<or> cfg_text cfg ''role_external_id'' = '''' then None
     else if region = '''' then Some (errorf (''cannot verify external ID enforcement for role ''
       @ double_quoted (cfg_text cfg ''role'') @ '': region is required''))
     else verifyExternalIDEnforced sdk region (cfg_text cfg ''role'') (intermediaryRoles s))"

definition agent_validate :: "aws_sdk \<Rightarrow> aws_settings \<Rightarrow> anymap option \<Rightarrow> raw_error option" where
  "agent_validate sdk s cfg = (case require_role s ''AWS AgentCore'' cfg of
     Some err \<Rightarrow> Some err
   | None \<Rightarrow>
      (if cfg_text cfg ''endpoint_arn'' = '''' then Some (errorf (''AWS AgentCore compute provider requires ''
          @ double_quoted ''endpoint_arn'' @ '' to be configured''))
       else (case getAgentClientAndParams sdk s cfg of
          Inl err \<Rightarrow> Some (wrapf ''cannot connect to the compute provider: '' err)
        | Inr (c, params) \<Rightarrow> (case AgentGetEndpoint sdk c (RuntimeID params) (EndpointName params) of
            Some err \<Rightarrow> Some (wrapf ''cannot access the compute resource: '' err)
          | None \<Rightarrow>
              map_option (wrapf ''IAM role trust policy does not enforce ExternalID condition: '')
                (agent_checkExternalID sdk s cfg (AgentRegion params))))))"

text \<open>The two hooks of the HTTP trace store into the flag in the order in which they fire.\<close>

definition requestSent :: "trace_event list \<Rightarrow> bool" where
  "requestSent trace = fold (\<lambda>ev sent. case ev of
     GetConn \<Rightarrow> False | WroteRequest ok \<Rightarrow> (if ok then True else sent)) trace False"

definition agent_result :: "agent_answer \<Rightarrow> raw_error option" where
  "agent_result answer = (case AgentResult answer of
     Inl err \<Rightarrow>
       (if requestSent (AgentTrace answer) \<and> IsDeadlineExceeded err \<and> \<not> AgentCallerEnded answer then None
        else Some (wrapf ''failed to invoke AgentCore runtime: '' err))
   | Inr None \<Rightarrow> None
   | Inr (Some code) \<Rightarrow>
       (if code < 200 \<or> code \<ge> 300
        then Some (errorf (''failed to invoke AgentCore runtime: status code '' @ show_int code))
        else None))"

definition agent_invokeWorker ::
    "aws_sdk \<Rightarrow> aws_settings \<Rightarrow> RequestContext \<Rightarrow> anymap option \<Rightarrow> raw_error option" where
  "agent_invokeWorker sdk s rc cfg = (case getAgentClientAndParams sdk s cfg of
     Inl err \<Rightarrow> Some err
   | Inr (c, params) \<Rightarrow>
      (case MarshalPayload sdk (RequestDeploymentName rc) (DeploymentBuildID rc) of
         Inl err \<Rightarrow> Some (wrapf ''failed to marshal AgentCore invoke payload: '' err)
       | Inr payload \<Rightarrow> agent_result (AgentInvoke sdk c
           \<lparr>AgentRuntimeArn = RuntimeID params, AgentAccountId = AccountID params,
            AgentPayload = payload, AgentQualifier = EndpointName params\<rparr>)))"

definition agentcore_provider :: "aws_sdk \<Rightarrow> aws_settings \<Rightarrow> compute_provider" where
  "agentcore_provider sdk s = \<lparr>providerLaunchStrategy = LaunchStrategyInvoke,
     providerValidateConfig = (\<lambda>rc cfg. unclassed (agent_validate sdk s cfg)),
     providerInvokeWorker = (\<lambda>rc cfg. classed classifyAWSFailure (agent_invokeWorker sdk s rc cfg)),
     providerUpdateWorkerSetSize = (\<lambda>rc cfg n. unclassed (Some ErrUnsupported))\<rparr>"

section \<open>The contract of the interface\<close>

interpretation lambda: provider_contract "lambda_provider sdk s" for sdk s
  by unfold_locales (simp_all add: lambda_provider_def)

interpretation ecs: provider_contract "ecs_provider sdk s" for sdk s
  by unfold_locales (simp_all add: ecs_provider_def)

interpretation agentcore: provider_contract "agentcore_provider sdk s" for sdk s
  by unfold_locales (simp_all add: agentcore_provider_def)

section \<open>Whose fault a failure is\<close>






text \<open>The error that ends the worker controller's own chain of roles, where it fails.\<close>

definition own_chain_error :: "aws_sdk \<Rightarrow> aws_settings \<Rightarrow> string option \<Rightarrow> raw_error option" where
  "own_chain_error sdk s region = (case region of None \<Rightarrow> None
   | Some r \<Rightarrow> (case buildBaseAWSConfig sdk 0 r (intermediaryRoles s) of Inl e \<Rightarrow> Some e | Inr c \<Rightarrow> None))"









text \<open>The error of an operation is the sentinel's exactly when its own chain fails, and then it is the
  error of the chain.\<close>

definition blamed :: "aws_sdk \<Rightarrow> aws_settings \<Rightarrow> string option \<Rightarrow> raw_error \<Rightarrow> bool" where
  "blamed sdk s region e \<longleftrightarrow> (case own_chain_error sdk s region of
     Some e' \<Rightarrow> e = e' \<and> WCIOwned e | None \<Rightarrow> \<not> WCIOwned e)"



lemma blamed_None [simp]: "blamed sdk s None e \<longleftrightarrow> \<not> WCIOwned e"
  by (simp add: blamed_def own_chain_error_def)











section \<open>What a validated configuration went through\<close>

lemma required_role:
  assumes "requireRoleAndExternalID s" and "require_role s name cfg = None"
  shows "\<exists>role eid. cfg_string cfg ''role'' = Some role \<and> cfg_string cfg ''role_external_id'' = Some eid
    \<and> role \<noteq> '''' \<and> eid \<noteq> ''''"
  using assms by (auto simp: require_role_def cfg_text_def split: if_splits option.splits)

lemma customer_config_assumed:
  assumes "customer_config sdk s cfg region = Inr c"
    and "cfg_string cfg ''role'' = Some role" "cfg_string cfg ''role_external_id'' = Some eid"
    and "role \<noteq> ''''" "eid \<noteq> ''''"
  shows "validateRoleARN sdk role = None
    \<and> (\<exists>base creds. buildBaseAWSConfig sdk 0 region (intermediaryRoles s) = Inr base
        \<and> AssumeRole sdk base \<lparr>InputRoleArn = role, InputSessionName = managed_workers_session,
            InputExternalId = Some eid\<rparr> = Inr creds)"
  using assms by (auto simp: customer_config_def validate_optional_role_def optional_external_id_def
      cfg_text_def buildAWSConfig_def assumeRoleWithRequest_def external_id_input_def
      split: sum.splits option.splits if_splits)

lemma agent_client_customer:
  "getAgentClientAndParams sdk s cfg = Inr (c, params) \<Longrightarrow>
    customer_config sdk s cfg (AgentRegion params) = Inr c"
  by (auto simp: getAgentClientAndParams_def resolveParams_def customer_config_def split: sum.splits)

lemma verified_denied:
  assumes "verifyExternalIDEnforced sdk region role roles = None"
  shows "\<exists>base err a. buildBaseAWSConfig sdk 1 region roles = Inr base
    \<and> AssumeRole sdk base (bare_assume_input role) = Inl err
    \<and> ApiError err = Some a \<and> ApiErrorCode a = ''AccessDenied''"
  using assms by (auto simp: verifyExternalIDEnforced_def checkExternalIDEnforced_def
      split: sum.splits option.splits if_splits)

lemma lambda_validated:
  assumes "lambda_validate sdk s cfg = None" "cfg_text cfg ''role'' \<noteq> ''''"
    "cfg_text cfg ''role_external_id'' \<noteq> ''''"
  shows "\<exists>region c. customer_config sdk s cfg region = Inr c"
    and "\<exists>region. verifyExternalIDEnforced sdk region (cfg_text cfg ''role'') (intermediaryRoles s) = None"
  using assms by (auto simp: lambda_validate_def getLambdaClientAndARN_def lambda_checkExternalID_def
      split: option.splits sum.splits if_splits)

lemma ecs_validated:
  assumes "ecs_validate sdk s cfg = None" "cfg_text cfg ''role'' \<noteq> ''''"
    "cfg_text cfg ''role_external_id'' \<noteq> ''''"
  shows "\<exists>region c. customer_config sdk s cfg region = Inr c"
    and "\<exists>region. verifyExternalIDEnforced sdk region (cfg_text cfg ''role'') (intermediaryRoles s) = None"
  using assms by (auto simp: ecs_validate_def getECSClientAndParams_def ecs_checkExternalID_def
      split: option.splits sum.splits if_splits)

lemma agent_validated:
  assumes "agent_validate sdk s cfg = None" "cfg_text cfg ''role'' \<noteq> ''''"
    "cfg_text cfg ''role_external_id'' \<noteq> ''''"
  shows "\<exists>region c. customer_config sdk s cfg region = Inr c"
    and "\<exists>region. verifyExternalIDEnforced sdk region (cfg_text cfg ''role'') (intermediaryRoles s) = None"
  using assms by (auto simp: agent_validate_def agent_checkExternalID_def
      dest: agent_client_customer split: option.splits sum.splits if_splits)

section \<open>Properties\<close>


text \<open>C22: A configuration that an AWS provider accepts where role and external id are required
  cannot be used by a confused deputy: it names an IAM role and an external id, the role could be
  assumed with that id from the end of the worker controller's chain, and assuming it without the
  id was denied.\<close>

theorem validated_roles_enforce_external_id:
  assumes "p \<in> {lambda_provider sdk s, ecs_provider sdk s, agentcore_provider sdk s}"
    and "requireRoleAndExternalID s" and "providerValidateConfig p rc cfg = None"
  shows "\<exists>role eid. cfg_string cfg ''role'' = Some role \<and> cfg_string cfg ''role_external_id'' = Some eid
    \<and> role \<noteq> '''' \<and> eid \<noteq> '''' \<and> validateRoleARN sdk role = None
    \<and> (\<exists>region base creds. buildBaseAWSConfig sdk 0 region (intermediaryRoles s) = Inr base
        \<and> AssumeRole sdk base \<lparr>InputRoleArn = role, InputSessionName = managed_workers_session,
            InputExternalId = Some eid\<rparr> = Inr creds)
    \<and> (\<exists>region base err a. buildBaseAWSConfig sdk 1 region (intermediaryRoles s) = Inr base
        \<and> AssumeRole sdk base (bare_assume_input role) = Inl err
        \<and> ApiError err = Some a \<and> ApiErrorCode a = ''AccessDenied'')"
proof -
  from assms consider (lambda) "lambda_validate sdk s cfg = None"
    | (ecs) "ecs_validate sdk s cfg = None" | (agent) "agent_validate sdk s cfg = None"
    by (auto simp: lambda_provider_def ecs_provider_def agentcore_provider_def)
  note validated = this
  then obtain name where "require_role s name cfg = None"
    by cases (auto simp: lambda_validate_def ecs_validate_def agent_validate_def split: option.splits)
  from required_role [OF assms(2) this] obtain role eid where
    re: "cfg_string cfg ''role'' = Some role" "cfg_string cfg ''role_external_id'' = Some eid"
      "role \<noteq> ''''" "eid \<noteq> ''''" by blast
  then have "cfg_text cfg ''role'' \<noteq> ''''" "cfg_text cfg ''role_external_id'' \<noteq> ''''" "role = cfg_text cfg ''role''"
    by (simp_all add: cfg_text_def)
  note ne = this
  from validated have "(\<exists>region c. customer_config sdk s cfg region = Inr c)
    \<and> (\<exists>region. verifyExternalIDEnforced sdk region role (intermediaryRoles s) = None)"
  proof cases
    case lambda from lambda_validated [OF this ne(1,2)] show ?thesis by (simp add: ne(3))
  next
    case ecs from ecs_validated [OF this ne(1,2)] show ?thesis by (simp add: ne(3))
  next
    case agent from agent_validated [OF this ne(1,2)] show ?thesis by (simp add: ne(3))
  qed
  then obtain region c region' where "customer_config sdk s cfg region = Inr c"
    "verifyExternalIDEnforced sdk region' role (intermediaryRoles s) = None" by blast
  from customer_config_assumed [OF this(1) re] verified_denied [OF this(2)] re
  show ?thesis by blast
qed

text \<open>What the trace has to show: after the last connection was taken, a request was written.\<close>

definition sent_on_last_connection :: "trace_event list \<Rightarrow> bool" where
  "sent_on_last_connection trace \<longleftrightarrow> WroteRequest True \<in> set (takeWhile (\<lambda>ev. ev \<noteq> GetConn) (rev trace))"

lemma requestSent_last_connection: "requestSent trace \<longleftrightarrow> sent_on_last_connection trace"
proof (induction trace rule: rev_induct)
  case (snoc ev trace)
  then show ?case
    by (cases ev) (auto simp: requestSent_def sent_on_last_connection_def)
qed (simp add: requestSent_def sent_on_last_connection_def)

text \<open>An AgentCore invocation counts as done exactly when the configuration resolves, and the
  call was answered with no status or one of the 200s, or it ran into the deadline although the
  caller's own time was not over, after the request had been written on the last connection.\<close>

theorem agentcore_invocation_counts:
  "providerInvokeWorker (agentcore_provider sdk s) rc cfg = None \<longleftrightarrow>
    (\<exists>c params payload answer. getAgentClientAndParams sdk s cfg = Inr (c, params)
      \<and> MarshalPayload sdk (RequestDeploymentName rc) (DeploymentBuildID rc) = Inr payload
      \<and> answer = AgentInvoke sdk c \<lparr>AgentRuntimeArn = RuntimeID params, AgentAccountId = AccountID params,
           AgentPayload = payload, AgentQualifier = EndpointName params\<rparr>
      \<and> (AgentResult answer = Inr None
         \<or> (\<exists>code. AgentResult answer = Inr (Some code) \<and> 200 \<le> code \<and> code < 300)
         \<or> (\<exists>err. AgentResult answer = Inl err \<and> IsDeadlineExceeded err \<and> \<not> AgentCallerEnded answer
              \<and> sent_on_last_connection (AgentTrace answer))))"
proof -
  have "agent_result answer = None \<longleftrightarrow> AgentResult answer = Inr None
      \<or> (\<exists>code. AgentResult answer = Inr (Some code) \<and> 200 \<le> code \<and> code < 300)
      \<or> (\<exists>err. AgentResult answer = Inl err \<and> IsDeadlineExceeded err \<and> \<not> AgentCallerEnded answer
          \<and> sent_on_last_connection (AgentTrace answer))" for answer
    by (auto simp: agent_result_def requestSent_last_connection not_less split: sum.splits option.splits)
  then show ?thesis
    by (auto simp: agentcore_provider_def agent_invokeWorker_def split: sum.splits)
qed

text \<open>A status that is not one of the 200s has no modelled API error, so it is classed as a
  rejection of the customer's configuration, a failure of the server included.\<close>

lemma agentcore_status_rejected:
  assumes "AgentResult answer = Inr (Some code)" and "code \<ge> 300"
  shows "\<exists>e. agent_result answer = Some e \<and> classifyAWSFailure (Some e) = FailureRejected"
  using assms by (simp add: agent_result_def classifyAWSFailure_def errorf_def Let_def)

section \<open>A small SDK\<close>

text \<open>It parses ARNs by their six sections, lets every role be assumed but the customer's without
  its external id, and knows one function.\<close>

definition parse_arn :: "string \<Rightarrow> raw_error + parsed_arn" where
  "parse_arn arn = (case split_on (CHR '':'') arn of
     p # part # service # region # account # resource # rest \<Rightarrow>
       (if p = ''arn'' then Inr \<lparr>ArnService = service, ArnRegion = region, ArnAccountID = account,
          ArnResource = resource\<rparr> else Inl (errorf ''arn: invalid prefix''))
   | _ \<Rightarrow> Inl (errorf ''arn: not enough sections''))"

definition denied :: raw_error where
  "denied = (errorf ''denied'')\<lparr>ApiError := Some \<lparr>ServerFault = False, ApiErrorCode = ''AccessDenied''\<rparr>\<rparr>"

definition sample_role :: string where
  "sample_role = ''arn:aws:iam::1:role/customer''"

definition sample_aws :: aws_sdk where
  "sample_aws = \<lparr>Intn = (\<lambda>chain i n. 0), MarshalPayload = (\<lambda>a b. Inr ''{}''), ParseARN = parse_arn,
     LoadDefaultConfig = (\<lambda>region. Inr \<lparr>ConfigRegion = region, ConfigCredentials = DefaultCredentials\<rparr>),
     AssumeRole = (\<lambda>c i. if InputRoleArn i = sample_role \<and> InputExternalId i \<noteq> Some ''id''
       then Inl denied
       else Inr (Some \<lparr>AccessKeyId = Some ''k'', SecretAccessKey = Some ''s'', SessionToken = Some ''t''\<rparr>)),
     LambdaGetFunction = (\<lambda>c a. None), LambdaInvoke = (\<lambda>c a. Inr None),
     EcsDescribeServices = (\<lambda>c a b. Inr \<lparr>ServiceStatuses = [], FailureReasons = []\<rparr>),
     EcsUpdateService = (\<lambda>c a b n. None), AgentGetEndpoint = (\<lambda>c a b. None),
     AgentInvoke = (\<lambda>c r. \<lparr>AgentTrace = [], AgentCallerEnded = False, AgentResult = Inr None\<rparr>)\<rparr>"

definition sample_aws_settings :: aws_settings where
  "sample_aws_settings = new_aws_settings (Some
     ([[\<lparr>RoleARN = ''arn:aws:iam::2:role/hop'', RoleSessionName = ''hop'', RoleExternalID = None\<rparr>]], True))"

definition sample_lambda_config :: anymap where
  "sample_lambda_config = [(''arn'', VString ''arn:aws:lambda:eu:1:function:f''),
     (''role'', VString sample_role), (''role_external_id'', VString ''id'')]"

definition sample_request_context :: RequestContext where
  "sample_request_context = \<lparr>NamespaceName = ''ns'', RequestDeploymentName = ''d'', DeploymentBuildID = ''b''\<rparr>"

theorem validated_roles_enforce_external_id_witness:
  "validateRoleARN sample_aws sample_role = None
    \<and> (\<exists>region base err. buildBaseAWSConfig sample_aws 1 region (intermediaryRoles sample_aws_settings) = Inr base
        \<and> AssumeRole sample_aws base (bare_assume_input sample_role) = Inl err)"
proof -
  have "requireRoleAndExternalID sample_aws_settings"
    "providerValidateConfig (lambda_provider sample_aws sample_aws_settings) sample_request_context
       (Some sample_lambda_config) = None"
    "cfg_string (Some sample_lambda_config) ''role'' = Some sample_role"
    by code_simp+
  with validated_roles_enforce_external_id [OF insertI1 this(1,2)] show ?thesis by auto
qed




end
