(* ===== verification/Gcp.thy ===== *)
theory Gcp
  imports Providers
begin

text \<open>
  The GCP compute provider (\<open>compute_provider/gcp.go\<close>, \<open>gcp_cloudrun.go\<close>): the classification of
  failures, the chain of impersonated service accounts, and the operations on a worker pool.

  The SDK is the record \<open>gcp_sdk\<close>.  A token source is the way it was made, and a client the token
  source it was made with.  \<open>ResolveChain\<close> is the installed chain provider; the default one is
  \<open>NoopResolveChain\<close>.
\<close>

section \<open>Classification of failures\<close>

text \<open>The number that follows a text, if it has three digits.\<close>

definition status_after :: "string \<Rightarrow> string \<Rightarrow> int option" where
  "status_after p s = (if \<not> HasPrefix s p then None
     else (case drop (length p) s of
        a # b # c # rest \<Rightarrow>
          (if is_digit a \<and> is_digit b \<and> is_digit c
           then Some (100 * digit_val a + 10 * digit_val b + digit_val c) else None)
      | _ \<Rightarrow> None))"

text \<open>The leftmost match of the regular expression \<open>upstreamStatusRE\<close>.\<close>

fun upstream_status :: "string \<Rightarrow> int option" where
  "upstream_status [] = None"
| "upstream_status (c # cs) = (case status_after ''status code '' (c # cs) of
     Some n \<Rightarrow> Some n
   | None \<Rightarrow> (case status_after ''cannot fetch token: '' (c # cs) of
       Some n \<Rightarrow> Some n
     | None \<Rightarrow> upstream_status cs))"

definition credentialFetchStatus :: "string \<Rightarrow> int option" where
  "credentialFetchStatus msg =
    (if \<not> contains msg ''per-RPC creds failed'' then None else upstream_status msg)"

definition classifyGCPFailure :: "raw_error option \<Rightarrow> FailureClass" where
  "classifyGCPFailure err = (case err of None \<Rightarrow> FailureUnclassified | Some e \<Rightarrow>
     (if IsCanceled e then FailureUnclassified
      else (case GrpcStatus e of
        Some (code, msg) \<Rightarrow>
          (if code \<in> {GrpcUnavailable, GrpcDeadlineExceeded, GrpcInternal, GrpcUnknown} then FailureUnavailable
           else if code = GrpcAborted then FailureConflict
           else if code = GrpcResourceExhausted then FailureThrottled
           else if code = GrpcUnauthenticated then
             (case credentialFetchStatus msg of
                None \<Rightarrow> FailureInternal
              | Some n \<Rightarrow> (if n \<ge> 500 then FailureUnavailable
                  else if n = 429 then FailureThrottled else FailureInternal))
           else if code \<in> {GrpcCanceled, GrpcOK} then FailureUnclassified
           else if WCIOwned e then FailureInternal
           else if code = GrpcNotFound then FailureNotFound
           else if code = GrpcPermissionDenied then FailureAccessDenied
           else FailureRejected)
      | None \<Rightarrow>
          (if IsDeadlineExceeded e then FailureUnavailable
           else if WCIOwned e then FailureInternal else FailureRejected))))"

section \<open>The chain of service accounts\<close>

datatype token_source = Ambient | Impersonated token_source string "string list"

record worker_pool_update =
  PoolName :: string
  ManualInstanceCount :: int
  PoolUpdateMask :: "string list"

record gcp_sdk =
  ResolveChain :: "string \<Rightarrow> string list list \<Rightarrow> raw_error + string list"
  Impersonate :: "token_source \<Rightarrow> string \<Rightarrow> string list \<Rightarrow> raw_error option"
  NewWorkerPoolsClient :: "token_source \<Rightarrow> raw_error option"
  GetWorkerPool :: "token_source \<Rightarrow> string \<Rightarrow> raw_error option"
  UpdateWorkerPool :: "token_source \<Rightarrow> worker_pool_update \<Rightarrow> raw_error option"

record gcp_settings =
  intermediaryServiceAccounts :: "string list list"
  firstDelegateAsBase :: bool

definition new_gcp_settings :: "(string list list \<times> bool) option \<Rightarrow> gcp_settings" where
  "new_gcp_settings dc = (case dc of
     None \<Rightarrow> \<lparr>intermediaryServiceAccounts = [], firstDelegateAsBase = False\<rparr>
   | Some (accounts, first) \<Rightarrow>
       \<lparr>intermediaryServiceAccounts = accounts, firstDelegateAsBase = first\<rparr>)"

text \<open>\<open>pick i n\<close> is the random choice at the step \<open>i\<close> among \<open>n\<close> candidates.\<close>

fun NoopResolveChain ::
    "(nat \<Rightarrow> nat \<Rightarrow> nat) \<Rightarrow> nat \<Rightarrow> string list list \<Rightarrow> raw_error + string list" where
  "NoopResolveChain pick i [] = Inr []"
| "NoopResolveChain pick i (step # steps) =
    (if step = [] then NoopResolveChain pick (Suc i) steps
     else let picked = step ! pick i (length step)
       in if picked = '''' then Inl (errorf ''invalid empty intermediary service account email'')
          else (case NoopResolveChain pick (Suc i) steps of
             Inl err \<Rightarrow> Inl err
           | Inr delegates \<Rightarrow> Inr (picked # delegates)))"

definition SetGCPImpersonationChainProvider :: "'p option \<Rightarrow> 'p \<Rightarrow> 'p" where
  "SetGCPImpersonationChainProvider p current = (case p of None \<Rightarrow> current | Some p' \<Rightarrow> p')"

text \<open>Making a token source: an error, or the source.\<close>

definition impersonate ::
    "gcp_sdk \<Rightarrow> token_source \<Rightarrow> string \<Rightarrow> string list \<Rightarrow> raw_error + token_source" where
  "impersonate sdk base target delegates = (case Impersonate sdk base target delegates of
     Some err \<Rightarrow> Inl err
   | None \<Rightarrow> Inr (Impersonated base target delegates))"

definition chain_base ::
    "gcp_sdk \<Rightarrow> gcp_settings \<Rightarrow> string list \<Rightarrow> raw_error + token_source \<times> string list" where
  "chain_base sdk s delegates =
    (case delegates of
       first # rest \<Rightarrow>
         (if firstDelegateAsBase s then
            (case impersonate sdk Ambient first [] of
               Inl err \<Rightarrow> Inl (wci_owned (''failed to impersonate global service account ''
                 @ double_quoted first @ '': '') err)
             | Inr base \<Rightarrow> Inr (base, rest))
          else Inr (Ambient, delegates))
     | [] \<Rightarrow> Inr (Ambient, []))"

definition customer_token_source ::
    "gcp_sdk \<Rightarrow> gcp_settings \<Rightarrow> string \<Rightarrow> string \<Rightarrow> raw_error + token_source" where
  "customer_token_source sdk s ns serviceAccount =
    (case ResolveChain sdk ns (intermediaryServiceAccounts s) of
       Inl err \<Rightarrow> Inl (wci_owned ''failed to resolve impersonation chain: '' err)
     | Inr delegates \<Rightarrow> (case chain_base sdk s delegates of
         Inl err \<Rightarrow> Inl err
       | Inr (base, chainDelegates) \<Rightarrow> (case impersonate sdk base serviceAccount chainDelegates of
           Inl err \<Rightarrow> Inl (wrapf (''failed to create impersonated credentials for ''
             @ double_quoted serviceAccount @ '': '') err)
         | Inr ts \<Rightarrow> Inr ts)))"

section \<open>The provider\<close>

definition getNameFromConfig :: "anymap option \<Rightarrow> raw_error + string" where
  "getNameFromConfig cfg = (case cfg_required cfg ''project'' ''project not found in config'' of
     Inl err \<Rightarrow> Inl err
   | Inr project \<Rightarrow> (case cfg_required cfg ''region'' ''region not found in config'' of
       Inl err \<Rightarrow> Inl err
     | Inr region \<Rightarrow> (case cfg_required cfg ''worker_pool'' ''worker_pool not found in config'' of
         Inl err \<Rightarrow> Inl err
       | Inr workerPool \<Rightarrow>
           Inr (''projects/'' @ project @ ''/locations/'' @ region @ ''/workerPools/'' @ workerPool))))"

definition buildClientAndParams ::
    "gcp_sdk \<Rightarrow> gcp_settings \<Rightarrow> RequestContext \<Rightarrow> anymap option \<Rightarrow> raw_error + token_source \<times> string" where
  "buildClientAndParams sdk s rc cfg = (case getNameFromConfig cfg of
     Inl err \<Rightarrow> Inl err
   | Inr name \<Rightarrow>
      (case (if cfg_text cfg ''service_account'' = '''' then Inr Ambient
             else customer_token_source sdk s (NamespaceName rc) (cfg_text cfg ''service_account'')) of
         Inl err \<Rightarrow> Inl err
       | Inr ts \<Rightarrow> (case NewWorkerPoolsClient sdk ts of
           Some err \<Rightarrow> Inl (wci_owned ''failed to create Cloud Run client: '' err)
         | None \<Rightarrow> Inr (ts, name))))"

definition cloudrun_validate ::
    "gcp_sdk \<Rightarrow> gcp_settings \<Rightarrow> RequestContext \<Rightarrow> anymap option \<Rightarrow> raw_error option" where
  "cloudrun_validate sdk s rc cfg = (case buildClientAndParams sdk s rc cfg of
     Inl err \<Rightarrow> Some err
   | Inr (ts, name) \<Rightarrow>
       map_option (wrapf (''worker pool '' @ double_quoted name @ '' not found: '')) (GetWorkerPool sdk ts name))"

definition buildUpdateWorkerPoolRequest :: "string \<Rightarrow> int \<Rightarrow> worker_pool_update" where
  "buildUpdateWorkerPoolRequest name count = \<lparr>PoolName = name, ManualInstanceCount = count,
     PoolUpdateMask = [''scaling.manual_instance_count'']\<rparr>"

definition cloudrun_update ::
    "gcp_sdk \<Rightarrow> gcp_settings \<Rightarrow> RequestContext \<Rightarrow> anymap option \<Rightarrow> int \<Rightarrow> provider_error option" where
  "cloudrun_update sdk s rc cfg n = (case buildClientAndParams sdk s rc cfg of
     Inl err \<Rightarrow> classed classifyGCPFailure (Some err)
   | Inr (ts, name) \<Rightarrow> (case UpdateWorkerPool sdk ts (buildUpdateWorkerPoolRequest name n) of
       None \<Rightarrow> None
     | Some err \<Rightarrow> NewProviderError (classifyGCPFailure (Some err))
         (unclassed (Some (wrapf (''failed to update worker pool '' @ double_quoted name @ '': '') err)))))"

definition cloudrun_provider :: "gcp_sdk \<Rightarrow> gcp_settings \<Rightarrow> compute_provider" where
  "cloudrun_provider sdk s = \<lparr>providerLaunchStrategy = LaunchStrategyWorkerSet,
     providerValidateConfig = (\<lambda>rc cfg. unclassed (cloudrun_validate sdk s rc cfg)),
     providerInvokeWorker = (\<lambda>rc cfg. unclassed (Some ErrUnsupported)),
     providerUpdateWorkerSetSize = cloudrun_update sdk s\<rparr>"

interpretation cloudrun: provider_contract "cloudrun_provider sdk s" for sdk s
  by unfold_locales (simp_all add: cloudrun_provider_def)

section \<open>Who acts on the worker pool\<close>

text \<open>The identities a token source goes through, from the ambient one on.\<close>

fun identity_path :: "token_source \<Rightarrow> string list" where
  "identity_path Ambient = []"
| "identity_path (Impersonated base target delegates) = identity_path base @ delegates @ [target]"

text \<open>Whether the first delegate is the base or a delegate does not change the path.\<close>

lemma chain_base_path:
  "chain_base sdk s delegates = Inr (base, rest) \<Longrightarrow> identity_path base @ rest = delegates"
  by (auto simp: chain_base_def impersonate_def split: list.splits if_splits sum.splits option.splits)

lemma customer_path:
  assumes "customer_token_source sdk s ns account = Inr ts"
  shows "\<exists>delegates. ResolveChain sdk ns (intermediaryServiceAccounts s) = Inr delegates
    \<and> identity_path ts = delegates @ [account]"
  using assms by (auto simp: customer_token_source_def impersonate_def
      split: sum.splits option.splits dest!: chain_base_path)

text \<open>The default chain takes one candidate of each step that has some.\<close>

lemma noop_chain_follows_steps:
  assumes "\<forall>i n. 0 < n \<longrightarrow> pick i n < n" and "NoopResolveChain pick i steps = Inr delegates"
  shows "list_all2 (\<lambda>d step. d \<in> set step \<and> d \<noteq> '''') delegates (filter (\<lambda>step. step \<noteq> []) steps)"
  using assms(2)
proof (induction steps arbitrary: i delegates)
  case (Cons step steps)
  show ?case
  proof (cases "step = []")
    case False
    with assms(1) have "step ! pick i (length step) \<in> set step" by simp
    with False Cons show ?thesis by (auto simp: Let_def split: if_splits sum.splits)
  qed (use Cons in auto)
qed simp

section \<open>Properties\<close>

text \<open>C35: A successful resize on Cloud Run sets the manual instance count of the configured pool
  and nothing else of it, acting as the ambient identity where no service account is configured,
  and otherwise as that account, reached through the resolved chain in its order, whether or not
  the first delegate is taken as the base of the chain.\<close>

theorem cloudrun_resize_identity:
  assumes "providerUpdateWorkerSetSize (cloudrun_provider sdk s) rc cfg n = None"
  shows "\<exists>project region pool ts.
    cfg_string cfg ''project'' = Some project \<and> cfg_string cfg ''region'' = Some region
    \<and> cfg_string cfg ''worker_pool'' = Some pool
    \<and> UpdateWorkerPool sdk ts \<lparr>PoolName = ''projects/'' @ project @ ''/locations/'' @ region
          @ ''/workerPools/'' @ pool, ManualInstanceCount = n,
        PoolUpdateMask = [''scaling.manual_instance_count'']\<rparr> = None
    \<and> (if cfg_text cfg ''service_account'' = '''' then identity_path ts = []
       else \<exists>delegates. ResolveChain sdk (NamespaceName rc) (intermediaryServiceAccounts s) = Inr delegates
         \<and> identity_path ts = delegates @ [cfg_text cfg ''service_account''])"
proof -
  from assms obtain ts name where build: "buildClientAndParams sdk s rc cfg = Inr (ts, name)"
    "UpdateWorkerPool sdk ts (buildUpdateWorkerPoolRequest name n) = None"
    by (auto simp: cloudrun_provider_def cloudrun_update_def NewProviderError_def
        split: sum.splits option.splits)
  then obtain project region pool where
    "cfg_string cfg ''project'' = Some project" "cfg_string cfg ''region'' = Some region"
    "cfg_string cfg ''worker_pool'' = Some pool"
    "name = ''projects/'' @ project @ ''/locations/'' @ region @ ''/workerPools/'' @ pool"
    by (auto simp: buildClientAndParams_def getNameFromConfig_def split: sum.splits option.splits)
  moreover from build(1) have "if cfg_text cfg ''service_account'' = '''' then identity_path ts = []
     else \<exists>delegates. ResolveChain sdk (NamespaceName rc) (intermediaryServiceAccounts s) = Inr delegates
       \<and> identity_path ts = delegates @ [cfg_text cfg ''service_account'']"
    by (auto simp: buildClientAndParams_def split: sum.splits option.splits if_splits dest: customer_path)
  ultimately show ?thesis using build(2) by (auto simp: buildUpdateWorkerPoolRequest_def)
qed

definition sample_gcp :: gcp_sdk where
  "sample_gcp = \<lparr>ResolveChain = (\<lambda>ns. NoopResolveChain (\<lambda>i n. n - 1) 0), Impersonate = (\<lambda>b t ds. None),
     NewWorkerPoolsClient = (\<lambda>ts. None), GetWorkerPool = (\<lambda>ts name. None),
     UpdateWorkerPool = (\<lambda>ts u. if identity_path ts = [''a'', ''c'', ''customer''] then None
       else Some (errorf ''permission denied''))\<rparr>"

definition sample_gcp_settings :: gcp_settings where
  "sample_gcp_settings = new_gcp_settings (Some ([[''a''], [], [''b'', ''c'']], True))"

definition sample_gcp_config :: anymap where
  "sample_gcp_config = [(''project'', VString ''p''), (''region'', VString ''r''),
     (''worker_pool'', VString ''w''), (''service_account'', VString ''customer'')]"

theorem cloudrun_resize_identity_witness:
  "\<exists>ts. UpdateWorkerPool sample_gcp ts \<lparr>PoolName = ''projects/p/locations/r/workerPools/w'',
      ManualInstanceCount = 3, PoolUpdateMask = [''scaling.manual_instance_count'']\<rparr> = None
    \<and> identity_path ts = [''a'', ''c'', ''customer'']"
proof -
  have "providerUpdateWorkerSetSize (cloudrun_provider sample_gcp sample_gcp_settings)
      \<lparr>NamespaceName = ''ns'', RequestDeploymentName = ''d'', DeploymentBuildID = ''b''\<rparr>
      (Some sample_gcp_config) 3 = None"
    by code_simp
  from cloudrun_resize_identity [OF this] show ?thesis
    by (auto simp: sample_gcp_config_def cfg_string_def cfg_text_def any_at_def sample_gcp_def
        sample_gcp_settings_def new_gcp_settings_def Let_def)
qed

end
