(* ===== verification/Registry.thy ===== *)
theory Registry
  imports Aws Gcp
begin

text \<open>
  The compute providers that a release build registers, in the order in which the \<open>init\<close>
  functions of the package run (by file name), next to the algorithms that
  \<open>builtin_algorithms\<close> registers.  With both at hand: what the actions of a group
  that passes the validation can ask of its provider.  The providers for local development (\<open>k8s.go\<close>,
  \<open>subprocess.go\<close>) are left out of release builds by their build tags.

  The dynamic configuration of the AWS and of the GCP providers is \<open>aws_dc\<close> and \<open>gcp_dc\<close>.
\<close>

definition builtin_providers ::
    "aws_sdk \<Rightarrow> (iam_role_request list list \<times> bool) option \<Rightarrow> gcp_sdk \<Rightarrow> (string list list \<times> bool) option
      \<Rightarrow> (string, provider_constructor) gomap" where
  "builtin_providers aws aws_dc gcp gcp_dc =
    RegisterComputeProvider ''test-worker-set'' (Inr (Some test_worker_set_provider))
    (RegisterComputeProvider ''test-invoke'' (Inr (Some test_invoke_provider))
    (RegisterComputeProvider ''gcp-cloud-run'' (Inr (Some (cloudrun_provider gcp (new_gcp_settings gcp_dc))))
    (RegisterComputeProvider ''aws-lambda'' (Inr (Some (lambda_provider aws (new_aws_settings aws_dc))))
    (RegisterComputeProvider ''aws-ecs'' (Inr (Some (ecs_provider aws (new_aws_settings aws_dc))))
    (RegisterComputeProvider ''aws-agentcore''
       (Inr (Some (agentcore_provider aws (new_aws_settings aws_dc)))) [])))))"

lemma builtin_provider_lookup:
  "map_of (builtin_providers aws aws_dc gcp gcp_dc) t =
    (if t = ''test-worker-set'' then Some (Inr (Some test_worker_set_provider))
     else if t = ''test-invoke'' then Some (Inr (Some test_invoke_provider))
     else if t = ''gcp-cloud-run'' then Some (Inr (Some (cloudrun_provider gcp (new_gcp_settings gcp_dc))))
     else if t = ''aws-lambda'' then Some (Inr (Some (lambda_provider aws (new_aws_settings aws_dc))))
     else if t = ''aws-ecs'' then Some (Inr (Some (ecs_provider aws (new_aws_settings aws_dc))))
     else if t = ''aws-agentcore'' then Some (Inr (Some (agentcore_provider aws (new_aws_settings aws_dc))))
     else None)"
  by (simp add: builtin_providers_def RegisterComputeProvider_def has_key_iff map_simps)

lemma builtin_default_lookup:
  "map_of (defaultAlgorithmByComputeProvider builtin_algorithms) t =
    (if t \<in> {''aws-lambda'', ''aws-agentcore'', ''subprocess''} then Some ''no-sync''
     else if t \<in> {''aws-ecs'', ''k8s'', ''gcp-cloud-run''} then Some ''rate-based'' else None)"
  by (simp add: builtin_algorithms_def RegisterScalingAlgorithm_def has_key_iff map_simps)

lemma provider_strategies [simp]:
  "providerLaunchStrategy (lambda_provider aws s) = LaunchStrategyInvoke"
  "providerLaunchStrategy (agentcore_provider aws s) = LaunchStrategyInvoke"
  "providerLaunchStrategy (ecs_provider aws s) = LaunchStrategyWorkerSet"
  "providerLaunchStrategy (cloudrun_provider gcp gs) = LaunchStrategyWorkerSet"
  by (simp_all add: lambda_provider_def agentcore_provider_def ecs_provider_def cloudrun_provider_def)

text \<open>Every registered provider meets the contract of the interface.\<close>

lemma builtin_contract:
  assumes "GetComputeProvider enabled (builtin_providers aws aws_dc gcp gcp_dc) t = Inr (Some p)"
  shows "provider_contract p"
  using assms lambda.provider_contract_axioms ecs.provider_contract_axioms
    agentcore.provider_contract_axioms cloudrun.provider_contract_axioms
    test_invoke.provider_contract_axioms test_worker_set.provider_contract_axioms
  by (auto simp: GetComputeProvider_def builtin_provider_lookup split: if_splits)

section \<open>Properties\<close>

text \<open>The registries of providers and algorithms fit together.  A provider is found only where
  it is enabled; it starts workers one by one only under the strategy \<open>invoke\<close>, and resizes a set of
  workers only under \<open>worker-set\<close>; the default algorithm of its type, which is used without any
  check of strategies, is compatible with exactly its strategy; and only the two providers for
  tests have no default.\<close>

theorem builtin_registries_agree:
  assumes "GetComputeProvider enabled (builtin_providers aws aws_dc gcp gcp_dc) t = Inr (Some p)"
  shows "t \<in> set enabled
    \<and> (providerInvokeWorker p rc cfg = None \<longrightarrow> providerLaunchStrategy p = LaunchStrategyInvoke)
    \<and> (providerUpdateWorkerSetSize p rc cfg n = None \<longrightarrow> providerLaunchStrategy p = LaunchStrategyWorkerSet)
    \<and> (case GetDefaultScalingAlgorithmForComputeProvider builtin_algorithms t of
         None \<Rightarrow> t = ''test-invoke'' \<or> t = ''test-worker-set''
       | Some algo \<Rightarrow> CompatibleLaunchStrategies algo = [providerLaunchStrategy p])"
proof -
  note contract = builtin_contract [OF assms]
  have "case GetDefaultScalingAlgorithmForComputeProvider builtin_algorithms t of
         None \<Rightarrow> t = ''test-invoke'' \<or> t = ''test-worker-set''
       | Some algo \<Rightarrow> CompatibleLaunchStrategies algo = [providerLaunchStrategy p]"
    using assms by (auto simp: GetComputeProvider_def builtin_provider_lookup builtin_default_lookup
        GetDefaultScalingAlgorithmForComputeProvider_def GetScalingAlgorithmWithoutValidation_def
        builtin_lookup split: if_splits)
  then show ?thesis
    using assms provider_contract.invoked_by_strategy [OF contract]
      provider_contract.resized_by_strategy [OF contract] by (auto simp: GetComputeProvider_def split: if_splits)
qed

theorem builtin_registries_agree_witness:
  "CompatibleLaunchStrategies noSync_impl =
    [providerLaunchStrategy (lambda_provider sample_aws (new_aws_settings None))]"
proof -
  have "GetComputeProvider [''aws-lambda''] (builtin_providers sample_aws None sample_gcp None) ''aws-lambda''
      = Inr (Some (lambda_provider sample_aws (new_aws_settings None)))"
    by (simp add: GetComputeProvider_def builtin_provider_lookup)
  from builtin_registries_agree [OF this, of sample_request_context None 0] show ?thesis
    by (simp add: GetDefaultScalingAlgorithmForComputeProvider_def builtin_default_lookup
        GetScalingAlgorithmWithoutValidation_def builtin_lookup)
qed

text \<open>The default algorithms have no configuration, which is a valid one.\<close>

lemma builtin_default_valid:
  assumes "GetDefaultScalingAlgorithmForComputeProvider builtin_algorithms t = Some algo"
  shows "opValidateConfig algo None = None"
proof -
  from assms obtain name where "map_of (algorithmConstructors builtin_algorithms) name = Some algo"
    by (auto simp: GetDefaultScalingAlgorithmForComputeProvider_def
        GetScalingAlgorithmWithoutValidation_def split: option.splits)
  then have "algo = noSync_impl \<or> algo = rateBased_impl"
    by (simp add: builtin_lookup split: if_splits)
  then show ?thesis
    by (auto simp: noSync_impl_def rateBased_impl_def algorithm_ops.extend_def noSyncValidateConfig_def
        rateBasedValidateConfig_def)
qed

text \<open>C7: Once \<open>ValidateSpec\<close> of a release build has accepted a specification, whatever the algorithm of
  a group ever asks for fits the group's compute provider: the provider can be constructed, the
  configuration of the algorithm is valid, and every action of every operation is one that the
  provider's launch strategy can carry out, or a deferred decision from a task-add.  That holds for
  a group that names its algorithm, which is checked, and for one on the default algorithm of its
  provider, which is not; only a group of a provider for tests may be left without an algorithm at
  all, and so without actions.\<close>

theorem validated_group_actions_fit:
  assumes "ValidateSpec env (Some r) = None" and "ValidateSpecOf r = Some spec"
    and "(k, entry) \<in> set (ScalingGroupSpecs spec)"
    and "envAlgorithms env = builtin_algorithms"
    and "envProviders env = builtin_providers aws aws_dc gcp gcp_dc"
  shows "\<exists>provider. get_provider env (ProviderType (Compute entry)) = Inr (Some provider)
    \<and> (case getScalingAlgorithmAndConfig env entry of
         Inl e \<Rightarrow> Scaling entry = None \<and> ProviderType (Compute entry) \<in> {''test-invoke'', ''test-worker-set''}
       | Inr (algo, cfg) \<Rightarrow> opValidateConfig algo cfg = None
           \<and> (\<forall>ev s. \<forall>a \<in> set (fst (algorithm_step (algorithm_ops.truncate algo) cfg ev s)).
                executable_action [providerLaunchStrategy provider] a
                \<or> is_task_add ev \<and> Action a = ActionTypeDeferredScalingDecision))"
proof -
  obtain provider where provider: "get_provider env (ProviderType (Compute entry)) = Inr (Some provider)"
    and scaling: "validate_group_scaling env provider k entry = None"
    using validated_group [OF assms(1-3)] .
  have "case getScalingAlgorithmAndConfig env entry of
      Inl e \<Rightarrow> Scaling entry = None \<and> ProviderType (Compute entry) \<in> {''test-invoke'', ''test-worker-set''}
    | Inr (algo, cfg) \<Rightarrow> opValidateConfig algo cfg = None
        \<and> CompatibleLaunchStrategies algo = [providerLaunchStrategy provider]"
  proof (cases "Scaling entry")
    case (Some sc)
    obtain algo cfg where "getScalingAlgorithmAndConfig env entry = Inr (algo, cfg)"
      "opValidateConfig algo cfg = None"
      "CompatibleLaunchStrategies algo = [providerLaunchStrategy provider]"
      using validated_scaling [OF scaling Some assms(4)] .
    then show ?thesis by simp
  next
    case None
    have "GetComputeProvider (envEnabledProviders env) (builtin_providers aws aws_dc gcp gcp_dc)
        (ProviderType (Compute entry)) = Inr (Some provider)"
      using provider assms(5) by simp
    from builtin_registries_agree [OF this, of undefined None 0] have agree:
      "case GetDefaultScalingAlgorithmForComputeProvider builtin_algorithms (ProviderType (Compute entry)) of
         None \<Rightarrow> ProviderType (Compute entry) = ''test-invoke'' \<or> ProviderType (Compute entry) = ''test-worker-set''
       | Some algo \<Rightarrow> CompatibleLaunchStrategies algo = [providerLaunchStrategy provider]"
      by (elim conjE)
    show ?thesis
    proof (cases "GetDefaultScalingAlgorithmForComputeProvider builtin_algorithms (ProviderType (Compute entry))")
      case no_default: None
      with agree None assms(4) show ?thesis by (simp add: getScalingAlgorithmAndConfig_def)
    next
      case (Some algo)
      with agree None assms(4) builtin_default_valid [OF Some] show ?thesis
        by (simp add: getScalingAlgorithmAndConfig_def)
    qed
  qed
  note fits = this
  show ?thesis
  proof (cases "getScalingAlgorithmAndConfig env entry")
    case (Inl e)
    with provider fits show ?thesis by simp
  next
    case (Inr r)
    obtain algo cfg where r: "r = (algo, cfg)" by fastforce
    with Inr fits have valid: "opValidateConfig algo cfg = None"
      and strategy: "CompatibleLaunchStrategies algo = [providerLaunchStrategy provider]" by simp_all
    from fitting_actions [OF Inr [unfolded r] assms(4) strategy] provider valid Inr show ?thesis
      unfolding r by auto
  qed
qed

text \<open>A specification with a group on the default algorithm of its provider.\<close>

definition release_env :: activity_env where
  "release_env = sample_env\<lparr>envEnabledProviders := [''aws-lambda'', ''aws-ecs''],
     envProviders := builtin_providers sample_aws None sample_gcp None,
     envDecode := (\<lambda>p. case p of None \<Rightarrow> Inr None | Some _ \<Rightarrow> Inr (Some sample_lambda_config))\<rparr>"

definition default_group :: ScalingGroupSpec where
  "default_group = \<lparr>TaskTypes = [], RegionIds = [],
     Compute = \<lparr>ProviderType = ''aws-lambda'', ProviderConfig = Some (Payload ''''), NexusEndpoint = ''''\<rparr>,
     Scaling = None\<rparr>"

theorem validated_group_actions_fit_witness:
  "\<exists>algo cfg. getScalingAlgorithmAndConfig release_env default_group = Inr (algo, cfg)
    \<and> opValidateConfig algo cfg = None"
proof -
  have valid: "ValidateSpec release_env (Some \<lparr>ValidateContext = sample_context,
      ValidateSpecOf = Some \<lparr>ScalingGroupSpecs = [(''all'', default_group)]\<rparr>,
      ScalingGroupsToSkipProviderValidation = []\<rparr>) = None"
    by code_simp
  have envs: "envAlgorithms release_env = builtin_algorithms"
    "envProviders release_env = builtin_providers sample_aws None sample_gcp None"
    by (simp_all add: release_env_def sample_env_def)
  have "\<exists>provider. get_provider release_env (ProviderType (Compute default_group)) = Inr (Some provider)
    \<and> (case getScalingAlgorithmAndConfig release_env default_group of
         Inl e \<Rightarrow> Scaling default_group = None
           \<and> ProviderType (Compute default_group) \<in> {''test-invoke'', ''test-worker-set''}
       | Inr (algo, cfg) \<Rightarrow> opValidateConfig algo cfg = None
           \<and> (\<forall>ev s. \<forall>a \<in> set (fst (algorithm_step (algorithm_ops.truncate algo) cfg ev s)).
                executable_action [providerLaunchStrategy provider] a
                \<or> is_task_add ev \<and> Action a = ActionTypeDeferredScalingDecision))"
    by (rule validated_group_actions_fit [OF valid _ _ envs, where k = "''all''"
          and spec = "\<lparr>ScalingGroupSpecs = [(''all'', default_group)]\<rparr>"]) simp_all
  moreover have "ProviderType (Compute default_group) \<notin> {''test-invoke'', ''test-worker-set''}"
    by (simp add: default_group_def)
  ultimately show ?thesis by (cases "getScalingAlgorithmAndConfig release_env default_group") auto
qed

end
