(* ===== verification/Configuration.thy ===== *)
theory Configuration
  imports Registry Client Instance
begin

text \<open>
  The dynamic configuration (\<open>client/config.go\<close>) and how it reaches the components: the client and
  the task hook (\<open>client/fx.go\<close>, \<open>client/hook.go\<close>), the activities (\<open>workflow/activities.go\<close>) and the
  registered workflows (\<open>workercomponent/component.go\<close>).  The collection of settings is a
  parameter: what it returns for a setting, in a namespace or for the whole cell.
\<close>

section \<open>The settings\<close>

record 'a setting =
  SettingKey :: string
  SettingDefault :: 'a

definition WorkerControllerEnabled :: "bool setting" where
  "WorkerControllerEnabled = \<lparr>SettingKey = ''workercontroller.enabled'', SettingDefault = False\<rparr>"

definition WorkerControllerMaxInstances :: "int setting" where
  "WorkerControllerMaxInstances =
    \<lparr>SettingKey = ''workercontroller.maxInstances'', SettingDefault = 100\<rparr>"

definition WorkerControllerInstanceWorkflowVersion :: "int setting" where
  "WorkerControllerInstanceWorkflowVersion =
    \<lparr>SettingKey = ''workercontroller.instanceWorkflowVersion'', SettingDefault = 4\<rparr>"

definition WorkerControllerValidateWorkflowVersion :: "int setting" where
  "WorkerControllerValidateWorkflowVersion =
    \<lparr>SettingKey = ''workercontroller.validateWorkflowVersion'', SettingDefault = 1\<rparr>"

definition WorkerControllerMinSignalIntervalNoSyncMatchMilliseconds :: "int setting" where
  "WorkerControllerMinSignalIntervalNoSyncMatchMilliseconds =
    \<lparr>SettingKey = ''workercontroller.hook.min_signal_interval_no_sync_match'', SettingDefault = 500\<rparr>"

definition WorkerControllerMinSignalIntervalSyncMatchMilliseconds :: "int setting" where
  "WorkerControllerMinSignalIntervalSyncMatchMilliseconds =
    \<lparr>SettingKey = ''workercontroller.hook.min_signal_interval_sync_match'', SettingDefault = 60000\<rparr>"

definition WorkerControllerEnabledComputeProviders :: "string list option setting" where
  "WorkerControllerEnabledComputeProviders =
    \<lparr>SettingKey = ''workercontroller.compute_providers.enabled'', SettingDefault = None\<rparr>"

definition WorkerControllerAWSIntermediaryRoles :: "iam_role_request list list setting" where
  "WorkerControllerAWSIntermediaryRoles =
    \<lparr>SettingKey = ''workercontroller.compute_providers.aws.intermediary_roles'', SettingDefault = []\<rparr>"

definition WorkerControllerGCPIntermediaryServiceAccounts :: "string list list setting" where
  "WorkerControllerGCPIntermediaryServiceAccounts =
    \<lparr>SettingKey = ''workercontroller.compute_providers.gcp.intermediary_service_accounts'',
     SettingDefault = []\<rparr>"

definition WorkerControllerGCPFirstDelegateAsBase :: "bool setting" where
  "WorkerControllerGCPFirstDelegateAsBase =
    \<lparr>SettingKey = ''workercontroller.compute_providers.gcp.first_delegate_as_base'',
     SettingDefault = False\<rparr>"

definition WorkerControllerEnabledScalingAlgorithms :: "string list option setting" where
  "WorkerControllerEnabledScalingAlgorithms =
    \<lparr>SettingKey = ''workercontroller.scaling_algorithms.enabled'', SettingDefault = None\<rparr>"

definition WorkerControllerAWSRequireRoleAndExternalID :: "bool setting" where
  "WorkerControllerAWSRequireRoleAndExternalID =
    \<lparr>SettingKey = ''workercontroller.compute_providers.aws.require_role_and_external_id'',
     SettingDefault = True\<rparr>"

definition WorkerControllerPeriodicValidationIntervalSeconds :: "int setting" where
  "WorkerControllerPeriodicValidationIntervalSeconds =
    \<lparr>SettingKey = ''workercontroller.periodic_validation_interval_s'', SettingDefault = 6 * 60 * 60\<rparr>"

text \<open>What the collection returns: a namespace-scoped setting in a namespace, a global one anywhere.\<close>

record dynamic_config =
  NamespaceBool :: "bool setting \<Rightarrow> string \<Rightarrow> bool"
  NamespaceInt :: "int setting \<Rightarrow> string \<Rightarrow> int"
  NamespaceStrings :: "string list option setting \<Rightarrow> string \<Rightarrow> string list option"
  GlobalBool :: "bool setting \<Rightarrow> bool"
  GlobalInt :: "int setting \<Rightarrow> int"
  GlobalStrings :: "string list option setting \<Rightarrow> string list option"
  GlobalRoles :: "iam_role_request list list setting \<Rightarrow> iam_role_request list list"
  GlobalAccounts :: "string list list setting \<Rightarrow> string list list"

text \<open>A setting that nothing is configured for has its default.\<close>

definition unconfigured :: "dynamic_config \<Rightarrow> string \<Rightarrow> bool" where
  "unconfigured dc ns \<longleftrightarrow> (\<forall>s. NamespaceBool dc s ns = SettingDefault s)
     \<and> (\<forall>s. NamespaceInt dc s ns = SettingDefault s)
     \<and> (\<forall>s. NamespaceStrings dc s ns = SettingDefault s)
     \<and> (\<forall>s. GlobalBool dc s = SettingDefault s) \<and> (\<forall>s. GlobalInt dc s = SettingDefault s)
     \<and> (\<forall>s. GlobalStrings dc s = SettingDefault s) \<and> (\<forall>s. GlobalRoles dc s = SettingDefault s)
     \<and> (\<forall>s. GlobalAccounts dc s = SettingDefault s)"

section \<open>The client and the task hook\<close>

text \<open>The rest of \<open>env\<close> is the server's.\<close>

definition ClientProvider :: "dynamic_config \<Rightarrow> string \<Rightarrow> client_env \<Rightarrow> client_env" where
  "ClientProvider dc ns env = env\<lparr>Namespace := ns,
     NamespaceEnabled := NamespaceBool dc WorkerControllerEnabled ns,
     MaxInstances := NamespaceInt dc WorkerControllerMaxInstances ns\<rparr>"

definition new_task_hook ::
    "dynamic_config \<Rightarrow> TaskHookFactoryCreateDetails option \<Rightarrow> taskHookImpl option" where
  "new_task_hook dc = Create (NamespaceBool dc WorkerControllerEnabled)"

definition configured_event :: "dynamic_config \<Rightarrow> taskHookImpl \<Rightarrow> hook_event \<Rightarrow> hook_event" where
  "configured_event dc th ev = ev\<lparr>Enabled := NamespaceBool dc WorkerControllerEnabled (hookNamespace th),
     Intervals := \<lparr>MinSignalIntervalSyncMatch =
         NamespaceInt dc WorkerControllerMinSignalIntervalSyncMatchMilliseconds (hookNamespace th),
       MinSignalIntervalNoSyncMatch =
         NamespaceInt dc WorkerControllerMinSignalIntervalNoSyncMatchMilliseconds (hookNamespace th)\<rparr>\<rparr>"

section \<open>The activities and their providers\<close>

text \<open>The constructors of the providers get the collection too.\<close>

definition configured_providers ::
    "dynamic_config \<Rightarrow> aws_sdk \<Rightarrow> gcp_sdk \<Rightarrow> (string, provider_constructor) gomap" where
  "configured_providers dc aws gcp = builtin_providers
     aws (Some (GlobalRoles dc WorkerControllerAWSIntermediaryRoles,
                GlobalBool dc WorkerControllerAWSRequireRoleAndExternalID))
     gcp (Some (GlobalAccounts dc WorkerControllerGCPIntermediaryServiceAccounts,
                GlobalBool dc WorkerControllerGCPFirstDelegateAsBase))"

definition string_elements :: "string list option \<Rightarrow> string list" where
  "string_elements l = (case l of None \<Rightarrow> [] | Some xs \<Rightarrow> xs)"

definition NewActivities ::
    "string \<Rightarrow> dynamic_config \<Rightarrow> string option \<Rightarrow> aws_sdk \<Rightarrow> gcp_sdk \<Rightarrow> activity_env \<Rightarrow> activity_env" where
  "NewActivities ns dc staticConfig aws gcp env = env\<lparr>envRegion := staticConfig,
     envEnabled := NamespaceBool dc WorkerControllerEnabled ns,
     envEnabledProviders := string_elements (NamespaceStrings dc WorkerControllerEnabledComputeProviders ns),
     envProviders := configured_providers dc aws gcp,
     envEnabledAlgorithms := GlobalStrings dc WorkerControllerEnabledScalingAlgorithms,
     envAlgorithms := builtin_algorithms\<rparr>"

section \<open>The registered workflows\<close>

text \<open>What a workflow reads of the configuration goes through a side effect, which may fail: an
  unreadable version counts as the first, an unreadable flag as set.\<close>

record side_effects =
  RecordInt :: "int \<Rightarrow> call_error + int"
  RecordBool :: "bool \<Rightarrow> call_error + bool"

definition recorded_flag :: "call_error + bool \<Rightarrow> bool" where
  "recorded_flag result = (case result of Inr enabled \<Rightarrow> enabled | Inl err \<Rightarrow> True)"

definition validationIntervalGetter :: "dynamic_config \<Rightarrow> int" where
  "validationIntervalGetter dc =
     wrap64 (GlobalInt dc WorkerControllerPeriodicValidationIntervalSeconds * 1000000000)"

definition versionWorkflow ::
    "dynamic_config \<Rightarrow> string \<Rightarrow> side_effects \<Rightarrow> int \<Rightarrow> RequestContext \<Rightarrow> string \<Rightarrow> int \<Rightarrow> runner" where
  "versionWorkflow dc ns eff patch ctx stamp t =
    (first_runner ctx stamp (validationIntervalGetter dc)
      (getWorkflowVersion patch (RecordInt eff (NamespaceInt dc WorkerControllerInstanceWorkflowVersion ns))) t)
    \<lparr>enabledFlag := recorded_flag (RecordBool eff (NamespaceBool dc WorkerControllerEnabled ns))\<rparr>"

definition getValidateWorkflowVersion :: "int \<Rightarrow> call_error + int \<Rightarrow> int" where
  "getValidateWorkflowVersion patch result =
    (if patch \<ge> 0 then (case result of Inr ver \<Rightarrow> ver | Inl err \<Rightarrow> 0) else 0)"

definition validateWorkflow ::
    "dynamic_config \<Rightarrow> string \<Rightarrow> side_effects \<Rightarrow> int \<Rightarrow> (string list \<Rightarrow> string list)
      \<Rightarrow> (ValidateSpecRequest \<Rightarrow> call_error option) \<Rightarrow> ValidateWorkflowArgs option
      \<Rightarrow> validate_error option" where
  "validateWorkflow dc ns eff patch dk activity args = ValidateSpecWorkflow dk
     (getValidateWorkflowVersion patch
        (RecordInt eff (NamespaceInt dc WorkerControllerValidateWorkflowVersion ns)))
     (recorded_flag (RecordBool eff (NamespaceBool dc WorkerControllerEnabled ns))) ns activity args"

section \<open>Lemmas on the settings\<close>

lemmas setting_defs = WorkerControllerEnabled_def WorkerControllerMaxInstances_def
  WorkerControllerInstanceWorkflowVersion_def WorkerControllerValidateWorkflowVersion_def
  WorkerControllerEnabledComputeProviders_def WorkerControllerPeriodicValidationIntervalSeconds_def
  WorkerControllerAWSIntermediaryRoles_def WorkerControllerAWSRequireRoleAndExternalID_def
  WorkerControllerGCPIntermediaryServiceAccounts_def WorkerControllerGCPFirstDelegateAsBase_def

text \<open>A provider that is made without a collection has the settings of an empty one.\<close>

lemma unconfigured_providers:
  "unconfigured dc ns \<Longrightarrow> configured_providers dc aws gcp = builtin_providers aws None gcp None"
  by (simp add: unconfigured_def configured_providers_def builtin_providers_def new_aws_settings_def
      new_gcp_settings_def setting_defs)

lemma first_runner_version [simp]: "workflowVersion (first_runner ctx stamp interval version t) = version"
  by (auto simp: first_runner_def start_run_def Let_def arm_poll_timer_def addStatsPullTimer_def
      addPeriodicValidationTimer_def on_state_def drainTaskAddSignalChannelToQueue_def split: option.split)

text \<open>Where no provider is enabled, no specification with a group is valid.\<close>

lemma no_provider_enabled:
  assumes "envEnabledProviders env = []" and "ScalingGroupSpecs spec \<noteq> []"
  shows "ValidateSpec env (Some \<lparr>ValidateContext = rc, ValidateSpecOf = Some spec,
    ScalingGroupsToSkipProviderValidation = skip\<rparr>) \<noteq> None"
proof -
  obtain kv kvs where groups: "ScalingGroupSpecs spec = kv # kvs"
    using assms(2) by (cases "ScalingGroupSpecs spec") auto
  have "validate_group env rc skip kv \<noteq> None"
    using assms(1) by (simp add: validate_group_def GetComputeProvider_def split: prod.split)
  then show ?thesis by (auto simp: ValidateSpec_def groups)
qed

text \<open>The interval of the periodic validation: the configured number of seconds if it is at least a
  minute and fits, and at least a minute whatever it is.\<close>

lemma validation_interval:
  "minute \<le> max (validationIntervalGetter dc) minute"
  "GlobalInt dc WorkerControllerPeriodicValidationIntervalSeconds = n \<Longrightarrow> 60 \<le> n \<Longrightarrow> n \<le> 9223372036 \<Longrightarrow>
    max (validationIntervalGetter dc) minute = n * 1000000000"
  "GlobalInt dc WorkerControllerPeriodicValidationIntervalSeconds = 9223372037 \<Longrightarrow>
    max (validationIntervalGetter dc) minute = minute"
  by (simp_all add: validationIntervalGetter_def minute_def wrap64_def)

section \<open>Properties\<close>

text \<open>C20: An installation without configuration does nothing.  In a namespace that nothing is
  configured for, no task hook is created and one that exists ignores every task; the client
  refuses every update before it asks the server anything; an instance whose run began with this
  configuration refuses updates and dry runs, and so does the workflow that validates new
  specifications (where its side effects work and it is no old run).  Moreover no provider is
  enabled, so even with the controller enabled no specification with a group passes the validation.\<close>

theorem unconfigured_is_off:
  assumes "unconfigured dc ns"
  shows "(DetailsNamespace details = Some ns \<longrightarrow> new_task_hook dc (Some details) = None)
    \<and> (hookNamespace th = ns \<longrightarrow> ProcessTaskAdd (configured_event dc th ev) th = (Ignored, th))
    \<and> update_instance (ClientProvider dc ns env) v req =
        Inl (case check_version_fields env v of
               Some err \<Rightarrow> err
             | None \<Rightarrow> FailedPreconditionErr (''worker controller is disabled in namespace '' @ ns))
    \<and> (patch \<ge> 0 \<and> RecordInt eff = Inr \<and> RecordBool eff = Inr \<longrightarrow>
        (let d = versionWorkflow dc ns eff patch ctx stamp t
         in handleUpdateInstance dk req d = (d, Return (Inl WorkerControllerDisabled))
          \<and> handleValidateSpec dk dry d = (d, Return (Inl WorkerControllerDisabled)))
        \<and> validateWorkflow dc ns eff patch dk activity args = Some ValidateDisabled)
    \<and> (ScalingGroupSpecs spec \<noteq> [] \<longrightarrow> ValidateSpec (NewActivities ns dc region aws gcp aenv)
        (Some \<lparr>ValidateContext = rc, ValidateSpecOf = Some spec,
          ScalingGroupsToSkipProviderValidation = skip\<rparr>) \<noteq> None)"
proof (intro conjI impI)
  have off: "NamespaceBool dc WorkerControllerEnabled ns = False"
    using assms by (simp add: unconfigured_def setting_defs)
  have versions: "NamespaceInt dc WorkerControllerInstanceWorkflowVersion ns = 4"
      "NamespaceInt dc WorkerControllerValidateWorkflowVersion ns = 1"
      "NamespaceStrings dc WorkerControllerEnabledComputeProviders ns = None"
    using assms by (simp_all add: unconfigured_def setting_defs)
  show "new_task_hook dc (Some details) = None" if "DetailsNamespace details = Some ns"
    using that off by (simp add: new_task_hook_def Create_def)
  show "ProcessTaskAdd (configured_event dc th ev) th = (Ignored, th)" if "hookNamespace th = ns"
    using that off by (simp add: ProcessTaskAdd_def configured_event_def split: option.split)
  have "check_version_fields (ClientProvider dc ns env) v = check_version_fields env v"
    by (simp add: check_version_fields_def ClientProvider_def cong: option.case_cong)
  then show "update_instance (ClientProvider dc ns env) v req =
        Inl (case check_version_fields env v of
               Some err \<Rightarrow> err
             | None \<Rightarrow> FailedPreconditionErr (''worker controller is disabled in namespace '' @ ns))"
    using off by (simp add: update_instance_def checkWorkerControllerEnabled_def ClientProvider_def
        split: option.split)
  assume run: "patch \<ge> 0 \<and> RecordInt eff = Inr \<and> RecordBool eff = Inr"
  have "ensureEnabled (versionWorkflow dc ns eff patch ctx stamp t) = Some WorkerControllerDisabled"
    using run off versions by (simp add: ensureEnabled_def workerControllerEnabled_def hasMinVersion_def
        versionWorkflow_def getWorkflowVersion_def recorded_flag_def)
  then show "let d = versionWorkflow dc ns eff patch ctx stamp t
      in handleUpdateInstance dk req d = (d, Return (Inl WorkerControllerDisabled))
        \<and> handleValidateSpec dk dry d = (d, Return (Inl WorkerControllerDisabled))"
    by (simp add: handleUpdateInstance_def handleValidateSpec_def Let_def)
  show "validateWorkflow dc ns eff patch dk activity args = Some ValidateDisabled"
    using run off versions by (simp add: validateWorkflow_def ValidateSpecWorkflow_def
        validateWorkflowEnabled_def getValidateWorkflowVersion_def recorded_flag_def)
next
  have "envEnabledProviders (NewActivities ns dc region aws gcp aenv) = []"
    using assms by (simp add: NewActivities_def string_elements_def unconfigured_def setting_defs)
  then show "ValidateSpec (NewActivities ns dc region aws gcp aenv)
      (Some \<lparr>ValidateContext = rc, ValidateSpecOf = Some spec,
        ScalingGroupsToSkipProviderValidation = skip\<rparr>) \<noteq> None" if "ScalingGroupSpecs spec \<noteq> []"
    using that by (rule no_provider_enabled)
qed

definition no_configuration :: dynamic_config where
  "no_configuration = \<lparr>NamespaceBool = (\<lambda>s ns. SettingDefault s), NamespaceInt = (\<lambda>s ns. SettingDefault s),
     NamespaceStrings = (\<lambda>s ns. SettingDefault s), GlobalBool = SettingDefault, GlobalInt = SettingDefault,
     GlobalStrings = SettingDefault, GlobalRoles = SettingDefault, GlobalAccounts = SettingDefault\<rparr>"

theorem unconfigured_is_off_witness:
  "new_task_hook no_configuration (Some \<lparr>DetailsNamespace = Some ''ns'', DetailsSticky = False,
      DetailsQueueName = ''q'', DetailsQueueType = TASK_QUEUE_TYPE_WORKFLOW\<rparr>) = None
    \<and> update_instance (ClientProvider no_configuration ''ns'' sample_client) sample_version first_request =
      Inl (FailedPreconditionErr ''worker controller is disabled in namespace ns'')"
proof -
  have "unconfigured no_configuration ''ns''"
    by (simp add: unconfigured_def no_configuration_def)
  note off = unconfigured_is_off [OF this, of "\<lparr>DetailsNamespace = Some ''ns'', DetailsSticky = False,
      DetailsQueueName = ''q'', DetailsQueueType = TASK_QUEUE_TYPE_WORKFLOW\<rparr>"]
  have "check_version_fields sample_client sample_version = None" by code_simp
  with off show ?thesis by simp
qed

end
