(* ===== verification/Development.thy ===== *)
theory Development
  imports Providers Hook
begin

text \<open>
  The compute providers for local development, which release builds leave out
  (\<open>compute_provider/k8s.go\<close>, \<open>subprocess.go\<close>).

  \<^item> The Kubernetes client is the record \<open>k8s_sdk\<close>; a REST configuration is the way it was made.
    The object that the scale subresource is read into is any type: the code sets one nested
    field of it and sends it back.  What is relied on is the locale \<open>scale_objects\<close>.
  \<^item> The operating system is the record \<open>os_exec\<close>: the search for a program, and the start of a
    process.  A process is not waited for; what it does is not modelled.
  \<^item> \<open>time.ParseDuration\<close>, \<open>strings.TrimSpace\<close> (of the white space of ASCII) and the verb
    \<open>%.9f\<close> are written out.
\<close>

section \<open>Kubernetes\<close>

datatype rest_config = InCluster | FromKubeconfig string string

record 'o k8s_sdk =
  InClusterConfig :: "raw_error option"
  LoadKubeconfig :: "string \<Rightarrow> raw_error option"
  ClientConfig :: "string \<Rightarrow> string \<Rightarrow> raw_error option"
  NewForConfig :: "rest_config \<Rightarrow> raw_error option"
  GetDeployment :: "rest_config \<Rightarrow> string \<Rightarrow> string \<Rightarrow> raw_error option"
  GetScale :: "rest_config \<Rightarrow> string \<Rightarrow> string \<Rightarrow> raw_error + 'o"
  SetNestedField :: "'o \<Rightarrow> int \<Rightarrow> string list \<Rightarrow> raw_error + 'o"
  UpdateScale :: "rest_config \<Rightarrow> string \<Rightarrow> 'o \<Rightarrow> raw_error option"

definition buildRestConfig :: "'o k8s_sdk \<Rightarrow> anymap option \<Rightarrow> raw_error + rest_config" where
  "buildRestConfig sdk cfg = (let kubeconfigContent = cfg_text cfg ''kubeconfig'' in
     if kubeconfigContent = '''' then (case InClusterConfig sdk of
         Some err \<Rightarrow> Inl (wrapf ''failed to build in-cluster config: '' err)
       | None \<Rightarrow> Inr InCluster)
     else (case LoadKubeconfig sdk kubeconfigContent of
         Some err \<Rightarrow> Inl (wrapf ''failed to parse kubeconfig content: '' err)
       | None \<Rightarrow> (let contextName = cfg_text cfg ''context'' in
           case ClientConfig sdk kubeconfigContent contextName of
             Some err \<Rightarrow> Inl (wrapf ''failed to build REST config from kubeconfig content: '' err)
           | None \<Rightarrow> Inr (FromKubeconfig kubeconfigContent contextName))))"

definition k8s_client :: "'o k8s_sdk \<Rightarrow> anymap option \<Rightarrow> raw_error + rest_config \<times> string \<times> string" where
  "k8s_client sdk cfg = (case cfg_required cfg ''namespace'' ''namespace not found in config'' of
     Inl err \<Rightarrow> Inl err
   | Inr namespace \<Rightarrow> (case cfg_required cfg ''deployment'' ''deployment not found in config'' of
       Inl err \<Rightarrow> Inl err
     | Inr deployment \<Rightarrow> (case buildRestConfig sdk cfg of
         Inl err \<Rightarrow> Inl err
       | Inr restConfig \<Rightarrow> (case NewForConfig sdk restConfig of
           Some err \<Rightarrow> Inl (wrapf ''failed to create kubernetes client: '' err)
         | None \<Rightarrow> Inr (restConfig, namespace, deployment)))))"

definition k8s_validate :: "'o k8s_sdk \<Rightarrow> anymap option \<Rightarrow> raw_error option" where
  "k8s_validate sdk cfg = (case k8s_client sdk cfg of
     Inl err \<Rightarrow> Some err
   | Inr (client, namespace, deployment) \<Rightarrow>
      map_option (wrapf (''deployment '' @ double_quoted deployment @ '' not found in namespace ''
          @ double_quoted namespace @ '': ''))
        (GetDeployment sdk client namespace deployment))"

definition k8s_update :: "'o k8s_sdk \<Rightarrow> anymap option \<Rightarrow> int \<Rightarrow> raw_error option" where
  "k8s_update sdk cfg count = (case k8s_client sdk cfg of
     Inl err \<Rightarrow> Some err
   | Inr (client, namespace, deployment) \<Rightarrow>
      (case GetScale sdk client namespace deployment of
         Inl err \<Rightarrow> Some (wrapf (''failed to get scale for deployment ''
           @ double_quoted deployment @ '': '') err)
       | Inr scale \<Rightarrow> (case SetNestedField sdk scale count [''spec'', ''replicas''] of
           Inl err \<Rightarrow> Some (wrapf (''failed to set scale for deployment ''
             @ double_quoted deployment @ '': '') err)
         | Inr scale' \<Rightarrow> map_option (wrapf (''failed to scale deployment ''
             @ double_quoted deployment @ '' to '' @ show_int count @ '': ''))
             (UpdateScale sdk client namespace scale'))))"

definition k8s_provider :: "'o k8s_sdk \<Rightarrow> compute_provider" where
  "k8s_provider sdk = \<lparr>providerLaunchStrategy = LaunchStrategyWorkerSet,
     providerValidateConfig = (\<lambda>rc cfg. unclassed (k8s_validate sdk cfg)),
     providerInvokeWorker = (\<lambda>rc cfg. unclassed (Some ErrUnsupported)),
     providerUpdateWorkerSetSize = (\<lambda>rc cfg n. unclassed (k8s_update sdk cfg n))\<rparr>"

interpretation k8s: provider_contract "k8s_provider sdk" for sdk
  by unfold_locales (simp_all add: k8s_provider_def)

section \<open>Processes\<close>

record os_exec =
  LookPath :: "string \<Rightarrow> raw_error option"
  StartProcess :: "string \<Rightarrow> string list \<Rightarrow> raw_error option"

text \<open>\<open>strings.TrimSpace\<close>.\<close>

definition is_space :: "char \<Rightarrow> bool" where
  "is_space c \<longleftrightarrow> (of_char c :: nat) \<in> {9, 10, 11, 12, 13, 32}"

definition TrimSpace :: "string \<Rightarrow> string" where
  "TrimSpace s = rev (dropWhile is_space (rev (dropWhile is_space s)))"

subsection \<open>Durations\<close>

text \<open>The units of \<open>time.ParseDuration\<close>; the two signs for micro are written in UTF-8.\<close>

definition duration_units :: "(string, int) gomap" where
  "duration_units = [(''ns'', 1), (''us'', 1000),
     ([CHR 0xC2, CHR 0xB5, CHR ''s''], 1000), ([CHR 0xCE, CHR 0xBC, CHR ''s''], 1000),
     (''ms'', 1000000), (''s'', 1000000000), (''m'', 60000000000), (''h'', 3600000000000)]"

text \<open>The digits before the point; a value above \<open>1 << 63\<close> is an error.\<close>

fun leadingInt :: "int \<Rightarrow> string \<Rightarrow> (int \<times> string) option" where
  "leadingInt x [] = Some (x, [])"
| "leadingInt x (c # cs) = (if \<not> is_digit c then Some (x, c # cs)
     else if x > 2 ^ 63 div 10 then None
     else (let y = x * 10 + digit_val c in if y > 2 ^ 63 then None else leadingInt y cs))"

text \<open>The digits after it; those that do not fit any more are skipped.\<close>

fun leadingFraction :: "int \<Rightarrow> int \<Rightarrow> bool \<Rightarrow> string \<Rightarrow> int \<times> int \<times> string" where
  "leadingFraction x scale overflow [] = (x, scale, [])"
| "leadingFraction x scale overflow (c # cs) = (if \<not> is_digit c then (x, scale, c # cs)
     else if overflow \<or> x > (2 ^ 63 - 1) div 10 then leadingFraction x scale True cs
     else (let y = x * 10 + digit_val c in
       if y > 2 ^ 63 then leadingFraction x scale True cs
       else leadingFraction y (scale * 10) False cs))"

definition fraction_part :: "string \<Rightarrow> int \<times> int \<times> string \<times> bool" where
  "fraction_part s = (if s \<noteq> [] \<and> hd s = CHR ''.''
     then (case leadingFraction 0 1 False (tl s) of
       (f, scale, t) \<Rightarrow> (f, scale, t, length t \<noteq> length (tl s)))
     else (0, 1, s, False))"

text \<open>The nanoseconds of \<open>v\<close> units and the fraction \<open>f / scale\<close> of one, and the value in \<open>uint64\<close>.\<close>

definition fraction_value :: "int \<Rightarrow> int \<Rightarrow> int \<Rightarrow> int" where
  "fraction_value f scale unit =
    (case mul64 (f64_of_int f) (div64 (f64_of_int unit) (f64_of_int scale)) of
       Fin a \<Rightarrow> rat_trunc a | _ \<Rightarrow> 0)"

definition in_unit :: "int \<Rightarrow> int \<Rightarrow> int \<Rightarrow> int \<Rightarrow> string \<Rightarrow> (int \<times> string) option" where
  "in_unit v f scale unit rest = (if v > 2 ^ 63 div unit then None
     else if v * unit + (if f > 0 then fraction_value f scale unit else 0) > 2 ^ 63 then None
     else Some (v * unit + (if f > 0 then fraction_value f scale unit else 0), rest))"

definition is_unit_char :: "char \<Rightarrow> bool" where
  "is_unit_char c \<longleftrightarrow> c \<noteq> CHR ''.'' \<and> \<not> is_digit c"

text \<open>One element \<open>[0-9]*(\.[0-9]*)?[a-z]+\<close>: its nanoseconds, and the rest.\<close>

definition duration_element :: "string \<Rightarrow> (int \<times> string) option" where
  "duration_element s = (case leadingInt 0 s of None \<Rightarrow> None | Some (v, s1) \<Rightarrow>
    (case fraction_part s1 of (f, scale, s2, post) \<Rightarrow>
      (if length s1 = length s \<and> \<not> post \<or> takeWhile is_unit_char s2 = '''' then None
       else (case map_of duration_units (takeWhile is_unit_char s2) of
           None \<Rightarrow> None
         | Some unit \<Rightarrow> in_unit v f scale unit (dropWhile is_unit_char s2)))))"

lemma leadingInt_length: "leadingInt x s = Some (v, t) \<Longrightarrow> length t \<le> length s"
  by (induction x s rule: leadingInt.induct) (auto simp: Let_def split: if_splits)

lemma leadingFraction_length: "leadingFraction x sc ov s = (f, sc', t) \<Longrightarrow> length t \<le> length s"
  by (induction x sc ov s rule: leadingFraction.induct) (force simp: Let_def split: if_splits)+

lemma dropWhile_shorter: "takeWhile P s \<noteq> [] \<Longrightarrow> length (dropWhile P s) < length s"
  by (cases s) (auto simp: le_imp_less_Suc length_dropWhile_le split: if_splits)

lemma duration_element_shorter:
  assumes "duration_element s = Some (w, rest)"
  shows "length rest < length s"
proof -
  from assms obtain v s1 where s1: "leadingInt 0 s = Some (v, s1)"
    by (auto simp: duration_element_def split: option.splits)
  obtain f sc s2 post where s2: "fraction_part s1 = (f, sc, s2, post)"
    by (metis prod_cases4)
  then have "length s2 \<le> length (tl s1) \<or> s2 = s1"
    by (auto simp: fraction_part_def split: if_splits prod.splits dest: leadingFraction_length)
  then have "length s2 \<le> length s1" by auto
  moreover have "length rest < length s2"
    using assms s1 s2 dropWhile_shorter [of is_unit_char s2]
    by (auto simp: duration_element_def in_unit_def split: if_splits option.splits)
  ultimately show ?thesis using leadingInt_length [OF s1] by simp
qed

text \<open>The sum is one of \<open>uint64\<close>.\<close>

function duration_elements :: "int \<Rightarrow> string \<Rightarrow> int option" where
  "duration_elements d [] = Some d"
| "duration_elements d (c # cs) = (case duration_element (c # cs) of None \<Rightarrow> None
    | Some (w, rest) \<Rightarrow>
       (let d' = (d + w) mod 2 ^ 64 in if d' > 2 ^ 63 then None else duration_elements d' rest))"
  by pat_completeness auto
termination
  by (relation "measure (\<lambda>(d, s). length s)") (auto dest!: duration_element_shorter)

definition ParseDuration :: "string \<Rightarrow> int option" where
  "ParseDuration s = (let (neg, t) = strip_sign s in
     if t = ''0'' then Some 0
     else if t = '''' then None
     else (case duration_elements 0 t of None \<Rightarrow> None | Some d \<Rightarrow>
       (if neg then Some (- d) else if d > 2 ^ 63 - 1 then None else Some d)))"

text \<open>\<open>Duration.Seconds\<close>, for a duration that is not negative, and \<open>%.9f\<close> of a finite float that is
  not negative: the float's value is rounded to nine places.\<close>

definition duration_Seconds :: "int \<Rightarrow> flt" where
  "duration_Seconds d = add64 (f64_of_int (d div 1000000000))
     (div64 (f64_of_int (d mod 1000000000)) (f64_of_int 1000000000))"

fun show_digits :: "nat \<Rightarrow> int \<Rightarrow> string" where
  "show_digits 0 n = []"
| "show_digits (Suc k) n = show_digits k (n div 10) @ [digit_char (nat (n mod 10))]"

definition fixed_nine :: "int \<Rightarrow> string" where
  "fixed_nine n = show_int (n div 1000000000) @ ''.'' @ show_digits 9 (n mod 1000000000)"

definition format_fixed_nine :: "flt \<Rightarrow> string" where
  "format_fixed_nine x = (case x of Fin a \<Rightarrow> fixed_nine (round_even (a * 1000000000)) | _ \<Rightarrow> '''')"

definition defaultSubprocessTimeoutArg :: string where
  "defaultSubprocessTimeoutArg = ''1m''"

definition getSubprocessTimeoutArg :: "anymap option \<Rightarrow> raw_error + string" where
  "getSubprocessTimeoutArg cfg = (if any_at cfg ''timeout'' = None then Inr defaultSubprocessTimeoutArg
     else (case ParseDuration (cfg_text cfg ''timeout'') of
         Some duration \<Rightarrow> if cfg_string cfg ''timeout'' = None \<or> duration \<le> 0
           then Inl (errorf ''timeout must be a positive duration string'')
           else Inr (format_fixed_nine (duration_Seconds duration) @ ''s'')
       | None \<Rightarrow> Inl (errorf ''timeout must be a positive duration string'')))"

definition splitOptionalArgs :: "string \<Rightarrow> string list" where
  "splitOptionalArgs s = (if s = '''' then [] else split_on (CHR '','') s)"

subsection \<open>The provider\<close>

definition subprocess_command :: "anymap option \<Rightarrow> raw_error + string" where
  "subprocess_command cfg = (case cfg_string cfg ''command'' of
     None \<Rightarrow> Inl (errorf ''command not found in config'')
   | Some command \<Rightarrow> (if TrimSpace command = '''' then Inl (errorf ''command not found in config'')
       else Inr command))"

definition subprocess_validate :: "os_exec \<Rightarrow> anymap option \<Rightarrow> raw_error option" where
  "subprocess_validate os cfg = (case subprocess_command cfg of
     Inl err \<Rightarrow> Some err
   | Inr command \<Rightarrow> (case getSubprocessTimeoutArg cfg of
       Inl err \<Rightarrow> Some err
     | Inr _ \<Rightarrow> (case LookPath os ''timeout'' of
         Some err \<Rightarrow> Some (wrapf (''required GNU coreutils '' @ [CHR 0x27] @ ''timeout'' @ [CHR 0x27]
           @ '' binary not found: '') err)
       | None \<Rightarrow> map_option (wrapf (''command '' @ double_quoted (TrimSpace command)
             @ '' not found locally: '')) (LookPath os (TrimSpace command)))))"

definition subprocess_args :: "anymap option \<Rightarrow> string list" where
  "subprocess_args cfg =
    (case cfg_string cfg ''args'' of None \<Rightarrow> [] | Some argsVal \<Rightarrow> splitOptionalArgs argsVal)"

definition subprocess_invoke :: "os_exec \<Rightarrow> anymap option \<Rightarrow> raw_error option" where
  "subprocess_invoke os cfg = (case subprocess_command cfg of
     Inl err \<Rightarrow> Some err
   | Inr command \<Rightarrow> (case getSubprocessTimeoutArg cfg of
       Inl err \<Rightarrow> Some err
     | Inr timeoutArg \<Rightarrow> map_option (wrapf ''failed to start subprocess: '')
         (StartProcess os ''timeout'' (timeoutArg # command # subprocess_args cfg))))"

definition subprocess_provider :: "os_exec \<Rightarrow> compute_provider" where
  "subprocess_provider os = \<lparr>providerLaunchStrategy = LaunchStrategyInvoke,
     providerValidateConfig = (\<lambda>rc cfg. unclassed (subprocess_validate os cfg)),
     providerInvokeWorker = (\<lambda>rc cfg. unclassed (subprocess_invoke os cfg)),
     providerUpdateWorkerSetSize = (\<lambda>rc cfg n. unclassed (Some ErrUnsupported))\<rparr>"

interpretation subprocess: provider_contract "subprocess_provider os" for os
  by unfold_locales (simp_all add: subprocess_provider_def)

section \<open>Properties\<close>

text \<open>Rounding to a float of less than \<open>2 ^ k\<close> is off by less than half a unit of its last place.\<close>

lemma rnd64_error:
  assumes "0 \<le> x" and "x < pow2 k" and "- 1021 \<le> k" and "k \<le> 1023"
  shows "\<exists>y. rnd64 x = Fin y \<and> \<bar>y - x\<bar> \<le> pow2 (k - 54)"
proof (cases "x = 0")
  case True
  then show ?thesis using pow2_nonneg [of "k - 54"] by simp
next
  case False
  with assms(1) have x: "0 < x" by simp
  let ?u = "ulp_exp 53 (- 1074) x"
  from ilog2_bounds [OF x] assms(2) have "pow2 (ilog2 x) < pow2 k" by linarith
  then have u: "?u \<le> k - 53" using assms(3) x by (simp add: ulp_exp_def)
  define y where "y = round_mag 53 (- 1074) x"
  have "\<bar>of_int (round_even (x / pow2 ?u)) - x / pow2 ?u\<bar> * pow2 ?u \<le> 1 / 2 * pow2 ?u"
    using round_even_error pow2_nonneg by (intro mult_right_mono) auto
  moreover have "of_int (round_even (x / pow2 ?u)) * pow2 ?u - x
      = (of_int (round_even (x / pow2 ?u)) - x / pow2 ?u) * pow2 ?u"
    using pow2_nonzero [of ?u] by (simp add: left_diff_distrib)
  ultimately have "\<bar>y - x\<bar> \<le> 1 / 2 * pow2 ?u"
    using pow2_nonneg [of ?u] by (simp add: y_def round_mag_def Let_def abs_mult)
  also have "\<dots> \<le> 1 / 2 * pow2 (k - 53)" using u by simp
  also have "\<dots> = pow2 (k - 54)" using pow2_add [of 1 "k - 54"] by (simp add: pow2_nat)
  finally have error: "\<bar>y - x\<bar> \<le> pow2 (k - 54)" .
  have "\<bar>y\<bar> < pow2 1024"
  proof -
    have "pow2 k \<le> pow2 1023" "pow2 (k - 54) < pow2 1023" using assms(4) by simp_all
    moreover have "pow2 1023 + pow2 1023 = pow2 1024" using pow2_add [of 1 1023] by (simp add: pow2_nat)
    ultimately show ?thesis using error x assms(2) by linarith
  qed
  then have "rnd64 x = Fin y"
    using x by (auto simp: rnd64_def rnd_def round_rat_def y_def Let_def abs_less_iff)
  with error show ?thesis by blast
qed

lemma round_even_near: "\<bar>x - of_int n\<bar> < 1 / 2 \<Longrightarrow> round_even x = n"
proof -
  assume "\<bar>x - of_int n\<bar> < 1 / 2"
  with round_even_error [of x] have "\<bar>of_int (round_even x) - of_int n :: rat\<bar> < 1" by linarith
  then have "of_int \<bar>round_even x - n\<bar> < (of_int 1 :: rat)" by simp
  then show ?thesis by linarith
qed

lemma seconds_near:
  assumes "0 < d" and "d < 2 ^ 22 * 1000000000"
  shows "\<exists>a. duration_Seconds d = Fin a \<and> \<bar>a * 1000000000 - of_int d\<bar> < 1 / 2"
proof -
  define sec where "sec = d div 1000000000"
  define nsec where "nsec = d mod 1000000000"
  have parts: "0 \<le> sec" "sec \<le> 2 ^ 22 - 1" "0 \<le> nsec" "nsec < 1000000000"
    and d: "d = sec * 1000000000 + nsec"
    using assms by (simp_all add: sec_def nsec_def div_pos_pos_trivial)
  have exact: "f64_of_int sec = Fin (of_int sec)" "f64_of_int nsec = Fin (of_int nsec)"
    "f64_of_int 1000000000 = Fin 1000000000"
    using parts f64_of_int_exact [of 1000000000] by (auto intro!: f64_of_int_exact)
  define x where "x = (of_int nsec / 1000000000 :: rat)"
  have x: "0 \<le> x" "x \<le> 1 - 1 / 1000000000"
    using parts by (simp_all add: x_def field_simps)
  then obtain r where r: "rnd64 x = Fin r" "\<bar>r - x\<bar> \<le> pow2 (- 54)"
    using rnd64_error [of x 0] by auto
  have tiny: "pow2 (- 54) = 1 / 2 ^ 54" "pow2 (- 32) = 1 / 2 ^ 32" "pow2 22 = 2 ^ 22"
    by (simp_all add: pow2_def)
  have "of_int sec \<le> (2 ^ 22 - 1 :: rat)"
    using parts(2) by (metis (no_types, lifting) of_int_le_iff of_int_diff of_int_1 of_int_power of_int_numeral)
  moreover have "r < 1" using r(2) x(2) unfolding tiny abs_le_iff by (simp add: field_simps)
  moreover have "0 \<le> r" using rnd64_nonneg [OF x(1)] by (simp add: r(1) flt_nonneg_def)
  ultimately have "0 \<le> of_int sec + r" "of_int sec + r < pow2 22"
    using parts(1) unfolding tiny by simp_all
  then obtain a where a: "rnd64 (of_int sec + r) = Fin a" "\<bar>a - (of_int sec + r)\<bar> \<le> pow2 (- 32)"
    using rnd64_error [of "of_int sec + r" 22] by auto
  have "duration_Seconds d = Fin a"
    using a(1) r(1) by (simp add: duration_Seconds_def sec_def [symmetric] nsec_def [symmetric] exact
        fdiv_def fadd_def x_def)
  moreover have "\<bar>a * 1000000000 - of_int d\<bar> < 1 / 2"
  proof -
    have "of_int d = of_int sec * 1000000000 + x * (1000000000 :: rat)" by (simp add: d x_def)
    with a(2) r(2) show ?thesis unfolding tiny abs_le_iff abs_less_iff by (simp add: field_simps)
  qed
  ultimately show ?thesis by blast
qed

lemma timeout_exact:
  assumes "any_at cfg ''timeout'' = Some (VString s)" and "ParseDuration s = Some d" and "0 < d"
    and "d < 2 ^ 22 * 1000000000"
  shows "getSubprocessTimeoutArg cfg = Inr (fixed_nine d @ ''s'')"
proof -
  obtain a where "duration_Seconds d = Fin a" "\<bar>a * 1000000000 - of_int d\<bar> < 1 / 2"
    using seconds_near [OF assms(3,4)] by blast
  with assms show ?thesis
    by (simp add: getSubprocessTimeoutArg_def cfg_text_def cfg_string_def format_fixed_nine_def
        round_even_near)
qed

lemma timeout_cases:
  assumes "getSubprocessTimeoutArg cfg = Inr t"
  shows "case any_at cfg ''timeout'' of None \<Rightarrow> t = ''1m''
    | Some v \<Rightarrow> \<exists>s d. v = VString s \<and> ParseDuration s = Some d \<and> 0 < d
        \<and> (d < 2 ^ 22 * 1000000000 \<longrightarrow> t = fixed_nine d @ ''s'')"
proof (cases "any_at cfg ''timeout''")
  case None
  with assms show ?thesis by (simp add: getSubprocessTimeoutArg_def defaultSubprocessTimeoutArg_def)
next
  case (Some v)
  with assms obtain d where d: "ParseDuration (cfg_text cfg ''timeout'') = Some d" "0 < d"
      "cfg_string cfg ''timeout'' \<noteq> None"
    by (auto simp: getSubprocessTimeoutArg_def split: option.splits if_splits)
  with Some obtain s where "v = VString s" "cfg_text cfg ''timeout'' = s"
    by (auto simp: cfg_text_def cfg_string_def split: option.splits anyval.splits)
  with Some d assms timeout_exact [of cfg s d] show ?thesis by auto
qed

text \<open>C40: What a validated configuration of the subprocess provider runs: \<open>timeout(1)\<close> with the
  configured duration, or a minute if there is none, and then the command and the arguments.
  Below \<open>2 ^ 22\<close> seconds (48 days) the duration that is passed on is the configured one to the
  nanosecond, although it goes through a float.  The command that is run is the configured one as
  it stands, but the one that was looked up is without the white space around it.\<close>

theorem subprocess_runs_command:
  assumes "providerValidateConfig (subprocess_provider os) rc cfg = None"
  shows "\<exists>command t. cfg_string cfg ''command'' = Some command
    \<and> LookPath os (TrimSpace command) = None \<and> TrimSpace command \<noteq> ''''
    \<and> (providerInvokeWorker (subprocess_provider os) rc cfg = None
        \<longleftrightarrow> StartProcess os ''timeout'' (t # command # subprocess_args cfg) = None)
    \<and> (case any_at cfg ''timeout'' of None \<Rightarrow> t = ''1m''
       | Some v \<Rightarrow> \<exists>s d. v = VString s \<and> ParseDuration s = Some d \<and> 0 < d
           \<and> (d < 2 ^ 22 * 1000000000 \<longrightarrow>
               t = show_int (d div 1000000000) @ ''.'' @ show_digits 9 (d mod 1000000000) @ ''s''))"
proof -
  from assms obtain command t where "subprocess_command cfg = Inr command"
      "getSubprocessTimeoutArg cfg = Inr t" "LookPath os (TrimSpace command) = None"
    by (auto simp: subprocess_provider_def subprocess_validate_def split: sum.split_asm option.split_asm)
  moreover from this have "cfg_string cfg ''command'' = Some command" "TrimSpace command \<noteq> ''''"
    by (auto simp: subprocess_command_def split: option.splits if_splits)
  moreover have "providerInvokeWorker (subprocess_provider os) rc cfg = None
      \<longleftrightarrow> StartProcess os ''timeout'' (t # command # subprocess_args cfg) = None"
    using calculation(1,2) by (simp add: subprocess_provider_def subprocess_invoke_def)
  ultimately show ?thesis
    using timeout_cases [of cfg t] unfolding fixed_nine_def append_assoc
    by - (rule exI [of _ command], rule exI [of _ t], simp)
qed

text \<open>A system on which only \<open>worker\<close>, and nothing with white space around it, can be run.\<close>

definition sample_os :: os_exec where
  "sample_os =
    \<lparr>LookPath = (\<lambda>p. if p = ''worker'' \<or> p = ''timeout'' then None else Some (errorf ''not found'')),
     StartProcess = (\<lambda>p args. if args = [''1.500000000s'', ''worker'', ''-v''] then None
        else Some (errorf ''cannot run''))\<rparr>"

definition sample_command :: "string \<Rightarrow> anymap option" where
  "sample_command c = Some [(''command'', VString c), (''timeout'', VString ''1500ms''),
     (''args'', VString ''-v'')]"

lemma sample_command_validated:
  "providerValidateConfig (subprocess_provider sample_os) rc (sample_command '' worker '') = None"
  "providerValidateConfig (subprocess_provider sample_os) rc (sample_command ''worker'') = None"
  by (simp_all add: subprocess_provider_def) code_simp+

theorem subprocess_runs_command_witness:
  "providerInvokeWorker (subprocess_provider sample_os) sample_context (sample_command ''worker'') = None
    \<and> providerInvokeWorker (subprocess_provider sample_os) sample_context (sample_command '' worker '') \<noteq> None"
proof -
  have parsed: "ParseDuration ''1500ms'' = Some 1500000000" by code_simp
  have shown: "show_int 1 = ''1''" "show_digits 9 500000000 = ''500000000''" by code_simp+
  have started: "providerInvokeWorker (subprocess_provider sample_os) sample_context (sample_command c) = None
      \<longleftrightarrow> c = ''worker''" if "c = ''worker'' \<or> c = '' worker ''" for c
  proof -
    from that sample_command_validated have
      "providerValidateConfig (subprocess_provider sample_os) sample_context (sample_command c) = None"
      by auto
    from subprocess_runs_command [OF this] show ?thesis
      by (auto simp: sample_command_def cfg_string_def any_at_def parsed shown sample_os_def
          subprocess_args_def splitOptionalArgs_def)
  qed
  then show ?thesis by simp
qed

text \<open>A resize on Kubernetes sends back what it read, with the replicas set: \<open>field\<close> reads a field of
  the object, and setting one field leaves those that are not below or above it.\<close>

definition sets_field :: "'o k8s_sdk \<Rightarrow> ('o \<Rightarrow> string list \<Rightarrow> int option) \<Rightarrow> bool" where
  "sets_field sdk field \<longleftrightarrow> (\<forall>obj n path obj'. SetNestedField sdk obj n path = Inr obj' \<longrightarrow>
     field obj' path = Some n
     \<and> (\<forall>q. take (length path) q \<noteq> path \<and> take (length q) path \<noteq> q \<longrightarrow> field obj' q = field obj q))"

theorem k8s_resize_scales_deployment:
  assumes "sets_field sdk field" and "providerUpdateWorkerSetSize (k8s_provider sdk) rc cfg n = None"
  shows "\<exists>namespace deployment config scale scale'.
    cfg_string cfg ''namespace'' = Some namespace \<and> cfg_string cfg ''deployment'' = Some deployment
    \<and> buildRestConfig sdk cfg = Inr config
    \<and> GetScale sdk config namespace deployment = Inr scale
    \<and> UpdateScale sdk config namespace scale' = None
    \<and> field scale' [''spec'', ''replicas''] = Some n
    \<and> (\<forall>q. take 2 q \<noteq> [''spec'', ''replicas''] \<and> q \<noteq> [] \<and> q \<noteq> [''spec''] \<longrightarrow>
         field scale' q = field scale q)"
proof -
  from assms(2) obtain config namespace deployment scale scale' where
    client: "k8s_client sdk cfg = Inr (config, namespace, deployment)"
    and scale: "GetScale sdk config namespace deployment = Inr scale"
    and set: "SetNestedField sdk scale n [''spec'', ''replicas''] = Inr scale'"
    and update: "UpdateScale sdk config namespace scale' = None"
    by (auto simp: k8s_provider_def k8s_update_def split: sum.splits)
  from client have "cfg_string cfg ''namespace'' = Some namespace"
      "cfg_string cfg ''deployment'' = Some deployment" "buildRestConfig sdk cfg = Inr config"
    by (auto simp: k8s_client_def split: sum.splits option.splits)
  moreover have "take (length q) [''spec'', ''replicas''] \<noteq> q"
    if "take 2 q \<noteq> [''spec'', ''replicas''] \<and> q \<noteq> [] \<and> q \<noteq> [''spec'']" for q
    using that by (cases q; cases "tl q"; cases "tl (tl q)") auto
  moreover note written = assms(1) [unfolded sets_field_def, rule_format, OF set]
  ultimately show ?thesis
    using scale update written
    by - (rule exI [of _ namespace], rule exI [of _ deployment], rule exI [of _ config],
        rule exI [of _ scale], rule exI [of _ scale'], simp add: numeral_2_eq_2)
qed

end
