(* ===== verification/Metrics.thy ===== *)
theory Metrics
  imports Activities
begin

text \<open>
  What the controller measures (\<open>metrics/metric_defs.go\<close>, \<open>workflow/metrics_recorders.go\<close>, and the
  recorders of \<open>workflow/activities.go\<close> and \<open>workflow.go\<close>).

  \<^item> The handlers of the SDK are an argument (\<open>metrics_sdk\<close>): their \<open>WithTags\<close>, and the two tag
    names that the code takes from the server.  What is relied on is the locale \<open>tagged_metrics\<close>:
    \<open>WithTags\<close> sets the tags it is given and keeps the others.
  \<^item> A counter that is incremented, a gauge that is updated and a timer that is recorded are an
    \<open>emission\<close>, with the handler it was made on; a function \<open>X_metrics\<close> lists the emissions of the
    activity \<open>X\<close> on its input, in their order.
  \<^item> The theory shows that the tags of a metric never vary, whatever path emits it, and that every
    activity that is called with a request is counted once, as failed if it fails.
\<close>

section \<open>Names\<close>

named_theorems metric_name

datatype metric_def =
    NewCounterDef (Name: string)
  | NewGaugeDef (Name: string)
  | NewTimerDef (Name: string)

definition InstanceCreated :: metric_def where [metric_name]:
  "InstanceCreated = NewCounterDef ''worker_controller_instance_created''"
definition BacklogCount :: metric_def where [metric_name]:
  "BacklogCount = NewGaugeDef ''worker_controller_instance_backlog_count''"
definition BacklogAge :: metric_def where [metric_name]:
  "BacklogAge = NewGaugeDef ''worker_controller_instance_backlog_age''"
definition ScaleUpCount :: metric_def where [metric_name]:
  "ScaleUpCount = NewCounterDef ''worker_controller_instance_scale_up_count''"
definition ScaleUpThrottledCount :: metric_def where [metric_name]:
  "ScaleUpThrottledCount = NewCounterDef ''worker_controller_instance_scale_up_throttled_count''"
definition TargetWorkerCount :: metric_def where [metric_name]:
  "TargetWorkerCount = NewGaugeDef ''worker_controller_instance_target_worker_count''"
definition DeferredScalingDecisionCount :: metric_def where [metric_name]:
  "DeferredScalingDecisionCount =
     NewCounterDef ''worker_controller_instance_deferred_scaling_decision_count''"
definition DeferredScalingDecisionMetricsPullFailedCount :: metric_def where [metric_name]:
  "DeferredScalingDecisionMetricsPullFailedCount =
     NewCounterDef ''worker_controller_instance_deferred_scaling_decision_metrics_pull_failed_count''"
definition WorkflowErrorCount :: metric_def where [metric_name]:
  "WorkflowErrorCount = NewCounterDef ''worker_controller_instance_workflow_error_count''"
definition SignalsCount :: metric_def where [metric_name]:
  "SignalsCount = NewCounterDef ''worker_controller_instance_signals''"
definition Updates :: metric_def where [metric_name]:
  "Updates = NewCounterDef ''worker_controller_instance_updates''"
definition Operations :: metric_def where [metric_name]:
  "Operations = NewCounterDef ''worker_controller_instance_operations''"
definition ActivitiesCount :: metric_def where [metric_name]:
  "ActivitiesCount = NewCounterDef ''worker_controller_instance_activities''"
definition ScalingActionProcessingLatency :: metric_def where [metric_name]:
  "ScalingActionProcessingLatency =
     NewTimerDef ''worker_controller_instance_scaling_action_processing_latency''"

definition NamespaceTag :: string where [metric_name]: "NamespaceTag = ''namespace''"
definition ActivityTypeTag :: string where [metric_name]: "ActivityTypeTag = ''activityType''"
definition WorkerDeploymentNameTag :: string where [metric_name]:
  "WorkerDeploymentNameTag = ''worker_deployment_name''"
definition WorkerDeploymentBuildIDTag :: string where [metric_name]:
  "WorkerDeploymentBuildIDTag = ''worker_build_id''"
definition ComputeProviderTag :: string where [metric_name]:
  "ComputeProviderTag = ''compute_provider''"
definition SignalTypeTagName :: string where [metric_name]: "SignalTypeTagName = ''signal_type''"
definition UpdateTypeTagName :: string where [metric_name]: "UpdateTypeTagName = ''update_type''"
definition SkipReasonTagName :: string where [metric_name]: "SkipReasonTagName = ''skip_reason''"
definition ActivityErrorTypeTagName :: string where [metric_name]:
  "ActivityErrorTypeTagName = ''activity_error_type''"
definition PathTagName :: string where [metric_name]: "PathTagName = ''path''"

definition ComputeProviderNone :: string where "ComputeProviderNone = ''none''"

text \<open>The values of the tags: each type is a string type with constants.\<close>

fun error_type_value :: "ErrorType \<Rightarrow> string" where
  "error_type_value ErrorTypeDescribeWorkerDeploymentVersionFailed
    = ''describe_worker_deployment_version_failed''"
| "error_type_value ErrorTypeLockFailure = ''lock_failure''"
| "error_type_value ErrorTypeBuildUpdatedSpecFailure = ''build_updated_spec_failure''"
| "error_type_value ErrorTypeInvalidSpec = ''invalid_spec''"
| "error_type_value ErrorTypeActivityError = ''activity_error''"
| "error_type_value ErrorTypeInvalidRequest = ''invalid_request''"
| "error_type_value ErrorTypeAlgorithmUnavailable = ''algorithm_unavailable''"
| "error_type_value ErrorTypeAlgorithmFailed = ''algorithm_failed''"
| "error_type_value ErrorTypeComputeProviderNotEnabled = ''compute_provider_not_enabled''"
| "error_type_value ErrorTypeComputeProviderFailed = ''compute_provider_failed''"
| "error_type_value ErrorTypeComputeProviderRejected = ''compute_provider_rejected''"
| "error_type_value ErrorTypeComputeProviderRejectedNotFound = ''compute_provider_rejected_not_found''"
| "error_type_value ErrorTypeComputeProviderRejectedAccessDenied
    = ''compute_provider_rejected_access_denied''"
| "error_type_value ErrorTypeComputeProviderServiceUnavailable
    = ''compute_provider_service_unavailable''"
| "error_type_value ErrorTypeComputeProviderThrottled = ''compute_provider_throttled''"
| "error_type_value ErrorTypeComputeProviderConflict = ''compute_provider_conflict''"
| "error_type_value ErrorTypeComputeProviderInternal = ''compute_provider_internal''"
| "error_type_value ErrorTypeNone = ''none''"

datatype SkippedReason =
    SkippedReasonSpecMissing
  | SkippedReasonWciDisabled
  | SkippedReasonInvalidRequest
  | SkippedReasonAlgorithmUnavailable
  | SkippedReasonAlgorithmFailed
  | SkippedReasonNoMatchingScalingGroup
  | SkippedReasonInvalidCount
  | SkippedReasonNoSourceRequest
  | SkippedReasonTaskTypeMismatch
  | SkippedReasonQueueFull
  | SkippedReasonNone

fun skipped_reason_value :: "SkippedReason \<Rightarrow> string" where
  "skipped_reason_value SkippedReasonSpecMissing = ''spec_missing''"
| "skipped_reason_value SkippedReasonWciDisabled = ''wci_disabled''"
| "skipped_reason_value SkippedReasonInvalidRequest = ''invalid_request''"
| "skipped_reason_value SkippedReasonAlgorithmUnavailable = ''algorithm_unavailable''"
| "skipped_reason_value SkippedReasonAlgorithmFailed = ''algorithm_failed''"
| "skipped_reason_value SkippedReasonNoMatchingScalingGroup = ''no_matching_scaling_group''"
| "skipped_reason_value SkippedReasonInvalidCount = ''invalid_count''"
| "skipped_reason_value SkippedReasonNoSourceRequest = ''no_source_request''"
| "skipped_reason_value SkippedReasonTaskTypeMismatch = ''task_type_mismatch''"
| "skipped_reason_value SkippedReasonQueueFull = ''queue_full''"
| "skipped_reason_value SkippedReasonNone = ''none''"

datatype ActivityErrorType =
    ActivityErrorTypeTimeout
  | ActivityErrorTypeCanceled
  | ActivityErrorTypeApplication
  | ActivityErrorTypePanic
  | ActivityErrorTypeTerminated
  | ActivityErrorTypeOther
  | ActivityErrorTypeNone

fun activity_error_type_value :: "ActivityErrorType \<Rightarrow> string" where
  "activity_error_type_value ActivityErrorTypeTimeout = ''timeout''"
| "activity_error_type_value ActivityErrorTypeCanceled = ''canceled''"
| "activity_error_type_value ActivityErrorTypeApplication = ''application''"
| "activity_error_type_value ActivityErrorTypePanic = ''panic''"
| "activity_error_type_value ActivityErrorTypeTerminated = ''terminated''"
| "activity_error_type_value ActivityErrorTypeOther = ''other''"
| "activity_error_type_value ActivityErrorTypeNone = ''none''"

datatype ActivityType =
    ActivityTypeHandleTaskAddSignal
  | ActivityTypeUpdateWorkerSetSize
  | ActivityTypeInvokeWorker
  | ActivityTypeInvokeWorkersToRegisterTaskQueues
  | ActivityTypeValidateSpec
  | ActivityTypePullStats
  | ActivityTypeHandleDeferredScalingDecision

fun activity_type_value :: "ActivityType \<Rightarrow> string" where
  "activity_type_value ActivityTypeHandleTaskAddSignal = ''handle_task_add_signal''"
| "activity_type_value ActivityTypeUpdateWorkerSetSize = ''update_worker_set_size''"
| "activity_type_value ActivityTypeInvokeWorker = ''invoke_worker''"
| "activity_type_value ActivityTypeInvokeWorkersToRegisterTaskQueues
    = ''invoke_workers_to_register_task_queues''"
| "activity_type_value ActivityTypeValidateSpec = ''validate_spec''"
| "activity_type_value ActivityTypePullStats = ''pull_stats''"
| "activity_type_value ActivityTypeHandleDeferredScalingDecision = ''handle_deferred_scaling_decision''"

lemma value_none [simp]:
  "error_type_value t = ''none'' \<longleftrightarrow> t = ErrorTypeNone"
  by (cases t) simp_all

section \<open>Handlers and emissions\<close>

text \<open>What the code uses of the SDK's metrics handlers, and the two tag names it takes from the
  server's package of metrics.\<close>

record 'h metrics_sdk =
  WithTags :: "'h \<Rightarrow> (string, string) gomap \<Rightarrow> 'h"
  OperationTagName :: string
  ErrorTypeTagName :: string

datatype metric_value = Inc int | Update flt | Record int

record 'h emission =
  EmittedOn :: 'h
  MetricName :: string
  MetricValue :: metric_value

definition computeProviderTagValue :: "string \<Rightarrow> string" where
  "computeProviderTagValue provider = (if provider = '''' then ComputeProviderNone else provider)"

definition computeProviderMetrics :: "'h metrics_sdk \<Rightarrow> 'h \<Rightarrow> string \<Rightarrow> 'h" where
  "computeProviderMetrics sdk h provider =
    WithTags sdk h [(ComputeProviderTag, computeProviderTagValue provider)]"

section \<open>The recorders of the workflow\<close>

definition noComputeProvider :: string where "noComputeProvider = ''''"

text \<open>The handler of the runner, from the one of the workflow's context.\<close>

definition runner_metrics :: "'h metrics_sdk \<Rightarrow> 'h \<Rightarrow> RequestContext \<Rightarrow> 'h" where
  "runner_metrics sdk h args = WithTags sdk h
    [(NamespaceTag, NamespaceName args),
     (WorkerDeploymentNameTag, RequestDeploymentName args),
     (WorkerDeploymentBuildIDTag, DeploymentBuildID args),
     (ComputeProviderTag, ComputeProviderNone)]"

text \<open>The kinds of errors that the SDK's predicates tell apart, outermost first, in the chain of an
  error and those it wraps.\<close>

datatype sdk_error =
    TimeoutError | CanceledError | SdkApplicationError | PanicError | TerminatedError | OtherSdkError

definition classifyActivityErrorType :: "sdk_error list \<Rightarrow> ActivityErrorType" where
  "classifyActivityErrorType err =
    (if TimeoutError \<in> set err then ActivityErrorTypeTimeout
     else if CanceledError \<in> set err then ActivityErrorTypeCanceled
     else if SdkApplicationError \<in> set err then ActivityErrorTypeApplication
     else if PanicError \<in> set err then ActivityErrorTypePanic
     else if TerminatedError \<in> set err then ActivityErrorTypeTerminated
     else ActivityErrorTypeOther)"

text \<open>The operations counter.  The recorders of the code are closures over the runner's handler
  \<open>d\<close>; here they are records, and their methods take the handler.\<close>

record operationRecorder =
  operationOp :: string
  operationProvider :: string

definition operationMetric :: "string \<Rightarrow> operationRecorder" where
  "operationMetric op' = \<lparr>operationOp = op', operationProvider = noComputeProvider\<rparr>"

definition operation_emit ::
    "'h metrics_sdk \<Rightarrow> 'h \<Rightarrow> operationRecorder \<Rightarrow> ErrorType \<Rightarrow> ActivityErrorType \<Rightarrow> SkippedReason
      \<Rightarrow> 'h emission" where
  "operation_emit sdk d r errorType activityErrorType skipReason =
    \<lparr>EmittedOn = WithTags sdk d
       [(OperationTagName sdk, operationOp r),
        (ComputeProviderTag, computeProviderTagValue (operationProvider r)),
        (ErrorTypeTagName sdk, error_type_value errorType),
        (ActivityErrorTypeTagName, activity_error_type_value activityErrorType),
        (SkipReasonTagName, skipped_reason_value skipReason)],
     MetricName = Name Operations, MetricValue = Inc 1\<rparr>"

text \<open>The methods that a recorder shares with that of the signals, over its \<open>emit\<close>.\<close>

definition recordSuccess ::
    "(ErrorType \<Rightarrow> ActivityErrorType \<Rightarrow> SkippedReason \<Rightarrow> 'h emission) \<Rightarrow> 'h emission" where
  "recordSuccess emit = emit ErrorTypeNone ActivityErrorTypeNone SkippedReasonNone"

definition recordActivityError ::
    "(ErrorType \<Rightarrow> ActivityErrorType \<Rightarrow> SkippedReason \<Rightarrow> 'h emission) \<Rightarrow> sdk_error list
      \<Rightarrow> 'h emission" where
  "recordActivityError emit err =
    emit ErrorTypeActivityError (classifyActivityErrorType err) SkippedReasonNone"

definition recordSkipped ::
    "(ErrorType \<Rightarrow> ActivityErrorType \<Rightarrow> SkippedReason \<Rightarrow> 'h emission) \<Rightarrow> SkippedReason
      \<Rightarrow> 'h emission" where
  "recordSkipped emit reason = emit ErrorTypeNone ActivityErrorTypeNone reason"

text \<open>The counter of the signals.\<close>

definition signal_emit ::
    "'h metrics_sdk \<Rightarrow> 'h \<Rightarrow> string \<Rightarrow> ErrorType \<Rightarrow> ActivityErrorType \<Rightarrow> SkippedReason
      \<Rightarrow> 'h emission" where
  "signal_emit sdk d signalType errorType activityErrorType skipReason =
    \<lparr>EmittedOn = WithTags sdk d
       [(SignalTypeTagName, signalType),
        (ErrorTypeTagName sdk, error_type_value errorType),
        (ActivityErrorTypeTagName, activity_error_type_value activityErrorType),
        (SkipReasonTagName, skipped_reason_value skipReason)],
     MetricName = Name SignalsCount, MetricValue = Inc 1\<rparr>"

text \<open>The counter of the updates, which have no skips.\<close>

definition update_emit ::
    "'h metrics_sdk \<Rightarrow> 'h \<Rightarrow> string \<Rightarrow> ErrorType \<Rightarrow> ActivityErrorType \<Rightarrow> 'h emission" where
  "update_emit sdk d updateType errorType activityErrorType =
    \<lparr>EmittedOn = WithTags sdk d
       [(UpdateTypeTagName, updateType),
        (ErrorTypeTagName sdk, error_type_value errorType),
        (ActivityErrorTypeTagName, activity_error_type_value activityErrorType)],
     MetricName = Name Updates, MetricValue = Inc 1\<rparr>"

definition update_success :: "'h metrics_sdk \<Rightarrow> 'h \<Rightarrow> string \<Rightarrow> 'h emission" where
  "update_success sdk d updateType = update_emit sdk d updateType ErrorTypeNone ActivityErrorTypeNone"

definition update_activity_error ::
    "'h metrics_sdk \<Rightarrow> 'h \<Rightarrow> string \<Rightarrow> sdk_error list \<Rightarrow> 'h emission" where
  "update_activity_error sdk d updateType err =
    update_emit sdk d updateType ErrorTypeActivityError (classifyActivityErrorType err)"

definition recordFailure :: "'h metrics_sdk \<Rightarrow> 'h \<Rightarrow> string \<Rightarrow> ErrorType \<Rightarrow> 'h emission" where
  "recordFailure sdk d updateType errorType =
    update_emit sdk d updateType errorType ActivityErrorTypeNone"

text \<open>What is emitted for the provider of one scaling group.\<close>

record 'h providerScope =
  scopeProvider :: string
  tagged :: 'h

definition forProvider :: "'h metrics_sdk \<Rightarrow> 'h \<Rightarrow> string \<Rightarrow> 'h providerScope" where
  "forProvider sdk d provider = \<lparr>scopeProvider = provider,
     tagged = WithTags sdk d [(ComputeProviderTag, computeProviderTagValue provider)]\<rparr>"

definition recordEvent :: "'h providerScope \<Rightarrow> metric_def \<Rightarrow> 'h emission" where
  "recordEvent p m = \<lparr>EmittedOn = tagged p, MetricName = Name m, MetricValue = Inc 1\<rparr>"

definition recordTargetWorkerCount :: "'h providerScope \<Rightarrow> int \<Rightarrow> 'h emission" where
  "recordTargetWorkerCount p count = \<lparr>EmittedOn = tagged p, MetricName = Name TargetWorkerCount,
     MetricValue = Update (f64_of_int count)\<rparr>"

definition scope_operation :: "'h providerScope \<Rightarrow> string \<Rightarrow> operationRecorder" where
  "scope_operation p op' = \<lparr>operationOp = op', operationProvider = scopeProvider p\<rparr>"

text \<open>The difference of two times, in nanoseconds, saturates at the bounds of a duration.\<close>

definition time_sub :: "int \<Rightarrow> int \<Rightarrow> int" where
  "time_sub t u = max min_int64 (min max_int64 (t - u))"

record latency_origin =
  originStart :: "int option"
  originPath :: string

definition recordLatency ::
    "'h metrics_sdk \<Rightarrow> 'h providerScope \<Rightarrow> int \<Rightarrow> latency_origin \<Rightarrow> string \<Rightarrow> 'h emission list" where
  "recordLatency sdk p now origin operation = (case originStart origin of
     None \<Rightarrow> []
   | Some start \<Rightarrow>
      [\<lparr>EmittedOn = WithTags sdk (tagged p)
          [(PathTagName, originPath origin), (OperationTagName sdk, operation)],
        MetricName = Name ScalingActionProcessingLatency,
        MetricValue = Record (time_sub now start)\<rparr>])"

text \<open>The two counters of the workflow itself.\<close>

definition plain_count :: "'h \<Rightarrow> metric_def \<Rightarrow> 'h emission" where
  "plain_count d m = \<lparr>EmittedOn = d, MetricName = Name m, MetricValue = Inc 1\<rparr>"

section \<open>The recorders of the activities\<close>

definition activity_metrics ::
    "'h metrics_sdk \<Rightarrow> 'h \<Rightarrow> RequestContext \<Rightarrow> ActivityType \<Rightarrow> string \<Rightarrow> 'h" where
  "activity_metrics sdk h rc activityType provider = WithTags sdk h
    [(NamespaceTag, NamespaceName rc),
     (WorkerDeploymentNameTag, RequestDeploymentName rc),
     (WorkerDeploymentBuildIDTag, DeploymentBuildID rc),
     (ActivityTypeTag, activity_type_value activityType),
     (ComputeProviderTag, computeProviderTagValue provider)]"

definition activity_emit ::
    "'h metrics_sdk \<Rightarrow> 'h \<Rightarrow> ErrorType \<Rightarrow> SkippedReason \<Rightarrow> 'h emission" where
  "activity_emit sdk h errorType reason =
    \<lparr>EmittedOn = WithTags sdk h
       [(ErrorTypeTagName sdk, error_type_value errorType),
        (SkipReasonTagName, skipped_reason_value reason)],
     MetricName = Name ActivitiesCount, MetricValue = Inc 1\<rparr>"

text \<open>The three closures of \<open>newActivityRecorders\<close>.\<close>

definition activity_error :: "'h metrics_sdk \<Rightarrow> 'h \<Rightarrow> ErrorType \<Rightarrow> 'h emission" where
  "activity_error sdk h errorType = activity_emit sdk h errorType SkippedReasonNone"

definition activity_skipped :: "'h metrics_sdk \<Rightarrow> 'h \<Rightarrow> SkippedReason \<Rightarrow> 'h emission" where
  "activity_skipped sdk h reason = activity_emit sdk h ErrorTypeNone reason"

definition activity_success :: "'h metrics_sdk \<Rightarrow> 'h \<Rightarrow> 'h emission" where
  "activity_success sdk h = activity_emit sdk h ErrorTypeNone SkippedReasonNone"

subsection \<open>ValidateSpec\<close>

text \<open>What is recorded before each return of an error.\<close>

fun validate_error_type :: "activity_error \<Rightarrow> ErrorType" where
  "validate_error_type (ApplicationError t c) = (case c of
     ComputeProviderFailed k e \<Rightarrow> ErrorTypeComputeProviderFailed
   | ComputeProviderUnknown k p \<Rightarrow> ErrorTypeComputeProviderNotEnabled
   | ScalingAlgorithmUnavailable k a \<Rightarrow> ErrorTypeAlgorithmUnavailable
   | _ \<Rightarrow> ErrorTypeInvalidRequest)"
| "validate_error_type (PlainError c) = ErrorTypeInvalidRequest"

fun validate_groups_metrics ::
    "'h metrics_sdk \<Rightarrow> 'h \<Rightarrow> activity_env \<Rightarrow> ValidateSpecRequest
      \<Rightarrow> (string \<times> ScalingGroupSpec) list \<Rightarrow> 'h emission list" where
  "validate_groups_metrics sdk h env r [] = [activity_success sdk h]"
| "validate_groups_metrics sdk h env r (kv # kvs) =
    (case validate_group env (ValidateContext r) (ScalingGroupsToSkipProviderValidation r) kv of
       Some e \<Rightarrow> [activity_error sdk
         (computeProviderMetrics sdk h (ProviderType (Compute (snd kv)))) (validate_error_type e)]
     | None \<Rightarrow> validate_groups_metrics sdk h env r kvs)"

definition ValidateSpec_metrics ::
    "'h metrics_sdk \<Rightarrow> 'h \<Rightarrow> activity_env \<Rightarrow> ValidateSpecRequest option \<Rightarrow> 'h emission list" where
  "ValidateSpec_metrics sdk h env req = (case req of None \<Rightarrow> [] | Some r \<Rightarrow>
    (case ValidateSpecOf r of None \<Rightarrow> [] | Some spec \<Rightarrow>
      validate_groups_metrics sdk
        (activity_metrics sdk h (ValidateContext r) ActivityTypeValidateSpec noComputeProvider)
        env r (ScalingGroupSpecs spec)))"

subsection \<open>InvokeWorkersToRegisterTaskQueues\<close>

fun register_error_type :: "activity_error \<Rightarrow> ErrorType" where
  "register_error_type (ApplicationError t c) = (case c of
     ComputeProviderFailed k e \<Rightarrow> ErrorTypeComputeProviderFailed
   | ComputeProviderUnknown k p \<Rightarrow> ErrorTypeComputeProviderNotEnabled
   | AlgorithmLookupFailed k e \<Rightarrow> ErrorTypeAlgorithmFailed
   | InvokeWorkerFailed k e \<Rightarrow> ErrorTypeComputeProviderFailed
   | UpdateWorkerSetSizeFailed k e \<Rightarrow> ErrorTypeComputeProviderFailed
   | _ \<Rightarrow> ErrorTypeInvalidRequest)"
| "register_error_type (PlainError c) = ErrorTypeInvalidRequest"

fun register_groups_metrics ::
    "'h metrics_sdk \<Rightarrow> 'h \<Rightarrow> activity_env \<Rightarrow> InvokeWorkersToRegisterTaskQueuesRequest
      \<Rightarrow> TaskQueueType list \<Rightarrow> (string \<times> ScalingGroupSpec) list \<Rightarrow> compute_call list \<times> status_map
      \<Rightarrow> 'h emission list" where
  "register_groups_metrics sdk h env req registered [] acc = [activity_success sdk h]"
| "register_groups_metrics sdk h env req registered (kv # kvs) acc =
    (case register_group env req registered kv acc of
       (calls, Inl e) \<Rightarrow> [activity_error sdk
         (computeProviderMetrics sdk h (ProviderType (Compute (snd kv)))) (register_error_type e)]
     | (calls, Inr status) \<Rightarrow>
         register_groups_metrics sdk h env req registered kvs (calls, status))"

definition InvokeWorkersToRegisterTaskQueues_metrics ::
    "'h metrics_sdk \<Rightarrow> 'h \<Rightarrow> activity_env \<Rightarrow> InvokeWorkersToRegisterTaskQueuesRequest option
      \<Rightarrow> 'h emission list" where
  "InvokeWorkersToRegisterTaskQueues_metrics sdk h env req = (case req of None \<Rightarrow> [] | Some r \<Rightarrow>
    (let m = activity_metrics sdk h (RegisterContext r)
               ActivityTypeInvokeWorkersToRegisterTaskQueues noComputeProvider;
         groups = ScalingGroupSpecs (RegisterSpec r)
     in case registeredTaskQueueTypes env of
          Inl (DescribeRateLimited e) \<Rightarrow>
            [activity_error sdk m ErrorTypeDescribeWorkerDeploymentVersionFailed]
        | Inl (DescribeError e) \<Rightarrow> register_groups_metrics sdk m env r [] groups ([], [])
        | Inr registered \<Rightarrow> register_groups_metrics sdk m env r registered groups ([], [])))"

subsection \<open>Starting and resizing workers\<close>

text \<open>The two activities differ in the method of the provider that they call, \<open>act\<close>.\<close>

definition provider_call_metrics ::
    "'h metrics_sdk \<Rightarrow> 'h \<Rightarrow> activity_env \<Rightarrow> ComputeProviderSpec
      \<Rightarrow> (compute_provider \<Rightarrow> anymap option \<Rightarrow> provider_error option) \<Rightarrow> 'h emission list" where
  "provider_call_metrics sdk h env cc act = (case get_provider env (ProviderType cc) of
     Inl e \<Rightarrow> [activity_error sdk h ErrorTypeComputeProviderFailed]
   | Inr None \<Rightarrow> [activity_error sdk h ErrorTypeComputeProviderNotEnabled]
   | Inr (Some provider) \<Rightarrow> (case envDecode env (ProviderConfig cc) of
       Inl e \<Rightarrow> [activity_error sdk h ErrorTypeInvalidRequest]
     | Inr config \<Rightarrow> (case act provider config of
         Some e \<Rightarrow> [activity_error sdk h (computeProviderErrorType e)]
       | None \<Rightarrow> [activity_success sdk h])))"

definition InvokeWorker_metrics ::
    "'h metrics_sdk \<Rightarrow> 'h \<Rightarrow> activity_env \<Rightarrow> InvokeWorkerActivityRequest option \<Rightarrow> 'h emission list" where
  "InvokeWorker_metrics sdk h env req = (case req of None \<Rightarrow> [] | Some r \<Rightarrow>
    (case InvokeComputeConfig r of None \<Rightarrow> [] | Some cc \<Rightarrow>
      provider_call_metrics sdk
        (activity_metrics sdk h (InvokeContext r) ActivityTypeInvokeWorker (ProviderType cc)) env cc
        (\<lambda>provider. providerInvokeWorker provider (InvokeContext r))))"

definition UpdateWorkerSetSize_metrics ::
    "'h metrics_sdk \<Rightarrow> 'h \<Rightarrow> activity_env \<Rightarrow> UpdateWorkerSetSizeActivityRequest option
      \<Rightarrow> 'h emission list" where
  "UpdateWorkerSetSize_metrics sdk h env req = (case req of None \<Rightarrow> [] | Some r \<Rightarrow>
    (case ResizeComputeConfig r of None \<Rightarrow> [] | Some cc \<Rightarrow>
      provider_call_metrics sdk
        (activity_metrics sdk h (ResizeContext r) ActivityTypeUpdateWorkerSetSize (ProviderType cc))
        env cc
        (\<lambda>provider config.
           providerUpdateWorkerSetSize provider (ResizeContext r) config (UpdatedSize r))))"

subsection \<open>Deferred decisions, signals and polls\<close>

text \<open>Whether the algorithm asks for the metrics snapshot is not seen here; the counter of a failed
  pull is apart.\<close>

definition deferred_metrics ::
    "'h metrics_sdk \<Rightarrow> 'h \<Rightarrow> HandleDeferredScalingDecisionActivityRequest \<Rightarrow> 'h" where
  "deferred_metrics sdk h req = activity_metrics sdk h (DeferredContext req)
     ActivityTypeHandleDeferredScalingDecision (ProviderType (Compute (DeferredGroupSpec req)))"

definition deferred_pull_failed ::
    "'h metrics_sdk \<Rightarrow> 'h \<Rightarrow> HandleDeferredScalingDecisionActivityRequest \<Rightarrow> 'h emission" where
  "deferred_pull_failed sdk h req =
    plain_count (deferred_metrics sdk h req) DeferredScalingDecisionMetricsPullFailedCount"

definition HandleDeferredScalingDecision_metrics ::
    "'h metrics_sdk \<Rightarrow> 'h \<Rightarrow> activity_env \<Rightarrow> HandleDeferredScalingDecisionActivityRequest
      \<Rightarrow> 'h emission list" where
  "HandleDeferredScalingDecision_metrics sdk h env req = (let m = deferred_metrics sdk h req in
     if SignalTaskQueueType (DeferredRequest req) \<notin> set (DeferredTaskTypes req)
     then [activity_skipped sdk m SkippedReasonTaskTypeMismatch]
     else (case getScalingAlgorithmAndConfig env (DeferredGroupSpec req) of
       Inl e \<Rightarrow> [activity_skipped sdk m SkippedReasonAlgorithmUnavailable]
     | Inr _ \<Rightarrow> (case HandleDeferredScalingDecision env req of
         Inl e \<Rightarrow> [activity_error sdk m ErrorTypeAlgorithmFailed]
       | Inr response \<Rightarrow> [activity_success sdk m])))"

definition HandleTaskAddSignal_metrics ::
    "'h metrics_sdk \<Rightarrow> 'h \<Rightarrow> activity_env \<Rightarrow> HandleTaskAddSignalActivityRequest
      \<Rightarrow> 'h emission list" where
  "HandleTaskAddSignal_metrics sdk h env req =
    (let m = activity_metrics sdk h (TaskAddContext req) ActivityTypeHandleTaskAddSignal
               noComputeProvider
     in case TaskAddSpec req of
          None \<Rightarrow> [activity_skipped sdk m SkippedReasonSpecMissing]
        | Some spec \<Rightarrow>
           (let key = ScalingGroupKeyForTaskQueueType (Some spec)
                  (SignalTaskQueueType (TaskAddRequestOf req)) (regionID env)
            in if key = '''' then [activity_skipped sdk m SkippedReasonNoMatchingScalingGroup]
               else (case map_of (ScalingGroupSpecs spec) key of
                 None \<Rightarrow> [activity_skipped sdk m SkippedReasonNoMatchingScalingGroup]
               | Some entry \<Rightarrow>
                  (let groupMetrics = computeProviderMetrics sdk m (ProviderType (Compute entry))
                   in case getScalingAlgorithmAndConfig env entry of
                        Inl e \<Rightarrow> [activity_skipped sdk groupMetrics SkippedReasonAlgorithmUnavailable]
                      | Inr (scalingAlgo, scalingConfig) \<Rightarrow>
                         (let response = opProcessTaskAdd scalingAlgo (envNow env key) scalingConfig
                                (status_at (TaskAddScalingStatus req) key) (TaskAddRequestOf req)
                          in (if ThrottledCount response > 0
                              then [\<lparr>EmittedOn = groupMetrics,
                                     MetricName = Name ScaleUpThrottledCount,
                                     MetricValue = Inc (ThrottledCount response)\<rparr>] else [])
                             @ [activity_success sdk groupMetrics])))))"

text \<open>\<open>Duration.Seconds\<close> adds whole seconds and the rest as floats; the division truncates.\<close>

definition duration_seconds :: "int \<Rightarrow> flt" where
  "duration_seconds d =
    (let sec = sgn d * (\<bar>d\<bar> div 1000000000); nsec = sgn d * (\<bar>d\<bar> mod 1000000000)
     in fadd rnd64 (f64_of_int sec) (fdiv rnd64 (f64_of_int nsec) (Fin 1000000000)))"

definition backlog_of :: "QueueTypeScalingMetrics option \<Rightarrow> int" where
  "backlog_of m = (case m of None \<Rightarrow> 0 | Some m \<Rightarrow> LastBacklogCount m)"

definition age_of :: "QueueTypeScalingMetrics option \<Rightarrow> int" where
  "age_of m = (case m of None \<Rightarrow> 0 | Some m \<Rightarrow> LastBacklogAge m)"

definition backlog_gauges :: "'h \<Rightarrow> ScalingMetricsSnapshot \<Rightarrow> 'h emission list" where
  "backlog_gauges h s =
    [\<lparr>EmittedOn = h, MetricName = Name BacklogCount, MetricValue = Update (f64_of_int
        (wrap64 (wrap64 (backlog_of (Workflow s) + backlog_of (Activity s)) + backlog_of (Nexus s))))\<rparr>,
     \<lparr>EmittedOn = h, MetricName = Name BacklogAge, MetricValue = Update (duration_seconds
        (max (max (age_of (Workflow s)) (age_of (Activity s))) (age_of (Nexus s))))\<rparr>]"

definition PullStats_metrics ::
    "'h metrics_sdk \<Rightarrow> 'h \<Rightarrow> activity_env \<Rightarrow> PullStatsActivityRequest option \<Rightarrow> 'h emission list" where
  "PullStats_metrics sdk h env req = (case req of None \<Rightarrow> [] | Some r \<Rightarrow>
    (case PullSpec r of None \<Rightarrow> [] | Some spec \<Rightarrow>
      (let m = activity_metrics sdk h (PullContext r) ActivityTypePullStats noComputeProvider
       in if \<not> envEnabled env then [activity_skipped sdk m SkippedReasonWciDisabled]
          else (case pullScalingMetricsSnapshot env of
            Inl e \<Rightarrow> [activity_error sdk m ErrorTypeDescribeWorkerDeploymentVersionFailed]
          | Inr s \<Rightarrow> backlog_gauges m s @ [activity_success sdk m]))))"

section \<open>The contract of the SDK and the schema\<close>

definition base_tags :: "string list" where
  "base_tags = [NamespaceTag, WorkerDeploymentNameTag, WorkerDeploymentBuildIDTag, ComputeProviderTag]"

definition tag_names :: "'h metrics_sdk \<Rightarrow> string list" where
  "tag_names sdk = base_tags @ [ActivityTypeTag, SignalTypeTagName, UpdateTypeTagName,
     SkipReasonTagName, ActivityErrorTypeTagName, PathTagName, OperationTagName sdk,
     ErrorTypeTagName sdk]"

locale tagged_metrics =
  fixes sdk :: "'h metrics_sdk" and tags :: "'h \<Rightarrow> string \<Rightarrow> string option"
  assumes with_tags: "tags (WithTags sdk h m) = tags h ++ map_of m"
    and names: "distinct (tag_names sdk)"

text \<open>The tags of each metric beyond the base tags.\<close>

definition metric_schema :: "'h metrics_sdk \<Rightarrow> (metric_def \<times> string list) list" where
  "metric_schema sdk =
    (let outcome = [ErrorTypeTagName sdk, ActivityErrorTypeTagName] in
    [(InstanceCreated, []), (WorkflowErrorCount, []), (ScaleUpCount, []),
     (DeferredScalingDecisionCount, []), (TargetWorkerCount, []),
     (ScalingActionProcessingLatency, [PathTagName, OperationTagName sdk]),
     (Operations, OperationTagName sdk # SkipReasonTagName # outcome),
     (SignalsCount, SignalTypeTagName # SkipReasonTagName # outcome),
     (Updates, UpdateTypeTagName # outcome),
     (ActivitiesCount, [ActivityTypeTag, ErrorTypeTagName sdk, SkipReasonTagName]),
     (BacklogCount, [ActivityTypeTag]), (BacklogAge, [ActivityTypeTag]),
     (ScaleUpThrottledCount, [ActivityTypeTag]),
     (DeferredScalingDecisionMetricsPullFailedCount, [ActivityTypeTag])])"

definition schema_of :: "'h metrics_sdk \<Rightarrow> string \<Rightarrow> (metric_def \<times> string list) option" where
  "schema_of sdk = map_of (List.map (\<lambda>mk. (Name (fst mk), mk)) (metric_schema sdk))"

lemma schema_simps [simp]:
  "schema_of sdk (Name InstanceCreated) = Some (InstanceCreated, [])"
  "schema_of sdk (Name WorkflowErrorCount) = Some (WorkflowErrorCount, [])"
  "schema_of sdk (Name ScaleUpCount) = Some (ScaleUpCount, [])"
  "schema_of sdk (Name DeferredScalingDecisionCount) = Some (DeferredScalingDecisionCount, [])"
  "schema_of sdk (Name TargetWorkerCount) = Some (TargetWorkerCount, [])"
  "schema_of sdk (Name ScalingActionProcessingLatency)
     = Some (ScalingActionProcessingLatency, [PathTagName, OperationTagName sdk])"
  "schema_of sdk (Name Operations) = Some (Operations,
     [OperationTagName sdk, SkipReasonTagName, ErrorTypeTagName sdk, ActivityErrorTypeTagName])"
  "schema_of sdk (Name SignalsCount) = Some (SignalsCount,
     [SignalTypeTagName, SkipReasonTagName, ErrorTypeTagName sdk, ActivityErrorTypeTagName])"
  "schema_of sdk (Name Updates) = Some (Updates,
     [UpdateTypeTagName, ErrorTypeTagName sdk, ActivityErrorTypeTagName])"
  "schema_of sdk (Name ActivitiesCount) = Some (ActivitiesCount,
     [ActivityTypeTag, ErrorTypeTagName sdk, SkipReasonTagName])"
  "schema_of sdk (Name BacklogCount) = Some (BacklogCount, [ActivityTypeTag])"
  "schema_of sdk (Name BacklogAge) = Some (BacklogAge, [ActivityTypeTag])"
  "schema_of sdk (Name ScaleUpThrottledCount) = Some (ScaleUpThrottledCount, [ActivityTypeTag])"
  "schema_of sdk (Name DeferredScalingDecisionMetricsPullFailedCount)
     = Some (DeferredScalingDecisionMetricsPullFailedCount, [ActivityTypeTag])"
  by (simp_all add: schema_of_def metric_schema_def Let_def metric_name)

text \<open>A counter grows, a gauge is updated, a timer records.\<close>

fun value_fits :: "metric_def \<Rightarrow> metric_value \<Rightarrow> bool" where
  "value_fits (NewCounterDef _) (Inc n) \<longleftrightarrow> 0 < n"
| "value_fits (NewGaugeDef _) (Update x) \<longleftrightarrow> True"
| "value_fits (NewTimerDef _) (Record d) \<longleftrightarrow> True"
| "value_fits _ _ \<longleftrightarrow> False"

text \<open>Every place that emits a metric, with the arguments any path may give it.\<close>

inductive emitted :: "'h metrics_sdk \<Rightarrow> 'h \<Rightarrow> 'h emission \<Rightarrow> bool" for sdk h where
  instance_created: "emitted sdk h (plain_count (runner_metrics sdk h args) InstanceCreated)"
| workflow_error: "emitted sdk h (plain_count (runner_metrics sdk h args) WorkflowErrorCount)"
| operation: "emitted sdk h (operation_emit sdk (runner_metrics sdk h args) r et aet sr)"
| signal: "emitted sdk h (signal_emit sdk (runner_metrics sdk h args) st et aet sr)"
| update: "emitted sdk h (update_emit sdk (runner_metrics sdk h args) ut et aet)"
| scale_up: "emitted sdk h
    (recordEvent (forProvider sdk (runner_metrics sdk h args) p) ScaleUpCount)"
| deferred: "emitted sdk h
    (recordEvent (forProvider sdk (runner_metrics sdk h args) p) DeferredScalingDecisionCount)"
| target: "emitted sdk h
    (recordTargetWorkerCount (forProvider sdk (runner_metrics sdk h args) p) n)"
| latency: "e \<in> set (recordLatency sdk (forProvider sdk (runner_metrics sdk h args) p) now origin op')
    \<Longrightarrow> emitted sdk h e"
| validate: "e \<in> set (ValidateSpec_metrics sdk h env vreq) \<Longrightarrow> emitted sdk h e"
| register: "e \<in> set (InvokeWorkersToRegisterTaskQueues_metrics sdk h env rreq) \<Longrightarrow> emitted sdk h e"
| invoke: "e \<in> set (InvokeWorker_metrics sdk h env ireq) \<Longrightarrow> emitted sdk h e"
| resize: "e \<in> set (UpdateWorkerSetSize_metrics sdk h env ureq) \<Longrightarrow> emitted sdk h e"
| decision: "e \<in> set (HandleDeferredScalingDecision_metrics sdk h env dreq) \<Longrightarrow> emitted sdk h e"
| decision_pull: "emitted sdk h (deferred_pull_failed sdk h dreq)"
| task_add: "e \<in> set (HandleTaskAddSignal_metrics sdk h env treq) \<Longrightarrow> emitted sdk h e"
| poll: "e \<in> set (PullStats_metrics sdk h env preq) \<Longrightarrow> emitted sdk h e"

text \<open>What the activities emit, by the recorder and the handler.\<close>

lemma validate_groups_metrics_cases:
  "\<exists>p t. validate_groups_metrics sdk h env r kvs =
     [case first_error (validate_group env (ValidateContext r)
         (ScalingGroupsToSkipProviderValidation r)) kvs of
        None \<Rightarrow> activity_success sdk h
      | Some e \<Rightarrow> activity_error sdk (computeProviderMetrics sdk h p) (validate_error_type e)]"
  by (induction kvs) (auto split: option.splits)

lemma register_groups_metrics_cases:
  "\<exists>p. register_groups_metrics sdk h env req registered kvs acc =
     [case snd (register_groups env req registered kvs acc) of
        Inr status \<Rightarrow> activity_success sdk h
      | Inl e \<Rightarrow> activity_error sdk (computeProviderMetrics sdk h p) (register_error_type e)]"
  by (induction kvs arbitrary: acc) (auto split: prod.split sum.split)

lemma validate_error_type_none [simp]: "validate_error_type e \<noteq> ErrorTypeNone"
  by (cases e) (simp_all split: activity_cause.split)

lemma register_error_type_none [simp]: "register_error_type e \<noteq> ErrorTypeNone"
  by (cases e) (simp_all split: activity_cause.split)

lemma provider_error_type_none [simp]: "computeProviderErrorType e \<noteq> ErrorTypeNone"
  by (simp add: computeProviderErrorType_def split: option.split FailureClass.split)

definition fits_schema :: "'h metrics_sdk \<Rightarrow> ('h \<Rightarrow> string \<Rightarrow> string option) \<Rightarrow> 'h \<Rightarrow> 'h emission \<Rightarrow> bool" where
  "fits_schema sdk tags h e \<longleftrightarrow> (\<exists>m ks. schema_of sdk (MetricName e) = Some (m, ks)
     \<and> dom (tags (EmittedOn e)) = dom (tags h) \<union> set base_tags \<union> set ks
     \<and> value_fits m (MetricValue e))"

context tagged_metrics
begin

lemma dom_with_tags: "dom (tags (WithTags sdk h m)) = dom (tags h) \<union> fst ` set m"
  by (auto simp: with_tags dom_map_add dom_map_of_conv_image_fst)

lemmas emission_defs = runner_metrics_def activity_metrics_def computeProviderMetrics_def
  plain_count_def operation_emit_def signal_emit_def update_emit_def forProvider_def recordEvent_def
  recordTargetWorkerCount_def activity_error_def activity_skipped_def activity_success_def
  activity_emit_def

lemma fitsI:
  "MetricName e = n \<Longrightarrow> schema_of sdk n = Some (m, ks) \<Longrightarrow>
    dom (tags (EmittedOn e)) = dom (tags h) \<union> set base_tags \<union> set ks \<Longrightarrow>
    value_fits m (MetricValue e) \<Longrightarrow> fits_schema sdk tags h e"
  by (auto simp: fits_schema_def)

lemma workflow_fits:
  "fits_schema sdk tags h (plain_count (runner_metrics sdk h args) InstanceCreated)"
  "fits_schema sdk tags h (plain_count (runner_metrics sdk h args) WorkflowErrorCount)"
  "fits_schema sdk tags h (operation_emit sdk (runner_metrics sdk h args) r et aet sr)"
  "fits_schema sdk tags h (signal_emit sdk (runner_metrics sdk h args) st et aet sr)"
  "fits_schema sdk tags h (update_emit sdk (runner_metrics sdk h args) ut et aet)"
  "fits_schema sdk tags h (recordEvent (forProvider sdk (runner_metrics sdk h args) p) ScaleUpCount)"
  "fits_schema sdk tags h
     (recordEvent (forProvider sdk (runner_metrics sdk h args) p) DeferredScalingDecisionCount)"
  "fits_schema sdk tags h (recordTargetWorkerCount (forProvider sdk (runner_metrics sdk h args) p) n)"
  by (rule fitsI, simp add: emission_defs, simp,
      (auto simp: emission_defs dom_with_tags base_tags_def)[1],
      simp add: emission_defs metric_name)+

lemma latency_fits:
  assumes "e \<in> set (recordLatency sdk (forProvider sdk (runner_metrics sdk h args) p) now origin op')"
  shows "fits_schema sdk tags h e"
proof -
  from assms obtain d where e: "e = \<lparr>EmittedOn = WithTags sdk
      (tagged (forProvider sdk (runner_metrics sdk h args) p))
        [(PathTagName, originPath origin), (OperationTagName sdk, op')],
      MetricName = Name ScalingActionProcessingLatency, MetricValue = Record d\<rparr>"
    by (auto simp: recordLatency_def split: option.splits)
  show ?thesis
    by (rule fitsI, simp add: e, simp,
        (auto simp: e emission_defs dom_with_tags base_tags_def)[1], simp add: e metric_name)
qed

lemma activity_fits:
  "fits_schema sdk tags h (activity_emit sdk (activity_metrics sdk h rc aty p) t sr)"
  "fits_schema sdk tags h (activity_emit sdk (computeProviderMetrics sdk (activity_metrics sdk h rc aty p') p) t sr)"
  "fits_schema sdk tags h (plain_count (activity_metrics sdk h rc aty p)
     DeferredScalingDecisionMetricsPullFailedCount)"
  by (rule fitsI, simp add: emission_defs, simp,
      (auto simp: emission_defs dom_with_tags base_tags_def)[1],
      simp add: emission_defs metric_name)+

end

context tagged_metrics
begin

lemma error_fits:
  "fits_schema sdk tags h (activity_error sdk (activity_metrics sdk h rc aty p) t)"
  "fits_schema sdk tags h
     (activity_error sdk (computeProviderMetrics sdk (activity_metrics sdk h rc aty p') p) t)"
  "fits_schema sdk tags h (activity_skipped sdk (activity_metrics sdk h rc aty p) sr)"
  "fits_schema sdk tags h
     (activity_skipped sdk (computeProviderMetrics sdk (activity_metrics sdk h rc aty p') p) sr)"
  "fits_schema sdk tags h (activity_success sdk (activity_metrics sdk h rc aty p))"
  "fits_schema sdk tags h
     (activity_success sdk (computeProviderMetrics sdk (activity_metrics sdk h rc aty p') p))"
  by (simp_all add: activity_error_def activity_skipped_def activity_success_def activity_fits)

lemma gauge_fits:
  "e \<in> set (backlog_gauges (activity_metrics sdk h rc aty p) s) \<Longrightarrow> fits_schema sdk tags h e"
proof -
  assume "e \<in> set (backlog_gauges (activity_metrics sdk h rc aty p) s)"
  then obtain m x where e: "e = \<lparr>EmittedOn = activity_metrics sdk h rc aty p, MetricName = Name m,
      MetricValue = Update x\<rparr>" and m: "m = BacklogCount \<or> m = BacklogAge"
    by (auto simp: backlog_gauges_def)
  from m have "schema_of sdk (Name m) = Some (m, [ActivityTypeTag])" by auto
  then show ?thesis
    by (rule fitsI [where n = "Name m", rotated])
      (use m in \<open>auto simp: e activity_metrics_def dom_with_tags base_tags_def metric_name\<close>)
qed

lemma throttled_fits:
  "0 < n \<Longrightarrow> fits_schema sdk tags h
    \<lparr>EmittedOn = computeProviderMetrics sdk (activity_metrics sdk h rc aty p') p,
     MetricName = Name ScaleUpThrottledCount, MetricValue = Inc n\<rparr>"
  by (rule fitsI, simp, simp, (auto simp: emission_defs dom_with_tags base_tags_def)[1],
      simp add: metric_name)

lemma activities_fit:
  "e \<in> set (ValidateSpec_metrics sdk h env vreq) \<Longrightarrow> fits_schema sdk tags h e"
  "e \<in> set (InvokeWorkersToRegisterTaskQueues_metrics sdk h env rreq) \<Longrightarrow> fits_schema sdk tags h e"
  "e \<in> set (InvokeWorker_metrics sdk h env ireq) \<Longrightarrow> fits_schema sdk tags h e"
  "e \<in> set (UpdateWorkerSetSize_metrics sdk h env ureq) \<Longrightarrow> fits_schema sdk tags h e"
  "e \<in> set (HandleDeferredScalingDecision_metrics sdk h env dreq) \<Longrightarrow> fits_schema sdk tags h e"
  "e \<in> set (HandleTaskAddSignal_metrics sdk h env treq) \<Longrightarrow> fits_schema sdk tags h e"
  "e \<in> set (PullStats_metrics sdk h env preq) \<Longrightarrow> fits_schema sdk tags h e"
proof -
  have v: "e \<in> set (validate_groups_metrics sdk (activity_metrics sdk h rc aty p') env r kvs)
      \<Longrightarrow> fits_schema sdk tags h e" for rc aty p' r kvs
    using validate_groups_metrics_cases [of sdk "activity_metrics sdk h rc aty p'" env r kvs]
    by (auto simp: error_fits split: option.splits)
  have g: "e \<in> set (register_groups_metrics sdk (activity_metrics sdk h rc aty p') env r q kvs acc)
      \<Longrightarrow> fits_schema sdk tags h e" for rc aty p' r q kvs acc
    using register_groups_metrics_cases [of sdk "activity_metrics sdk h rc aty p'" env r q kvs acc]
    by (cases "snd (register_groups env r q kvs acc)") (auto simp: error_fits)
  have c: "e \<in> set (provider_call_metrics sdk (activity_metrics sdk h rc aty p') env cc act)
      \<Longrightarrow> fits_schema sdk tags h e" for rc aty p' cc act
    by (cases "get_provider env (ProviderType cc)"; cases "envDecode env (ProviderConfig cc)")
      (auto simp: provider_call_metrics_def error_fits split: option.splits)
  show "e \<in> set (ValidateSpec_metrics sdk h env vreq) \<Longrightarrow> fits_schema sdk tags h e"
    by (auto simp: ValidateSpec_metrics_def v split: option.splits)
  show "e \<in> set (InvokeWorkersToRegisterTaskQueues_metrics sdk h env rreq) \<Longrightarrow> fits_schema sdk tags h e"
    by (cases "registeredTaskQueueTypes env"; cases "projl (registeredTaskQueueTypes env)")
      (auto simp: InvokeWorkersToRegisterTaskQueues_metrics_def Let_def g error_fits
        split: option.splits)
  show "e \<in> set (InvokeWorker_metrics sdk h env ireq) \<Longrightarrow> fits_schema sdk tags h e"
    by (auto simp: InvokeWorker_metrics_def c split: option.splits)
  show "e \<in> set (UpdateWorkerSetSize_metrics sdk h env ureq) \<Longrightarrow> fits_schema sdk tags h e"
    by (auto simp: UpdateWorkerSetSize_metrics_def c split: option.splits)
  show "e \<in> set (HandleDeferredScalingDecision_metrics sdk h env dreq) \<Longrightarrow> fits_schema sdk tags h e"
    by (cases "getScalingAlgorithmAndConfig env (DeferredGroupSpec dreq)";
        cases "HandleDeferredScalingDecision env dreq")
      (auto simp: HandleDeferredScalingDecision_metrics_def deferred_metrics_def Let_def error_fits
        split: if_splits)
  show "e \<in> set (HandleTaskAddSignal_metrics sdk h env treq) \<Longrightarrow> fits_schema sdk tags h e"
    by (auto simp: HandleTaskAddSignal_metrics_def Let_def error_fits throttled_fits
        split: if_splits option.splits prod.splits sum.split_asm)
  show "e \<in> set (PullStats_metrics sdk h env preq) \<Longrightarrow> fits_schema sdk tags h e"
    by (cases "pullScalingMetricsSnapshot env")
      (auto simp: PullStats_metrics_def Let_def error_fits intro: gauge_fits
        split: if_splits option.splits)
qed

lemma emitted_fits: "emitted sdk h e \<Longrightarrow> fits_schema sdk tags h e"
  by (induction rule: emitted.induct)
    (simp_all add: workflow_fits latency_fits activities_fit deferred_pull_failed_def
      deferred_metrics_def activity_fits(3))

end

section \<open>Properties\<close>

text \<open>C38: The tags of a metric never vary: every emission of the workflow and of its activities, on
  whatever path and with whatever arguments, is of a known metric, carries exactly the tags of the
  SDK's handler, the four base tags and those of the metric's schema, and uses the metric as what
  it was defined (a counter grows, a gauge is set, a timer records).\<close>

theorem metric_tags_fixed:
  assumes "tagged_metrics sdk tags" and "emitted sdk h e"
  shows "fits_schema sdk tags h e"
  using assms by (rule tagged_metrics.emitted_fits)

text \<open>Handlers that are the maps of their tags.\<close>

definition map_sdk :: "(string \<Rightarrow> string option) metrics_sdk" where
  "map_sdk = \<lparr>WithTags = (\<lambda>h m. h ++ map_of m), OperationTagName = ''operation'',
     ErrorTypeTagName = ''error_type''\<rparr>"

interpretation map_metrics: tagged_metrics map_sdk "\<lambda>h. h"
  by unfold_locales (simp_all add: map_sdk_def tag_names_def base_tags_def metric_name)

theorem metric_tags_fixed_witness:
  "dom (EmittedOn (recordFailure map_sdk (runner_metrics map_sdk Map.empty sample_context)
      ''update_instance'' ErrorTypeLockFailure))
    = {''namespace'', ''worker_deployment_name'', ''worker_build_id'', ''compute_provider'',
       ''update_type'', ''error_type'', ''activity_error_type''}"
proof -
  let ?e = "update_emit map_sdk (runner_metrics map_sdk Map.empty sample_context) ''update_instance''
    ErrorTypeLockFailure ActivityErrorTypeNone"
  have "MetricName ?e = Name Updates" by (simp add: update_emit_def)
  with metric_tags_fixed [OF map_metrics.tagged_metrics_axioms emitted.update, of Map.empty
      sample_context "''update_instance''" ErrorTypeLockFailure ActivityErrorTypeNone]
  have "dom (EmittedOn ?e) = set base_tags
      \<union> {UpdateTypeTagName, ErrorTypeTagName map_sdk, ActivityErrorTypeTagName}"
    by (simp add: fits_schema_def)
  then show ?thesis
    by (simp add: recordFailure_def base_tags_def metric_name map_sdk_def insert_commute)
qed

text \<open>Of the emissions \<open>es\<close> exactly one counts an activity of type \<open>aty\<close>: by one, for the version of
  \<open>rc\<close>, and with an error exactly if the activity did not succeed.\<close>

definition counted_once ::
    "'h metrics_sdk \<Rightarrow> ('h \<Rightarrow> string \<Rightarrow> string option) \<Rightarrow> RequestContext \<Rightarrow> ActivityType \<Rightarrow> bool
      \<Rightarrow> 'h emission list \<Rightarrow> bool" where
  "counted_once sdk tags rc aty succeeded es \<longleftrightarrow>
    (\<exists>e. filter (\<lambda>e. MetricName e = Name ActivitiesCount) es = [e] \<and> MetricValue e = Inc 1
      \<and> tags (EmittedOn e) NamespaceTag = Some (NamespaceName rc)
      \<and> tags (EmittedOn e) WorkerDeploymentNameTag = Some (RequestDeploymentName rc)
      \<and> tags (EmittedOn e) WorkerDeploymentBuildIDTag = Some (DeploymentBuildID rc)
      \<and> tags (EmittedOn e) ActivityTypeTag = Some (activity_type_value aty)
      \<and> (tags (EmittedOn e) (ErrorTypeTagName sdk) = Some ''none'' \<longleftrightarrow> succeeded))"

context tagged_metrics
begin

lemma count_recorders:
  "counted_once sdk tags rc aty ok [activity_error sdk (activity_metrics sdk h rc aty p) t]
    \<longleftrightarrow> (t = ErrorTypeNone \<longleftrightarrow> ok)"
  "counted_once sdk tags rc aty ok
      [activity_error sdk (computeProviderMetrics sdk (activity_metrics sdk h rc aty p') p) t]
    \<longleftrightarrow> (t = ErrorTypeNone \<longleftrightarrow> ok)"
  "counted_once sdk tags rc aty ok [activity_skipped sdk (activity_metrics sdk h rc aty p) sr] \<longleftrightarrow> ok"
  "counted_once sdk tags rc aty ok
      [activity_skipped sdk (computeProviderMetrics sdk (activity_metrics sdk h rc aty p') p) sr] \<longleftrightarrow> ok"
  "counted_once sdk tags rc aty ok [activity_success sdk (activity_metrics sdk h rc aty p)] \<longleftrightarrow> ok"
  "counted_once sdk tags rc aty ok
      [activity_success sdk (computeProviderMetrics sdk (activity_metrics sdk h rc aty p') p)] \<longleftrightarrow> ok"
  using names
  by (auto simp: counted_once_def emission_defs with_tags tag_names_def base_tags_def metric_name)

lemma counted_others:
  "counted_once sdk tags rc aty ok (es @ es')
    \<longleftrightarrow> counted_once sdk tags rc aty ok es'"
  if "\<And>e. e \<in> set es \<Longrightarrow> MetricName e \<noteq> Name ActivitiesCount" for es es' :: "'h emission list"
proof -
  from that have "filter (\<lambda>e. MetricName e = Name ActivitiesCount) es = []"
    by (simp add: filter_empty_conv)
  then show ?thesis by (simp add: counted_once_def)
qed

end

context tagged_metrics
begin

lemma provider_call_counted:
  "counted_once sdk tags rc aty ok (provider_call_metrics sdk (activity_metrics sdk h rc aty p) env cc act)
    \<longleftrightarrow> (ok \<longleftrightarrow> (\<exists>provider config. get_provider env (ProviderType cc) = Inr (Some provider)
          \<and> envDecode env (ProviderConfig cc) = Inr config \<and> act provider config = None))"
  by (cases "get_provider env (ProviderType cc)"; cases "envDecode env (ProviderConfig cc)")
    (auto simp: provider_call_metrics_def count_recorders split: option.splits)

lemma validate_counted:
  "counted_once sdk tags rc aty ok
     (validate_groups_metrics sdk (activity_metrics sdk h rc aty p') env r kvs)
    \<longleftrightarrow> (ok \<longleftrightarrow> first_error (validate_group env (ValidateContext r)
          (ScalingGroupsToSkipProviderValidation r)) kvs = None)"
  using validate_groups_metrics_cases [of sdk "activity_metrics sdk h rc aty p'" env r kvs]
  by (cases "first_error (validate_group env (ValidateContext r)
      (ScalingGroupsToSkipProviderValidation r)) kvs") (auto simp: count_recorders)

lemma throttled_not_counted:
  "counted_once sdk tags rc aty ok
     (\<lparr>EmittedOn = h, MetricName = Name ScaleUpThrottledCount, MetricValue = v\<rparr> # es)
    \<longleftrightarrow> counted_once sdk tags rc aty ok es"
  by (simp add: counted_once_def metric_name)

lemma register_counted:
  "counted_once sdk tags rc aty ok
     (register_groups_metrics sdk (activity_metrics sdk h rc aty p') env r q kvs acc)
    \<longleftrightarrow> (ok \<longleftrightarrow> (\<exists>s. snd (register_groups env r q kvs acc) = Inr s))"
  using register_groups_metrics_cases [of sdk "activity_metrics sdk h rc aty p'" env r q kvs acc]
  by (cases "snd (register_groups env r q kvs acc)") (auto simp: count_recorders)

lemma gauges_not_counted:
  "e \<in> set (backlog_gauges h s) \<Longrightarrow> MetricName e \<noteq> Name ActivitiesCount"
  by (auto simp: backlog_gauges_def metric_name)

lemma activities_count:
  "ValidateSpecOf vreq \<noteq> None \<Longrightarrow>
    counted_once sdk tags (ValidateContext vreq) ActivityTypeValidateSpec
      (ValidateSpec env (Some vreq) = None) (ValidateSpec_metrics sdk h env (Some vreq))"
  "counted_once sdk tags (RegisterContext rreq) ActivityTypeInvokeWorkersToRegisterTaskQueues
      (\<exists>s. snd (InvokeWorkersToRegisterTaskQueues env (Some rreq)) = Inr s)
      (InvokeWorkersToRegisterTaskQueues_metrics sdk h env (Some rreq))"
  "InvokeComputeConfig ireq \<noteq> None \<Longrightarrow>
    counted_once sdk tags (InvokeContext ireq) ActivityTypeInvokeWorker
      (snd (InvokeWorker env (Some ireq)) = None) (InvokeWorker_metrics sdk h env (Some ireq))"
  "ResizeComputeConfig ureq \<noteq> None \<Longrightarrow>
    counted_once sdk tags (ResizeContext ureq) ActivityTypeUpdateWorkerSetSize
      (snd (UpdateWorkerSetSize env (Some ureq)) = None)
      (UpdateWorkerSetSize_metrics sdk h env (Some ureq))"
  "counted_once sdk tags (DeferredContext dreq) ActivityTypeHandleDeferredScalingDecision
      (\<exists>s. HandleDeferredScalingDecision env dreq = Inr s)
      (HandleDeferredScalingDecision_metrics sdk h env dreq)"
  "counted_once sdk tags (TaskAddContext treq) ActivityTypeHandleTaskAddSignal True
      (HandleTaskAddSignal_metrics sdk h env treq)"
  "PullSpec preq \<noteq> None \<Longrightarrow>
    counted_once sdk tags (PullContext preq) ActivityTypePullStats
      (\<exists>s. PullStats env (Some preq) = Inr s) (PullStats_metrics sdk h env (Some preq))"
proof -
  show "counted_once sdk tags (ValidateContext vreq) ActivityTypeValidateSpec
      (ValidateSpec env (Some vreq) = None) (ValidateSpec_metrics sdk h env (Some vreq))"
    if "ValidateSpecOf vreq \<noteq> None"
    using that by (auto simp: ValidateSpec_metrics_def ValidateSpec_def validate_counted)
  show "counted_once sdk tags (RegisterContext rreq) ActivityTypeInvokeWorkersToRegisterTaskQueues
      (\<exists>s. snd (InvokeWorkersToRegisterTaskQueues env (Some rreq)) = Inr s)
      (InvokeWorkersToRegisterTaskQueues_metrics sdk h env (Some rreq))"
    by (cases "registeredTaskQueueTypes env"; cases "projl (registeredTaskQueueTypes env)")
      (simp_all add: InvokeWorkersToRegisterTaskQueues_metrics_def Let_def count_recorders
        register_counted InvokeWorkersToRegisterTaskQueues_def)
  show "counted_once sdk tags (InvokeContext ireq) ActivityTypeInvokeWorker
      (snd (InvokeWorker env (Some ireq)) = None) (InvokeWorker_metrics sdk h env (Some ireq))"
    if "InvokeComputeConfig ireq \<noteq> None"
    using that by (auto simp: InvokeWorker_metrics_def InvokeWorker_def provider_call_counted
        split: sum.split option.split)
  show "counted_once sdk tags (ResizeContext ureq) ActivityTypeUpdateWorkerSetSize
      (snd (UpdateWorkerSetSize env (Some ureq)) = None)
      (UpdateWorkerSetSize_metrics sdk h env (Some ureq))"
    if "ResizeComputeConfig ureq \<noteq> None"
    using that by (auto simp: UpdateWorkerSetSize_metrics_def UpdateWorkerSetSize_def
        provider_call_counted split: sum.split option.split)
  show "counted_once sdk tags (DeferredContext dreq) ActivityTypeHandleDeferredScalingDecision
      (\<exists>s. HandleDeferredScalingDecision env dreq = Inr s)
      (HandleDeferredScalingDecision_metrics sdk h env dreq)"
    by (cases "SignalTaskQueueType (DeferredRequest dreq) \<in> set (DeferredTaskTypes dreq)";
        cases "getScalingAlgorithmAndConfig env (DeferredGroupSpec dreq)";
        cases "HandleDeferredScalingDecision env dreq")
      (auto simp: HandleDeferredScalingDecision_metrics_def deferred_metrics_def count_recorders Let_def
        HandleDeferredScalingDecision_def)
  show "counted_once sdk tags (TaskAddContext treq) ActivityTypeHandleTaskAddSignal True
      (HandleTaskAddSignal_metrics sdk h env treq)"
    by (auto simp: HandleTaskAddSignal_metrics_def Let_def count_recorders throttled_not_counted
        split: option.split sum.split)
  show "counted_once sdk tags (PullContext preq) ActivityTypePullStats
      (\<exists>s. PullStats env (Some preq) = Inr s) (PullStats_metrics sdk h env (Some preq))"
    if "PullSpec preq \<noteq> None"
    using that by (cases "pullScalingMetricsSnapshot env")
      (auto simp: PullStats_metrics_def PullStats_def Let_def count_recorders
        counted_others [OF gauges_not_counted])
qed

end

context tagged_metrics
begin

lemma error_tag [simp]:
  "tags (EmittedOn (activity_error sdk h t)) (ErrorTypeTagName sdk) = Some (error_type_value t)"
  by (simp add: activity_error_def activity_emit_def with_tags)

lemma failures_tagged:
  "snd (InvokeWorker env (Some r)) = Some (ApplicationError t (InvokeWorkerFailed k e)) \<Longrightarrow>
    \<exists>x. InvokeWorker_metrics sdk h env (Some r) = [x]
      \<and> tags (EmittedOn x) (ErrorTypeTagName sdk) = Some (error_type_value (computeProviderErrorType e))"
  "snd (UpdateWorkerSetSize env (Some u)) = Some (ApplicationError t (UpdateWorkerSetSizeFailed k e)) \<Longrightarrow>
    \<exists>x. UpdateWorkerSetSize_metrics sdk h env (Some u) = [x]
      \<and> tags (EmittedOn x) (ErrorTypeTagName sdk) = Some (error_type_value (computeProviderErrorType e))"
  "snd (InvokeWorkersToRegisterTaskQueues env (Some q)) = Inl (ApplicationError t c) \<Longrightarrow>
    c = InvokeWorkerFailed k e \<or> c = UpdateWorkerSetSizeFailed k e \<Longrightarrow>
    \<exists>x. InvokeWorkersToRegisterTaskQueues_metrics sdk h env (Some q) = [x]
      \<and> tags (EmittedOn x) (ErrorTypeTagName sdk) = Some ''compute_provider_failed''"
proof -
  show "\<exists>x. InvokeWorker_metrics sdk h env (Some r) = [x]
      \<and> tags (EmittedOn x) (ErrorTypeTagName sdk) = Some (error_type_value (computeProviderErrorType e))"
    if "snd (InvokeWorker env (Some r)) = Some (ApplicationError t (InvokeWorkerFailed k e))"
    using that by (auto simp: InvokeWorker_metrics_def InvokeWorker_def provider_call_metrics_def
        invalid_argument_def split: option.split_asm sum.split_asm)
  show "\<exists>x. UpdateWorkerSetSize_metrics sdk h env (Some u) = [x]
      \<and> tags (EmittedOn x) (ErrorTypeTagName sdk) = Some (error_type_value (computeProviderErrorType e))"
    if "snd (UpdateWorkerSetSize env (Some u)) = Some (ApplicationError t (UpdateWorkerSetSizeFailed k e))"
    using that by (auto simp: UpdateWorkerSetSize_metrics_def UpdateWorkerSetSize_def
        provider_call_metrics_def invalid_argument_def split: option.split_asm sum.split_asm)
  show "\<exists>x. InvokeWorkersToRegisterTaskQueues_metrics sdk h env (Some q) = [x]
      \<and> tags (EmittedOn x) (ErrorTypeTagName sdk) = Some ''compute_provider_failed''"
    if failed: "snd (InvokeWorkersToRegisterTaskQueues env (Some q)) = Inl (ApplicationError t c)"
      and c: "c = InvokeWorkerFailed k e \<or> c = UpdateWorkerSetSizeFailed k e"
  proof -
    have groups: "\<exists>x. register_groups_metrics sdk g env q registered kvs acc = [x]
        \<and> tags (EmittedOn x) (ErrorTypeTagName sdk) = Some ''compute_provider_failed''"
      if "snd (register_groups env q registered kvs acc) = Inl (ApplicationError t c)"
      for g registered kvs acc
      using register_groups_metrics_cases [of sdk g env q registered kvs acc] that c by auto
    show ?thesis using failed c
      by (cases "registeredTaskQueueTypes env"; cases "projl (registeredTaskQueueTypes env)")
        (auto simp: InvokeWorkersToRegisterTaskQueues_metrics_def
          InvokeWorkersToRegisterTaskQueues_def Let_def intro: groups)
  qed
qed

end

text \<open>C39: Every activity that is called with a request is counted exactly once, under its own type and
  for the version of the request, and counted as failed exactly if it fails; what a disabled
  controller, an unknown group or a mismatch skips is not a failure.\<close>

theorem activities_counted_once:
  assumes "tagged_metrics sdk tags"
  shows "(\<forall>r. ValidateSpecOf r \<noteq> None \<longrightarrow>
      counted_once sdk tags (ValidateContext r) ActivityTypeValidateSpec
        (ValidateSpec env (Some r) = None) (ValidateSpec_metrics sdk h env (Some r)))
    \<and> (\<forall>r. counted_once sdk tags (RegisterContext r) ActivityTypeInvokeWorkersToRegisterTaskQueues
        (\<exists>s. snd (InvokeWorkersToRegisterTaskQueues env (Some r)) = Inr s)
        (InvokeWorkersToRegisterTaskQueues_metrics sdk h env (Some r)))
    \<and> (\<forall>r. InvokeComputeConfig r \<noteq> None \<longrightarrow>
      counted_once sdk tags (InvokeContext r) ActivityTypeInvokeWorker
        (snd (InvokeWorker env (Some r)) = None) (InvokeWorker_metrics sdk h env (Some r)))
    \<and> (\<forall>r. ResizeComputeConfig r \<noteq> None \<longrightarrow>
      counted_once sdk tags (ResizeContext r) ActivityTypeUpdateWorkerSetSize
        (snd (UpdateWorkerSetSize env (Some r)) = None)
        (UpdateWorkerSetSize_metrics sdk h env (Some r)))
    \<and> (\<forall>r. counted_once sdk tags (DeferredContext r) ActivityTypeHandleDeferredScalingDecision
        (\<exists>s. HandleDeferredScalingDecision env r = Inr s)
        (HandleDeferredScalingDecision_metrics sdk h env r))
    \<and> (\<forall>r. counted_once sdk tags (TaskAddContext r) ActivityTypeHandleTaskAddSignal True
        (HandleTaskAddSignal_metrics sdk h env r))
    \<and> (\<forall>r. PullSpec r \<noteq> None \<longrightarrow>
      counted_once sdk tags (PullContext r) ActivityTypePullStats
        (\<exists>s. PullStats env (Some r) = Inr s) (PullStats_metrics sdk h env (Some r)))"
  by (intro conjI allI impI tagged_metrics.activities_count [OF assms])

theorem activities_counted_once_witness:
  "counted_once map_sdk (\<lambda>h. h) sample_context ActivityTypePullStats
    (\<exists>s. PullStats sample_env (Some sample_pull) = Inr s)
    (PullStats_metrics map_sdk Map.empty sample_env (Some sample_pull))"
proof -
  from activities_counted_once [OF map_metrics.tagged_metrics_axioms, of sample_env Map.empty]
  have "PullSpec sample_pull \<noteq> None \<longrightarrow>
    counted_once map_sdk (\<lambda>h. h) (PullContext sample_pull) ActivityTypePullStats
      (\<exists>s. PullStats sample_env (Some sample_pull) = Inr s)
      (PullStats_metrics map_sdk Map.empty sample_env (Some sample_pull))" by blast
  then show ?thesis by (simp add: sample_pull_def)
qed

text \<open>What a failure of the provider is counted as: starting and resizing workers count it under
  the class that the provider gave it, but the registration of task queues counts every such
  failure as one that the provider did not classify, whatever its class.\<close>

theorem provider_failures_counted:
  assumes "tagged_metrics sdk tags"
  shows "(snd (InvokeWorker env (Some r)) = Some (ApplicationError t (InvokeWorkerFailed k e)) \<longrightarrow>
      (\<exists>x. InvokeWorker_metrics sdk h env (Some r) = [x]
        \<and> tags (EmittedOn x) (ErrorTypeTagName sdk)
            = Some (error_type_value (computeProviderErrorType e))))
    \<and> (snd (UpdateWorkerSetSize env (Some u)) = Some (ApplicationError t (UpdateWorkerSetSizeFailed k e))
      \<longrightarrow> (\<exists>x. UpdateWorkerSetSize_metrics sdk h env (Some u) = [x]
        \<and> tags (EmittedOn x) (ErrorTypeTagName sdk)
            = Some (error_type_value (computeProviderErrorType e))))
    \<and> (snd (InvokeWorkersToRegisterTaskQueues env (Some q)) = Inl (ApplicationError t c)
        \<and> (c = InvokeWorkerFailed k e \<or> c = UpdateWorkerSetSizeFailed k e) \<longrightarrow>
      (\<exists>x. InvokeWorkersToRegisterTaskQueues_metrics sdk h env (Some q) = [x]
        \<and> tags (EmittedOn x) (ErrorTypeTagName sdk) = Some ''compute_provider_failed''))"
  using tagged_metrics.failures_tagged [OF assms] by blast

text \<open>A provider that is throttled whenever it is asked for a worker.\<close>

definition throttled_error :: provider_error where
  "throttled_error = \<lparr>ErrorClass = Some FailureThrottled, ErrorText = ''slow down''\<rparr>"

definition throttled_env :: activity_env where
  "throttled_env = sample_env\<lparr>envProviders := [(''aws-lambda'',
     Inr (Some ((sample_provider LaunchStrategyInvoke)
       \<lparr>providerInvokeWorker := \<lambda>_ _. Some throttled_error\<rparr>)))]\<rparr>"

definition throttled_invoke :: InvokeWorkerActivityRequest where
  "throttled_invoke = \<lparr>InvokeContext = sample_context, InvokeComputeConfig =
     Some \<lparr>ProviderType = ''aws-lambda'', ProviderConfig = None, NexusEndpoint = ''''\<rparr>\<rparr>"

definition throttled_registration :: InvokeWorkersToRegisterTaskQueuesRequest where
  "throttled_registration = \<lparr>RegisterContext = sample_context, RegisterSpec = \<lparr>ScalingGroupSpecs =
     [(''wf'', scaled_group [TASK_QUEUE_TYPE_WORKFLOW] ''aws-lambda'' ''no-sync'')]\<rparr>,
     RegisterScalingStatus = None\<rparr>"

lemma throttled_invoke_fails: "snd (InvokeWorker throttled_env (Some throttled_invoke))
    = Some (ApplicationError ''InvokeWorkerFailed'' (InvokeWorkerFailed '''' throttled_error))"
  by code_simp

lemma throttled_registration_fails:
  "snd (InvokeWorkersToRegisterTaskQueues throttled_env (Some throttled_registration))
    = Inl (ApplicationError ''InvokeWorkerFailed'' (InvokeWorkerFailed ''wf'' throttled_error))"
  by code_simp

theorem provider_failures_counted_witness:
  "(\<exists>x. InvokeWorker_metrics map_sdk Map.empty throttled_env (Some throttled_invoke) = [x]
      \<and> EmittedOn x ''error_type'' = Some ''compute_provider_throttled'')
   \<and> (\<exists>x. InvokeWorkersToRegisterTaskQueues_metrics map_sdk Map.empty throttled_env
        (Some throttled_registration) = [x]
      \<and> EmittedOn x ''error_type'' = Some ''compute_provider_failed'')"
proof -
  note counted = provider_failures_counted [OF map_metrics.tagged_metrics_axioms, where h = Map.empty]
  from counted throttled_invoke_fails have "\<exists>x.
      InvokeWorker_metrics map_sdk Map.empty throttled_env (Some throttled_invoke) = [x]
      \<and> EmittedOn x (ErrorTypeTagName map_sdk)
        = Some (error_type_value (computeProviderErrorType throttled_error))" by blast
  moreover from counted throttled_registration_fails have "\<exists>x.
      InvokeWorkersToRegisterTaskQueues_metrics map_sdk Map.empty throttled_env
        (Some throttled_registration) = [x]
      \<and> EmittedOn x (ErrorTypeTagName map_sdk) = Some ''compute_provider_failed''" by blast
  ultimately show ?thesis
    by (simp add: map_sdk_def computeProviderErrorType_def throttled_error_def)
qed

end
