(* ===== verification/Timers.thy ===== *)
theory Timers
  imports Progress
begin

text \<open>
  The timers of the run loop under load.  The poll timer and the validation timer have a selector of
  their own (\<open>timerSelectorPatch\<close>), so that the signals, which are always ready under sustained
  load, do not keep them waiting.  What that gives: a due timer waits for at most one batch of
  signals, whatever else happens to the instance.
\<close>

section \<open>A batch leaves the timers alone\<close>

definition timers_kept :: "runner \<Rightarrow> runner \<Rightarrow> bool" where
  "timers_kept d d' \<longleftrightarrow> pollTimer d' = pollTimer d \<and> validationTimer d' = validationTimer d
     \<and> currentTime d \<le> currentTime d' \<and> (timersCancelled d \<longrightarrow> timersCancelled d')"

lemma timers_kept_refl [simp]: "timers_kept d d"
  by (simp add: timers_kept_def)

lemma timers_kept_trans: "timers_kept d d' \<Longrightarrow> timers_kept d' d'' \<Longrightarrow> timers_kept d d''"
  by (simp add: timers_kept_def)

lemma timers_kept_on_state [simp]: "timers_kept d (on_state f d') = timers_kept d d'"
  by (simp add: timers_kept_def on_state_def)

lemma timers_kept_queue [simp]: "timers_kept d (queueTaskAddSignal req d') = timers_kept d d'"
  by (simp add: queueTaskAddSignal_def split: option.split)

lemma timers_kept_pending: "timers_kept d d' \<Longrightarrow> timers_pending d \<Longrightarrow> timers_pending d'"
  by (auto simp: timers_kept_def timers_pending_def timer_ready_def split: option.splits)

lemma timers_kept_frame [simp]:
  "timers_kept d (d'\<lparr>lockHeld := b\<rparr>) = timers_kept d d'"
  "timers_kept d (d'\<lparr>taskAddSignalChannel := c\<rparr>) = timers_kept d d'"
  "timers_kept d (released d') = timers_kept d d'"
  "timers_kept d d' \<Longrightarrow> timers_kept d (markDeleted d')"
  by (simp_all add: timers_kept_def released_def markDeleted_def)

abbreviation (input) timers_conform :: "'r co \<Rightarrow> bool" where
  "timers_conform \<equiv> conforms (\<lambda>d. True) (any_request timers_kept) timers_kept timers_kept"

abbreviation (input) timers_seg :: "runner \<Rightarrow> runner \<times> 'r co \<Rightarrow> bool" where
  "timers_seg \<equiv> seg_ok (\<lambda>d. True) (any_request timers_kept) timers_kept timers_kept"

interpretation waiting: task_adds "\<lambda>d. True" "any_request timers_kept" timers_kept
  by unfold_locales (auto simp: set_scaling_status_def set_validation_def pop_signal_def
      select_signal_def intro: timers_kept_trans split: list.split)

interpretation waiting: update_handlers "\<lambda>d. True" "any_request timers_kept" timers_kept dk
  "\<lambda>args u. True" for dk
  by unfold_locales (auto simp: set_token_and_spec_def)

text \<open>The coroutines other than the callback of a timer.\<close>

definition timers_ok :: "system \<Rightarrow> bool" where
  "timers_ok s \<longleftrightarrow> (\<forall>co. sysMain s = Batch co \<longrightarrow> timers_conform co)
     \<and> (\<forall>(i, h) \<in> set (sysHandlers s). timers_conform (HandlerCo h))"

text \<open>The callback of a timer that is due is called.\<close>

definition calls_timer :: "system \<Rightarrow> system \<Rightarrow> bool" where
  "calls_timer s s' \<longleftrightarrow> sysMain s = AtTimers \<and>
     (timer_ready (sysRunner s) (pollTimer (sysRunner s))
        \<and> s' = settle_main TimerRuns Waiting (poll_timer_fired (sysRunner s)) s
      \<or> timer_ready (sysRunner s) (validationTimer (sysRunner s))
        \<and> (\<exists>n. s' = settle_main TimerRuns Waiting (validation_timer_fired n (sysRunner s)) s))"

definition timer_running :: "system \<Rightarrow> bool" where
  "timer_running s \<longleftrightarrow> (\<exists>co. sysMain s = TimerRuns co)"

lemma handler_keeps_timers:
  assumes "timers_ok s" and "timers_kept (sysRunner s) d" and "timers_seg d seg"
  shows "timers_ok (settle_handler i c seg s)
    \<and> timers_kept (sysRunner s) (sysRunner (settle_handler i c seg s))"
  using assms by (cases seg) (auto simp: timers_ok_def settle_handler_def seg_ok_def
      split: co.splits dest!: set_AList_update set_AList_delete intro: timers_kept_trans)

lemma batch_keeps_timers:
  assumes "timers_ok s" and "timers_seg (sysRunner s) seg"
  shows "timers_ok (settle_main Batch AtTimers seg s)
    \<and> timers_kept (sysRunner s) (sysRunner (settle_main Batch AtTimers seg s))"
  using assms by (cases seg) (auto simp: timers_ok_def settle_main_def seg_ok_def
      split: co.splits intro: timers_kept_trans)

lemma callback_timers_ok: "timers_ok s \<Longrightarrow> timers_ok (settle_main TimerRuns Waiting seg s)"
  by (cases seg) (auto simp: timers_ok_def settle_main_def split: co.splits)

lemma step_timers:
  assumes "sys_step dk s s'" and "timers_ok s"
  shows "timers_ok s' \<and> (timers_kept (sysRunner s) (sysRunner s') \<or> calls_timer s s'
    \<or> timer_running s \<or> sysMain s = Finishing)"
  using assms(1)
proof (cases rule: sys_step.cases)
  case (update i args)
  with handler_keeps_timers [OF assms(2) _ waiting.handler_starts_ok(1)] show ?thesis by simp
next
  case (delete i)
  with handler_keeps_timers [OF assms(2) _ waiting.handler_starts_ok(2)] show ?thesis by simp
next
  case (dry_run i args)
  with handler_keeps_timers [OF assms(2) _ waiting.handleValidateSpec_ok] show ?thesis by simp
next
  case (grant i c k)
  have "timers_seg d (k DoneResponse d)" for d
    using assms(2) waiting.handler_continues_ok [OF _ grant(3)] by (simp add: timers_ok_def)
  with grant(1) handler_keeps_timers [OF assms(2), where d = "(sysRunner s)\<lparr>lockHeld := True\<rparr>"]
  show ?thesis by simp
next
  case (resume i c rq k r)
  have "timers_seg d (k r d)" for d
    using assms(2) waiting.handler_continues_ok [OF _ resume(3)] by (simp add: timers_ok_def)
  with resume(1) handler_keeps_timers [OF assms(2), where d = "sysRunner s"] show ?thesis by simp
next
  case batch
  with batch_keeps_timers [OF assms(2), of "task_add_batch (sysRunner s)"] show ?thesis
    by (simp add: task_add_batch_def waiting.task_add_batch_ok)
next
  case (resume_batch rq k r)
  then have "timers_seg (sysRunner s) (k r (sysRunner s))"
    using assms(2) by (simp add: timers_ok_def conforms_Await_iff)
  with resume_batch batch_keeps_timers [OF assms(2)] show ?thesis by simp
next
  case poll_timer
  then have "calls_timer s s'" by (simp add: calls_timer_def)
  with poll_timer(1) callback_timers_ok [OF assms(2)] show ?thesis by simp
next
  case (validation_timer n)
  then have "calls_timer s s'" unfolding calls_timer_def by blast
  with validation_timer(1) callback_timers_ok [OF assms(2)] show ?thesis by simp
next
  case (resume_timer rq k r)
  then show ?thesis using callback_timers_ok [OF assms(2)] by (simp add: timer_running_def)
qed (use assms(2) in \<open>simp_all add: timers_ok_def timers_kept_def\<close>)

lemma reachable_timers_ok: "reachable dk s \<Longrightarrow> timers_ok s"
proof (induction rule: reachable.induct)
  case (step s s')
  then show ?case using step_timers by blast
qed (simp add: timers_ok_def initial_system_def)


section \<open>A due timer waits for one batch\<close>

text \<open>The program points on the way to the timers.\<close>

inductive nears_timers :: "main_state \<Rightarrow> main_state \<Rightarrow> bool" where
  loop_wakes: "nears_timers Waiting AtTop"
| batch_starts: "nears_timers AtTop (Batch co)"
| batch_empty: "nears_timers AtTop AtTimers"
| batch_goes: "nears_timers (Batch (Await rq k)) (Batch (snd (k r d)))"
| batch_ends: "nears_timers (Batch co) AtTimers"

inductive_simps nears_timers_simps [simp]:
  "nears_timers AtTop m" "nears_timers (Batch (Await rq k)) m" "nears_timers (Batch (Return x)) m"
  "nears_timers (Batch (Panic e)) m" "nears_timers AtTimers m" "nears_timers (TimerRuns co) m"
  "nears_timers Waiting m" "nears_timers Finishing m"

lemma nears_timers_terminates: "Wellfounded.accp (\<lambda>m' m. nears_timers m m') m"
proof -
  have timers: "Wellfounded.accp (\<lambda>m' m. nears_timers m m') AtTimers"
    by (rule accpI) auto
  have batch: "Wellfounded.accp (\<lambda>m' m. nears_timers m m') (Batch co)" for co
  proof (induction co rule: co_induct)
    case (Await rq k)
    show ?case by (rule accpI) (auto intro: timers Await)
  qed (rule accpI, auto intro: timers)+
  have top: "Wellfounded.accp (\<lambda>m' m. nears_timers m m') AtTop"
    by (rule accpI) (auto intro: timers batch)
  have waiting: "Wellfounded.accp (\<lambda>m' m. nears_timers m m') Waiting"
    by (rule accpI) (auto intro: top)
  have timer: "Wellfounded.accp (\<lambda>m' m. nears_timers m m') (TimerRuns co)" for co
    by (rule accpI) auto
  have "Wellfounded.accp (\<lambda>m' m. nears_timers m m') Finishing"
    by (rule accpI) auto
  with top waiting timers batch timer show ?thesis by (cases m) auto
qed

text \<open>A timer is due, and neither is the end of the run nor the callback of the other timer.\<close>

definition timer_waits :: "system \<Rightarrow> bool" where
  "timer_waits s \<longleftrightarrow> timers_pending (sysRunner s) \<and> \<not> timer_running s \<and> sysMain s \<noteq> Finishing"

lemma callback_starts:
  assumes "sys_step dk s s'" and "timer_running s'"
  shows "timer_running s \<or> calls_timer s s'"
  using assms
proof (cases rule: sys_step.cases)
  case (validation_timer n)
  then have "calls_timer s s'" unfolding calls_timer_def by blast
  then show ?thesis ..
qed (auto simp: timer_running_def calls_timer_def settle_handler_main settle_main_def
    split: prod.splits co.splits)

lemma timer_waits_step:
  assumes "sys_step dk s s'" and "reachable dk s" and "timer_waits s" and "\<not> calls_timer s s'"
  shows "timer_waits s' \<or> sysMain s' = Finishing"
  using step_timers [OF assms(1) reachable_timers_ok [OF assms(2)]] callback_starts [OF assms(1)]
    assms(3,4) timers_kept_pending by (auto simp: timer_waits_def)

lemma timer_nears:
  assumes "sys_step dk s s'" and "timer_waits s" and "\<not> calls_timer s s'"
    and "\<not> shouldContinueAsNew (sysRunner s)"
  shows "sysMain s' = sysMain s \<or> nears_timers (sysMain s) (sysMain s')"
  using assms(1)
proof (cases rule: sys_step.cases)
  case batch
  have "sysMain s' = sysMain s \<or> (\<exists>co. sysMain s' = Batch co) \<or> sysMain s' = AtTimers"
    unfolding batch(1) by (simp add: settle_main_def split: prod.split co.split)
  with batch(3) show ?thesis by auto
next
  case (resume_batch rq k r)
  have "sysMain s' = sysMain s \<or> sysMain s' = Batch (snd (k r (sysRunner s))) \<or> sysMain s' = AtTimers"
    unfolding resume_batch(1) by (simp add: settle_main_def split: prod.split co.split)
  with resume_batch(3) nears_timers.batch_goes [of rq k r] nears_timers.batch_ends show ?thesis by metis
next
  case (validation_timer n)
  then have "calls_timer s s'" unfolding calls_timer_def by blast
  with assms(3) show ?thesis ..
qed (use assms in \<open>simp_all add: settle_handler_main timer_waits_def timer_running_def calls_timer_def\<close>)

text \<open>The loop begins a batch of signals.\<close>

definition begins_batch :: "system \<Rightarrow> system \<Rightarrow> bool" where
  "begins_batch s s' \<longleftrightarrow> sysMain s = AtTop \<and> ((\<exists>co. sysMain s' = Batch co) \<or> sysMain s' = AtTimers)"

lemma begins_batch_not_due:
  "sys_step dk s s' \<Longrightarrow> begins_batch s s' \<Longrightarrow> \<not> shouldContinueAsNew (sysRunner s)"
  by (cases rule: sys_step.cases) (auto simp: begins_batch_def settle_handler_main)

text \<open>Past the beginning of a batch.\<close>

definition past_top :: "main_state \<Rightarrow> bool" where
  "past_top m \<longleftrightarrow> (\<exists>co. m = Batch co) \<or> m = AtTimers"

lemma past_top_nears: "past_top m \<Longrightarrow> nears_timers m m' \<Longrightarrow> past_top m'"
  unfolding past_top_def by (auto elim: nears_timers.cases)

section \<open>An execution in which a timer is due\<close>

text \<open>Up to \<open>n\<close>, the loop is not leaving and no callback has been called.\<close>

definition waits_until :: "(nat \<Rightarrow> system) \<Rightarrow> nat \<Rightarrow> bool" where
  "waits_until run n \<longleftrightarrow> (\<forall>m<n. sysMain (run m) \<noteq> Finishing \<and> \<not> calls_timer (run m) (run (Suc m)))"

lemma waits_until_waits:
  assumes "execution dk run" and "timer_waits (run 0)" and "waits_until run n"
  shows "timer_waits (run n) \<or> sysMain (run n) = Finishing"
  using assms(3)
proof (induction n)
  case (Suc n)
  then have "timer_waits (run n)" "\<not> calls_timer (run n) (run (Suc n))"
    by (auto simp: waits_until_def less_Suc_eq)
  then show ?case
    using timer_waits_step [OF _ execution_reachable [where run = run, OF assms(1)], of n]
      execution_step [where run = run, OF assms(1), of n] by metis
qed (use assms(2) in simp)

lemma execution_nears:
  assumes "execution dk run" and "timer_waits (run k)" and "\<not> calls_timer (run k) (run (Suc k))"
    and "\<not> shouldContinueAsNew (sysRunner (run k))"
  shows "sysMain (run (Suc k)) = sysMain (run k) \<or> nears_timers (sysMain (run k)) (sysMain (run (Suc k)))"
  using execution_step [where run = run, OF assms(1), of k] timer_nears [OF _ assms(2-4)] by metis

text \<open>From the beginning of one batch on, no other begins.\<close>

lemma no_second_batch:
  assumes run: "execution dk run" "timer_waits (run 0)"
    and "waits_until run n" and "begins_batch (run j) (run (Suc j))"
    and "Suc j \<le> k" and "k < n"
  shows "\<not> begins_batch (run k) (run (Suc k))"
proof -
  note steps = execution_step [where run = run, OF run(1)]
  have "shouldContinueAsNew (sysRunner (run k)) \<or> past_top (sysMain (run k))"
    using assms(5,6)
  proof (induction k rule: dec_induct)
    case base
    then show ?case using assms(4) by (simp add: begins_batch_def past_top_def)
  next
    case (step k)
    have here: "sysMain (run k) \<noteq> Finishing" "\<not> calls_timer (run k) (run (Suc k))" "timer_waits (run k)"
      using assms(3) step.prems waits_until_waits [where run = run, OF run, of k] by (auto simp: waits_until_def)
    show ?case
    proof (cases "shouldContinueAsNew (sysRunner (run k))")
      case True
      then show ?thesis
        using steps [of k] ending_stays [OF _ execution_reachable [where run = run, OF run(1)] True here(1)]
        by metis
    next
      case False
      with step execution_nears [where run = run, OF run(1) here(3,2)] past_top_nears show ?thesis by fastforce
    qed
  qed
  then show ?thesis using begins_batch_not_due [of dk "run k" "run (Suc k)"] steps [of k]
    by (auto simp: begins_batch_def past_top_def)
qed

lemma timer_is_called:
  assumes run: "execution dk run" "timer_waits (run 0)" and fair: "fair_to_loop dk run"
  shows "\<exists>n. sysMain (run n) = Finishing \<or> stopped (run n) \<or> calls_timer (run n) (run (Suc n))"
proof (rule ccontr)
  assume "\<not> ?thesis"
  then have never: "sysMain (run n) \<noteq> Finishing" "\<not> stopped (run n)" "\<not> calls_timer (run n) (run (Suc n))"
    for n by auto
  then have until: "waits_until run n" for n by (simp add: waits_until_def)
  have waits: "timer_waits (run n)" for n
    using waits_until_waits [where run = run, OF run until] never(1) by blast
  have not_due: "\<not> shouldContinueAsNew (sysRunner (run n))" for n
    using due_loop_finishes [OF execution_from [where run = run, OF run(1)] fair_from [where run = run, OF fair],
        of n] never(1,2) by (metis add_0_right)
  have "loop_wakes (sysRunner (run n))" for n using waits by (simp add: timer_waits_def loop_wakes_def)
  with fair_moves [where run = run, OF run(1) fair never(2,1)]
  have moves: "\<exists>j\<ge>i. sysMain (run (Suc j)) \<noteq> sysMain (run j)" for i by blast
  have "sysMain (run (Suc i)) = sysMain (run i) \<or> nears_timers (sysMain (run i)) (sysMain (run (Suc i)))"
    for i using execution_nears [where run = run, OF run(1) waits never(3) not_due] .
  from moves_for_ever [of "\<lambda>i. sysMain (run i)", OF this moves nears_timers_terminates] show False .
qed

lemma at_most_one: "(\<And>j k. j \<in> A \<Longrightarrow> k \<in> A \<Longrightarrow> j < k \<Longrightarrow> False) \<Longrightarrow> card A \<le> (1 :: nat)" for A :: "nat set"
  by (metis One_nat_def card_le_Suc0_iff_eq card.infinite le0 linorder_neqE_nat)

text \<open>C11: A due timer is not starved.  However signals, handlers, answers and the environment are
  interleaved, once the poll timer or the validation timer is due (and the callback of neither is
  running) the callback of a due timer is called after the loop has begun at most one batch, of at
  most 100 signals; the only ways around it are that the run ends, after at most one batch too, or
  that the workflow is closed or has panicked.  The execution is only to be fair to the loop: a step
  that the loop could take all the time is taken; that a due timer ends the loop's wait is proved.\<close>

theorem due_timer_called:
  assumes "execution dk run" and "timer_waits (run 0)" and "fair_to_loop dk run"
  shows "\<exists>n. (sysMain (run n) = Finishing \<or> sysClosed (run n) \<or> sysPanic (run n) \<noteq> None
      \<or> calls_timer (run n) (run (Suc n)))
    \<and> card {j. j < n \<and> begins_batch (run j) (run (Suc j))} \<le> 1"
proof -
  define ends where "ends n \<longleftrightarrow> sysMain (run n) = Finishing \<or> stopped (run n)
    \<or> calls_timer (run n) (run (Suc n))" for n
  define n where "n = (LEAST n. ends n)"
  have "\<exists>n. ends n" unfolding ends_def using timer_is_called [where run = run, OF assms] .
  then have "ends n" unfolding n_def by (rule LeastI_ex)
  moreover have until: "waits_until run n"
    unfolding waits_until_def
  proof (intro allI impI)
    fix m assume "m < n"
    then have "\<not> ends m" unfolding n_def by (rule not_less_Least)
    then show "sysMain (run m) \<noteq> Finishing \<and> \<not> calls_timer (run m) (run (Suc m))"
      by (simp add: ends_def)
  qed
  have "\<not> begins_batch (run k) (run (Suc k))"
    if "begins_batch (run j) (run (Suc j))" "j < k" "k < n" for j k
    by (rule no_second_batch [where run = run, OF assms(1,2) until that(1) _ that(3)])
      (use that(2) in simp)
  then have "card {j. j < n \<and> begins_batch (run j) (run (Suc j))} \<le> 1"
    by (intro at_most_one) blast
  ultimately show ?thesis unfolding ends_def stopped_def by blast
qed

text \<open>A new instance without a specification, whose poll timer is called again and again.\<close>

definition polling :: "int \<Rightarrow> int \<Rightarrow> main_state \<Rightarrow> system" where
  "polling t due m = (initial_system (on_state (\<lambda>st. st\<lparr>NextPollTime := Some due\<rparr>)
     (new_runner\<lparr>currentTime := t, pollTimer := Some due\<rparr>)))\<lparr>sysMain := m\<rparr>"

lemma polling_frame [simp]:
  "sysMain (polling t due m) = m" "sysPanic (polling t due m) = None" "\<not> sysClosed (polling t due m)"
  "currentTime (sysRunner (polling t due m)) = t"
  "pollTimer (sysRunner (polling t due m)) = Some due"
  "\<not> shouldContinueAsNew (sysRunner (polling t due m))"
  "(polling t due m)\<lparr>sysMain := m'\<rparr> = polling t due m'"
  "(polling t due m)\<lparr>sysRunner := sysRunner (polling t' due' m0), sysMain := m'\<rparr> = polling t' due' m'"
  by (simp_all add: polling_def initial_system_def new_runner_eq on_state_def shouldContinueAsNew_def)

lemma polling_ready: "due \<le> t \<Longrightarrow> timers_pending (sysRunner (polling t due m))"
  by (simp add: timers_pending_def timer_ready_def)

lemma empty_batch:
  "0 < n \<Longrightarrow> PendingTaskAddSignals (RunState d) = [] \<Longrightarrow> taskAddSignalChannel d = [] \<Longrightarrow>
    processTaskAddBatch n k d = k d"
  by (cases n) (simp_all add: processNextQueuedTaskAddSignal_def)

lemma polling_begins: "sys_step sort (polling t due AtTop) (polling t due AtTimers)"
proof -
  have "task_add_batch (sysRunner (polling t due AtTop)) = (sysRunner (polling t due AtTop), Return ())"
    unfolding task_add_batch_def
    by (rule empty_batch) (simp_all add: polling_def initial_system_def new_runner_eq on_state_def)
  with sys_step.batch [of "polling t due AtTop" sort] show ?thesis
    by (simp add: settle_main_def)
qed

lemma polling_polls: "sys_step sort (polling t t AtTimers) (polling t (t + maxPollInterval) Waiting)"
proof -
  have "poll_timer_fired (sysRunner (polling t t AtTimers))
      = (sysRunner (polling t (t + maxPollInterval) Waiting), Return ())"
    by (simp add: poll_timer_fired_def pullStatsAndUpdate_def has_groups_def addStatsPullTimer_def
        polling_def initial_system_def new_runner_eq on_state_def)
  with sys_step.poll_timer [of "polling t t AtTimers" sort] show ?thesis
    by (simp add: settle_main_def timer_ready_def)
qed

lemma polling_passes:
  "t \<le> t' \<Longrightarrow> sys_step sort (polling t due m) (polling t' due m)"
  using sys_step.environment [where s = "polling t due m" and t = t' and b = True and c = False]
  by (simp add: polling_def initial_system_def new_runner_eq on_state_def)

definition polled_run :: "nat \<Rightarrow> system" where
  "polled_run i = (let t = maxPollInterval * (int (i div 4) + 1)
     in [polling t t AtTop, polling t t AtTimers, polling t (t + maxPollInterval) Waiting,
         polling (t + maxPollInterval) (t + maxPollInterval) Waiting] ! (i mod 4))"

lemma polled_run_starts: "reachable sort (polled_run 0)"
proof -
  have "reachable sort (polling 0 maxPollInterval AtTop)"
    using reachable.start [of sort sample_context "''t0''" minute CheckWorkerControllerEnabledVersion 0]
    by (simp add: polling_def initial_system_def on_state_def new_runner_eq flip: new_runner_def)
  from reachable.step [OF this polling_passes [of 0 maxPollInterval]] show ?thesis
    by (simp add: polled_run_def maxPollInterval_def)
qed

lemma polled_run_steps: "sys_step sort (polled_run i) (polled_run (Suc i))"
proof -
  have "i mod 4 < 4" by simp
  then consider "i mod 4 = 0" | "i mod 4 = 1" | "i mod 4 = 2" | "i mod 4 = 3" by linarith
  then show ?thesis
  proof cases
    case 4
    then have "Suc i div 4 = Suc (i div 4)" "Suc i mod 4 = 0" by presburger+
    with 4 sys_step.wake [of "polled_run i" sort] show ?thesis
      by (simp add: polled_run_def Let_def loop_wakes_def polling_ready algebra_simps)
  next
    case 1
    then have "Suc i div 4 = i div 4" "Suc i mod 4 = 1" by presburger+
    with 1 show ?thesis by (simp add: polled_run_def Let_def polling_begins)
  next
    case 2
    then have "Suc i div 4 = i div 4" "Suc i mod 4 = 2" by presburger+
    with 2 show ?thesis by (simp add: polled_run_def Let_def polling_polls)
  next
    case 3
    then have "Suc i div 4 = i div 4" "Suc i mod 4 = 3" by presburger+
    with 3 show ?thesis by (simp add: polled_run_def Let_def polling_passes maxPollInterval_def)
  qed
qed

theorem due_timer_called_witness: "\<exists>n. (sysMain (polled_run n) = Finishing
    \<or> sysClosed (polled_run n) \<or> sysPanic (polled_run n) \<noteq> None
    \<or> calls_timer (polled_run n) (polled_run (Suc n)))
  \<and> card {j. j < n \<and> begins_batch (polled_run j) (polled_run (Suc j))} \<le> 1"
proof (rule due_timer_called [where run = polled_run])
  show "execution sort polled_run"
    using polled_run_starts polled_run_steps by (simp add: execution_def)
  show "timer_waits (polled_run 0)"
    by (simp add: timer_waits_def polled_run_def polling_ready timer_running_def)
  have "\<exists>j\<ge>i. sysMain (polled_run (Suc j)) \<noteq> sysMain (polled_run j)" for i
    by (rule exI [of _ "4 * i"]) (simp add: polled_run_def Let_def)
  with polled_run_steps show "fair_to_loop sort polled_run" by (rule moving_is_fair)
qed

end
