(* ===== verification/Polling.thy ===== *)
theory Polling
  imports Timers
begin

text \<open>
  The poll timer over all runs.  Its callback takes it off, polls the metrics and arms it again for
  the time that the activity asks for; the deadline is kept in the state, so that the next run arms
  it for what remains.  What that gives: as long as the instance is not deleted, the next poll is
  armed for at most five minutes ahead, or the callback of the timer is running.
\<close>

section \<open>What a step does to the poll timer\<close>

definition poll_kept :: "runner \<Rightarrow> runner \<Rightarrow> bool" where
  "poll_kept d d' \<longleftrightarrow> pollTimer d' = pollTimer d \<and> NextPollTime (RunState d') = NextPollTime (RunState d)
     \<and> useTimerSelector d' = useTimerSelector d \<and> currentTime d \<le> currentTime d'
     \<and> (timersCancelled d \<longrightarrow> timersCancelled d')"

text \<open>The deadline in the state, and the timer, are for at most five minutes ahead.\<close>

definition poll_saved :: "runner \<Rightarrow> bool" where
  "poll_saved d \<longleftrightarrow> useTimerSelector d
     \<and> (\<exists>t. NextPollTime (RunState d) = Some t \<and> t \<le> currentTime d + maxPollInterval)"

definition poll_armed :: "runner \<Rightarrow> bool" where
  "poll_armed d \<longleftrightarrow> (\<exists>t. pollTimer d = Some t \<and> t \<le> currentTime d + maxPollInterval)"

definition rearmed :: "runner \<Rightarrow> runner \<Rightarrow> bool" where
  "rearmed d0 d \<longleftrightarrow> (poll_saved d0 \<longrightarrow> poll_saved d \<and> poll_armed d)"

lemma poll_kept_refl [simp]: "poll_kept d d"
  by (simp add: poll_kept_def)

lemma poll_kept_trans: "poll_kept d d' \<Longrightarrow> poll_kept d' d'' \<Longrightarrow> poll_kept d d''"
  by (simp add: poll_kept_def)

lemma poll_kept_on_state [simp]:
  "(\<And>s. NextPollTime (f s) = NextPollTime s) \<Longrightarrow> poll_kept d (on_state f d') = poll_kept d d'"
  by (simp add: poll_kept_def on_state_def)

lemma poll_kept_queue [simp]: "poll_kept d (queueTaskAddSignal req d') = poll_kept d d'"
  by (simp add: queueTaskAddSignal_def split: option.split)

lemma poll_kept_frame [simp]:
  "poll_kept d (d'\<lparr>lockHeld := b\<rparr>) = poll_kept d d'"
  "poll_kept d (d'\<lparr>taskAddSignalChannel := c\<rparr>) = poll_kept d d'"
  "poll_kept d (d'\<lparr>validationTimer := t\<rparr>) = poll_kept d d'"
  "poll_kept d (addPeriodicValidationTimer n d') = poll_kept d d'"
  "poll_kept d (released d') = poll_kept d d'"
  "poll_kept d d' \<Longrightarrow> poll_kept d (markDeleted d')"
  by (simp_all add: poll_kept_def released_def markDeleted_def addPeriodicValidationTimer_def)

lemma poll_kept_saved: "poll_kept d d' \<Longrightarrow> poll_saved d \<Longrightarrow> poll_saved d'"
  by (fastforce simp: poll_kept_def poll_saved_def)

lemma poll_kept_armed: "poll_kept d d' \<Longrightarrow> poll_armed d \<Longrightarrow> poll_armed d'"
  by (fastforce simp: poll_kept_def poll_armed_def)

lemma addStatsPullTimer_arms:
  assumes "n \<le> maxPollInterval" and "useTimerSelector d"
  shows "poll_saved (addStatsPullTimer n d)" "poll_armed (addStatsPullTimer n d)"
  using assms by (simp_all add: poll_saved_def poll_armed_def addStatsPullTimer_def on_state_def)

lemma rearms: "n \<le> maxPollInterval \<Longrightarrow> poll_kept d0 d \<Longrightarrow> rearmed d0 (addStatsPullTimer n d)"
  using addStatsPullTimer_arms [of n d] by (auto simp: rearmed_def poll_kept_def poll_saved_def)

abbreviation (input) poll_conforms :: "(runner \<Rightarrow> runner \<Rightarrow> bool) \<Rightarrow> 'r co \<Rightarrow> bool" where
  "poll_conforms \<equiv> conforms (\<lambda>d. True) (any_request poll_kept) poll_kept"

abbreviation (input) poll_seg :: "(runner \<Rightarrow> runner \<Rightarrow> bool) \<Rightarrow> runner \<Rightarrow> runner \<times> 'r co \<Rightarrow> bool" where
  "poll_seg \<equiv> seg_ok (\<lambda>d. True) (any_request poll_kept) poll_kept"

interpretation polling: task_adds "\<lambda>d. True" "any_request poll_kept" poll_kept
  by unfold_locales (auto simp: set_scaling_status_def set_validation_def pop_signal_def
      select_signal_def intro: poll_kept_trans split: list.split)

interpretation polling: validations "\<lambda>d. True" "any_request poll_kept" poll_kept
  by unfold_locales simp_all

interpretation polling: update_handlers "\<lambda>d. True" "any_request poll_kept" poll_kept dk
  "\<lambda>args u. True" for dk
  by unfold_locales (auto simp: set_token_and_spec_def)

interpretation rearming: guarantee "\<lambda>d. True" "any_request poll_kept" poll_kept rearmed
  by unfold_locales

section \<open>The callback of the poll timer\<close>

abbreviation rearm :: "int \<Rightarrow> unit segment" where
  "rearm next \<equiv> \<lambda>d. (addStatsPullTimer next d, Return ())"

lemma rearm_ok:
  "n \<le> maxPollInterval \<Longrightarrow> cont_ok (\<lambda>d. True) (any_request poll_kept) poll_kept rearmed (rearm n)"
  by (rule cont_okI) (simp add: rearms)

text \<open>It waits for the activity, or does what the activity asked for.\<close>

definition poll_runs :: "unit co \<Rightarrow> bool" where
  "poll_runs co \<longleftrightarrow> (\<exists>rq. co = Await (CallPullStats rq) (pull_done rearm)) \<or> poll_conforms rearmed co"

lemma answered_poll_soon:
  assumes "answers (CallPullStats rq) (PullResponse resp)"
  shows "NextPollSeconds resp * 1000000000 \<le> maxPollInterval"
  using assms
proof (cases rule: answers.cases)
  case (stats_pulled env)
  obtain spec where spec: "PullSpec rq = Some spec"
    using stats_pulled(1) by (auto simp: PullStats_def split: option.splits)
  show ?thesis
  proof (cases "envEnabled env")
    case True
    from pull_stats_sound [OF stats_pulled(1) spec True stats_pulled(2)] show ?thesis
      by (simp add: maxPollInterval_def)
  next
    case False
    with stats_pulled(1) spec show ?thesis
      by (auto simp: PullStats_def seconds_of_def maxPollInterval_def)
  qed
qed

lemma answered_poll_ok:
  assumes "answers (CallPullStats rq) r"
  shows "poll_seg rearmed d (pull_done rearm r d)"
proof -
  have again: "cont_ok (\<lambda>d. True) (any_request poll_kept) poll_kept rearmed (rearm n)"
    if "n \<le> maxPollInterval" for n using that by (rule rearm_ok)
  show ?thesis
  proof (cases "\<exists>resp. r = PullResponse resp")
    case True
    then obtain resp where resp: "r = PullResponse resp" by blast
    from answered_poll_soon assms have "NextPollSeconds resp * 1000000000 \<le> maxPollInterval"
      unfolding resp by blast
    from rearming.apply_status_then [OF rearming.handleActions_ok [OF again [OF this]], of d]
    show ?thesis by (simp add: resp pull_done_def)
  next
    case False
    with rearming.cont_start [OF again [OF order_refl], of d] show ?thesis
      by (auto simp: pull_done_def split: wf_response.split)
  qed
qed

lemma poll_begins:
  fixes d :: runner
  defines "d' \<equiv> d\<lparr>pollTimer := None\<rparr>"
  shows "poll_timer_fired d = (d', Return ()) \<and> timersCancelled d
    \<or> poll_timer_fired d = rearm maxPollInterval d'
    \<or> (\<exists>rq. poll_timer_fired d = (d', Await (CallPullStats rq) (pull_done rearm)))"
  by (auto simp: d'_def poll_timer_fired_def pullStatsAndUpdate_def Let_def)

section \<open>A run begins with the timer armed\<close>

lemma drain_poll_kept: "poll_kept d (drainTaskAddSignalChannelToQueue d)"
proof -
  have "poll_kept d (fold queueTaskAddSignal reqs d')" if "poll_kept d d'" for reqs d'
    using that by (induction reqs arbitrary: d') simp_all
  then show ?thesis by (simp add: drainTaskAddSignalChannelToQueue_def)
qed

lemma start_run_polls:
  assumes "useTimerSelector d"
    and "\<And>t. NextPollTime (RunState d) = Some t \<Longrightarrow> t \<le> currentTime d + maxPollInterval"
  shows "poll_saved (start_run stamp interval d) \<and> poll_armed (start_run stamp interval d)"
proof -
  define d1 where "d1 = on_state (init_state stamp (currentTime d)) d"
  have d1: "useTimerSelector d1" "NextPollTime (RunState d1) = NextPollTime (RunState d)"
    "currentTime d1 = currentTime d"
    using assms(1) by (simp_all add: d1_def on_state_def init_state_def)
  have "max 0 (t - currentTime d1) \<le> maxPollInterval" if "NextPollTime (RunState d1) = Some t" for t
    using assms(2) [of t] that d1 by (simp add: maxPollInterval_def)
  then have "poll_saved (arm_poll_timer d1) \<and> poll_armed (arm_poll_timer d1)"
    using d1(1) by (simp add: arm_poll_timer_def addStatsPullTimer_arms split: option.split)
  moreover have "poll_kept (arm_poll_timer d1) (start_run stamp interval d)"
    unfolding start_run_def Let_def d1_def [symmetric]
    using poll_kept_trans [OF _ drain_poll_kept] by auto
  ultimately show ?thesis using poll_kept_saved poll_kept_armed by blast
qed

lemma next_run_polls:
  assumes "poll_saved d"
  shows "poll_saved (next_run stamp interval version d) \<and> poll_armed (next_run stamp interval version d)"
proof -
  have "poll_saved (on_state carried_state (drainTaskAddSignalChannelToQueue d))"
    using poll_kept_saved [OF _ assms] drain_poll_kept [of d] by (simp add: carried_state_def)
  then show ?thesis unfolding next_run_def
    by (intro start_run_polls) (auto simp: poll_saved_def)
qed

lemma first_runner_polls:
  "poll_saved (first_runner ctx stamp interval version t)
    \<and> poll_armed (first_runner ctx stamp interval version t)"
  unfolding first_runner_def by (rule start_run_polls) simp_all

section \<open>Polling over all runs\<close>

definition poll_alive :: "runner \<Rightarrow> bool" where
  "poll_alive d \<longleftrightarrow> poll_armed d \<or> timersCancelled d"

lemma poll_kept_alive: "poll_kept d d' \<Longrightarrow> poll_alive d \<Longrightarrow> poll_alive d'"
  using poll_kept_armed by (auto simp: poll_alive_def poll_kept_def)

fun main_polls :: "runner \<Rightarrow> main_state \<Rightarrow> bool" where
  "main_polls d (Batch co) \<longleftrightarrow> poll_alive d \<and> poll_conforms poll_kept co"
| "main_polls d (TimerRuns co) \<longleftrightarrow> poll_alive d \<and> poll_conforms poll_kept co \<or> poll_runs co"
| "main_polls d _ \<longleftrightarrow> poll_alive d"

definition polling_ok :: "system \<Rightarrow> bool" where
  "polling_ok s \<longleftrightarrow> poll_saved (sysRunner s) \<and> main_polls (sysRunner s) (sysMain s)
     \<and> (\<forall>(i, h) \<in> set (sysHandlers s). poll_conforms poll_kept (HandlerCo h))"

lemma main_polls_kept: "main_polls d m \<Longrightarrow> poll_kept d d' \<Longrightarrow> main_polls d' m"
  by (cases m) (auto intro: poll_kept_alive)

lemma handler_polls:
  assumes "polling_ok s" and "poll_kept (sysRunner s) d" and "poll_seg poll_kept d seg"
  shows "polling_ok (settle_handler i c seg s)"
proof -
  obtain d' co where seg: "seg = (d', co)" by fastforce
  have "poll_kept (sysRunner s) d'"
    using assms(2,3) poll_kept_trans by (cases co) (auto simp: seg seg_ok_def)
  then show ?thesis
    using assms poll_kept_saved main_polls_kept
    by (auto simp: polling_ok_def settle_handler_def seg seg_ok_def split: co.split
        dest!: set_AList_update set_AList_delete)
qed

lemma main_segment_polls:
  assumes "polling_ok s" and "poll_seg poll_kept (sysRunner s) seg" and "poll_alive (sysRunner s)"
    and "running = Batch \<and> after = AtTimers \<or> running = TimerRuns \<and> after = Waiting"
  shows "polling_ok (settle_main running after seg s)"
proof -
  obtain d' co where seg: "seg = (d', co)" by fastforce
  have "poll_kept (sysRunner s) d'"
    using assms(2) by (cases co) (auto simp: seg seg_ok_def)
  then show ?thesis
    using assms poll_kept_saved poll_kept_alive main_polls_kept
    by (auto simp: polling_ok_def settle_main_def seg seg_ok_def split: co.split)
qed

lemma poll_segment_polls:
  assumes "polling_ok s" and "poll_seg rearmed (sysRunner s) seg"
    and "sysMain s = TimerRuns co" and "poll_runs co"
  shows "polling_ok (settle_main TimerRuns Waiting seg s)"
proof -
  obtain d' co' where seg: "seg = (d', co')" by fastforce
  show ?thesis
    using assms poll_kept_saved
    by (cases co') (auto simp: polling_ok_def settle_main_def seg seg_ok_def rearmed_def poll_runs_def
        poll_alive_def)
qed

lemma poll_timer_polls:
  assumes "polling_ok s" and "sysMain s = AtTimers"
  shows "polling_ok (settle_main TimerRuns Waiting (poll_timer_fired (sysRunner s)) s)"
proof -
  let ?d = "(sysRunner s)\<lparr>pollTimer := None\<rparr>"
  have saved: "poll_saved ?d" using assms(1) by (simp add: polling_ok_def poll_saved_def)
  consider "poll_timer_fired (sysRunner s) = (?d, Return ())" "timersCancelled (sysRunner s)"
    | "poll_timer_fired (sysRunner s) = rearm maxPollInterval ?d"
    | rq where "poll_timer_fired (sysRunner s) = (?d, Await (CallPullStats rq) (pull_done rearm))"
    using poll_begins [of "sysRunner s"] by blast
  then show ?thesis
  proof cases
    case 2
    have "poll_saved (addStatsPullTimer maxPollInterval ?d) \<and> poll_armed (addStatsPullTimer maxPollInterval ?d)"
      using saved addStatsPullTimer_arms [of maxPollInterval ?d] by (simp add: poll_saved_def)
    with 2 assms(1) show ?thesis by (simp add: polling_ok_def settle_main_def poll_alive_def)
  qed (use assms(1) saved in \<open>auto simp: polling_ok_def settle_main_def poll_alive_def poll_runs_def\<close>)
qed

lemma step_polls:
  assumes "sys_step dk s s'" and "polling_ok s"
  shows "polling_ok s'"
proof -
  note handler = handler_polls [OF assms(2)] and segment = main_segment_polls [OF assms(2)]
  have alive: "poll_alive (sysRunner s)" if "\<And>co. sysMain s \<noteq> TimerRuns co"
    using assms(2) that by (cases "sysMain s") (auto simp: polling_ok_def)
  from assms(1) show ?thesis
  proof (cases rule: sys_step.cases)
    case (environment t b c)
    have "poll_kept (sysRunner s) (sysRunner s')" "sysMain s' = sysMain s" "sysHandlers s' = sysHandlers s"
      using environment by (simp_all add: poll_kept_def)
    with assms(2) show ?thesis using poll_kept_saved main_polls_kept by (auto simp: polling_ok_def)
  next
    case (signal req)
    have "poll_kept (sysRunner s) (sysRunner s')" "sysMain s' = sysMain s" "sysHandlers s' = sysHandlers s"
      using signal by simp_all
    with assms(2) show ?thesis using poll_kept_saved main_polls_kept by (auto simp: polling_ok_def)
  next
    case (update i args)
    with handler [OF _ polling.handler_starts_ok(1)] show ?thesis by simp
  next
    case (delete i)
    with handler [OF _ polling.handler_starts_ok(2)] show ?thesis by simp
  next
    case (dry_run i args)
    with handler [OF _ polling.handleValidateSpec_ok] show ?thesis by simp
  next
    case (grant i c k)
    have "poll_seg poll_kept d (k DoneResponse d)" for d
      using assms(2) polling.handler_continues_ok [OF _ grant(3)] by (simp add: polling_ok_def)
    with grant(1) handler [where d = "(sysRunner s)\<lparr>lockHeld := True\<rparr>"] show ?thesis by simp
  next
    case (resume i c rq k r)
    have "poll_seg poll_kept d (k r d)" for d
      using assms(2) polling.handler_continues_ok [OF _ resume(3)] by (simp add: polling_ok_def)
    with resume(1) handler [where d = "sysRunner s"] show ?thesis by simp
  next
    case batch
    with segment [of "task_add_batch (sysRunner s)"] alive show ?thesis
      by (simp add: task_add_batch_def polling.task_add_batch_ok)
  next
    case (resume_batch rq k r)
    then have "poll_seg poll_kept (sysRunner s) (k r (sysRunner s))"
      using assms(2) by (simp add: polling_ok_def conforms_Await_iff)
    with resume_batch segment alive show ?thesis by simp
  next
    case poll_timer
    with poll_timer_polls [OF assms(2)] show ?thesis by simp
  next
    case (validation_timer n)
    with segment [of "validation_timer_fired n (sysRunner s)"] alive show ?thesis
      by (simp add: polling.validation_timer_ok)
  next
    case (resume_timer rq k r)
    from assms(2) resume_timer(3)
    consider "poll_alive (sysRunner s)" "poll_conforms poll_kept (Await rq k)" | "poll_runs (Await rq k)"
      by (auto simp: polling_ok_def)
    then show ?thesis
    proof cases
      case 1
      then have "poll_seg poll_kept (sysRunner s) (k r (sysRunner s))" by (simp add: conforms_Await_iff)
      with 1 resume_timer(1) segment show ?thesis by simp
    next
      case 2
      then have "poll_seg rearmed (sysRunner s) (k r (sysRunner s))"
        using answered_poll_ok resume_timer(4) by (auto simp: poll_runs_def conforms_Await_iff)
      from poll_segment_polls [OF assms(2) this resume_timer(3) 2] resume_timer(1) show ?thesis by simp
    qed
  next
    case (continue_as_new stamp interval version)
    with assms(2) next_run_polls show ?thesis by (simp add: polling_ok_def poll_alive_def)
  qed (use assms(2) alive in \<open>simp_all add: polling_ok_def\<close>)
qed

lemma reachable_polls: "reachable dk s \<Longrightarrow> polling_ok s"
proof (induction rule: reachable.induct)
  case (start ctx stamp interval version t)
  then show ?case using first_runner_polls by (simp add: polling_ok_def initial_system_def poll_alive_def)
next
  case (step s s')
  then show ?case using step_polls by blast
qed

text \<open>The timers are cancelled only by a deletion.\<close>

definition cancelled_by_deletion :: "runner \<Rightarrow> bool" where
  "cancelled_by_deletion d \<longleftrightarrow> (timersCancelled d \<longrightarrow> deleteInstance d)"

lemma cancelled_frame [simp]:
  "cancelled_by_deletion (on_state f d) = cancelled_by_deletion d"
  "cancelled_by_deletion (d\<lparr>pollTimer := t\<rparr>) = cancelled_by_deletion d"
  "cancelled_by_deletion (d\<lparr>validationTimer := t\<rparr>) = cancelled_by_deletion d"
  "cancelled_by_deletion (d\<lparr>taskAddSignalChannel := c\<rparr>) = cancelled_by_deletion d"
  "cancelled_by_deletion (d\<lparr>lockHeld := b\<rparr>) = cancelled_by_deletion d"
  "cancelled_by_deletion (d\<lparr>currentTime := n, enabledFlag := b, continueAsNewSuggested := c'\<rparr>) =
    cancelled_by_deletion d"
  "cancelled_by_deletion (released d) = cancelled_by_deletion d"
  "cancelled_by_deletion (markDeleted d)"
  "cancelled_by_deletion (queueTaskAddSignal req d) = cancelled_by_deletion d"
  by (simp_all add: cancelled_by_deletion_def on_state_def released_def markDeleted_def
      queueTaskAddSignal_def split: option.split)

lemma cancelled_start [simp]: "cancelled_by_deletion (start_run stamp interval d) = cancelled_by_deletion d"
proof -
  have "cancelled_by_deletion (fold queueTaskAddSignal reqs d') = cancelled_by_deletion d'" for reqs d'
    by (induction reqs arbitrary: d') simp_all
  then show ?thesis
    by (simp add: start_run_def Let_def arm_poll_timer_def addStatsPullTimer_def
        addPeriodicValidationTimer_def drainTaskAddSignalChannelToQueue_def split: option.split)
qed

lemma cancelled_runs [simp]:
  "cancelled_by_deletion (first_runner ctx stamp interval version t)"
  "cancelled_by_deletion (next_run stamp interval version d)"
  by (simp_all add: first_runner_def next_run_def) (simp_all add: cancelled_by_deletion_def)

interpretation cancelled: instance_invariant cancelled_by_deletion
  "any_request (keeps cancelled_by_deletion)" "keeps cancelled_by_deletion" dk "\<lambda>args u. True" for dk
  by unfold_locales (auto simp: keeps_def set_scaling_status_def set_validation_def pop_signal_def
      select_signal_def addStatsPullTimer_def addPeriodicValidationTimer_def set_token_and_spec_def
      split: list.split)

text \<open>C12: Polling never stops.  In every reachable state, over all runs and interleavings, whatever
  activities answer, the poll timer is armed for a moment at most five minutes ahead, or its callback
  is running (a poll is under way), or the instance is deleted and its timers are cancelled.  The
  deadline in the state, which the next run arms its timer for, is at most five minutes ahead too.\<close>

theorem polling_goes_on:
  assumes "reachable dk s"
  shows "((\<exists>t. pollTimer (sysRunner s) = Some t \<and> t \<le> currentTime (sysRunner s) + maxPollInterval)
      \<or> (\<exists>co. sysMain s = TimerRuns co \<and> poll_runs co)
      \<or> deleteInstance (sysRunner s) \<and> timersCancelled (sysRunner s))
    \<and> (\<exists>t. NextPollTime (RunState (sysRunner s)) = Some t
        \<and> t \<le> currentTime (sysRunner s) + maxPollInterval)"
proof -
  have ok: "polling_ok s" by (rule reachable_polls [OF assms])
  have "poll_armed (sysRunner s) \<or> timersCancelled (sysRunner s)
      \<or> (\<exists>co. sysMain s = TimerRuns co \<and> poll_runs co)"
    using ok by (cases "sysMain s") (auto simp: polling_ok_def poll_alive_def)
  with ok cancelled.reachable_invariant [OF assms] show ?thesis
    by (auto simp: polling_ok_def poll_armed_def poll_saved_def cancelled_by_deletion_def)
qed

theorem polling_goes_on_witness:
  "\<exists>t. NextPollTime (RunState (sysRunner (polled_run 0))) = Some t
    \<and> t \<le> currentTime (sysRunner (polled_run 0)) + maxPollInterval"
  using polling_goes_on [OF polled_run_starts] by blast

end
