(* ===== verification/Spec2Isabelle.thy ===== *)
theory Spec2Isabelle
  imports Listing Configuration Development Metrics Polling
begin

text \<open>
  A verification development of Temporal's auto-scaled workers (the Go code under \<open>src/wci\<close>).

  \<^bold>\<open>The program.\<close>  A worker controller instance is a long-running Temporal workflow, one per
  deployment version.  A \<^emph>\<open>client\<close> creates, changes, validates and deletes instances by updates of
  that workflow; the \<^emph>\<open>task hook\<close> of the matching service counts the tasks that are added and
  signals the instance.  The \<^emph>\<open>workflow\<close> keeps the specification (a map of scaling groups, each
  with a compute provider and a scaling algorithm) and the status of each algorithm, serves
  updates under a mutex, works through queued signals, polls metrics and revalidates by timers,
  and continues as new with its state.  What it may not do itself are \<^emph>\<open>activities\<close>: they ask the
  group's \<^emph>\<open>scaling algorithm\<close> (no-sync or rate-based) for actions, and carry actions out through
  the group's \<^emph>\<open>compute provider\<close>.

  \<^bold>\<open>Theories and code.\<close>  Paths are under \<open>src/wci\<close>.

  \<^item> \<open>Prelude\<close>, \<open>GoFloat\<close>, \<open>Strconv\<close>: Go maps, loops that stop at the first error, wrapped
    integers, IEEE floats of both widths, and the parsers and printers of numbers.
  \<^item> \<open>MapAccess\<close> (\<open>workflow/iface/map_access.go\<close>, \<open>status.go\<close>): readers and validators of untyped
    fields.
  \<^item> \<open>Spec\<close> (\<open>iface/spec.go\<close>), \<open>SpecUpdate\<close> (\<open>iface/spec_update.go\<close>): the specification, its
    validation, the group that serves a type of task queue, and updates with field masks.
  \<^item> \<open>Algorithm\<close> (\<open>scaling_algorithm/registry.go\<close>), \<open>NoSync\<close> (\<open>no_sync_match.go\<close>), \<open>RateBased\<close>
    (\<open>rate_based.go\<close>): the interface of an algorithm, and both algorithms.
  \<^item> \<open>Activities\<close> (\<open>workflow/activities.go\<close>, \<open>register_task_queues.go\<close>,
    \<open>scaling_metrics_snapshot.go\<close>, \<open>compute_provider/registry.go\<close>, \<open>errors.go\<close>).
  \<^item> \<open>Providers\<close>, \<open>Aws\<close>, \<open>Gcp\<close>, \<open>Registry\<close> (\<open>compute_provider/aws*.go\<close>, \<open>gcp*.go\<close>,
    \<open>test_*.go\<close>): the providers and their registration.  \<open>Development\<close> (\<open>k8s.go\<close>,
    \<open>subprocess.go\<close>): the providers for local development.
  \<^item> \<open>Metrics\<close> (\<open>metrics/metric_defs.go\<close>, \<open>workflow/metrics_recorders.go\<close>, the recorders of the
    activities): what is measured, as the emissions of each activity and recorder.
  \<^item> \<open>Runner\<close> (\<open>workflow/workflow.go\<close>): the state of the workflow and every handler, as a
    coroutine that awaits requests.  \<open>Guarantee\<close>: a program logic for these coroutines.
    \<open>Instance\<close>: the run loop and the handlers interleaved by a step relation (\<open>sys_step\<close>), with
    the responses the activities can give, and the chain of runs.  \<open>Legacy\<close>: the loop of runs that
    began before the timer selector, up to the runs of the current version that follow.  \<open>Atomic\<close>: mutual exclusion and
    the refinement to an object with atomic changes.  \<open>Scenarios\<close>: concrete reachable runs, and
    properties of the workflow.  \<open>Signals\<close>: the task-add signals as a queue over all runs.
    \<open>Requests\<close>: what the activities are asked for.  \<open>Progress\<close>: that the instance gets on.
    \<open>Timers\<close>: the timers under a load of signals.  \<open>Polling\<close>: the poll timer over all runs.
  \<^item> \<open>DryRun\<close> (\<open>workflow/validate_workflow.go\<close>): the workflow that validates the specification of
    a new instance.
  \<^item> \<open>Hook\<close> (\<open>client/hook.go\<close>, \<open>id.go\<close>) and \<open>Client\<close> (\<open>client/client.go\<close>,
    \<open>workflow_interaction.go\<close>, \<open>errors.go\<close>).  \<open>Listing\<close>: the client's list of the instances.
  \<^item> \<open>Configuration\<close> (\<open>client/config.go\<close>, \<open>client/fx.go\<close>, \<open>workercomponent/component.go\<close>): the
    settings, their defaults, and how the components are built from them.

  \<^bold>\<open>Interfaces.\<close>  \<open>scaling_algorithm\<close> is the contract of an algorithm, interpreted on no-sync and on
  rate-based; \<open>sound_registry\<close> and the activities rest on it alone.  \<open>event_timer\<close> and
  \<open>cooldown_timer\<close> give the spacing of events over a run for no-sync, the two cooldowns of
  rate-based and the hook.  \<open>provider_contract\<close> is the contract of a compute provider,
  interpreted on each of the eight.  \<open>guarantee\<close> and the locales that extend it (\<open>lock_free\<close>,
  \<open>task_adds\<close>, \<open>validations\<close>, \<open>run_loop\<close>, \<open>handlers\<close>, \<open>update_handlers\<close>, \<open>instance_invariant\<close>,
  \<open>legacy_invariant\<close>, \<open>instance_steps\<close>, \<open>instance_guarantee\<close>) reduce a
  property of all interleavings, of the states and of the requests that are made, to laws on
  single assignments; they are interpreted for the bounded queue, the validity of the stored
  specification, deletion, the mutex, the signals, the requests, the end of a run, the timers and
  the origin of an instance.  \<open>deterministic_keys\<close> is what is
  used of \<open>workflow.DeterministicKeys\<close>, and \<open>tagged_metrics\<close> what is used of the SDK's handlers of
  metrics.

  \<^bold>\<open>What is shown.\<close>
  \<^item> Specification: \<open>Validate\<close> decides a declarative contract; the serving group is the one the
    README's order of precedence names; updates act group by group and keep what they do not
    name; the dry run accepts what the first update would where no group carries a mask, and
    refuses a mask, which the update ignores.
  \<^item> Algorithms: over any run, every size that is commanded or stored lies between 0 and the
    maximum; resizes and invocations keep their cooldowns as long as the group stays active (a
    registration is outside of them); no size that was not commanded is
    remembered; what a suppression rests on; a drain rate that is no number stops the scaling; and
    valid configurations survive the conversions.
  \<^item> Activities: after validation every action can be carried out, also under a default algorithm
    (\<open>Registry\<close>, over the providers and algorithms of a release); a poll, a signal and a
    registration change and address only the groups they should.
  \<^item> Workflow: the interleaved handlers refine atomic changes, the stored specification stays
    valid, deletion is final while the loop runs, the queue of signals is bounded in runs of the
    current version, signals are
    handed over in order and none is lost while there is room, an upgrade of the version included, every request rests on the stored
    specification, the instance is never stuck, a run that is due to end ends, a due timer waits for
    at most one batch of signals, and the next poll is never more than five minutes ahead (liveness is shown of executions with
    stutters that are fair to the loop: while a step of the loop is possible, one is taken in the
    end; that a step is possible is proved from what the loop waits for); and two errors
    (an acknowledged deletion that is lost, a write to a nil map) as reachable states.
  \<^item> Hook and client: matches are conserved and signals spaced; what the client reports as done
    was done; how each error of the workflow reaches the caller; when the wait for a dry run ends;
    the list names every instance that has a memo with its version and its time of creation, and
    one that has none with the version its id gives, which is right unless a name holds a colon.
  \<^item> Providers: required external ids are enforced, failures are blamed on the right side, when
    an invocation counts, through which identities a resize acts, the registries fit together,
    and what a subprocess is started with, its duration exact to the nanosecond.
  \<^item> Configuration: where nothing is configured, every component is off.
  \<^item> Metrics: the tags of a metric never vary, and every activity is counted once, as what it was.

  \<^bold>\<open>Bounds and loops.\<close>  No definition uses fuel.  Loops over maps and lists are structural; the
  wait for a dry run, which may go on for ever, is a \<open>partial_function (option)\<close> whose theorem says
  exactly when it returns.  Integers are wrapped at their width where they are computed; floats
  are rounded rationals with infinities and NaN.

  \<^bold>\<open>Parameters.\<close>  Code outside the repository is an argument: the Temporal server, the retry
  utility and payload conversion (\<open>client_env\<close>), the describe calls, the clock and dynamic
  configuration (\<open>activity_env\<close>), the cloud SDKs and their randomness (\<open>aws_sdk\<close>, \<open>gcp_sdk\<close>), the
  responses of activities and the scheduling of coroutines (\<open>sys_step\<close>), the order of map
  iteration (the order of the association list, or \<open>dk\<close>).

  \<^bold>\<open>Not modelled.\<close>  Logs, the metrics of the task hook and the test hook of the metrics poll, which
  do not change the state; the cancellation of the whole workflow by the server; dependency
  injection and the start of the service, which only call the server's library; the simulators of
  the documentation.
\<close>

end
